(* ===== verification/Prelude.thy ===== *)
theory Prelude
  imports Main "HOL-Library.Char_ord" "HOL-Library.List_Lexorder"
begin

text \<open>
  Vocabulary shared by every component: C++ exceptions as values, the result and the
  state-with-exceptions monads the model threads, the \<open>std::min\<close> / \<open>std::max\<close> /
  \<open>std::clamp\<close> templates on any type with a \<open><\<close>, and the list and string lemmas the
  components share. The collection \<open>run_simps\<close> unfolds the monads in the component proofs.
\<close>

named_theorems run_simps \<open>unfolds the monad operations\<close>
named_theorems std_simps \<open>unfolds the C++ standard templates\<close>

section \<open>Exceptions\<close>

text \<open>
  One constructor per exception class the program throws or lets through. The string is the
  message, \<open>StorageError\<close> keeps the SQLite result code, as the class does; \<open>HResultError\<close> is a
  \<open>winrt::hresult_error\<close>, which is not a \<open>std::exception\<close>. \<open>NullHandle\<close> is no exception: it marks a
  call through an empty WinRT handle, which ends the process; nor is \<open>Diverges\<close>, the value of a loop
  that does not end.
\<close>

datatype error =
    InvalidArgument string
  | RuntimeError string
  | LogicError string
  | StorageError int
  | HResultError
  | OutOfRange
  | NullHandle
  | Diverges

type_synonym 'a result = "error + 'a"

definition is_ok :: "'e + 'a \<Rightarrow> bool" where
  "is_ok r = (case r of Inl _ \<Rightarrow> False | Inr _ \<Rightarrow> True)"

lemma is_ok_simps [simp]: "is_ok (Inr x)" "\<not> is_ok (Inl e)"
  by (simp_all add: is_ok_def)

lemma is_ok_iff: "is_ok r \<longleftrightarrow> (\<exists>x. r = Inr x)"
  by (cases r) simp_all

definition bind_result :: "'e + 'a \<Rightarrow> ('a \<Rightarrow> 'e + 'b) \<Rightarrow> 'e + 'b" where
  "bind_result r f = (case r of Inl e \<Rightarrow> Inl e | Inr x \<Rightarrow> f x)"

definition require :: "bool \<Rightarrow> 'e \<Rightarrow> 'e + unit" where
  "require b e = (if b then Inr () else Inl e)"

lemma bind_result_simps [simp]:
  "bind_result (Inl e) f = Inl e"
  "bind_result (Inr x) f = f x"
  by (simp_all add: bind_result_def)

lemma bind_result_Inr_iff [simp]:
  "bind_result r f = Inr y \<longleftrightarrow> (\<exists>x. r = Inr x \<and> f x = Inr y)"
  by (cases r) simp_all

lemma bind_result_Inl_iff:
  "bind_result r f = Inl e \<longleftrightarrow> r = Inl e \<or> (\<exists>x. r = Inr x \<and> f x = Inl e)"
  by (cases r) simp_all

lemma require_iff [simp]: "require b e = Inr u \<longleftrightarrow> b" "require b e = Inl e' \<longleftrightarrow> \<not> b \<and> e' = e"
  by (auto simp: require_def)

text \<open>A loop that runs a fallible body over a list and stops at the first exception.\<close>

fun mapM :: "('a \<Rightarrow> 'e + 'b) \<Rightarrow> 'a list \<Rightarrow> 'e + 'b list" where
  "mapM f [] = Inr []"
| "mapM f (x # xs) = bind_result (f x) (\<lambda>y. bind_result (mapM f xs) (\<lambda>ys. Inr (y # ys)))"

lemma mapM_Inr_iff: "mapM f xs = Inr ys \<longleftrightarrow> list_all2 (\<lambda>x y. f x = Inr y) xs ys"
proof (induction xs arbitrary: ys)
  case Nil
  show ?case by auto
next
  case (Cons x xs)
  then show ?case by (cases ys) auto
qed

lemma mapM_length: "mapM f xs = Inr ys \<Longrightarrow> length ys = length xs"
  by (simp add: mapM_Inr_iff list_all2_lengthD)

lemma mapM_in: "mapM f xs = Inr ys \<Longrightarrow> y \<in> set ys \<Longrightarrow> \<exists>x \<in> set xs. f x = Inr y"
  by (induction xs arbitrary: ys) auto

section \<open>State with exceptions\<close>

text \<open>
  A member function that mutates its object and may throw: the state it leaves behind is part
  of the result whether it returns or throws, as it is in C++.
\<close>

type_synonym ('s, 'a) run = "'s \<Rightarrow> (error + 'a) \<times> 's"

definition ret :: "'a \<Rightarrow> ('s, 'a) run" where
  "ret x s = (Inr x, s)"

definition throw :: "error \<Rightarrow> ('s, 'a) run" where
  "throw e s = (Inl e, s)"

definition get_state :: "('s, 's) run" where
  "get_state s = (Inr s, s)"

definition modify :: "('s \<Rightarrow> 's) \<Rightarrow> ('s, unit) run" where
  "modify f s = (Inr (), f s)"

definition andThen :: "('s, 'a) run \<Rightarrow> ('a \<Rightarrow> ('s, 'b) run) \<Rightarrow> ('s, 'b) run" where
  "andThen m f s = (case m s of (Inl e, s') \<Rightarrow> (Inl e, s') | (Inr x, s') \<Rightarrow> f x s')"

definition lift_result :: "error + 'a \<Rightarrow> ('s, 'a) run" where
  "lift_result r s = (r, s)"

fun forM :: "('a \<Rightarrow> ('s, unit) run) \<Rightarrow> 'a list \<Rightarrow> ('s, unit) run" where
  "forM f [] = ret ()"
| "forM f (x # xs) = andThen (f x) (\<lambda>_. forM f xs)"

declare ret_def [run_simps] throw_def [run_simps] get_state_def [run_simps]
  modify_def [run_simps] andThen_def [run_simps] lift_result_def [run_simps]

lemma andThen_Inr_iff:
  "andThen m f s = (Inr y, s') \<longleftrightarrow> (\<exists>x t. m s = (Inr x, t) \<and> f x t = (Inr y, s'))"
  by (auto simp: andThen_def split: prod.splits sum.splits)

lemma andThen_returned: "m s = (Inr x, t) \<Longrightarrow> andThen m f s = f x t"
  by (simp add: andThen_def)

lemma andThen_thrown: "m s = (Inl e, t) \<Longrightarrow> andThen m f s = (Inl e, t)"
  by (simp add: andThen_def)

section \<open>Standard templates\<close>

definition std_max :: "'a::ord \<Rightarrow> 'a \<Rightarrow> 'a" where
  "std_max a b = (if a < b then b else a)"

definition std_min :: "'a::ord \<Rightarrow> 'a \<Rightarrow> 'a" where
  "std_min a b = (if b < a then b else a)"

definition std_clamp :: "'a::ord \<Rightarrow> 'a \<Rightarrow> 'a \<Rightarrow> 'a" where
  "std_clamp v lo hi = (if v < lo then lo else if hi < v then hi else v)"

declare std_max_def [std_simps] std_min_def [std_simps] std_clamp_def [std_simps]

lemma std_max_linorder [simp]: "std_max a b = max a (b :: 'a::linorder)"
  by (auto simp: std_max_def max_def)

lemma std_min_linorder [simp]: "std_min a b = min a (b :: 'a::linorder)"
  by (auto simp: std_min_def min_def)

lemma std_clamp_bounds:
  "lo \<le> hi \<Longrightarrow> lo \<le> std_clamp v lo hi \<and> std_clamp v lo hi \<le> (hi :: 'a::linorder)"
  by (auto simp: std_clamp_def)

section \<open>Strings\<close>

text \<open>
  \<open>std::string\<close> is a list of bytes. \<open>std::string::find_first_of("\r\n\0", 0, 3)\<close> looks for
  one of the three bytes; \<open>find_first_not_of(digits)\<close> for a byte outside the set.
\<close>

definition contains_any :: "char list \<Rightarrow> string \<Rightarrow> bool" where
  "contains_any bad s = list_ex (\<lambda>c. c \<in> set bad) s"

definition only_from :: "char list \<Rightarrow> string \<Rightarrow> bool" where
  "only_from good s = list_all (\<lambda>c. c \<in> set good) s"

definition line_breaks_and_nul :: "char list" where
  "line_breaks_and_nul = [CHR 0x0D, CHR 0x0A, CHR 0x00]"

definition decimal_digits :: "char list" where
  "decimal_digits = ''0123456789''"

definition byte_of :: "char \<Rightarrow> nat" where
  "byte_of c = of_char c"

lemma contains_any_iff: "contains_any bad s \<longleftrightarrow> set s \<inter> set bad \<noteq> {}"
  by (auto simp: contains_any_def list_ex_iff)

lemma only_from_iff: "only_from good s \<longleftrightarrow> set s \<subseteq> set good"
  by (auto simp: only_from_def list_all_iff)

text \<open>Decimal text of an unsigned integer (\<open>std::to_string\<close>) and \<open>std::stoll\<close> on digits.\<close>

definition digit_char :: "nat \<Rightarrow> char" where
  "digit_char d = char_of (48 + d)"

definition digit_value :: "char \<Rightarrow> nat" where
  "digit_value c = byte_of c - 48"

fun decimal :: "nat \<Rightarrow> string" where
  "decimal n = (if n < 10 then [digit_char n] else decimal (n div 10) @ [digit_char (n mod 10)])"

declare decimal.simps [simp del]

definition decimal_value :: "string \<Rightarrow> nat" where
  "decimal_value s = foldl (\<lambda>acc c. 10 * acc + digit_value c) 0 s"

lemma digit_value_char [simp]: "d < 10 \<Longrightarrow> digit_value (digit_char d) = d"
  by (simp add: digit_value_def digit_char_def byte_of_def)

lemma decimal_nonempty [simp]: "decimal n \<noteq> []"
  by (subst decimal.simps) simp

lemma decimal_value_snoc: "decimal_value (s @ [c]) = 10 * decimal_value s + digit_value c"
  by (simp add: decimal_value_def)

lemma decimal_value_decimal [simp]: "decimal_value (decimal n) = n"
proof (induction n rule: decimal.induct)
  case (1 n)
  show ?case
  proof (cases "n < 10")
    case True
    then show ?thesis by (subst decimal.simps) (simp add: decimal_value_def)
  next
    case False
    with "1.IH" show ?thesis
      by (subst decimal.simps) (simp add: decimal_value_snoc)
  qed
qed

lemma decimal_value_bound: "decimal_value s < 10 ^ length s \<or> \<not> only_from decimal_digits s"
proof (induction s rule: rev_induct)
  case Nil
  show ?case by (simp add: decimal_value_def)
next
  case (snoc c s)
  show ?case
  proof (cases "only_from decimal_digits (s @ [c])")
    case True
    then have s: "only_from decimal_digits s" and c: "c \<in> set decimal_digits"
      by (auto simp: only_from_iff)
    from c have "digit_value c \<le> 9"
      by (auto simp: decimal_digits_def digit_value_def byte_of_def)
    moreover from s snoc.IH have "decimal_value s < 10 ^ length s" by blast
    ultimately show ?thesis by (simp add: decimal_value_snoc)
  next
    case False
    then show ?thesis by blast
  qed
qed

section \<open>Lists\<close>

lemma find_snoc [simp]:
  "find P (xs @ [x]) = (case find P xs of None \<Rightarrow> (if P x then Some x else None) | Some y \<Rightarrow> Some y)"
  by (induction xs) simp_all

lemma find_SomeD: "find P xs = Some x \<Longrightarrow> P x \<and> x \<in> set xs"
  by (induction xs) (auto split: if_splits)

lemma find_None_iff_all: "find P xs = None \<longleftrightarrow> (\<forall>x \<in> set xs. \<not> P x)"
  by (auto simp: find_None_iff)

lemma find_key_distinct:
  "distinct (map f xs) \<Longrightarrow> find (\<lambda>x. f x = k) xs = Some y \<longleftrightarrow> y \<in> set xs \<and> f y = k"
  by (induction xs) (auto simp: image_iff)

lemma map_filter_idem: "(\<And>x. x \<in> set xs \<Longrightarrow> P x) \<Longrightarrow> filter P xs = xs"
  by (induction xs) auto

lemma filter_remove_absent:
  "k \<notin> f ` set xs \<Longrightarrow> filter (\<lambda>x. f x \<noteq> k) xs = xs"
  by (auto intro: map_filter_idem)

end
