(* ===== verification/Floats.thy ===== *)
theory Floats
  imports Prelude Complex_Main
begin

text \<open>
  IEEE-754 binary32 and binary64 arithmetic, as the C++ \<open>float\<close> and \<open>double\<close> of the
  program compute it: round to nearest, ties to even, gradual underflow, overflow to infinity,
  NaN. A finite value is the rational it denotes, so every definition computes. The two zeros
  are one value; the program never inspects the sign of a zero, and a division by zero is read
  as a division by +0 (the only zero divisors it can meet are sums of squares).

  \<open>round_rat\<close> is the rounding function; its lemmas (monotone, exact on representable values,
  odd) are what the proofs about float code use.
\<close>

section \<open>Powers of two and binary logarithms of rationals\<close>

definition pow2 :: "int \<Rightarrow> rat" where
  "pow2 e = (if 0 \<le> e then of_int (2 ^ nat e) else 1 / of_int (2 ^ nat (- e)))"

lemma pow2_powi: "pow2 e = 2 powi e"
  by (simp add: pow2_def power_int_def field_simps)

lemma pow2_pos [simp]: "0 < pow2 e"
  by (simp add: pow2_powi)

lemma pow2_nonzero [simp]: "pow2 e \<noteq> 0"
  using pow2_pos [of e] by linarith

lemma pow2_nonneg [simp]: "0 \<le> pow2 e"
  using pow2_pos [of e] by linarith

lemma pow2_add: "pow2 (a + b) = pow2 a * pow2 b"
  by (simp add: pow2_powi power_int_add)

lemma pow2_diff: "pow2 (a - b) = pow2 a / pow2 b"
  by (simp add: pow2_powi power_int_diff)

lemma pow2_mono: "a \<le> b \<Longrightarrow> pow2 a \<le> pow2 b"
  by (simp add: pow2_powi power_int_increasing)

lemma pow2_less_iff: "pow2 a < pow2 b \<longleftrightarrow> a < b"
proof
  assume "pow2 a < pow2 b"
  then show "a < b" using pow2_mono [of b a] by linarith
next
  assume "a < b"
  then have "pow2 a < pow2 a * pow2 1" by (simp add: pow2_def)
  also have "\<dots> = pow2 (a + 1)" by (simp add: pow2_add)
  also have "\<dots> \<le> pow2 b" using \<open>a < b\<close> by (simp add: pow2_mono)
  finally show "pow2 a < pow2 b" .
qed

lemma pow2_le_iff: "pow2 a \<le> pow2 b \<longleftrightarrow> a \<le> b"
  using pow2_less_iff [of b a] by linarith

lemma pow2_int: "0 \<le> e \<Longrightarrow> pow2 e = of_int (2 ^ nat e)"
  by (simp add: pow2_def)

lemma pow2_quotient_int:
  assumes "e \<le> b"
  shows "\<exists>k. pow2 b / pow2 e = of_int k"
  using assms pow2_int [of "b - e"] by (auto simp: pow2_diff [symmetric])

text \<open>Floor of the binary logarithm of a positive integer, by halving.\<close>

function zlog2 :: "int \<Rightarrow> int" where
  "zlog2 n = (if n < 2 then 0 else 1 + zlog2 (n div 2))"
  by pat_completeness auto
termination
  by (relation "measure nat") auto

declare zlog2.simps [simp del]

lemma zlog2_nonneg [simp]: "0 \<le> zlog2 n"
proof (induction n rule: zlog2.induct)
  case (1 n)
  then show ?case by (subst zlog2.simps) auto
qed

lemma zlog2_bounds: "0 < n \<Longrightarrow> 2 ^ nat (zlog2 n) \<le> n \<and> n < 2 ^ nat (zlog2 n + 1)"
proof (induction n rule: zlog2.induct)
  case (1 n)
  show ?case
  proof (cases "n < 2")
    case True
    with "1.prems" show ?thesis by (simp add: zlog2.simps [of n])
  next
    case False
    define k where "k = zlog2 (n div 2)"
    have k: "0 \<le> k" by (simp add: k_def)
    have eq: "zlog2 n = 1 + k" using False by (simp add: zlog2.simps [of n] k_def)
    from False "1.IH" have "2 ^ nat k \<le> n div 2" "n div 2 < 2 ^ nat (k + 1)"
      by (simp_all add: k_def)
    moreover have "nat (1 + k) = Suc (nat k)" "nat (1 + k + 1) = Suc (nat (k + 1))"
      using k by simp_all
    ultimately show ?thesis unfolding eq by simp linarith
  qed
qed

text \<open>
  \<open>ilog2 q\<close> is the exponent \<open>e\<close> with \<open>2 ^ e \<le> q < 2 ^ (e + 1)\<close>, for a positive rational.
\<close>

definition ilog2 :: "rat \<Rightarrow> int" where
  "ilog2 q =
     (if 1 \<le> q then zlog2 \<lfloor>q\<rfloor>
      else let k = zlog2 \<lfloor>1 / q\<rfloor> in if 1 / q = pow2 k then - k else - k - 1)"

lemma ilog2_ge_1:
  assumes "1 \<le> q"
  shows "pow2 (zlog2 \<lfloor>q\<rfloor>) \<le> q \<and> q < pow2 (zlog2 \<lfloor>q\<rfloor> + 1)"
proof -
  have n: "0 < \<lfloor>q\<rfloor>" using assms by simp
  have lo: "of_int \<lfloor>q\<rfloor> \<le> q" and hi: "q < of_int (\<lfloor>q\<rfloor> + 1)"
    using of_int_floor_le [of q] floor_correct [of q] by auto
  from zlog2_bounds [OF n] have "2 ^ nat (zlog2 \<lfloor>q\<rfloor>) \<le> \<lfloor>q\<rfloor>" "\<lfloor>q\<rfloor> + 1 \<le> 2 ^ nat (zlog2 \<lfloor>q\<rfloor> + 1)"
    by auto
  then have "(of_int (2 ^ nat (zlog2 \<lfloor>q\<rfloor>)) :: rat) \<le> of_int \<lfloor>q\<rfloor>"
    "(of_int (\<lfloor>q\<rfloor> + 1) :: rat) \<le> of_int (2 ^ nat (zlog2 \<lfloor>q\<rfloor> + 1))"
    by (simp_all only: of_int_le_iff)
  moreover have "pow2 (zlog2 \<lfloor>q\<rfloor>) = of_int (2 ^ nat (zlog2 \<lfloor>q\<rfloor>))"
    "pow2 (zlog2 \<lfloor>q\<rfloor> + 1) = of_int (2 ^ nat (zlog2 \<lfloor>q\<rfloor> + 1))"
    by (rule pow2_int, simp)+
  ultimately show ?thesis using lo hi by linarith
qed

lemma ilog2_bounds:
  assumes "0 < q"
  shows "pow2 (ilog2 q) \<le> q \<and> q < pow2 (ilog2 q + 1)"
proof (cases "1 \<le> q")
  case True
  then show ?thesis using ilog2_ge_1 [OF True] by (simp add: ilog2_def)
next
  case False
  define k where "k = zlog2 \<lfloor>1 / q\<rfloor>"
  from False assms have "1 \<le> 1 / q" by simp
  from ilog2_ge_1 [OF this] have b: "pow2 k \<le> 1 / q" "1 / q < pow2 (k + 1)"
    by (simp_all add: k_def)
  have neg: "pow2 (- j) = 1 / pow2 j" for j using pow2_diff [of 0 j] by (simp add: pow2_def)
  show ?thesis
  proof (cases "1 / q = pow2 k")
    case True
    then have "q = pow2 (- k)" using assms by (simp add: neg field_simps)
    moreover have "ilog2 q = - k"
      using True False unfolding ilog2_def k_def [symmetric] by simp
    ultimately show ?thesis by (simp add: pow2_less_iff)
  next
    case neq: False
    with b have "pow2 k < 1 / q" by simp
    then have "q < 1 / pow2 k" "1 / pow2 (k + 1) \<le> q"
      using assms b(2) by (simp_all add: field_simps)
    then have "q < pow2 (- (k + 1) + 1)" "pow2 (- (k + 1)) \<le> q"
      using neg [of k] neg [of "k + 1"] by simp_all
    moreover have "ilog2 q = - (k + 1)"
      using neq False unfolding ilog2_def k_def [symmetric] by simp
    ultimately show ?thesis by metis
  qed
qed

lemma ilog2_less: "0 < q \<Longrightarrow> q < pow2 e \<Longrightarrow> ilog2 q < e"
  using ilog2_bounds [of q] pow2_less_iff [of "ilog2 q" e] by linarith

lemma ilog2_pow2_le: "pow2 e \<le> q \<Longrightarrow> e \<le> ilog2 q"
proof -
  assume le: "pow2 e \<le> q"
  then have "0 < q" using pow2_pos [of e] by linarith
  then have "q < pow2 (ilog2 q + 1)" using ilog2_bounds by blast
  with le have "pow2 e < pow2 (ilog2 q + 1)" by linarith
  then show ?thesis by (simp add: pow2_less_iff)
qed

lemma ilog2_mono: "0 < p \<Longrightarrow> p \<le> q \<Longrightarrow> ilog2 p \<le> ilog2 q"
proof -
  assume "0 < p" "p \<le> q"
  then have "pow2 (ilog2 p) \<le> q" using ilog2_bounds [of p] by linarith
  then show ?thesis by (rule ilog2_pow2_le)
qed

section \<open>Rounding\<close>

text \<open>Nearest integer, ties to the even one.\<close>

definition nearest_even :: "rat \<Rightarrow> int" where
  "nearest_even x =
     (let f = \<lfloor>x\<rfloor>; d = x - of_int f
      in if d < 1 / 2 then f else if 1 / 2 < d then f + 1 else if even f then f else f + 1)"

lemma nearest_even_of_int [simp]: "nearest_even (of_int n) = n"
  by (simp add: nearest_even_def)

lemma nearest_even_cases:
  "nearest_even x = \<lfloor>x\<rfloor> \<or> nearest_even x = \<lfloor>x\<rfloor> + 1"
  by (simp add: nearest_even_def Let_def)

lemma nearest_even_mono:
  assumes "x \<le> y"
  shows "nearest_even x \<le> nearest_even y"
proof (cases "\<lfloor>x\<rfloor> = \<lfloor>y\<rfloor>")
  case True
  with assms show ?thesis by (simp add: nearest_even_def Let_def)
next
  case False
  with assms have "\<lfloor>x\<rfloor> + 1 \<le> \<lfloor>y\<rfloor>"
    using floor_mono [OF assms] by linarith
  then show ?thesis using nearest_even_cases [of x] nearest_even_cases [of y] by linarith
qed

lemma nearest_even_le: "x \<le> of_int n \<Longrightarrow> nearest_even x \<le> n"
  using nearest_even_mono [of x "of_int n"] by simp

lemma nearest_even_ge: "of_int n \<le> x \<Longrightarrow> n \<le> nearest_even x"
  using nearest_even_mono [of "of_int n" x] by simp

lemma nearest_even_minus: "nearest_even (- x) = - nearest_even x"
proof (cases "x = of_int \<lfloor>x\<rfloor>")
  case True
  have "nearest_even (of_int (- n)) = - nearest_even (of_int n)" for n
    by (simp only: nearest_even_of_int)
  with True show ?thesis by (metis of_int_minus)
next
  case False
  then have "of_int \<lfloor>x\<rfloor> < x" and "x < of_int \<lfloor>x\<rfloor> + 1"
    using of_int_floor_le [of x] by linarith+
  then have "\<lfloor>- x\<rfloor> = - \<lfloor>x\<rfloor> - 1"
    by (intro floor_unique) simp_all
  then show ?thesis by (auto simp: nearest_even_def Let_def)
qed

text \<open>A format: bits of precision, exponent of the smallest quantum, exponent range.\<close>

record fmt =
  precision :: int
  min_quantum :: int
  max_exponent :: int

definition Binary32 :: fmt where
  "Binary32 = \<lparr>precision = 24, min_quantum = - 149, max_exponent = 128\<rparr>"

definition Binary64 :: fmt where
  "Binary64 = \<lparr>precision = 53, min_quantum = - 1074, max_exponent = 1024\<rparr>"

definition quantum :: "fmt \<Rightarrow> rat \<Rightarrow> int" where
  "quantum f q = (if q = 0 then min_quantum f else max (ilog2 \<bar>q\<bar> - (precision f - 1)) (min_quantum f))"

definition round_rat :: "fmt \<Rightarrow> rat \<Rightarrow> rat" where
  "round_rat f q = (let e = quantum f q in of_int (nearest_even (q / pow2 e)) * pow2 e)"

definition representable :: "fmt \<Rightarrow> rat \<Rightarrow> bool" where
  "representable f q \<longleftrightarrow> round_rat f q = q"

lemma quantum_minus [simp]: "quantum f (- q) = quantum f q"
  by (simp add: quantum_def)

lemma round_rat_0 [simp]: "round_rat f 0 = 0"
  by (simp add: round_rat_def nearest_even_def)

lemma round_rat_code [code]:
  "round_rat f q = (if q = 0 then 0 else let e = quantum f q in of_int (nearest_even (q / pow2 e)) * pow2 e)"
  by (simp add: round_rat_def nearest_even_def)

lemma round_rat_minus: "round_rat f (- q) = - round_rat f q"
  by (simp add: round_rat_def Let_def nearest_even_minus)

lemma round_rat_le_multiple:
  assumes "q \<le> of_int k * pow2 (quantum f q)"
  shows "round_rat f q \<le> of_int k * pow2 (quantum f q)"
proof -
  have "q / pow2 (quantum f q) \<le> of_int k" using assms by (simp add: field_simps)
  then have "nearest_even (q / pow2 (quantum f q)) \<le> k" by (rule nearest_even_le)
  then show ?thesis by (simp add: round_rat_def Let_def)
qed

lemma round_rat_ge_multiple:
  assumes "of_int k * pow2 (quantum f q) \<le> q"
  shows "of_int k * pow2 (quantum f q) \<le> round_rat f q"
proof -
  have "of_int k \<le> q / pow2 (quantum f q)" using assms by (simp add: field_simps)
  then have "k \<le> nearest_even (q / pow2 (quantum f q))" by (rule nearest_even_ge)
  then show ?thesis by (simp add: round_rat_def Let_def)
qed

lemma round_rat_nonneg: "0 \<le> q \<Longrightarrow> 0 \<le> round_rat f q"
  using round_rat_ge_multiple [of 0 f q] by simp

lemma round_rat_mono_pos:
  assumes "0 < p" and "p \<le> q" and prec: "1 \<le> precision f"
  shows "round_rat f p \<le> round_rat f q"
proof (cases "quantum f p = quantum f q")
  case True
  have "p / pow2 (quantum f p) \<le> q / pow2 (quantum f p)"
    using assms by (simp add: divide_right_mono)
  then show ?thesis using True by (simp add: round_rat_def Let_def nearest_even_mono)
next
  case False
  have q: "0 < q" using assms by linarith
  have le: "ilog2 p \<le> ilog2 q" using assms by (simp add: ilog2_mono)
  with False assms q have lt: "ilog2 p < ilog2 q" and e: "quantum f q = ilog2 q - (precision f - 1)"
    and e': "quantum f p \<le> quantum f q"
    by (auto simp: quantum_def max_def split: if_splits)
  define B where "B = pow2 (ilog2 q)"
  have eq: "quantum f q \<le> ilog2 q" using e prec by simp
  obtain k where k: "B = of_int k * pow2 (quantum f q)"
    using pow2_quotient_int [OF eq] by (auto simp: B_def field_simps)
  obtain j where j: "B = of_int j * pow2 (quantum f p)"
    using pow2_quotient_int [OF order_trans [OF e' eq]] by (auto simp: B_def field_simps)
  have "p < pow2 (ilog2 p + 1)" using ilog2_bounds [OF assms(1)] by blast
  also have "\<dots> \<le> B" using lt by (simp add: B_def pow2_mono)
  finally have "round_rat f p \<le> B" using j round_rat_le_multiple [of p j f] by simp
  moreover have "B \<le> q" using ilog2_bounds [OF q] by (simp add: B_def)
  then have "B \<le> round_rat f q" using k round_rat_ge_multiple [of k f q] by simp
  ultimately show ?thesis by linarith
qed

lemma round_rat_mono:
  assumes "p \<le> q" and prec: "1 \<le> precision f"
  shows "round_rat f p \<le> round_rat f q"
proof -
  consider "0 < p" | "p \<le> 0" "0 \<le> q" | "q < 0" by linarith
  then show ?thesis
  proof cases
    case 1
    then show ?thesis using assms by (simp add: round_rat_mono_pos)
  next
    case 2
    then have "0 \<le> round_rat f (- p)" "0 \<le> round_rat f q" by (simp_all add: round_rat_nonneg)
    then show ?thesis by (simp add: round_rat_minus)
  next
    case 3
    then have "round_rat f (- q) \<le> round_rat f (- p)" using assms by (simp add: round_rat_mono_pos)
    then show ?thesis by (simp add: round_rat_minus)
  qed
qed

text \<open>Exactness: a value with at most \<open>precision\<close> significant bits above the quantum is kept.\<close>

lemma representable_multiple:
  assumes q: "q = of_int m * pow2 e" and m: "\<bar>of_int m\<bar> \<le> pow2 (precision f)"
    and e: "min_quantum f \<le> e" and prec: "1 \<le> precision f"
  shows "representable f q"
proof (cases "q = 0")
  case True
  then show ?thesis by (simp add: representable_def)
next
  case False
  then have pos: "0 < \<bar>q\<bar>" by simp
  have abs: "\<bar>q\<bar> = \<bar>of_int m\<bar> * pow2 e" using q by (simp add: abs_mult)
  have exact: "round_rat f q = q" if le: "quantum f q \<le> j" and mult: "q = of_int n * pow2 j" for j n
  proof -
    obtain k where "pow2 j / pow2 (quantum f q) = of_int k"
      using pow2_quotient_int [OF le] by blast
    then have "q / pow2 (quantum f q) = of_int (n * k)"
      using mult by (metis of_int_mult times_divide_eq_right)
    then have "round_rat f q = (q / pow2 (quantum f q)) * pow2 (quantum f q)"
      unfolding round_rat_def Let_def by (metis nearest_even_of_int)
    then show ?thesis by simp
  qed
  show ?thesis
  proof (cases "\<bar>q\<bar> < pow2 (precision f + e)")
    case True
    then have "ilog2 \<bar>q\<bar> < precision f + e" using pos by (rule ilog2_less [rotated])
    then have "quantum f q \<le> e" using e False by (simp add: quantum_def)
    then show ?thesis using exact [OF _ q] by (simp add: representable_def)
  next
    case ge: False
    then have "pow2 (precision f) * pow2 e \<le> \<bar>of_int m\<bar> * pow2 e"
      using abs by (simp add: pow2_add)
    then have meq: "\<bar>of_int m\<bar> = pow2 (precision f)"
      using m by (simp add: mult_le_cancel_right)
    have "pow2 (precision f) = of_int (2 ^ nat (precision f))" using prec by (simp add: pow2_int)
    with meq have "\<bar>m\<bar> = 2 ^ nat (precision f)"
      by (metis of_int_abs of_int_eq_iff)
    also have "\<dots> = 2 * 2 ^ nat (precision f - 1)"
      using prec by (simp add: power_Suc [symmetric] Suc_nat_eq_nat_zadd1 del: power_Suc)
    finally have "even m" by (metis dvd_abs_iff dvd_triv_left)
    then obtain n where n: "m = 2 * n" by blast
    have q2: "q = of_int n * pow2 (e + 1)" using q n by (simp add: pow2_add pow2_def [of 1])
    have "\<bar>q\<bar> < pow2 (precision f + e + 1)"
      using abs meq by (simp add: pow2_add pow2_def [of 1])
    then have "ilog2 \<bar>q\<bar> < precision f + e + 1" using pos by (rule ilog2_less [rotated])
    then have "quantum f q \<le> e + 1" using e False by (simp add: quantum_def)
    then show ?thesis using exact [OF _ q2] by (simp add: representable_def)
  qed
qed

section \<open>Floating-point values and operations\<close>

datatype fl = NaN | NInf | Fin rat | PInf

definition fl_round :: "fmt \<Rightarrow> rat \<Rightarrow> fl" where
  "fl_round f q =
     (let r = round_rat f q
      in if r = 0 \<or> ilog2 \<bar>r\<bar> < max_exponent f then Fin r else if 0 < r then PInf else NInf)"

fun fl_add :: "fmt \<Rightarrow> fl \<Rightarrow> fl \<Rightarrow> fl" where
  "fl_add f NaN y = NaN"
| "fl_add f x NaN = NaN"
| "fl_add f PInf NInf = NaN"
| "fl_add f NInf PInf = NaN"
| "fl_add f PInf y = PInf"
| "fl_add f NInf y = NInf"
| "fl_add f x PInf = PInf"
| "fl_add f x NInf = NInf"
| "fl_add f (Fin a) (Fin b) = fl_round f (a + b)"

fun fl_neg :: "fl \<Rightarrow> fl" where
  "fl_neg NaN = NaN"
| "fl_neg PInf = NInf"
| "fl_neg NInf = PInf"
| "fl_neg (Fin a) = Fin (- a)"

definition fl_signed_inf :: "rat \<Rightarrow> fl" where
  "fl_signed_inf s = (if s = 0 then NaN else if 0 < s then PInf else NInf)"

fun fl_sign :: "fl \<Rightarrow> rat" where
  "fl_sign NaN = 0"
| "fl_sign PInf = 1"
| "fl_sign NInf = - 1"
| "fl_sign (Fin a) = sgn a"

fun fl_mul :: "fmt \<Rightarrow> fl \<Rightarrow> fl \<Rightarrow> fl" where
  "fl_mul f NaN y = NaN"
| "fl_mul f x NaN = NaN"
| "fl_mul f (Fin a) (Fin b) = fl_round f (a * b)"
| "fl_mul f x y = fl_signed_inf (fl_sign x * fl_sign y)"

fun fl_div :: "fmt \<Rightarrow> fl \<Rightarrow> fl \<Rightarrow> fl" where
  "fl_div f NaN y = NaN"
| "fl_div f x NaN = NaN"
| "fl_div f (Fin a) (Fin b) = (if b = 0 then fl_signed_inf a else fl_round f (a / b))"
| "fl_div f (Fin a) y = Fin 0"
| "fl_div f x (Fin b) = (if b = 0 then x else fl_signed_inf (fl_sign x * sgn b))"
| "fl_div f x y = NaN"

fun fl_less :: "fl \<Rightarrow> fl \<Rightarrow> bool" where
  "fl_less NaN y = False"
| "fl_less x NaN = False"
| "fl_less (Fin a) (Fin b) = (a < b)"
| "fl_less NInf y = (y \<noteq> NInf)"
| "fl_less x PInf = (x \<noteq> PInf)"
| "fl_less x y = False"

definition fl_le :: "fl \<Rightarrow> fl \<Rightarrow> bool" where
  "fl_le x y = (fl_less x y \<or> (x = y \<and> x \<noteq> NaN))"

fun fl_abs :: "fl \<Rightarrow> fl" where
  "fl_abs NaN = NaN"
| "fl_abs PInf = PInf"
| "fl_abs NInf = PInf"
| "fl_abs (Fin a) = Fin \<bar>a\<bar>"

fun fl_finite :: "fl \<Rightarrow> bool" where
  "fl_finite (Fin a) = True"
| "fl_finite x = False"

text \<open>
  Integer square root, and \<open>sqrt\<close> correctly rounded from it: \<open>2 * precision + 4\<close> bits of the
  radicand give two guard bits, an inexact root is nudged by half of its last bit so that the
  final rounding sees on which side of a tie it lies.
\<close>

function isqrt :: "int \<Rightarrow> int" where
  "isqrt n =
     (if n \<le> 0 then 0
      else let r = 2 * isqrt (n div 4) in if (r + 1) * (r + 1) \<le> n then r + 1 else r)"
  by pat_completeness auto
termination
  by (relation "measure nat") auto

declare isqrt.simps [simp del]

definition sqrt_rat :: "fmt \<Rightarrow> rat \<Rightarrow> fl" where
  "sqrt_rat f q =
     (if q = 0 then Fin 0
      else let k = max 0 (precision f + 2 - ilog2 q div 2);
               s = isqrt \<lfloor>q * pow2 (2 * k)\<rfloor>
           in fl_round f
                ((if of_int (s * s) = q * pow2 (2 * k) then of_int s else of_int s + 1 / 2) / pow2 k))"

fun fl_sqrt :: "fmt \<Rightarrow> fl \<Rightarrow> fl" where
  "fl_sqrt f NaN = NaN"
| "fl_sqrt f PInf = PInf"
| "fl_sqrt f NInf = NaN"
| "fl_sqrt f (Fin q) = (if q < 0 then NaN else sqrt_rat f q)"

fun fl_cast :: "fmt \<Rightarrow> fl \<Rightarrow> fl" where
  "fl_cast f (Fin q) = fl_round f q"
| "fl_cast f x = x"

lemma isqrt_bounds:
  "0 \<le> n \<Longrightarrow> 0 \<le> isqrt n \<and> isqrt n * isqrt n \<le> n \<and> n < (isqrt n + 1) * (isqrt n + 1)"
proof (induction n rule: isqrt.induct)
  case (1 n)
  show ?case
  proof (cases "n \<le> 0")
    case True
    with "1.prems" show ?thesis by (simp add: isqrt.simps [of 0])
  next
    case False
    define r where "r = isqrt (n div 4)"
    from "1.IH" [OF False] False have r: "0 \<le> r" "r * r \<le> n div 4" "n div 4 < (r + 1) * (r + 1)"
      by (simp_all add: r_def)
    from r(2) have lo: "4 * (r * r) \<le> n" by linarith
    from r(3) have "n div 4 + 1 \<le> (r + 1) * (r + 1)" by simp
    then have hi: "n < 4 * ((r + 1) * (r + 1))" by linarith
    have eq: "isqrt n = (if (2 * r + 1) * (2 * r + 1) \<le> n then 2 * r + 1 else 2 * r)"
      using False by (subst isqrt.simps) (simp add: r_def Let_def)
    show ?thesis
      using r(1) lo hi unfolding eq by (auto simp: algebra_simps)
  qed
qed

subsection \<open>Order lemmas\<close>

lemma fl_less_irrefl [simp]: "\<not> fl_less x x"
  by (cases x) simp_all

lemma fl_less_trans: "fl_less x y \<Longrightarrow> fl_less y z \<Longrightarrow> fl_less x z"
  by (cases x; cases y; cases z) auto

lemma fl_less_asym: "fl_less x y \<Longrightarrow> \<not> fl_less y x"
  using fl_less_trans [of x y x] by auto

lemma fl_less_not_NaN: "fl_less x y \<Longrightarrow> x \<noteq> NaN \<and> y \<noteq> NaN"
  by (cases x; cases y) auto

lemma fl_total: "x \<noteq> NaN \<Longrightarrow> y \<noteq> NaN \<Longrightarrow> fl_less x y \<or> x = y \<or> fl_less y x"
  by (cases x; cases y) auto

lemma fl_le_refl_iff [simp]: "fl_le x x \<longleftrightarrow> x \<noteq> NaN"
  by (simp add: fl_le_def)

lemma fl_le_not_NaN: "fl_le x y \<Longrightarrow> x \<noteq> NaN \<and> y \<noteq> NaN"
  by (auto simp: fl_le_def dest: fl_less_not_NaN)

lemma fl_le_trans: "fl_le x y \<Longrightarrow> fl_le y z \<Longrightarrow> fl_le x z"
  by (auto simp: fl_le_def dest: fl_less_trans)

lemma fl_le_less_trans: "fl_le x y \<Longrightarrow> fl_less y z \<Longrightarrow> fl_less x z"
  by (auto simp: fl_le_def dest: fl_less_trans)

lemma fl_less_le_trans: "fl_less x y \<Longrightarrow> fl_le y z \<Longrightarrow> fl_less x z"
  by (auto simp: fl_le_def dest: fl_less_trans)

lemma fl_le_antisym: "fl_le x y \<Longrightarrow> fl_le y x \<Longrightarrow> x = y"
  by (auto simp: fl_le_def dest: fl_less_trans)

lemma fl_not_less: "x \<noteq> NaN \<Longrightarrow> y \<noteq> NaN \<Longrightarrow> \<not> fl_less x y \<longleftrightarrow> fl_le y x"
  using fl_total [of x y] by (auto simp: fl_le_def dest: fl_less_asym)

lemma fl_not_le: "x \<noteq> NaN \<Longrightarrow> y \<noteq> NaN \<Longrightarrow> \<not> fl_le x y \<longleftrightarrow> fl_less y x"
  using fl_not_less [of y x] by auto

lemma fl_le_Fin [simp]: "fl_le (Fin a) (Fin b) \<longleftrightarrow> a \<le> b"
  by (auto simp: fl_le_def)

lemma fl_finite_iff: "fl_finite x \<longleftrightarrow> (\<exists>q. x = Fin q)"
  by (cases x) auto

lemma fl_round_eq:
  "fl_round f q =
     (if pow2 (max_exponent f) \<le> round_rat f q then PInf
      else if round_rat f q \<le> - pow2 (max_exponent f) then NInf else Fin (round_rat f q))"
proof -
  define r where "r = round_rat f q"
  have "ilog2 \<bar>r\<bar> < max_exponent f \<longleftrightarrow> \<bar>r\<bar> < pow2 (max_exponent f)" if "r \<noteq> 0"
    using that ilog2_less [of "\<bar>r\<bar>"] ilog2_pow2_le [of "max_exponent f" "\<bar>r\<bar>"]
    by (meson linorder_not_le zero_less_abs_iff)
  then have "fl_round f q =
      (if r = 0 \<or> \<bar>r\<bar> < pow2 (max_exponent f) then Fin r else if 0 < r then PInf else NInf)"
    by (auto simp: fl_round_def Let_def r_def [symmetric])
  moreover obtain M where "pow2 (max_exponent f) = M" and "0 < M" by simp
  ultimately show ?thesis unfolding r_def [symmetric] by auto
qed

lemma fl_round_not_NaN [simp]: "fl_round f q \<noteq> NaN"
  by (simp add: fl_round_def Let_def)

lemma fl_round_mono:
  assumes "p \<le> q" and "1 \<le> precision f"
  shows "fl_le (fl_round f p) (fl_round f q)"
proof -
  have "round_rat f p \<le> round_rat f q" using assms by (rule round_rat_mono)
  moreover have "- pow2 (max_exponent f) < pow2 (max_exponent f)"
    using pow2_pos [of "max_exponent f"] by linarith
  ultimately show ?thesis
    by (auto simp: fl_round_eq fl_le_def)
qed

lemma formats [simp]:
  "precision Binary32 = 24" "precision Binary64 = 53"
  "min_quantum Binary32 = - 149" "min_quantum Binary64 = - 1074"
  "max_exponent Binary32 = 128" "max_exponent Binary64 = 1024"
  by (simp_all add: Binary32_def Binary64_def)

lemma fl_round_representable:
  assumes "representable f q" and "\<bar>q\<bar> < pow2 (max_exponent f)"
  shows "fl_round f q = Fin q"
  using assms by (auto simp: fl_round_eq representable_def)

lemma fl_round_small_int:
  assumes "\<bar>n\<bar> \<le> 2 ^ nat (precision f)" and "1 \<le> precision f"
    and "min_quantum f \<le> 0" and "precision f < max_exponent f"
  shows "fl_round f (of_int n) = Fin (of_int n)"
proof -
  have "of_int \<bar>n\<bar> \<le> (of_int (2 ^ nat (precision f)) :: rat)"
    using assms(1) by (simp only: of_int_le_iff)
  then have m: "\<bar>of_int n\<bar> \<le> pow2 (precision f)"
    using assms(2) by (simp add: pow2_int)
  have "representable f (of_int n)"
    by (rule representable_multiple [where m = n and e = 0]) (use assms m in \<open>simp_all add: pow2_def [of 0]\<close>)
  moreover have "\<bar>of_int n\<bar> < pow2 (max_exponent f)"
    using m pow2_less_iff [of "precision f" "max_exponent f"] assms(4) by linarith
  ultimately show ?thesis by (rule fl_round_representable)
qed

section \<open>The C++ types \<open>float\<close> and \<open>double\<close>\<close>

datatype single = Sgl (sval: fl)
datatype double = Dbl (dval: fl)

instantiation single :: "{plus, minus, uminus, times, inverse, zero, one, ord, abs}"
begin
definition "x + y = Sgl (fl_add Binary32 (sval x) (sval y))"
definition "x - y = Sgl (fl_add Binary32 (sval x) (fl_neg (sval y)))"
definition "- x = Sgl (fl_neg (sval x))"
definition "x * y = Sgl (fl_mul Binary32 (sval x) (sval y))"
definition "divide x y = Sgl (fl_div Binary32 (sval x) (sval y))"
definition "inverse x = Sgl (fl_div Binary32 (Fin 1) (sval x))"
definition "0 = Sgl (Fin 0)"
definition "1 = Sgl (Fin 1)"
definition "x < y = fl_less (sval x) (sval y)"
definition "x \<le> y = fl_le (sval x) (sval y)"
definition "\<bar>x\<bar> = Sgl (fl_abs (sval x))"
instance ..
end

instantiation double :: "{plus, minus, uminus, times, inverse, zero, one, ord, abs}"
begin
definition "x + y = Dbl (fl_add Binary64 (dval x) (dval y))"
definition "x - y = Dbl (fl_add Binary64 (dval x) (fl_neg (dval y)))"
definition "- x = Dbl (fl_neg (dval x))"
definition "x * y = Dbl (fl_mul Binary64 (dval x) (dval y))"
definition "divide x y = Dbl (fl_div Binary64 (dval x) (dval y))"
definition "inverse x = Dbl (fl_div Binary64 (Fin 1) (dval x))"
definition "0 = Dbl (Fin 0)"
definition "1 = Dbl (Fin 1)"
definition "x < y = fl_less (dval x) (dval y)"
definition "x \<le> y = fl_le (dval x) (dval y)"
definition "\<bar>x\<bar> = Dbl (fl_abs (dval x))"
instance ..
end

text \<open>Literals (\<open>0.95F\<close> is \<open>single_lit (95 / 100)\<close>), conversions, classification.\<close>

definition single_lit :: "rat \<Rightarrow> single" where
  "single_lit q = Sgl (fl_round Binary32 q)"

definition double_lit :: "rat \<Rightarrow> double" where
  "double_lit q = Dbl (fl_round Binary64 q)"

definition to_double :: "single \<Rightarrow> double" where
  "to_double x = Dbl (sval x)"

definition to_single :: "double \<Rightarrow> single" where
  "to_single x = Sgl (fl_cast Binary32 (dval x))"

definition sfinite :: "single \<Rightarrow> bool" where
  "sfinite x = fl_finite (sval x)"

definition dfinite :: "double \<Rightarrow> bool" where
  "dfinite x = fl_finite (dval x)"

definition dsqrt :: "double \<Rightarrow> double" where
  "dsqrt x = Dbl (fl_sqrt Binary64 (dval x))"

text \<open>\<open>std::hypot\<close>: an infinite leg gives infinity even beside a NaN, no intermediate rounding.\<close>

definition shypot :: "single \<Rightarrow> single \<Rightarrow> single" where
  "shypot x y =
     (if \<bar>x\<bar> = Sgl PInf \<or> \<bar>y\<bar> = Sgl PInf then Sgl PInf
      else case (sval x, sval y) of
             (Fin a, Fin b) \<Rightarrow> Sgl (sqrt_rat Binary32 (a * a + b * b))
           | _ \<Rightarrow> Sgl NaN)"

named_theorems float_simps \<open>unfolds the operators of the C++ float types\<close>

lemmas single_ops [float_simps] =
  plus_single_def minus_single_def uminus_single_def times_single_def divide_single_def
  inverse_single_def zero_single_def one_single_def less_single_def less_eq_single_def
  abs_single_def sfinite_def

lemmas double_ops [float_simps] =
  plus_double_def minus_double_def uminus_double_def times_double_def divide_double_def
  inverse_double_def zero_double_def one_double_def less_double_def less_eq_double_def
  abs_double_def dfinite_def to_double_def to_single_def

definition snan :: "single \<Rightarrow> bool" where
  "snan x = (sval x = NaN)"

lemma single_less_trans: "x < y \<Longrightarrow> y < z \<Longrightarrow> x < (z :: single)"
  by (simp add: less_single_def fl_less_trans [of "sval x" "sval y" "sval z"])

lemma single_less_irrefl [simp]: "\<not> x < (x :: single)"
  by (simp add: less_single_def)

lemma single_less_asym: "x < y \<Longrightarrow> \<not> y < (x :: single)"
  by (auto simp: less_single_def dest: fl_less_asym)

lemma single_le_trans: "x \<le> y \<Longrightarrow> y \<le> z \<Longrightarrow> x \<le> (z :: single)"
  by (auto simp: less_eq_single_def intro: fl_le_trans)

lemma single_le_refl_iff [simp]: "x \<le> x \<longleftrightarrow> \<not> snan x" for x :: single
  by (simp add: less_eq_single_def snan_def)

lemma single_less_imp_le: "x < y \<Longrightarrow> x \<le> (y :: single)"
  by (simp add: less_single_def less_eq_single_def fl_le_def)

lemma single_le_less_trans: "x \<le> y \<Longrightarrow> y < z \<Longrightarrow> x < (z :: single)"
  by (auto simp: less_single_def less_eq_single_def intro: fl_le_less_trans)

lemma single_less_le_trans: "x < y \<Longrightarrow> y \<le> z \<Longrightarrow> x < (z :: single)"
  by (auto simp: less_single_def less_eq_single_def intro: fl_less_le_trans)

lemma single_le_antisym: "x \<le> y \<Longrightarrow> y \<le> x \<Longrightarrow> x = (y :: single)"
  by (auto simp: less_eq_single_def intro: single.expand fl_le_antisym)

lemma single_not_less: "\<not> snan x \<Longrightarrow> \<not> snan y \<Longrightarrow> \<not> x < y \<longleftrightarrow> y \<le> (x :: single)"
  by (simp add: snan_def less_single_def less_eq_single_def fl_not_less)

lemma single_le_not_nan: "x \<le> y \<Longrightarrow> \<not> snan x \<and> \<not> snan (y :: single)"
  by (auto simp: snan_def less_eq_single_def dest: fl_le_not_NaN)

lemma single_less_not_nan: "x < y \<Longrightarrow> \<not> snan x \<and> \<not> snan (y :: single)"
  by (auto simp: snan_def less_single_def dest: fl_less_not_NaN)

lemma sfinite_not_nan: "sfinite x \<Longrightarrow> \<not> snan x"
  by (cases "sval x") (auto simp: sfinite_def snan_def)

lemma single_zero_one [simp]: "sfinite 0" "sfinite 1" "(0 :: single) < 1" "(0 :: single) \<noteq> 1"
  by (simp_all add: float_simps)

text \<open>\<open>std::max\<close> keeps its first argument against a NaN; \<open>std::clamp\<close> stays in its interval.\<close>

lemma single_max_ge1: "\<not> snan a \<Longrightarrow> a \<le> std_max a (b :: single)"
  by (auto simp: std_max_def intro: single_less_imp_le)

lemma single_max_ge2: "\<not> snan a \<Longrightarrow> \<not> snan b \<Longrightarrow> b \<le> std_max a (b :: single)"
  by (auto simp: std_max_def single_not_less)

lemma single_max_not_nan [simp]: "\<not> snan a \<Longrightarrow> \<not> snan (std_max a b)"
  by (auto simp: std_max_def dest: single_less_not_nan)

lemma single_clamp_bounds:
  assumes "lo \<le> (hi :: single)" and "\<not> snan v"
  shows "lo \<le> std_clamp v lo hi \<and> std_clamp v lo hi \<le> hi"
  using assms single_le_not_nan [OF assms(1)]
  by (auto simp: std_clamp_def single_not_less)

end
