(* ===== verification/Json.thy ===== *)
theory Json
  imports Floats
begin

text \<open>
  The values \<open>Windows.Data.Json\<close> exchanges with the program. Its parser and printer are not under
  \<^verbatim>\<open>src\<close>: they are the fields of a \<open>json_api\<close>, an argument of every definition that uses them
  (\<open>None\<close> when \<open>JsonObject::Parse\<close> throws). The accessors are the documented ones: \<open>GetNamedX\<close>
  throws when the member is missing or of another type, the two-argument form returns the default
  when it is missing, \<open>Insert\<close> replaces a member of the same name.
\<close>

datatype json =
    JNull
  | JBool bool
  | JNumber double
  | JString string
  | JArray "json list"
  | JObject "(string \<times> json) list"

type_synonym json_object = "(string \<times> json) list"

record json_api =
  json_parse :: "string \<Rightarrow> json_object option"
  json_stringify :: "json_object \<Rightarrow> string"

text \<open>The printer's contract: what it prints parses back.\<close>

definition json_roundtrip :: "json_api \<Rightarrow> bool" where
  "json_roundtrip api \<longleftrightarrow> (\<forall>obj. json_parse api (json_stringify api obj) = Some obj)"

definition parse_object :: "json_api \<Rightarrow> string \<Rightarrow> json_object result" where
  "parse_object api s = (case json_parse api s of None \<Rightarrow> Inl HResultError | Some obj \<Rightarrow> Inr obj)"

definition has_key :: "json_object \<Rightarrow> string \<Rightarrow> bool" where
  "has_key obj k \<longleftrightarrow> map_of obj k \<noteq> None"

definition insert_member :: "string \<Rightarrow> json \<Rightarrow> json_object \<Rightarrow> json_object" where
  "insert_member k v obj = (k, v) # filter (\<lambda>(j, _). j \<noteq> k) obj"

definition get_named_string :: "json_object \<Rightarrow> string \<Rightarrow> string result" where
  "get_named_string obj k = (case map_of obj k of Some (JString s) \<Rightarrow> Inr s | _ \<Rightarrow> Inl HResultError)"

definition get_named_number :: "json_object \<Rightarrow> string \<Rightarrow> double result" where
  "get_named_number obj k = (case map_of obj k of Some (JNumber x) \<Rightarrow> Inr x | _ \<Rightarrow> Inl HResultError)"

definition get_named_array :: "json_object \<Rightarrow> string \<Rightarrow> json list result" where
  "get_named_array obj k = (case map_of obj k of Some (JArray xs) \<Rightarrow> Inr xs | _ \<Rightarrow> Inl HResultError)"

definition get_object :: "json \<Rightarrow> json_object result" where
  "get_object v = (case v of JObject obj \<Rightarrow> Inr obj | _ \<Rightarrow> Inl HResultError)"

definition get_named_string_or :: "json_object \<Rightarrow> string \<Rightarrow> string \<Rightarrow> string result" where
  "get_named_string_or obj k d = (if has_key obj k then get_named_string obj k else Inr d)"

definition get_named_number_or :: "json_object \<Rightarrow> string \<Rightarrow> double \<Rightarrow> double result" where
  "get_named_number_or obj k d = (if has_key obj k then get_named_number obj k else Inr d)"

definition get_named_boolean_or :: "json_object \<Rightarrow> string \<Rightarrow> bool \<Rightarrow> bool result" where
  "get_named_boolean_or obj k d =
     (case map_of obj k of None \<Rightarrow> Inr d | Some (JBool b) \<Rightarrow> Inr b | Some _ \<Rightarrow> Inl HResultError)"

lemma map_of_insert_member [simp]:
  "map_of (insert_member k v obj) j = (if j = k then Some v else map_of obj j)"
  by (induction obj) (auto simp: insert_member_def)

lemma get_named_insert [simp]:
  "get_named_string (insert_member k v obj) j = (if j = k then get_named_string [(j, v)] j else get_named_string obj j)"
  "get_named_number (insert_member k v obj) j = (if j = k then get_named_number [(j, v)] j else get_named_number obj j)"
  by (simp_all add: get_named_string_def get_named_number_def)

lemma get_named_hit [simp]:
  "get_named_string [(k, JString s)] k = Inr s"
  "get_named_number [(k, JNumber x)] k = Inr x"
  by (simp_all add: get_named_string_def get_named_number_def)

end
