(* ===== verification/Calendar.thy ===== *)
theory Calendar
  imports Prelude
begin

text \<open>
  The parts of the C and C++ date library the program uses: \<open>_gmtime64_s\<close>, \<open>_mkgmtime64\<close>,
  \<open>std::put_time\<close> with \<open>%Y-%m-%dT%H:%M:%S\<close> and \<open>std::get_time\<close> with
  \<open>%a, %d %b %Y %H:%M:%S GMT\<close>. The supported range is the documented one, from the epoch to the
  end of the year 3000. The theory proves that the two conversions are inverse, so that a rendered
  timestamp loses nothing.
\<close>

record tm =
  tm_year :: int
  tm_mon :: int
  tm_mday :: int
  tm_hour :: int
  tm_min :: int
  tm_sec :: int

definition gmtime_limit :: int where
  "gmtime_limit = 32535215999"

definition leap_year :: "int \<Rightarrow> bool" where
  "leap_year y \<longleftrightarrow> (y mod 4 = 0 \<and> y mod 100 \<noteq> 0) \<or> y mod 400 = 0"

definition year_length :: "int \<Rightarrow> int" where
  "year_length y = (if leap_year y then 366 else 365)"

definition month_lengths :: "int \<Rightarrow> int list" where
  "month_lengths y = [31, if leap_year y then 29 else 28, 31, 30, 31, 30, 31, 31, 30, 31, 30, 31]"

definition leaps_through :: "int \<Rightarrow> int" where
  "leaps_through y = y div 4 - y div 100 + y div 400"

definition days_before_year :: "int \<Rightarrow> int" where
  "days_before_year y = 365 * (y - 1970) + leaps_through (y - 1) - leaps_through 1969"

definition days_before_month :: "int \<Rightarrow> int \<Rightarrow> int" where
  "days_before_month y m = sum_list (take (nat m) (month_lengths y))"

definition mkgmtime :: "tm \<Rightarrow> int" where
  "mkgmtime t =
     (let days = days_before_year (tm_year t) + days_before_month (tm_year t) (tm_mon t) + tm_mday t - 1;
          s = ((days * 24 + tm_hour t) * 60 + tm_min t) * 60 + tm_sec t
      in if 0 \<le> s \<and> s \<le> gmtime_limit then s else - 1)"

function find_year :: "int \<Rightarrow> int \<Rightarrow> int \<times> int" where
  "find_year y d = (if d < year_length y then (y, d) else find_year (y + 1) (d - year_length y))"
  by pat_completeness auto
termination
  by (relation "measure (\<lambda>(y, d). nat d)") (auto simp: year_length_def split: if_splits)

declare find_year.simps [simp del]

fun find_month :: "int \<Rightarrow> int list \<Rightarrow> int \<Rightarrow> int \<times> int" where
  "find_month m [] d = (m, d)"
| "find_month m (l # ls) d = (if d < l then (m, d) else find_month (m + 1) ls (d - l))"

text \<open>\<open>_gmtime64_s\<close>: an error outside the supported range.\<close>

definition gmtime :: "int \<Rightarrow> tm option" where
  "gmtime s =
     (if s < 0 \<or> s > gmtime_limit then None
      else let (y, yday) = find_year 1970 (s div 86400);
               (m, mday) = find_month 0 (month_lengths y) yday;
               r = s mod 86400
           in Some \<lparr>tm_year = y, tm_mon = m, tm_mday = mday + 1,
                tm_hour = r div 3600, tm_min = r div 60 mod 60, tm_sec = r mod 60\<rparr>)"

lemma div_step:
  assumes "0 < k"
  shows "y div k = (y - 1) div k + (if y mod k = 0 then 1 else (0::int))"
proof -
  define q r where "q = y div k" and "r = y mod k"
  have y: "y = k * q + r" and r: "0 \<le> r" "r < k"
    using assms by (simp_all add: q_def r_def)
  show ?thesis
  proof (cases "r = 0")
    case True
    then have "y - 1 = k * (q - 1) + (k - 1)" using y by (simp add: algebra_simps)
    then have "(y - 1) div k = q - 1" by (rule int_div_pos_eq) (use assms in auto)
    with True show ?thesis by (simp add: q_def r_def)
  next
    case False
    then have "y - 1 = k * q + (r - 1)" using y by simp
    then have "(y - 1) div k = q" by (rule int_div_pos_eq) (use r False in auto)
    with False show ?thesis by (simp add: q_def r_def)
  qed
qed

lemma leap_indicator:
  assumes "C \<Longrightarrow> B" and "B \<Longrightarrow> A"
  shows "(if A then 1 else 0) - (if B then 1 else 0) + (if C then 1 else 0)
       = (if (A \<and> \<not> B) \<or> C then 1 else (0::int))"
  using assms by auto

lemma sum_of_steps:
  "a = a' + x \<Longrightarrow> b = b' + y \<Longrightarrow> c = c' + z \<Longrightarrow> a - b + c = a' - b' + c' + (x - y + (z::int))"
  by simp

lemma minutes_of_day:
  "s = 1440 * d + b \<Longrightarrow> d = dy + yd \<Longrightarrow> yd = dm + md \<Longrightarrow> b = h * 60 + mi
   \<Longrightarrow> ((dy + dm + (md + 1) - 1) * 24 + h) * 60 + mi = (s::int)"
  by simp

lemma leaps_step: "leaps_through y = leaps_through (y - 1) + (if leap_year y then 1 else 0)"
proof -
  have "400 dvd y \<Longrightarrow> 100 dvd y" "100 dvd y \<Longrightarrow> 4 dvd y"
    by (erule dvd_trans [rotated], simp)+
  then have imp: "y mod 400 = 0 \<Longrightarrow> y mod 100 = 0" "y mod 100 = 0 \<Longrightarrow> y mod 4 = 0"
    by (simp_all only: dvd_eq_mod_eq_0)
  define f where "f k = (if y mod k = 0 then 1 else (0::int))" for k
  have "leaps_through y = leaps_through (y - 1) + (f 4 - f 100 + f 400)"
    unfolding leaps_through_def f_def by (rule sum_of_steps; rule div_step) simp_all
  moreover have "f 4 - f 100 + f 400 = (if leap_year y then 1 else 0)"
    unfolding f_def leap_year_def by (rule leap_indicator) (fact imp)+
  ultimately show ?thesis by simp
qed

lemma days_before_year_Suc: "days_before_year (y + 1) = days_before_year y + year_length y"
  using leaps_step [of y] by (simp add: days_before_year_def year_length_def)

lemma find_year_spec:
  "0 \<le> d \<Longrightarrow> find_year y d = (y', d') \<Longrightarrow>
     days_before_year y + d = days_before_year y' + d' \<and> 0 \<le> d' \<and> d' < year_length y' \<and> y \<le> y'"
proof (induction y d rule: find_year.induct)
  case (1 y d)
  show ?case
  proof (cases "d < year_length y")
    case True
    with "1.prems" show ?thesis by (auto simp: find_year.simps [of y d])
  next
    case False
    with "1.prems" have "find_year (y + 1) (d - year_length y) = (y', d')"
      by (simp add: find_year.simps [of y d])
    with "1.IH" [OF False] False show ?thesis by (simp add: days_before_year_Suc)
  qed
qed

lemma find_month_spec:
  "find_month m ls d = (m', d') \<Longrightarrow> 0 \<le> d \<Longrightarrow> d < sum_list ls \<Longrightarrow>
     m \<le> m' \<and> m' < m + int (length ls) \<and> 0 \<le> d' \<and> d' < ls ! nat (m' - m) \<and>
     d = sum_list (take (nat (m' - m)) ls) + d'"
proof (induction ls arbitrary: m d)
  case Nil
  then show ?case by simp
next
  case (Cons l ls)
  show ?case
  proof (cases "d < l")
    case True
    with Cons.prems show ?thesis by auto
  next
    case False
    with Cons.prems have "find_month (m + 1) ls (d - l) = (m', d')" "0 \<le> d - l" "d - l < sum_list ls"
      by auto
    from Cons.IH [OF this] have IH: "m + 1 \<le> m'" "m' < m + 1 + int (length ls)" "0 \<le> d'"
      "d' < ls ! nat (m' - (m + 1))" "d - l = sum_list (take (nat (m' - (m + 1))) ls) + d'" by auto
    have "nat (m' - m) = Suc (nat (m' - (m + 1)))" using IH(1) by simp
    with IH show ?thesis by simp
  qed
qed

lemma sum_month_lengths: "sum_list (month_lengths y) = year_length y"
  by (simp add: month_lengths_def year_length_def)

lemma month_length_bounds: "m < 12 \<Longrightarrow> 28 \<le> month_lengths y ! m \<and> month_lengths y ! m \<le> 31"
  by (auto simp: month_lengths_def less_Suc_eq numeral_eq_Suc)

lemma gmtime_SomeE:
  assumes "gmtime s = Some t"
  obtains "0 \<le> s" "s \<le> gmtime_limit" "1970 \<le> tm_year t" "0 \<le> tm_mon t" "tm_mon t \<le> 11"
    "1 \<le> tm_mday t" "tm_mday t \<le> 31" "0 \<le> tm_hour t" "tm_hour t \<le> 23" "0 \<le> tm_min t" "tm_min t \<le> 59"
    "0 \<le> tm_sec t" "tm_sec t \<le> 59"
    "((days_before_year (tm_year t) + days_before_month (tm_year t) (tm_mon t) + tm_mday t - 1) * 24
       + tm_hour t) * 60 + tm_min t = s div 60" "tm_sec t = s mod 60"
proof -
  from assms have s: "0 \<le> s" "s \<le> gmtime_limit" by (auto simp: gmtime_def split: if_splits)
  obtain y yday where fy: "find_year 1970 (s div 86400) = (y, yday)" by fastforce
  obtain m mday where fm: "find_month 0 (month_lengths y) yday = (m, mday)" by fastforce
  have d: "0 \<le> s div 86400" using s by simp
  from find_year_spec [OF d fy] have Y: "s div 86400 = days_before_year y + yday" "0 \<le> yday"
    "yday < year_length y" "1970 \<le> y" by (auto simp: days_before_year_def)
  have sum: "yday < sum_list (month_lengths y)" and len: "length (month_lengths y) = 12"
    using Y(3) by (simp_all only: sum_month_lengths) (simp add: month_lengths_def)
  from find_month_spec [OF fm Y(2) sum] have M: "0 \<le> m" "m < 12" "0 \<le> mday"
    "mday < month_lengths y ! nat m" "yday = days_before_month y m + mday"
    unfolding len days_before_month_def by simp_all
  have "nat m < 12" using M(1,2) by simp
  from month_length_bounds [OF this, of y] M(4) have ml: "mday < 31" by linarith
  define b h mi where "b = s mod 86400" and "h = b div 3600" and "mi = b div 60 mod 60"
  from assms s fy fm have t: "t = \<lparr>tm_year = y, tm_mon = m, tm_mday = mday + 1,
      tm_hour = h, tm_min = mi, tm_sec = b mod 60\<rparr>"
    by (simp add: gmtime_def Let_def b_def h_def mi_def)
  have b: "0 \<le> b" "b < 86400" "s = 86400 * (s div 86400) + b" by (simp_all add: b_def)
  have "s div 60 = (b + (1440 * (s div 86400)) * 60) div 60" using b(3) by simp
  then have sd: "s div 60 = 1440 * (s div 86400) + b div 60"
    by (simp only: div_mult_self1 [of 60] add.commute)
  have "b div 60 div 60 = h" by (simp add: zdiv_zmult2_eq [symmetric] h_def)
  then have "b div 60 = h * 60 + mi"
    using div_mult_mod_eq [of "b div 60" 60] by (simp add: mi_def)
  from minutes_of_day [OF sd Y(1) M(5) this]
  have min: "((days_before_year y + days_before_month y m + (mday + 1) - 1) * 24 + h) * 60 + mi = s div 60" .
  have sec: "b mod 60 = s mod 60" by (simp add: b_def mod_mod_cancel)
  have h: "0 \<le> h" "h \<le> 23" using b by (simp_all add: h_def pos_imp_zdiv_nonneg_iff)
  have mi: "0 \<le> mi" "mi \<le> 59" by (simp_all add: mi_def)
  have se: "0 \<le> b mod 60" "b mod 60 \<le> 59" by simp_all
  from M(1-3) ml have M': "0 \<le> m" "m \<le> 11" "1 \<le> mday + 1" "mday + 1 \<le> 31" by linarith+
  show thesis
    by (rule that) (unfold t tm.simps, (fact s Y(4) M' h mi se min sec)+)
qed

lemma mkgmtime_gmtime: "gmtime s = Some t \<Longrightarrow> mkgmtime t = s"
proof (erule gmtime_SomeE)
  assume "0 \<le> s" "s \<le> gmtime_limit" and sec: "tm_sec t = s mod 60" and min: "((days_before_year (tm_year t) + days_before_month (tm_year t) (tm_mon t) + tm_mday t - 1) * 24
       + tm_hour t) * 60 + tm_min t = s div 60"
  then show "mkgmtime t = s"
    unfolding mkgmtime_def Let_def min sec by simp
qed

lemma gmtime_defined: "0 \<le> s \<Longrightarrow> s \<le> gmtime_limit \<Longrightarrow> \<exists>t. gmtime s = Some t"
  by (simp add: gmtime_def split_beta Let_def)

section \<open>Rendering and reading\<close>

definition two_digits :: "int \<Rightarrow> string" where
  "two_digits n = [digit_char (nat (n div 10)), digit_char (nat (n mod 10))]"

definition four_digits :: "int \<Rightarrow> string" where
  "four_digits n = two_digits (n div 100) @ two_digits (n mod 100)"

definition three_digits :: "int \<Rightarrow> string" where
  "three_digits n = digit_char (nat (n div 100)) # two_digits (n mod 100)"

definition put_time_iso :: "tm \<Rightarrow> string" where
  "put_time_iso t = four_digits (tm_year t) @ ''-'' @ two_digits (tm_mon t + 1) @ ''-'' @
     two_digits (tm_mday t) @ ''T'' @ two_digits (tm_hour t) @ '':'' @ two_digits (tm_min t) @
     '':'' @ two_digits (tm_sec t)"

text \<open>
  \<open>std::get_time\<close> reads the format item by item: a space skips any whitespace, a literal matches
  without regard to case, a name matches in full or abbreviated, a number has up to the given
  digits and must lie in its range. Anything else sets the fail bit (\<open>None\<close>).
\<close>

definition is_space :: "char \<Rightarrow> bool" where
  "is_space c \<longleftrightarrow> c \<in> {CHR '' '', CHR 0x09, CHR 0x0A, CHR 0x0B, CHR 0x0C, CHR 0x0D}"

definition upper :: "char \<Rightarrow> char" where
  "upper c = (if 97 \<le> byte_of c \<and> byte_of c \<le> 122 then char_of (byte_of c - 32) else c)"

definition skip_space :: "string \<Rightarrow> string option" where
  "skip_space s = Some (dropWhile is_space s)"

definition read_literal :: "string \<Rightarrow> string \<Rightarrow> string option" where
  "read_literal lit s =
     (if map upper (take (length lit) s) = map upper lit then Some (drop (length lit) s) else None)"

fun read_name :: "string list \<Rightarrow> string \<Rightarrow> (int \<times> string) option" where
  "read_name [] s = None"
| "read_name (n # ns) s =
     (case read_literal n s of
        Some r \<Rightarrow> Some (0, r)
      | None \<Rightarrow>
          (case read_literal (take 3 n) s of
             Some r \<Rightarrow> Some (0, r)
           | None \<Rightarrow> map_option (\<lambda>(i, r). (i + 1, r)) (read_name ns s)))"

definition weekday_names :: "string list" where
  "weekday_names = [''Sunday'', ''Monday'', ''Tuesday'', ''Wednesday'', ''Thursday'', ''Friday'', ''Saturday'']"

definition month_names :: "string list" where
  "month_names = [''January'', ''February'', ''March'', ''April'', ''May'', ''June'', ''July'',
     ''August'', ''September'', ''October'', ''November'', ''December'']"

definition read_number :: "nat \<Rightarrow> int \<Rightarrow> int \<Rightarrow> string \<Rightarrow> (int \<times> string) option" where
  "read_number digits lo hi s =
     (let ds = takeWhile (\<lambda>c. c \<in> set decimal_digits) (take digits s); n = int (decimal_value ds)
      in if ds = [] \<or> n < lo \<or> hi < n then None else Some (n, drop (length ds) s))"

definition get_http_date :: "string \<Rightarrow> tm option" where
  "get_http_date s =
     Option.bind (read_name weekday_names s) (\<lambda>(_, s).
     Option.bind (read_literal '','' s) (\<lambda>s. Option.bind (skip_space s) (\<lambda>s.
     Option.bind (read_number 2 1 31 s) (\<lambda>(day, s). Option.bind (skip_space s) (\<lambda>s.
     Option.bind (read_name month_names s) (\<lambda>(month, s). Option.bind (skip_space s) (\<lambda>s.
     Option.bind (read_number 4 0 9999 s) (\<lambda>(year, s). Option.bind (skip_space s) (\<lambda>s.
     Option.bind (read_number 2 0 23 s) (\<lambda>(hour, s). Option.bind (read_literal '':'' s) (\<lambda>s.
     Option.bind (read_number 2 0 59 s) (\<lambda>(minute, s). Option.bind (read_literal '':'' s) (\<lambda>s.
     Option.bind (read_number 2 0 60 s) (\<lambda>(second, s). Option.bind (skip_space s) (\<lambda>s.
     Option.bind (read_literal ''GMT'' s) (\<lambda>_.
       Some \<lparr>tm_year = year, tm_mon = month, tm_mday = day, tm_hour = hour, tm_min = minute,
             tm_sec = second\<rparr>))))))))))))))))"

text \<open>The fields of an ISO timestamp read back from their columns.\<close>

definition int_of_digits :: "string \<Rightarrow> int" where
  "int_of_digits s = int (decimal_value s)"

definition column :: "nat \<Rightarrow> nat \<Rightarrow> string \<Rightarrow> int" where
  "column from len s = int_of_digits (take len (drop from s))"

definition read_iso :: "string \<Rightarrow> tm" where
  "read_iso s = \<lparr>tm_year = column 0 4 s, tm_mon = column 5 2 s - 1, tm_mday = column 8 2 s,
     tm_hour = column 11 2 s, tm_min = column 14 2 s, tm_sec = column 17 2 s\<rparr>"

lemma two_digits_value:
  assumes "0 \<le> n" and "n < 100"
  shows "int_of_digits (two_digits n) = n"
proof -
  have "nat (n div 10) < 10" "nat (n mod 10) < 10" using assms by auto
  then have "int_of_digits (two_digits n) = 10 * int (nat (n div 10)) + int (nat (n mod 10))"
    by (simp add: int_of_digits_def decimal_value_def two_digits_def)
  then show ?thesis using assms by (simp add: pos_imp_zdiv_nonneg_iff)
qed

lemma decimal_value_append:
  "decimal_value (s @ t) = decimal_value s * 10 ^ length t + decimal_value t"
proof (induction t rule: rev_induct)
  case Nil
  show ?case by (simp add: decimal_value_def)
next
  case (snoc c t)
  have "decimal_value ((s @ t) @ [c]) = 10 * decimal_value (s @ t) + digit_value c"
    by (rule decimal_value_snoc)
  with snoc show ?case by (simp add: decimal_value_snoc algebra_simps)
qed

lemma four_digits_value: "0 \<le> n \<Longrightarrow> n < 10000 \<Longrightarrow> int_of_digits (four_digits n) = n"
proof -
  assume n: "0 \<le> n" "n < 10000"
  have "int_of_digits (four_digits n) = int_of_digits (two_digits (n div 100)) * 100 + int_of_digits (two_digits (n mod 100))"
    by (simp add: four_digits_def int_of_digits_def decimal_value_append)
      (simp add: two_digits_def)
  also have "\<dots> = n div 100 * 100 + n mod 100"
    using n by (subst (1 2) two_digits_value) auto
  finally show ?thesis by simp
qed

lemma three_digits_value: "0 \<le> n \<Longrightarrow> n < 1000 \<Longrightarrow> int_of_digits (three_digits n) = n"
proof -
  assume n: "0 \<le> n" "n < 1000"
  have "decimal_value ([digit_char (nat (n div 100))] @ two_digits (n mod 100))
      = nat (n div 100) * 100 + decimal_value (two_digits (n mod 100))"
    using n by (subst decimal_value_append) (simp add: two_digits_def decimal_value_def)
  then have "int_of_digits (three_digits n) = n div 100 * 100 + int_of_digits (two_digits (n mod 100))"
    using n by (simp add: int_of_digits_def three_digits_def)
  then show ?thesis using n by (simp add: two_digits_value)
qed

lemma digits_length [simp]:
  "length (two_digits n) = 2" "length (four_digits n) = 4" "length (three_digits n) = 3"
  by (simp_all add: two_digits_def four_digits_def three_digits_def)

lemma put_time_iso_length [simp]: "length (put_time_iso t) = 19"
  by (simp add: put_time_iso_def)

lemma read_put_iso:
  assumes "gmtime s = Some t" and "tm_year t < 10000"
  shows "read_iso (put_time_iso t @ rest) = t"
  using assms(1)
proof (rule gmtime_SomeE)
  assume r: "1970 \<le> tm_year t" "0 \<le> tm_mon t" "tm_mon t \<le> 11"
    "1 \<le> tm_mday t" "tm_mday t \<le> 31" "0 \<le> tm_hour t" "tm_hour t \<le> 23" "0 \<le> tm_min t" "tm_min t \<le> 59"
    "0 \<le> tm_sec t" "tm_sec t \<le> 59"
  have dd: "drop 2 (two_digits n) = []" "take 2 (two_digits n) = two_digits n" for n
    by (simp_all add: two_digits_def)
  have "take 4 (drop 0 (put_time_iso t @ rest)) = four_digits (tm_year t)"
    "take 2 (drop 5 (put_time_iso t @ rest)) = two_digits (tm_mon t + 1)"
    "take 2 (drop 8 (put_time_iso t @ rest)) = two_digits (tm_mday t)"
    "take 2 (drop 11 (put_time_iso t @ rest)) = two_digits (tm_hour t)"
    "take 2 (drop 14 (put_time_iso t @ rest)) = two_digits (tm_min t)"
    "take 2 (drop 17 (put_time_iso t @ rest)) = two_digits (tm_sec t)"
    by (simp_all add: put_time_iso_def)
  then show ?thesis
    using r assms(2)
    by (simp add: read_iso_def column_def two_digits_value four_digits_value)
qed

end
