(* ===== verification/Domain.thy ===== *)
theory Domain
  imports Floats "HOL-Library.Word"
begin

unbundle bit_operations_syntax

text \<open>
  \<^verbatim>\<open>src/edge_app/domain\<close>: attendance records, observations and receipts
  (\<^verbatim>\<open>attendance_record.hpp\<close>), gallery snapshots and the float32 normalisation of their
  embeddings (\<^verbatim>\<open>gallery_snapshot.hpp\<close>, \<^verbatim>\<open>.cpp\<close>), and the time-ordered event identifiers of
  \<^verbatim>\<open>uuid_v7.cpp\<close>. Times are 64-bit millisecond counts, kept as \<open>int\<close>; the operating
  system's random generator is an argument (\<open>None\<close> when it fails).
\<close>

section \<open>Attendance records\<close>

record attendance_record =
  record_id :: string
  payload :: string
  occurred_ms :: int
  next_attempt_ms :: int
  attempts :: int

record attendance_observation =
  occurred_at_utc_ms :: int
  camera_frame_id :: nat
  track_id :: nat
  identity_id :: string
  similarity :: single
  similarity_margin :: single
  pad_median_p_real :: single
  pad_median_margin_p_real :: single

record delivery_receipt =
  event_id :: string
  disposition :: string

section \<open>Gallery snapshots\<close>

definition embedding_dimension :: nat where
  "embedding_dimension = 512"

type_synonym embedding = "single list"

record gallery_template =
  template_identity :: string
  template_embedding :: embedding

record gallery_snapshot =
  version :: string
  etag :: string
  model_id :: string
  model_sha256 :: string
  template_ids :: "string list"
  templates :: "gallery_template list"

record gallery_metadata =
  meta_version :: string
  meta_etag :: string
  meta_model_id :: string
  meta_model_sha256 :: string

definition empty_snapshot :: gallery_snapshot where
  "empty_snapshot = \<lparr>version = [], etag = [], model_id = [], model_sha256 = [],
     template_ids = [], templates = []\<rparr>"

text \<open>The accumulation \<open>square += static_cast<double>(value) * value\<close>, in the array's order.\<close>

fun sum_of_squares :: "double \<Rightarrow> single list \<Rightarrow> double" where
  "sum_of_squares acc [] = acc"
| "sum_of_squares acc (v # vs) = sum_of_squares (acc + to_double v * to_double v) vs"

definition scale_embedding :: "single \<Rightarrow> embedding \<Rightarrow> embedding" where
  "scale_embedding inverse_norm vs = map (\<lambda>v. v * inverse_norm) vs"

definition normalize_embedding :: "embedding \<Rightarrow> embedding result" where
  "normalize_embedding e =
     (let norm = dsqrt (sum_of_squares 0 e)
      in if \<not> dfinite norm \<or> norm < double_lit (1 / 10 ^ 12)
         then Inl (InvalidArgument ''Invalid gallery embedding norm'')
         else Inr (scale_embedding (to_single (1 / norm)) e))"

lemma scale_embedding_length [simp]: "length (scale_embedding k e) = length e"
  by (simp add: scale_embedding_def)

lemma normalize_embedding_length: "normalize_embedding e = Inr e' \<Longrightarrow> length e' = length e"
  by (auto simp: normalize_embedding_def Let_def split: if_splits)

text \<open>A NaN or an infinity in a vector reaches the sum of squares, and so the norm check.\<close>

lemma double_add_NaN [simp]: "Dbl NaN + x = Dbl NaN" "x + Dbl NaN = Dbl NaN"
  by (simp add: plus_double_def, cases x, rename_tac v, case_tac v, simp_all add: plus_double_def)

lemma sum_of_squares_NaN: "sum_of_squares (Dbl NaN) vs = Dbl NaN"
  by (induction vs) simp_all

lemma square_not_finite: "\<not> sfinite v \<Longrightarrow> \<not> dfinite (to_double v * to_double v)"
  by (cases "sval v")
    (simp_all add: sfinite_def dfinite_def times_double_def to_double_def fl_signed_inf_def)

definition nonneg_double :: "double \<Rightarrow> bool" where
  "nonneg_double x = (x = Dbl NaN \<or> x = Dbl PInf \<or> (\<exists>q \<ge> 0. x = Dbl (Fin q)))"

lemma nonneg_double_simps [simp]:
  "nonneg_double (Dbl NaN)" "nonneg_double (Dbl PInf)" "\<not> nonneg_double (Dbl NInf)"
  "nonneg_double (Dbl (Fin q)) \<longleftrightarrow> 0 \<le> q"
  by (auto simp: nonneg_double_def)

lemma nonneg_round [simp]: "0 \<le> q \<Longrightarrow> nonneg_double (Dbl (fl_round f q))"
proof -
  assume "0 \<le> q"
  then have "0 \<le> round_rat f q" by (rule round_rat_nonneg)
  moreover obtain M where "pow2 (max_exponent f) = M" and "0 < M" by simp
  ultimately show ?thesis by (auto simp: fl_round_eq)
qed

lemma nonneg_square [simp]: "nonneg_double (to_double v * to_double v)"
  by (cases "sval v") (simp_all add: times_double_def to_double_def fl_signed_inf_def)

lemma nonneg_double_cases:
  assumes "nonneg_double x"
  obtains "x = Dbl NaN" | "x = Dbl PInf" | q where "0 \<le> q" "x = Dbl (Fin q)"
  using assms by (auto simp: nonneg_double_def)

lemma nonneg_add: "nonneg_double x \<Longrightarrow> nonneg_double y \<Longrightarrow> nonneg_double (x + y)"
  by (elim nonneg_double_cases) (simp_all add: plus_double_def)

lemma add_not_finite:
  "nonneg_double x \<Longrightarrow> nonneg_double y \<Longrightarrow> \<not> dfinite x \<or> \<not> dfinite y \<Longrightarrow> \<not> dfinite (x + y)"
  by (elim nonneg_double_cases) (simp_all add: plus_double_def dfinite_def)

lemma sum_of_squares_nonneg:
  "nonneg_double acc \<Longrightarrow> nonneg_double (sum_of_squares acc vs)"
  by (induction vs arbitrary: acc) (simp_all add: nonneg_add)

lemma sum_of_squares_not_finite:
  "nonneg_double acc \<Longrightarrow> \<not> dfinite acc \<or> (\<exists>v \<in> set vs. \<not> sfinite v)
   \<Longrightarrow> \<not> dfinite (sum_of_squares acc vs)"
proof (induction vs arbitrary: acc)
  case Nil
  then show ?case by simp
next
  case (Cons v vs)
  show ?case
  proof (cases "\<exists>u \<in> set vs. \<not> sfinite u")
    case True
    then show ?thesis using Cons.IH [OF nonneg_add [OF Cons.prems(1) nonneg_square [of v]]] by simp
  next
    case False
    with Cons.prems have "\<not> dfinite acc \<or> \<not> dfinite (to_double v * to_double v)"
      by (auto dest: square_not_finite)
    with Cons.prems(1) have "\<not> dfinite (acc + to_double v * to_double v)"
      by (intro add_not_finite) simp_all
    then show ?thesis using Cons.IH [OF nonneg_add [OF Cons.prems(1) nonneg_square [of v]]] by simp
  qed
qed

lemma sqrt_not_finite: "nonneg_double x \<Longrightarrow> \<not> dfinite x \<Longrightarrow> \<not> dfinite (dsqrt x)"
  by (auto simp: nonneg_double_def dfinite_def dsqrt_def)

lemma normalize_embedding_finite:
  assumes "normalize_embedding e = Inr e'"
  shows "\<forall>v \<in> set e. sfinite v"
proof (rule ccontr)
  assume "\<not> ?thesis"
  then have "\<exists>v \<in> set e. \<not> sfinite v" by blast
  moreover have "nonneg_double 0" by (auto simp: nonneg_double_def zero_double_def)
  ultimately have "\<not> dfinite (dsqrt (sum_of_squares 0 e))"
    by (intro sqrt_not_finite sum_of_squares_nonneg sum_of_squares_not_finite) simp_all
  with assms show False by (simp add: normalize_embedding_def Let_def)
qed

section \<open>Time-ordered identifiers\<close>

type_synonym u8 = "8 word"

definition hex_digit :: "nat \<Rightarrow> char" where
  "hex_digit d = (if d < 10 then char_of (48 + d) else char_of (87 + d))"

definition hex_byte :: "u8 \<Rightarrow> string" where
  "hex_byte b = [hex_digit (unat b div 16), hex_digit (unat b mod 16)]"

text \<open>
  The loop \<open>for (int i = 5; i >= 0; --i) { b[i] = static_cast<unsigned char>(ms); ms >>= 8; }\<close>:
  the argument \<open>n\<close> counts the bytes still to write, byte \<open>n - 1\<close> is written next.
\<close>

fun put_timestamp :: "nat \<Rightarrow> int \<Rightarrow> u8 list \<Rightarrow> u8 list" where
  "put_timestamp 0 ms b = b"
| "put_timestamp (Suc n) ms b = put_timestamp n (ms div 256) (b[n := word_of_int ms])"

definition stamp_version :: "u8 list \<Rightarrow> u8 list" where
  "stamp_version b =
     (let b' = b[6 := (b ! 6 AND 15) OR 0x70] in b'[8 := (b' ! 8 AND 63) OR 0x80])"

fun hex_groups :: "nat \<Rightarrow> u8 list \<Rightarrow> string" where
  "hex_groups i [] = []"
| "hex_groups i (b # bs) =
     (if i = 4 \<or> i = 6 \<or> i = 8 \<or> i = 10 then [CHR ''-''] else []) @ hex_byte b @ hex_groups (Suc i) bs"

text \<open>\<open>rng\<close> is the outcome of \<open>BCryptGenRandom\<close>: sixteen bytes, or \<open>None\<close> on failure.\<close>

definition uuid_v7 :: "u8 list option \<Rightarrow> int \<Rightarrow> string result" where
  "uuid_v7 rng ms =
     (if ms < 0 \<or> ms > 0xffffffffffff then Inl (InvalidArgument ''UUID timestamp out of range'')
      else case rng of
             None \<Rightarrow> Inl (RuntimeError ''CNG random failed'')
           | Some b \<Rightarrow> Inr (hex_groups 0 (stamp_version (put_timestamp 6 ms b))))"

text \<open>The abstract content of an identifier's first six bytes: the big-endian time.\<close>

definition timestamp_bytes :: "int \<Rightarrow> u8 list" where
  "timestamp_bytes ms =
     [word_of_int (ms div 256 ^ 5), word_of_int (ms div 256 ^ 4), word_of_int (ms div 256 ^ 3),
      word_of_int (ms div 256 ^ 2), word_of_int (ms div 256), word_of_int ms]"

lemma put_timestamp_6:
  assumes "length b = 16"
  shows "put_timestamp 6 ms b = timestamp_bytes ms @ drop 6 b"
proof -
  obtain b0 b1 b2 b3 b4 b5 where "take 6 b = [b0, b1, b2, b3, b4, b5]"
    using assms length_take [of 6 b] by (auto simp: numeral_eq_Suc length_Suc_conv)
  then obtain r where b: "b = [b0, b1, b2, b3, b4, b5] @ r"
    by (metis append_take_drop_id)
  show ?thesis
    unfolding b by (simp add: numeral_eq_Suc timestamp_bytes_def zdiv_zmult2_eq [symmetric])
qed

definition hex_value :: "char \<Rightarrow> nat" where
  "hex_value c = (if byte_of c < 58 then byte_of c - 48 else byte_of c - 87)"

lemma hex_value_digit [simp]: "d < 16 \<Longrightarrow> hex_value (hex_digit d) = d"
  by (auto simp: hex_value_def hex_digit_def byte_of_def)

lemma hex_digit_less_iff: "c < 16 \<Longrightarrow> d < 16 \<Longrightarrow> hex_digit c < hex_digit d \<longleftrightarrow> c < d"
  by (auto simp: hex_digit_def less_char_def)

lemma hex_digit_inj: "c < 16 \<Longrightarrow> d < 16 \<Longrightarrow> hex_digit c = hex_digit d \<longleftrightarrow> c = d"
  by (metis hex_value_digit)

end
