(* ===== verification/Storage.thy ===== *)
theory Storage
  imports Domain
begin

text \<open>
  \<^verbatim>\<open>src/edge_app/storage\<close>: one SQLite connection and the two repositories that share it.

  The SQL text is in the source, so the tables are modelled and every statement is a function on
  them; SQLite itself is not under \<^verbatim>\<open>src\<close>. What it may do to the program is an input: a list of
  outcomes, one per checked call (prepare, bind, step and reset of one statement are one call: all
  of them throw the same exception and change nothing). \<open>Failed rc\<close> is a result code other than
  OK, \<open>Landed rc\<close> is a COMMIT whose error is reported although the pages reached the disk, which
  \<^verbatim>\<open>ensure_enqueued\<close> calls an uncertain local COMMIT. An exhausted list means that the
  remaining calls succeed.

  \<open>stored\<close> is the durable content of the file, \<open>working\<close> what statements inside the open
  transaction see; outside a transaction they are equal (\<open>quiescent\<close>).
\<close>

section \<open>Tables\<close>

record outbox_row =
  row_id :: string
  row_payload :: string
  row_occurred :: int
  row_attempts :: int
  row_next :: int
  row_error :: string

record dead_row =
  dead_id :: string
  dead_payload :: string
  dead_reason :: string

record gallery_row =
  tmpl_id :: string
  tmpl_identity :: string
  tmpl_blob :: embedding

record tables =
  user_version :: int
  outbox :: "outbox_row list"
  dead_letters :: "dead_row list"
  gallery_state :: "gallery_metadata option"
  gallery_templates :: "gallery_row list"
  retry_not_before :: "int option"

definition no_tables :: tables where
  "no_tables = \<lparr>user_version = 0, outbox = [], dead_letters = [], gallery_state = None,
     gallery_templates = [], retry_not_before = None\<rparr>"

section \<open>Calls, statements, transactions\<close>

datatype outcome = Done | Failed int | Landed int

record connection =
  stored :: tables
  working :: tables
  outcomes :: "outcome list"

type_synonym 'a db = "(connection, 'a) run"

definition quiescent :: "connection \<Rightarrow> bool" where
  "quiescent c \<longleftrightarrow> working c = stored c"

definition next_outcome :: "connection \<Rightarrow> outcome" where
  "next_outcome c = (case outcomes c of [] \<Rightarrow> Done | x # _ \<Rightarrow> x)"

definition consume :: "connection \<Rightarrow> connection" where
  "consume c = c\<lparr>outcomes := tl (outcomes c)\<rparr>"

text \<open>A statement: the call fails with the given code, or SQLite evaluates it on the tables.\<close>

definition statement :: "(tables \<Rightarrow> int + 'a \<times> tables) \<Rightarrow> 'a db" where
  "statement f c =
     (case next_outcome c of
        Done \<Rightarrow> (case f (working c) of
                   Inl rc \<Rightarrow> (Inl (StorageError rc), consume c)
                 | Inr (x, t) \<Rightarrow> (Inr x, (consume c)\<lparr>working := t\<rparr>))
      | Failed rc \<Rightarrow> (Inl (StorageError rc), consume c)
      | Landed rc \<Rightarrow> (Inl (StorageError rc), consume c))"

definition query :: "(tables \<Rightarrow> 'a) \<Rightarrow> 'a db" where
  "query f = statement (\<lambda>t. Inr (f t, t))"

definition execute :: "(tables \<Rightarrow> tables) \<Rightarrow> unit db" where
  "execute f = statement (\<lambda>t. Inr ((), f t))"

definition rollback :: "connection \<Rightarrow> connection" where
  "rollback c = c\<lparr>working := stored c\<rparr>"

definition commit :: "unit db" where
  "commit c =
     (case next_outcome c of
        Done \<Rightarrow> (Inr (), (consume c)\<lparr>stored := working c\<rparr>)
      | Failed rc \<Rightarrow> (Inl (StorageError rc), rollback (consume c))
      | Landed rc \<Rightarrow> (Inl (StorageError rc), (consume c)\<lparr>stored := working c\<rparr>))"

text \<open>
  \<open>Transaction\<close>: BEGIN IMMEDIATE in the constructor, COMMIT at the end of the body, ROLLBACK in
  the destructor when the body or the COMMIT throws.
\<close>

definition transaction :: "'a db \<Rightarrow> 'a db" where
  "transaction body c =
     (case execute (\<lambda>t. t) c of
        (Inl e, c') \<Rightarrow> (Inl e, c')
      | (Inr _, c') \<Rightarrow>
          (case body c' of
             (Inl e, c'') \<Rightarrow> (Inl e, rollback c'')
           | (Inr x, c'') \<Rightarrow>
               (case commit c'' of
                  (Inl e, d) \<Rightarrow> (Inl e, d)
                | (Inr _, d) \<Rightarrow> (Inr x, d))))"

definition sqlite_constraint :: int where
  "sqlite_constraint = 19"

section \<open>Schema\<close>

definition schema_version :: int where
  "schema_version = 2"

definition create_schema :: "tables \<Rightarrow> tables" where
  "create_schema t = t\<lparr>outbox := [], dead_letters := [], gallery_state := None,
     gallery_templates := [], user_version := 1\<rparr>"

text \<open>\<open>SELECT 1, COALESCE(MAX(next_ms),0) FROM attendance_outbox\<close>.\<close>

definition latest_retry :: "outbox_row list \<Rightarrow> int" where
  "latest_retry rows = (case map row_next rows of [] \<Rightarrow> 0 | n # ns \<Rightarrow> foldl max n ns)"

definition migrate_v1_to_v2 :: "tables \<Rightarrow> tables" where
  "migrate_v1_to_v2 t = t\<lparr>retry_not_before := Some (latest_retry (outbox t)), user_version := 2\<rparr>"

text \<open>
  The version check and migration of the \<open>Database\<close> constructor (hardening the file and opening
  it come before and are \<open>prepare_private_file\<close> and SQLite).
\<close>

definition open_database :: "unit db" where
  "open_database =
     andThen (execute (\<lambda>t. t)) (\<lambda>_.
     andThen (query user_version) (\<lambda>v.
       if v < 0 \<or> v > schema_version then throw (RuntimeError ''Unsupported database schema version'')
       else if v < schema_version then
         transaction
           (andThen (if v = 0 then execute create_schema else ret ()) (\<lambda>_. execute migrate_v1_to_v2))
       else ret ()))"

section \<open>Outbox repository\<close>

definition record_of_row :: "outbox_row \<Rightarrow> attendance_record" where
  "record_of_row r = \<lparr>record_id = row_id r, payload = row_payload r, occurred_ms = row_occurred r,
     next_attempt_ms = row_next r, attempts = row_attempts r\<rparr>"

definition fresh_row :: "attendance_record \<Rightarrow> outbox_row" where
  "fresh_row r = \<lparr>row_id = record_id r, row_payload = payload r, row_occurred = occurred_ms r,
     row_attempts = 0, row_next = 0, row_error = []\<rparr>"

definition find_outbox :: "string \<Rightarrow> tables \<Rightarrow> outbox_row option" where
  "find_outbox k t = find (\<lambda>r. row_id r = k) (outbox t)"

definition find_dead :: "string \<Rightarrow> tables \<Rightarrow> dead_row option" where
  "find_dead k t = find (\<lambda>r. dead_id r = k) (dead_letters t)"

definition insert_outbox :: "attendance_record \<Rightarrow> tables \<Rightarrow> int + unit \<times> tables" where
  "insert_outbox r t =
     (if find_outbox (record_id r) t \<noteq> None then Inl sqlite_constraint
      else Inr ((), t\<lparr>outbox := outbox t @ [fresh_row r]\<rparr>))"

definition delete_outbox :: "string \<Rightarrow> tables \<Rightarrow> tables" where
  "delete_outbox k t = t\<lparr>outbox := filter (\<lambda>r. row_id r \<noteq> k) (outbox t)\<rparr>"

text \<open>\<open>INSERT INTO dead_letter SELECT ... WHERE event_id=?\<close>: no row to copy inserts nothing.\<close>

definition insert_dead :: "string \<Rightarrow> string \<Rightarrow> tables \<Rightarrow> int + unit \<times> tables" where
  "insert_dead k reason t =
     (case find_outbox k t of
        None \<Rightarrow> Inr ((), t)
      | Some r \<Rightarrow>
          if find_dead k t \<noteq> None then Inl sqlite_constraint
          else Inr ((), t\<lparr>dead_letters := dead_letters t @
                 [\<lparr>dead_id = k, dead_payload = row_payload r, dead_reason = reason\<rparr>]\<rparr>))"

definition dead :: "string \<Rightarrow> string \<Rightarrow> unit db" where
  "dead k reason =
     andThen (statement (insert_dead k reason)) (\<lambda>_. execute (delete_outbox k))"

definition enqueue :: "attendance_record \<Rightarrow> unit db" where
  "enqueue r = transaction (statement (insert_outbox r))"

definition ensure_enqueued :: "attendance_record \<Rightarrow> unit db" where
  "ensure_enqueued r = transaction
     (andThen (query (find_outbox (record_id r))) (\<lambda>existing.
        case existing of
          Some row \<Rightarrow>
            if row_payload row \<noteq> payload r \<or> row_occurred row \<noteq> occurred_ms r
            then throw (RuntimeError ''Conflicting local event ID'')
            else ret ()
        | None \<Rightarrow>
            andThen (query (find_dead (record_id r))) (\<lambda>rejected.
              case rejected of
                Some row \<Rightarrow>
                  if dead_payload row \<noteq> payload r
                  then throw (RuntimeError ''Conflicting retained event ID'')
                  else ret ()
              | None \<Rightarrow> statement (insert_outbox r))))"

text \<open>The key of \<open>ORDER BY occurred_ms,event_id\<close>, ordered lexicographically.\<close>

datatype delivery_key = Delivery_Key int string

instantiation delivery_key :: linorder
begin

fun less_eq_delivery_key :: "delivery_key \<Rightarrow> delivery_key \<Rightarrow> bool" where
  "Delivery_Key a s \<le> Delivery_Key b t \<longleftrightarrow> a < b \<or> (a = b \<and> s \<le> t)"

definition less_delivery_key :: "delivery_key \<Rightarrow> delivery_key \<Rightarrow> bool" where
  "less_delivery_key x y \<longleftrightarrow> x \<le> y \<and> \<not> y \<le> x"

instance
proof
  fix x y z :: delivery_key
  show "x < y \<longleftrightarrow> x \<le> y \<and> \<not> y \<le> x" by (simp add: less_delivery_key_def)
  show "x \<le> x" by (cases x) simp
  show "x \<le> y \<Longrightarrow> y \<le> z \<Longrightarrow> x \<le> z" by (cases x; cases y; cases z) auto
  show "x \<le> y \<Longrightarrow> y \<le> x \<Longrightarrow> x = y" by (cases x; cases y) auto
  show "x \<le> y \<or> y \<le> x" by (cases x; cases y) auto
qed

end

definition delivery_key :: "outbox_row \<Rightarrow> delivery_key" where
  "delivery_key r = Delivery_Key (row_occurred r) (row_id r)"

definition due_rows :: "int \<Rightarrow> nat \<Rightarrow> tables \<Rightarrow> outbox_row list" where
  "due_rows now limit t =
     (case retry_not_before t of
        None \<Rightarrow> []
      | Some pause \<Rightarrow>
          take (min limit 100)
            (sort_key delivery_key (filter (\<lambda>r. row_next r \<le> now \<and> pause \<le> now) (outbox t))))"

definition due :: "int \<Rightarrow> nat \<Rightarrow> attendance_record list db" where
  "due now limit = query (\<lambda>t. map record_of_row (due_rows now limit t))"

definition default_limit :: nat where
  "default_limit = 32"

definition postpone :: "int \<Rightarrow> tables \<Rightarrow> tables" where
  "postpone next_ms t = t\<lparr>retry_not_before := map_option (max next_ms) (retry_not_before t)\<rparr>"

definition bump_row :: "int \<Rightarrow> string \<Rightarrow> string \<Rightarrow> tables \<Rightarrow> tables" where
  "bump_row next_ms reason k t = t\<lparr>outbox := map (\<lambda>r.
     if row_id r = k
     then r\<lparr>row_attempts := min (row_attempts r + 1) 30, row_next := next_ms, row_error := reason\<rparr>
     else r) (outbox t)\<rparr>"

definition retry :: "attendance_record list \<Rightarrow> int \<Rightarrow> string \<Rightarrow> unit db" where
  "retry rows next_ms reason =
     (if rows = [] then ret ()
      else transaction
        (andThen (execute (postpone next_ms)) (\<lambda>_.
           forM (\<lambda>r. execute (bump_row next_ms reason (record_id r))) rows)))"

definition known_disposition :: "string \<Rightarrow> bool" where
  "known_disposition d \<longleftrightarrow> d = ''accepted'' \<or> d = ''duplicate'' \<or> d = ''rejected''"

definition acknowledge :: "delivery_receipt list \<Rightarrow> unit db" where
  "acknowledge receipts =
     (if list_ex (\<lambda>r. \<not> known_disposition (disposition r)) receipts
      then throw (InvalidArgument ''Invalid receipt disposition'')
      else transaction
        (forM (\<lambda>r. if disposition r = ''rejected'' then dead (event_id r) ''business_rejected''
                   else execute (delete_outbox (event_id r))) receipts))"

definition dead_letter :: "attendance_record list \<Rightarrow> string \<Rightarrow> unit db" where
  "dead_letter rows reason = transaction (forM (\<lambda>r. dead (record_id r) reason) rows)"

definition pending_count :: "nat db" where
  "pending_count = query (\<lambda>t. length (outbox t))"

definition dead_count :: "nat db" where
  "dead_count = query (\<lambda>t. length (dead_letters t))"

section \<open>Gallery repository\<close>

text \<open>
  \<open>INSERT INTO gallery_template\<close>: the template identifier is the primary key, and the column check
  \<open>length(embedding)=2048\<close> asks for 512 floats.
\<close>

definition insert_template :: "gallery_row \<Rightarrow> tables \<Rightarrow> int + unit \<times> tables" where
  "insert_template r t =
     (if tmpl_id r \<in> tmpl_id ` set (gallery_templates t) \<or> length (tmpl_blob r) \<noteq> embedding_dimension
      then Inl sqlite_constraint
      else Inr ((), t\<lparr>gallery_templates := gallery_templates t @ [r]\<rparr>))"

definition prepare_template :: "gallery_template \<Rightarrow> gallery_template result" where
  "prepare_template g =
     (if template_identity g = [] then Inl (InvalidArgument ''Empty identity'')
      else bind_result (normalize_embedding (template_embedding g))
             (\<lambda>e. Inr (g\<lparr>template_embedding := e\<rparr>)))"

definition gallery_row_of :: "string \<Rightarrow> gallery_template \<Rightarrow> gallery_row" where
  "gallery_row_of k g = \<lparr>tmpl_id = k, tmpl_identity = template_identity g, tmpl_blob = template_embedding g\<rparr>"

definition metadata_of :: "gallery_snapshot \<Rightarrow> gallery_metadata" where
  "metadata_of g = \<lparr>meta_version = version g, meta_etag = etag g, meta_model_id = model_id g,
     meta_model_sha256 = model_sha256 g\<rparr>"

definition replace_gallery :: "gallery_snapshot \<Rightarrow> unit db" where
  "replace_gallery g =
     (if length (template_ids g) \<noteq> length (templates g) \<or> version g = []
      then throw (InvalidArgument ''Invalid gallery snapshot'')
      else andThen (lift_result (mapM prepare_template (templates g))) (\<lambda>values.
        transaction
          (andThen (execute (\<lambda>t. t\<lparr>gallery_templates := [], gallery_state := None\<rparr>)) (\<lambda>_.
           andThen (execute (\<lambda>t. t\<lparr>gallery_state := Some (metadata_of g)\<rparr>)) (\<lambda>_.
             forM (\<lambda>r. statement (insert_template r)) (map2 gallery_row_of (template_ids g) values))))))"

text \<open>
  \<open>load\<close>: the blob length check of the source guards the copy into the 512-float array; a blob is
  4 bytes per element, so it fails exactly when a stored embedding has another length.
\<close>

definition load_gallery :: "gallery_snapshot db" where
  "load_gallery =
     andThen (query gallery_state) (\<lambda>state.
       case state of
         None \<Rightarrow> ret empty_snapshot
       | Some m \<Rightarrow>
           andThen (query (\<lambda>t. sort_key tmpl_id (gallery_templates t))) (\<lambda>rows.
             if list_ex (\<lambda>r. length (tmpl_blob r) \<noteq> embedding_dimension) rows
             then throw (RuntimeError ''Corrupt gallery blob'')
             else ret \<lparr>version = meta_version m, etag = meta_etag m, model_id = meta_model_id m,
                        model_sha256 = meta_model_sha256 m, template_ids = map tmpl_id rows,
                        templates = map (\<lambda>r. \<lparr>template_identity = tmpl_identity r,
                                               template_embedding = tmpl_blob r\<rparr>) rows\<rparr>))"

definition load_metadata :: "gallery_metadata db" where
  "load_metadata = query (\<lambda>t. case gallery_state t of
     None \<Rightarrow> \<lparr>meta_version = [], meta_etag = [], meta_model_id = [], meta_model_sha256 = []\<rparr>
   | Some m \<Rightarrow> m)"

end
