(* ===== verification/Durability.thy ===== *)
theory Durability
  imports Storage
begin

text \<open>
  What the storage layer promises. A transaction body \<open>implements\<close> a specification on tables when
  every run of it that returns computes the specification, and every run that throws either throws
  what the specification throws or reports an SQLite failure. \<open>atomic_operation\<close> is the contract
  clients rely on: whatever the outcomes of the SQLite calls, the durable tables afterwards are the
  old ones or those of the complete operation. \<open>idempotent_operation\<close> adds what makes retrying an
  uncertain COMMIT safe. Every repository operation is an instance.
\<close>

named_theorems implements_rules \<open>compositional rules for implements\<close>

type_synonym 'a spec = "tables \<Rightarrow> error + 'a \<times> tables"

definition storage_failure :: "error \<Rightarrow> bool" where
  "storage_failure e \<longleftrightarrow> (\<exists>rc. e = StorageError rc)"

definition implements :: "'a db \<Rightarrow> 'a spec \<Rightarrow> bool" where
  "implements m f \<longleftrightarrow> (\<forall>c r c'. m c = (r, c') \<longrightarrow> stored c' = stored c \<and>
     (case r of Inr x \<Rightarrow> f (working c) = Inr (x, working c')
      | Inl e \<Rightarrow> f (working c) = Inl e \<or> storage_failure e))"

definition spec_bind :: "'a spec \<Rightarrow> ('a \<Rightarrow> 'b spec) \<Rightarrow> 'b spec" where
  "spec_bind f g t = bind_result (f t) (\<lambda>(x, t'). g x t')"

definition spec_of :: "(tables \<Rightarrow> int + 'a \<times> tables) \<Rightarrow> 'a spec" where
  "spec_of f t = (case f t of Inl rc \<Rightarrow> Inl (StorageError rc) | Inr r \<Rightarrow> Inr r)"

fun spec_forM :: "('a \<Rightarrow> unit spec) \<Rightarrow> 'a list \<Rightarrow> unit spec" where
  "spec_forM f [] t = Inr ((), t)"
| "spec_forM f (x # xs) t = bind_result (f x t) (\<lambda>(_, t'). spec_forM f xs t')"

lemma implements_stored: "implements m f \<Longrightarrow> m c = (r, c') \<Longrightarrow> stored c' = stored c"
  by (simp add: implements_def)

lemma implements_Inr: "implements m f \<Longrightarrow> m c = (Inr x, c') \<Longrightarrow> f (working c) = Inr (x, working c')"
  unfolding implements_def by fastforce

lemma implements_Inl:
  "implements m f \<Longrightarrow> m c = (Inl e, c') \<Longrightarrow> f (working c) = Inl e \<or> storage_failure e"
  unfolding implements_def by fastforce

lemma consume_simps [simp]:
  "stored (consume c) = stored c" "working (consume c) = working c"
  by (simp_all add: consume_def)

lemma implements_statement [implements_rules]: "implements (statement f) (spec_of f)"
  by (auto simp: implements_def statement_def spec_of_def storage_failure_def
      split: outcome.splits sum.splits prod.splits)

lemma implements_query [implements_rules]: "implements (query f) (\<lambda>t. Inr (f t, t))"
  by (auto simp: implements_def query_def statement_def storage_failure_def split: outcome.splits)

lemma implements_execute [implements_rules]: "implements (execute f) (\<lambda>t. Inr ((), f t))"
  by (auto simp: implements_def execute_def statement_def storage_failure_def split: outcome.splits)

lemma implements_ret [implements_rules]: "implements (ret x) (\<lambda>t. Inr (x, t))"
  by (simp add: implements_def ret_def)

lemma implements_throw [implements_rules]: "implements (throw e) (\<lambda>t. Inl e)"
  by (simp add: implements_def throw_def)

lemma implements_bind [implements_rules]:
  assumes m: "implements m f" and k: "\<And>x. implements (k x) (g x)"
  shows "implements (andThen m k) (spec_bind f g)"
  unfolding implements_def
proof (intro allI impI)
  fix c r c'
  assume run: "andThen m k c = (r, c')"
  obtain q d where md: "m c = (q, d)" by fastforce
  show "stored c' = stored c \<and>
     (case r of Inr x \<Rightarrow> spec_bind f g (working c) = Inr (x, working c')
      | Inl e \<Rightarrow> spec_bind f g (working c) = Inl e \<or> storage_failure e)"
  proof (cases q)
    case (Inl e)
    with md run have "r = Inl e" "c' = d" by (auto simp: andThen_def)
    with Inl md implements_stored [OF m md] implements_Inl [OF m, of c e d] show ?thesis
      by (auto simp: spec_bind_def)
  next
    case (Inr x)
    with md run have kd: "k x d = (r, c')" by (simp add: andThen_def)
    have "f (working c) = Inr (x, working d)" using Inr md implements_Inr [OF m] by blast
    then have "spec_bind f g (working c) = g x (working d)" by (simp add: spec_bind_def)
    with kd implements_stored [OF k kd] implements_stored [OF m md]
      implements_Inr [OF k, of x d _ c'] implements_Inl [OF k, of x d _ c'] show ?thesis
      by (cases r) auto
  qed
qed

lemma implements_if [implements_rules]:
  "(b \<Longrightarrow> implements m f) \<Longrightarrow> (\<not> b \<Longrightarrow> implements n g)
   \<Longrightarrow> implements (if b then m else n) (if b then f else g)"
  by simp

lemma implements_option [implements_rules]:
  "implements m f \<Longrightarrow> (\<And>x. implements (n x) (g x))
   \<Longrightarrow> implements (case o' of None \<Rightarrow> m | Some x \<Rightarrow> n x) (case o' of None \<Rightarrow> f | Some x \<Rightarrow> g x)"
  by (cases o') simp_all

lemma implements_forM [implements_rules]:
  assumes "\<And>x. implements (m x) (f x)"
  shows "implements (forM m xs) (spec_forM f xs)"
proof (induction xs)
  case Nil
  have "spec_forM f [] = (\<lambda>t. Inr ((), t))" by (simp add: fun_eq_iff)
  then show ?case by (simp add: implements_ret)
next
  case (Cons x xs)
  have "spec_forM f (x # xs) = spec_bind (f x) (\<lambda>_. spec_forM f xs)"
    by (simp add: fun_eq_iff spec_bind_def)
  then show ?case by (simp add: implements_bind assms Cons.IH)
qed

section \<open>The contract\<close>

locale atomic_operation =
  fixes operation :: "'a db" and spec :: "'a spec"
  assumes commits: "quiescent c \<Longrightarrow> operation c = (Inr x, c')
      \<Longrightarrow> quiescent c' \<and> spec (stored c) = Inr (x, stored c')"
    and fails: "quiescent c \<Longrightarrow> operation c = (Inl e, c')
      \<Longrightarrow> quiescent c' \<and> (stored c' = stored c \<or> (\<exists>x. spec (stored c) = Inr (x, stored c')))"
begin

lemma quiescent_after: "quiescent c \<Longrightarrow> operation c = (r, c') \<Longrightarrow> quiescent c'"
  using commits fails by (cases r) blast+

text \<open>An invariant of the specification is an invariant of the operation, whatever fails.\<close>

lemma preserves:
  assumes "\<And>t x t'. P t \<Longrightarrow> spec t = Inr (x, t') \<Longrightarrow> P t'"
    and "quiescent c" and "P (stored c)" and "operation c = (r, c')"
  shows "P (stored c')"
proof (cases r)
  case (Inl e)
  then show ?thesis using assms fails [of c e c'] by auto
next
  case (Inr x)
  then show ?thesis using assms commits [of c x c'] by blast
qed

end

text \<open>Attempts of the same operation until one returns, at most \<open>n\<close> of them.\<close>

fun run_until :: "nat \<Rightarrow> 'a db \<Rightarrow> 'a db" where
  "run_until 0 m c = m c"
| "run_until (Suc n) m c = (case m c of (Inr x, c') \<Rightarrow> (Inr x, c') | (Inl e, c') \<Rightarrow> run_until n m c')"

locale idempotent_operation = atomic_operation operation spec
  for operation :: "'a db" and spec :: "'a spec" +
  assumes idempotent: "spec t = Inr (x, t') \<Longrightarrow> spec t' = Inr (x, t')"
begin

text \<open>However many attempts failed, before or after their COMMIT landed, a success leaves the
  effect of exactly one execution.\<close>

lemma exactly_once:
  "quiescent c \<Longrightarrow> run_until n operation c = (Inr x, c') \<Longrightarrow> spec (stored c) = Inr (x, stored c')"
proof (induction n arbitrary: c)
  case 0
  then show ?case using commits by simp
next
  case (Suc n)
  show ?case
  proof (cases "operation c")
    case (Pair r d)
    show ?thesis
    proof (cases r)
      case (Inr y)
      with Pair Suc.prems show ?thesis using commits [of c y d] by simp
    next
      case (Inl e)
      with Pair Suc.prems have run: "run_until n operation d = (Inr x, c')" by simp
      from fails [OF Suc.prems(1)] Pair Inl have d: "quiescent d"
        "stored d = stored c \<or> (\<exists>y. spec (stored c) = Inr (y, stored d))" by auto
      from Suc.IH [OF d(1) run] have "spec (stored d) = Inr (x, stored c')" .
      with d(2) show ?thesis using idempotent by fastforce
    qed
  qed
qed

end

lemma quiescent_rollback [simp]: "quiescent (rollback c)" "stored (rollback c) = stored c"
  by (simp_all add: quiescent_def rollback_def)

lemma transaction_atomic:
  assumes "implements body f"
  shows "atomic_operation (transaction body) f"
proof
  fix c x c'
  assume q: "quiescent c"
  define c1 where "c1 = snd (execute (\<lambda>t. t) c)"
  have c1: "stored c1 = stored c" "working c1 = working c"
    using q by (auto simp: c1_def execute_def statement_def quiescent_def split: outcome.splits)
  {
    assume run: "transaction body c = (Inr x, c')"
    then obtain c2 where "body c1 = (Inr x, c2)" "commit c2 = (Inr (), c')"
      by (auto simp: transaction_def c1_def split: prod.splits sum.splits)
    then show "quiescent c' \<and> f (stored c) = Inr (x, stored c')"
      using implements_stored [OF assms] implements_Inr [OF assms, of c1 x c2] c1 q
      by (auto simp: commit_def quiescent_def split: outcome.splits)
  }
  {
    fix e
    assume run: "transaction body c = (Inl e, c')"
    then consider "c' = c1" | c2 where "body c1 = (Inl e, c2)" "c' = rollback c2"
      | x c2 where "body c1 = (Inr x, c2)" "commit c2 = (Inl e, c')"
      by (auto simp: transaction_def c1_def split: prod.splits sum.splits)
    then show "quiescent c' \<and> (stored c' = stored c \<or> (\<exists>x. f (stored c) = Inr (x, stored c')))"
    proof cases
      case 1
      then show ?thesis using c1 q by (simp add: quiescent_def)
    next
      case 2
      then show ?thesis using implements_stored [OF assms 2(1)] c1 by simp
    next
      case 3
      note b = implements_stored [OF assms 3(1)] implements_Inr [OF assms 3(1)]
      from 3(2) b c1 q show ?thesis
        by (auto simp: commit_def quiescent_def rollback_def split: outcome.splits)
    qed
  }
qed

section \<open>Specifications of the repository operations\<close>

definition spec_enqueue :: "attendance_record \<Rightarrow> unit spec" where
  "spec_enqueue r t =
     (if find_outbox (record_id r) t \<noteq> None then Inl (StorageError sqlite_constraint)
      else Inr ((), t\<lparr>outbox := outbox t @ [fresh_row r]\<rparr>))"

definition spec_ensure_enqueued :: "attendance_record \<Rightarrow> unit spec" where
  "spec_ensure_enqueued r t =
     (case find_outbox (record_id r) t of
        Some row \<Rightarrow>
          if row_payload row = payload r \<and> row_occurred row = occurred_ms r then Inr ((), t)
          else Inl (RuntimeError ''Conflicting local event ID'')
      | None \<Rightarrow>
          (case find_dead (record_id r) t of
             Some row \<Rightarrow>
               if dead_payload row = payload r then Inr ((), t)
               else Inl (RuntimeError ''Conflicting retained event ID'')
           | None \<Rightarrow> Inr ((), t\<lparr>outbox := outbox t @ [fresh_row r]\<rparr>)))"

definition spec_retry :: "attendance_record list \<Rightarrow> int \<Rightarrow> string \<Rightarrow> unit spec" where
  "spec_retry rows next_ms reason t =
     (if rows = [] then Inr ((), t)
      else Inr ((), foldl (\<lambda>t r. bump_row next_ms reason (record_id r) t) (postpone next_ms t) rows))"

definition spec_dead :: "string \<Rightarrow> string \<Rightarrow> unit spec" where
  "spec_dead k reason t =
     bind_result (spec_of (insert_dead k reason) t) (\<lambda>(_, t'). Inr ((), delete_outbox k t'))"

definition spec_acknowledge :: "delivery_receipt list \<Rightarrow> unit spec" where
  "spec_acknowledge receipts t =
     (if list_ex (\<lambda>r. \<not> known_disposition (disposition r)) receipts
      then Inl (InvalidArgument ''Invalid receipt disposition'')
      else spec_forM (\<lambda>r. if disposition r = ''rejected'' then spec_dead (event_id r) ''business_rejected''
                        else (\<lambda>t. Inr ((), delete_outbox (event_id r) t))) receipts t)"

definition spec_dead_letter :: "attendance_record list \<Rightarrow> string \<Rightarrow> unit spec" where
  "spec_dead_letter rows reason = spec_forM (\<lambda>r. spec_dead (record_id r) reason) rows"

definition spec_replace_gallery :: "gallery_snapshot \<Rightarrow> unit spec" where
  "spec_replace_gallery g t =
     (if length (template_ids g) \<noteq> length (templates g) \<or> version g = []
      then Inl (InvalidArgument ''Invalid gallery snapshot'')
      else bind_result (mapM prepare_template (templates g)) (\<lambda>values.
        spec_forM (\<lambda>r. spec_of (insert_template r)) (map2 gallery_row_of (template_ids g) values)
          (t\<lparr>gallery_templates := [], gallery_state := Some (metadata_of g)\<rparr>)))"

lemma spec_forM_total: "spec_forM (\<lambda>x t. Inr ((), f x t)) xs t = Inr ((), foldl (\<lambda>t x. f x t) t xs)"
  by (induction xs arbitrary: t) simp_all

lemma implements_dead [implements_rules]: "implements (dead k reason) (spec_dead k reason)"
proof -
  have "spec_dead k reason = spec_bind (spec_of (insert_dead k reason)) (\<lambda>_ t. Inr ((), delete_outbox k t))"
    by (simp add: fun_eq_iff spec_dead_def spec_bind_def)
  then show ?thesis unfolding dead_def by (auto intro!: implements_rules)
qed

text \<open>An operation that does nothing, or refuses before it touches SQLite, is trivially atomic.\<close>

lemma atomic_ret: "atomic_operation (ret x) (\<lambda>t. Inr (x, t))"
  by unfold_locales (auto simp: ret_def)

lemma atomic_throw: "atomic_operation (throw e) (\<lambda>t. Inl e)"
  by unfold_locales (auto simp: throw_def)

lemma atomic_if:
  "(b \<Longrightarrow> atomic_operation m f) \<Longrightarrow> (\<not> b \<Longrightarrow> atomic_operation n g)
   \<Longrightarrow> atomic_operation (if b then m else n) (\<lambda>t. if b then f t else g t)"
  by (cases b) simp_all

lemma atomic_lift:
  assumes "\<And>x. r = Inr x \<Longrightarrow> atomic_operation (m x) (f x)"
  shows "atomic_operation (andThen (lift_result r) m) (\<lambda>t. bind_result r (\<lambda>x. f x t))"
proof (cases r)
  case (Inl e)
  then have "andThen (lift_result r) m = throw e" by (simp add: fun_eq_iff run_simps)
  with Inl show ?thesis using atomic_throw [of e] by simp
next
  case (Inr x)
  then have "andThen (lift_result r) m = m x" by (simp add: fun_eq_iff run_simps)
  with Inr assms show ?thesis by simp
qed

interpretation enqueue_op: atomic_operation "enqueue r" "spec_enqueue r" for r
proof -
  have "spec_enqueue r = spec_of (insert_outbox r)"
    by (simp add: fun_eq_iff spec_enqueue_def spec_of_def insert_outbox_def)
  then show "atomic_operation (enqueue r) (spec_enqueue r)"
    unfolding enqueue_def by (auto intro!: transaction_atomic implements_rules)
qed

lemma fresh_row_simps [simp]:
  "row_id (fresh_row r) = record_id r" "row_payload (fresh_row r) = payload r"
  "row_occurred (fresh_row r) = occurred_ms r" "row_attempts (fresh_row r) = 0"
  "row_next (fresh_row r) = 0"
  by (simp_all add: fresh_row_def)

lemma spec_ensure_idempotent:
  "spec_ensure_enqueued r t = Inr (x, t') \<Longrightarrow> spec_ensure_enqueued r t' = Inr (x, t')"
  by (auto simp: spec_ensure_enqueued_def find_outbox_def split: option.splits if_splits)

interpretation ensure_op: idempotent_operation "ensure_enqueued r" "spec_ensure_enqueued r" for r
proof -
  let ?spec = "spec_bind (\<lambda>t. Inr (find_outbox (record_id r) t, t)) (\<lambda>existing.
      case existing of
        Some row \<Rightarrow>
          if row_payload row \<noteq> payload r \<or> row_occurred row \<noteq> occurred_ms r
          then (\<lambda>t. Inl (RuntimeError ''Conflicting local event ID''))
          else (\<lambda>t. Inr ((), t))
      | None \<Rightarrow> spec_bind (\<lambda>t. Inr (find_dead (record_id r) t, t)) (\<lambda>rejected.
          case rejected of
            Some row \<Rightarrow>
              if dead_payload row \<noteq> payload r
              then (\<lambda>t. Inl (RuntimeError ''Conflicting retained event ID''))
              else (\<lambda>t. Inr ((), t))
          | None \<Rightarrow> spec_of (insert_outbox r)))"
  have spec: "?spec = spec_ensure_enqueued r"
    by (auto simp: fun_eq_iff spec_ensure_enqueued_def spec_bind_def spec_of_def insert_outbox_def
        split: option.splits)
  have "atomic_operation (ensure_enqueued r) ?spec"
    unfolding ensure_enqueued_def by (rule transaction_atomic) (intro implements_rules)
  then show "idempotent_operation (ensure_enqueued r) (spec_ensure_enqueued r)"
    unfolding spec
    by (rule idempotent_operation.intro)
      (rule idempotent_operation_axioms.intro, rule spec_ensure_idempotent)
qed

interpretation retry_op: atomic_operation "retry rows next_ms reason" "spec_retry rows next_ms reason"
  for rows next_ms reason
proof -
  have spec: "(\<lambda>t. if rows = [] then Inr ((), t)
      else spec_bind (\<lambda>t. Inr ((), postpone next_ms t))
        (\<lambda>_. spec_forM (\<lambda>r t. Inr ((), bump_row next_ms reason (record_id r) t)) rows) t)
      = spec_retry rows next_ms reason"
    by (simp add: fun_eq_iff spec_retry_def spec_bind_def spec_forM_total)
  have "atomic_operation (retry rows next_ms reason)
     (\<lambda>t. if rows = [] then Inr ((), t)
       else spec_bind (\<lambda>t. Inr ((), postpone next_ms t))
         (\<lambda>_. spec_forM (\<lambda>r t. Inr ((), bump_row next_ms reason (record_id r) t)) rows) t)"
    unfolding retry_def by (intro atomic_if atomic_ret transaction_atomic implements_rules)
  then show "atomic_operation (retry rows next_ms reason) (spec_retry rows next_ms reason)"
    unfolding spec .
qed

lemma atomic_acknowledge: "atomic_operation (acknowledge receipts) (spec_acknowledge receipts)"
proof -
  have "atomic_operation (acknowledge receipts)
     (\<lambda>t. if list_ex (\<lambda>r. \<not> known_disposition (disposition r)) receipts
       then Inl (InvalidArgument ''Invalid receipt disposition'')
       else spec_forM (\<lambda>r. if disposition r = ''rejected'' then spec_dead (event_id r) ''business_rejected''
                        else (\<lambda>t. Inr ((), delete_outbox (event_id r) t))) receipts t)"
    unfolding acknowledge_def by (intro atomic_if atomic_throw transaction_atomic implements_rules)
  then show ?thesis by (simp add: spec_acknowledge_def [abs_def])
qed

lemma atomic_dead_letter: "atomic_operation (dead_letter rows reason) (spec_dead_letter rows reason)"
  unfolding dead_letter_def spec_dead_letter_def by (intro transaction_atomic implements_rules)

interpretation replace_op: atomic_operation "replace_gallery g" "spec_replace_gallery g" for g
proof -
  let ?body = "\<lambda>values. spec_bind (\<lambda>t. Inr ((), t\<lparr>gallery_templates := [], gallery_state := None\<rparr>))
      (\<lambda>_. spec_bind (\<lambda>t. Inr ((), t\<lparr>gallery_state := Some (metadata_of g)\<rparr>))
        (\<lambda>_. spec_forM (\<lambda>r. spec_of (insert_template r)) (map2 gallery_row_of (template_ids g) values)))"
  have spec: "(\<lambda>t. if length (template_ids g) \<noteq> length (templates g) \<or> version g = []
      then Inl (InvalidArgument ''Invalid gallery snapshot'')
      else bind_result (mapM prepare_template (templates g)) (\<lambda>values. ?body values t))
    = spec_replace_gallery g"
    by (simp add: fun_eq_iff spec_replace_gallery_def spec_bind_def)
  have "atomic_operation (replace_gallery g) (\<lambda>t. if length (template_ids g) \<noteq> length (templates g) \<or> version g = []
      then Inl (InvalidArgument ''Invalid gallery snapshot'')
      else bind_result (mapM prepare_template (templates g)) (\<lambda>values. ?body values t))"
    unfolding replace_gallery_def
    by (intro atomic_if atomic_throw atomic_lift transaction_atomic implements_rules)
  then show "atomic_operation (replace_gallery g) (spec_replace_gallery g)" unfolding spec .
qed

section \<open>Events and the table invariant\<close>

text \<open>Where an event is: waiting for delivery with its payload, or retained after a rejection.\<close>

definition pending :: "tables \<Rightarrow> string \<rightharpoonup> string" where
  "pending t k = map_option row_payload (find_outbox k t)"

definition retained :: "tables \<Rightarrow> string \<rightharpoonup> string" where
  "retained t k = map_option dead_payload (find_dead k t)"

definition tables_ok :: "tables \<Rightarrow> bool" where
  "tables_ok t \<longleftrightarrow>
     distinct (map row_id (outbox t)) \<and> distinct (map dead_id (dead_letters t)) \<and>
     row_id ` set (outbox t) \<inter> dead_id ` set (dead_letters t) = {} \<and>
     (\<forall>r \<in> set (outbox t). 0 \<le> row_attempts r \<and> row_attempts r \<le> 30) \<and>
     retry_not_before t \<noteq> None"

lemma find_outbox_None: "find_outbox k t = None \<longleftrightarrow> k \<notin> row_id ` set (outbox t)"
  by (auto simp: find_outbox_def find_None_iff_all)

lemma find_dead_None: "find_dead k t = None \<longleftrightarrow> k \<notin> dead_id ` set (dead_letters t)"
  by (auto simp: find_dead_def find_None_iff_all)

lemma pending_None: "pending t k = None \<longleftrightarrow> k \<notin> row_id ` set (outbox t)"
  by (simp add: pending_def find_outbox_None)

lemma retained_None: "retained t k = None \<longleftrightarrow> k \<notin> dead_id ` set (dead_letters t)"
  by (simp add: retained_def find_dead_None)

lemma find_map_same:
  "(\<And>x. f (g x) = f x) \<Longrightarrow> find (\<lambda>x. f x = k) (map g xs) = map_option g (find (\<lambda>x. f x = k) xs)"
  by (induction xs) simp_all

lemma find_filter_other:
  "find (\<lambda>x. f x = k) (filter (\<lambda>x. f x \<noteq> j) xs) = (if k = j then None else find (\<lambda>x. f x = k) xs)"
  by (induction xs) auto

lemma pending_delete [simp]: "pending (delete_outbox k t) = (pending t)(k := None)"
  by (rule ext) (simp add: pending_def find_outbox_def delete_outbox_def find_filter_other)

lemma retained_delete [simp]: "retained (delete_outbox k t) = retained t"
  by (rule ext) (simp add: retained_def find_dead_def delete_outbox_def)

lemma pending_bump [simp]: "pending (bump_row n reason k t) = pending t"
proof (rule ext)
  fix j
  have "find (\<lambda>r. row_id r = j) (map g (outbox t)) = map_option g (find (\<lambda>r. row_id r = j) (outbox t))"
    if "\<And>r. row_id (g r) = row_id r" for g :: "outbox_row \<Rightarrow> outbox_row"
    by (rule find_map_same) (rule that)
  then show "pending (bump_row n reason k t) j = pending t j"
    by (simp add: pending_def find_outbox_def bump_row_def option.map_comp) (cases "find (\<lambda>r. row_id r = j) (outbox t)"; simp)
qed

lemma retained_bump [simp]: "retained (bump_row n reason k t) = retained t"
  by (rule ext) (simp add: retained_def find_dead_def bump_row_def)

lemma pending_postpone [simp]: "pending (postpone n t) = pending t" "retained (postpone n t) = retained t"
  by (simp_all add: fun_eq_iff pending_def retained_def find_outbox_def find_dead_def postpone_def)

lemma pending_foldl_bump [simp]:
  "pending (foldl (\<lambda>t r. bump_row n reason (f r) t) t rows) = pending t"
  "retained (foldl (\<lambda>t r. bump_row n reason (f r) t) t rows) = retained t"
  by (induction rows arbitrary: t) simp_all

lemma ok_delete: "tables_ok t \<Longrightarrow> tables_ok (delete_outbox k t)"
  by (auto simp: tables_ok_def delete_outbox_def intro: distinct_map_filter)

lemma ok_bump: "tables_ok t \<Longrightarrow> tables_ok (bump_row n reason k t)"
proof -
  assume ok: "tables_ok t"
  have "map row_id (map (\<lambda>r. if row_id r = k
     then r\<lparr>row_attempts := min (row_attempts r + 1) 30, row_next := n, row_error := reason\<rparr>
     else r) (outbox t)) = map row_id (outbox t)" by simp
  with ok show ?thesis
    by (auto simp: tables_ok_def bump_row_def image_image comp_def simp del: map_map split: if_splits)
qed

lemma ok_postpone: "tables_ok t \<Longrightarrow> tables_ok (postpone n t)"
  by (auto simp: tables_ok_def postpone_def)

lemma ok_foldl_bump: "tables_ok t \<Longrightarrow> tables_ok (foldl (\<lambda>t r. bump_row n reason (f r) t) t rows)"
  by (induction rows arbitrary: t) (simp_all add: ok_bump)

lemma spec_dead_ok:
  assumes "tables_ok t"
  obtains t' where "spec_dead k reason t = Inr ((), t')" and "tables_ok t'"
    and "pending t' = (pending t)(k := None)"
    and "retained t' = (case pending t k of None \<Rightarrow> retained t | Some p \<Rightarrow> (retained t)(k \<mapsto> p))"
proof (cases "find_outbox k t")
  case None
  then show thesis
    using assms by (intro that [of "delete_outbox k t"])
      (simp_all add: spec_dead_def spec_of_def insert_dead_def ok_delete pending_def)
next
  case (Some r)
  then have k: "k \<in> row_id ` set (outbox t)" by (metis find_outbox_None option.simps(3))
  with assms have free: "find_dead k t = None" by (auto simp: find_dead_None tables_ok_def)
  define t1 where "t1 = t\<lparr>dead_letters := dead_letters t @
      [\<lparr>dead_id = k, dead_payload = row_payload r, dead_reason = reason\<rparr>]\<rparr>"
  have t1: "pending t1 = pending t" "retained t1 = (retained t)(k \<mapsto> row_payload r)"
    using free by (auto simp: fun_eq_iff pending_def retained_def find_outbox_def find_dead_def t1_def
        split: option.splits)
  have "spec_dead k reason t = Inr ((), delete_outbox k t1)"
    using Some free by (simp add: spec_dead_def spec_of_def insert_dead_def t1_def)
  moreover have "tables_ok (delete_outbox k t1)"
    using assms free
    by (auto simp: tables_ok_def delete_outbox_def t1_def find_dead_None intro: distinct_map_filter)
  ultimately show thesis
    using Some t1 by (intro that [of "delete_outbox k t1"]) (simp_all add: pending_def)
qed

lemma spec_dead_map:
  assumes "tables_ok t"
  obtains t' where "spec_dead k reason t = Inr ((), t')" and "tables_ok t'"
    and "pending t' = pending t |` (- {k})" and "retained t' = retained t ++ (pending t |` {k})"
proof -
  from spec_dead_ok [OF assms, of k reason] obtain t' where t':
    "spec_dead k reason t = Inr ((), t')" "tables_ok t'" "pending t' = (pending t)(k := None)"
    "retained t' = (case pending t k of None \<Rightarrow> retained t | Some p \<Rightarrow> (retained t)(k \<mapsto> p))" .
  show thesis
  proof (rule that [OF t'(1,2)])
    show "pending t' = pending t |` (- {k})"
      unfolding t'(3) by (auto simp: fun_eq_iff restrict_map_def)
    show "retained t' = retained t ++ (pending t |` {k})"
      unfolding t'(4) by (auto simp: fun_eq_iff restrict_map_def map_add_def split: option.splits)
  qed
qed

lemma spec_dead_letter_ok:
  assumes "tables_ok t"
  obtains t' where "spec_dead_letter rows reason t = Inr ((), t')" and "tables_ok t'"
    and "pending t' = pending t |` (- record_id ` set rows)"
    and "retained t' = retained t ++ (pending t |` (record_id ` set rows))"
proof -
  have "\<exists>t'. spec_forM (\<lambda>r. spec_dead (record_id r) reason) rows t = Inr ((), t') \<and> tables_ok t' \<and>
      pending t' = pending t |` (- record_id ` set rows) \<and>
      retained t' = retained t ++ (pending t |` (record_id ` set rows))"
    using assms
  proof (induction rows arbitrary: t)
    case Nil
    then show ?case by (simp add: restrict_map_def map_add_def fun_eq_iff)
  next
    case (Cons r rows)
    obtain t1 where t1: "spec_dead (record_id r) reason t = Inr ((), t1)" "tables_ok t1"
      "pending t1 = pending t |` (- {record_id r})"
      "retained t1 = retained t ++ (pending t |` {record_id r})"
      by (rule spec_dead_map [OF Cons.prems])
    from Cons.IH [OF t1(2)] obtain t2 where t2:
      "spec_forM (\<lambda>r. spec_dead (record_id r) reason) rows t1 = Inr ((), t2)" "tables_ok t2"
      "pending t2 = pending t1 |` (- record_id ` set rows)"
      "retained t2 = retained t1 ++ (pending t1 |` (record_id ` set rows))" by blast
    have "pending t2 = pending t |` (- record_id ` set (r # rows))"
      unfolding t2(3) t1(3) by (auto simp: fun_eq_iff restrict_map_def)
    moreover have "retained t2 = retained t ++ (pending t |` (record_id ` set (r # rows)))"
      unfolding t2(4) t1(3,4)
      by (auto simp: fun_eq_iff restrict_map_def map_add_def split: option.splits)
    ultimately show ?case using t1(1) t2(1,2) by auto
  qed
  then show thesis using that unfolding spec_dead_letter_def by blast
qed

definition rejected_ids :: "delivery_receipt list \<Rightarrow> string set" where
  "rejected_ids receipts = event_id ` {r \<in> set receipts. disposition r = ''rejected''}"

lemma spec_acknowledge_ok:
  assumes "tables_ok t" and "list_all (\<lambda>r. known_disposition (disposition r)) receipts"
    and "distinct (map event_id receipts)"
  obtains t' where "spec_acknowledge receipts t = Inr ((), t')" and "tables_ok t'"
    and "pending t' = pending t |` (- event_id ` set receipts)"
    and "retained t' = retained t ++ (pending t |` rejected_ids receipts)"
    and "retry_not_before t' = retry_not_before t"
proof -
  let ?step = "\<lambda>r. if disposition r = ''rejected'' then spec_dead (event_id r) ''business_rejected''
                        else (\<lambda>t. Inr ((), delete_outbox (event_id r) t))"
  have keep: "retry_not_before t1 = retry_not_before t0" if "?step r t0 = Inr ((), t1)" for r t0 t1
    using that by (auto simp: spec_dead_def spec_of_def insert_dead_def delete_outbox_def
        split: if_splits option.splits sum.splits)
  have "\<exists>t'. spec_forM ?step receipts t = Inr ((), t') \<and> tables_ok t' \<and>
      pending t' = pending t |` (- event_id ` set receipts) \<and>
      retained t' = retained t ++ (pending t |` rejected_ids receipts) \<and>
      retry_not_before t' = retry_not_before t"
    using assms(1,3)
  proof (induction receipts arbitrary: t)
    case Nil
    then show ?case by (simp add: restrict_map_def map_add_def fun_eq_iff rejected_ids_def)
  next
    case (Cons r receipts)
    have "\<exists>t1. ?step r t = Inr ((), t1) \<and> tables_ok t1 \<and> pending t1 = pending t |` (- {event_id r}) \<and>
        retained t1 = retained t ++ (pending t |` rejected_ids [r])"
    proof (cases "disposition r = ''rejected''")
      case True
      then have "rejected_ids [r] = {event_id r}" by (auto simp: rejected_ids_def)
      moreover obtain t1 where "spec_dead (event_id r) ''business_rejected'' t = Inr ((), t1)"
        "tables_ok t1" "pending t1 = pending t |` (- {event_id r})"
        "retained t1 = retained t ++ (pending t |` {event_id r})"
        by (rule spec_dead_map [OF Cons.prems(1)])
      ultimately show ?thesis using True by simp
    next
      case False
      then show ?thesis using Cons.prems(1)
        by (auto simp: rejected_ids_def ok_delete restrict_map_def map_add_def fun_eq_iff)
    qed
    then obtain t1 where t1: "?step r t = Inr ((), t1)" "tables_ok t1"
      "pending t1 = pending t |` (- {event_id r})"
      "retained t1 = retained t ++ (pending t |` rejected_ids [r])" by blast
    from Cons.prems(2) have "distinct (map event_id receipts)" by simp
    from Cons.IH [OF t1(2) this] obtain t2 where t2: "spec_forM ?step receipts t1 = Inr ((), t2)"
      "tables_ok t2" "pending t2 = pending t1 |` (- event_id ` set receipts)"
      "retained t2 = retained t1 ++ (pending t1 |` rejected_ids receipts)"
      "retry_not_before t2 = retry_not_before t1" by blast
    have "pending t2 = pending t |` (- event_id ` set (r # receipts))"
      unfolding t2(3) t1(3) by (auto simp: fun_eq_iff restrict_map_def)
    moreover have sub: "event_id r \<notin> rejected_ids receipts"
      using Cons.prems(2) by (auto simp: rejected_ids_def)
    have "retained t2 = retained t ++ (pending t |` rejected_ids (r # receipts))"
    proof (rule ext)
      fix k
      have split: "k \<in> rejected_ids (r # receipts) \<longleftrightarrow> k \<in> rejected_ids [r] \<or> k \<in> rejected_ids receipts"
        by (auto simp: rejected_ids_def)
      have first: "k \<noteq> event_id r" if "k \<in> rejected_ids receipts" using sub that by blast
      show "retained t2 k = (retained t ++ (pending t |` rejected_ids (r # receipts))) k"
        unfolding t2(4) t1(3,4)
        by (cases "k \<in> rejected_ids receipts"; cases "k \<in> rejected_ids [r]")
          (simp_all add: restrict_map_def map_add_def split first split: option.splits)
    qed
    moreover have "retry_not_before t2 = retry_not_before t" using t2(5) keep [OF t1(1)] by simp
    ultimately show ?case using t1(1) t2(1,2) by auto
  qed
  then obtain t' where t': "spec_forM ?step receipts t = Inr ((), t')" "tables_ok t'"
    "pending t' = pending t |` (- event_id ` set receipts)"
    "retained t' = retained t ++ (pending t |` rejected_ids receipts)"
    "retry_not_before t' = retry_not_before t" by blast
  moreover have "\<not> list_ex (\<lambda>r. \<not> known_disposition (disposition r)) receipts"
    using assms(2) by (simp add: list_ex_iff list_all_iff)
  ultimately show thesis
    by (intro that [OF _ t'(2-5)]) (simp add: spec_acknowledge_def)
qed

lemma spec_ensure_ok:
  assumes "tables_ok t" and "spec_ensure_enqueued r t = Inr (x, t')"
  shows "tables_ok t'"
    and "(pending t' = (pending t)(record_id r \<mapsto> payload r) \<and> retained t' = retained t) \<or>
         (t' = t \<and> retained t (record_id r) = Some (payload r))"
proof -
  consider row where "find_outbox (record_id r) t = Some row" "row_payload row = payload r" "t' = t"
    | row where "find_outbox (record_id r) t = None" "find_dead (record_id r) t = Some row"
        "dead_payload row = payload r" "t' = t"
    | "find_outbox (record_id r) t = None" "find_dead (record_id r) t = None"
        "t' = t\<lparr>outbox := outbox t @ [fresh_row r]\<rparr>"
    using assms(2) by (auto simp: spec_ensure_enqueued_def split: option.splits if_splits)
  then have "tables_ok t' \<and> ((pending t' = (pending t)(record_id r \<mapsto> payload r) \<and> retained t' = retained t) \<or>
         (t' = t \<and> retained t (record_id r) = Some (payload r)))"
  proof cases
    case 1
    then have "pending t (record_id r) = Some (payload r)" by (simp add: pending_def)
    with 1 assms(1) show ?thesis by (auto simp: fun_eq_iff)
  next
    case 2
    with assms(1) show ?thesis by (simp add: retained_def)
  next
    case 3
    then have "tables_ok t'" using assms(1)
      by (auto simp: tables_ok_def find_outbox_None find_dead_None)
    moreover have "pending t' = (pending t)(record_id r \<mapsto> payload r)"
      using 3 by (auto simp: fun_eq_iff pending_def find_outbox_def split: option.splits)
    moreover have "retained t' = retained t"
      using 3 by (simp add: fun_eq_iff retained_def find_dead_def)
    ultimately show ?thesis by blast
  qed
  then show "tables_ok t'"
    and "(pending t' = (pending t)(record_id r \<mapsto> payload r) \<and> retained t' = retained t) \<or>
         (t' = t \<and> retained t (record_id r) = Some (payload r))" by blast+
qed

lemma spec_retry_ok:
  assumes "tables_ok t" and "spec_retry rows n reason t = Inr (x, t')"
  shows "tables_ok t'" and "pending t' = pending t" and "retained t' = retained t"
  using assms by (auto simp: spec_retry_def ok_foldl_bump ok_postpone split: if_splits)

text \<open>Acknowledging and dead-lettering twice is acknowledging and dead-lettering once.\<close>

lemma delete_absent: "k \<notin> row_id ` set (outbox t) \<Longrightarrow> delete_outbox k t = t"
  by (simp add: delete_outbox_def filter_remove_absent)

lemma spec_dead_absent: "k \<notin> row_id ` set (outbox t) \<Longrightarrow> spec_dead k reason t = Inr ((), t)"
  by (simp add: spec_dead_def spec_of_def insert_dead_def delete_absent flip: find_outbox_None)

lemma spec_forM_absent:
  "(\<And>x. x \<in> set xs \<Longrightarrow> f x t = Inr ((), t)) \<Longrightarrow> spec_forM f xs t = Inr ((), t)"
  by (induction xs) simp_all

lemma spec_forM_removes:
  assumes "\<And>x t t'. f x t = Inr ((), t') \<Longrightarrow>
      row_id ` set (outbox t') \<subseteq> row_id ` set (outbox t) - {key x}"
  shows "spec_forM f xs t = Inr ((), t') \<Longrightarrow>
      row_id ` set (outbox t') \<subseteq> row_id ` set (outbox t) - key ` set xs"
proof (induction xs arbitrary: t)
  case Nil
  then show ?case by simp
next
  case (Cons x xs)
  then obtain t1 where "f x t = Inr ((), t1)" "spec_forM f xs t1 = Inr ((), t')" by auto
  with Cons.IH [of t1] assms [of x t t1] show ?case
    unfolding list.set image_insert by blast
qed

lemma spec_dead_removes:
  "spec_dead k reason t = Inr ((), t') \<Longrightarrow> row_id ` set (outbox t') \<subseteq> row_id ` set (outbox t) - {k}"
  by (auto simp: spec_dead_def spec_of_def insert_dead_def delete_outbox_def
      split: option.splits if_splits sum.splits)

lemma spec_acknowledge_idempotent:
  assumes "spec_acknowledge receipts t = Inr (x, t')"
  shows "spec_acknowledge receipts t' = Inr (x, t')"
proof -
  let ?step = "\<lambda>r. if disposition r = ''rejected'' then spec_dead (event_id r) ''business_rejected''
                        else (\<lambda>t. Inr ((), delete_outbox (event_id r) t))"
  from assms have known: "\<not> list_ex (\<lambda>r. \<not> known_disposition (disposition r)) receipts"
    and run: "spec_forM ?step receipts t = Inr ((), t')"
    by (auto simp: spec_acknowledge_def split: if_splits)
  have "row_id ` set (outbox t') \<subseteq> row_id ` set (outbox t) - event_id ` set receipts"
    by (rule spec_forM_removes [OF _ run])
      (auto simp: delete_outbox_def split: if_splits dest: spec_dead_removes [THEN subsetD])
  then have "event_id r \<notin> row_id ` set (outbox t')" if "r \<in> set receipts" for r
    using that by blast
  then have "spec_forM ?step receipts t' = Inr ((), t')"
    by (intro spec_forM_absent) (simp add: spec_dead_absent delete_absent)
  with known show ?thesis by (simp add: spec_acknowledge_def)
qed

lemma spec_dead_letter_idempotent:
  assumes "spec_dead_letter rows reason t = Inr (x, t')"
  shows "spec_dead_letter rows reason t' = Inr (x, t')"
proof -
  from assms have run: "spec_forM (\<lambda>r. spec_dead (record_id r) reason) rows t = Inr ((), t')"
    by (simp add: spec_dead_letter_def)
  have "row_id ` set (outbox t') \<subseteq> row_id ` set (outbox t) - record_id ` set rows"
    by (rule spec_forM_removes [OF _ run]) (rule spec_dead_removes)
  then have "spec_forM (\<lambda>r. spec_dead (record_id r) reason) rows t' = Inr ((), t')"
    by (intro spec_forM_absent spec_dead_absent) blast
  then show ?thesis by (simp add: spec_dead_letter_def)
qed

interpretation acknowledge_op: idempotent_operation "acknowledge receipts" "spec_acknowledge receipts"
  for receipts
  by (intro idempotent_operation.intro idempotent_operation_axioms.intro atomic_acknowledge)
    (rule spec_acknowledge_idempotent)

interpretation dead_letter_op: idempotent_operation "dead_letter rows reason" "spec_dead_letter rows reason"
  for rows reason
  by (intro idempotent_operation.intro idempotent_operation_axioms.intro atomic_dead_letter)
    (rule spec_dead_letter_idempotent)

end
