(* ===== verification/Wire.thy ===== *)
theory Wire
  imports Json Calendar Durability
begin

text \<open>
  \<^verbatim>\<open>src/edge_app/sync/wire_format.cpp\<close>: the JSON documents exchanged with the server. The JSON
  engine (\<open>json_api\<close>) and \<open>CryptStringToBinaryA\<close> are arguments of the definitions; the random
  bytes of the event identifier are the argument \<open>rng\<close>.
\<close>

section \<open>Fields\<close>

definition check_id :: "string \<Rightarrow> unit result" where
  "check_id s = require (\<not> (s = [] \<or> length s > 256 \<or> contains_any line_breaks_and_nul s))
                        (InvalidArgument ''Invalid identifier'')"

definition number_field :: "string \<Rightarrow> double \<Rightarrow> json_object \<Rightarrow> json_object result" where
  "number_field k v obj =
     (if \<not> dfinite v then Inl (InvalidArgument ''Non-finite record field'')
      else Inr (insert_member k (JNumber v) obj))"

definition text_field :: "string \<Rightarrow> string \<Rightarrow> json_object \<Rightarrow> json_object" where
  "text_field k v obj = insert_member k (JString v) obj"

definition timestamp :: "int \<Rightarrow> string result" where
  "timestamp ms =
     (if ms \<le> 0 then Inl (InvalidArgument ''Occurrence time required'')
      else case gmtime (ms div 1000) of
             None \<Rightarrow> Inl (InvalidArgument ''UTC time out of range'')
           | Some t \<Rightarrow> Inr (put_time_iso t @ ''.'' @ three_digits (ms mod 1000) @ ''Z''))"

section \<open>Events\<close>

definition envelope_text :: "attendance_observation \<Rightarrow> string \<Rightarrow> string \<Rightarrow> string \<Rightarrow> string \<Rightarrow>
    json_object \<Rightarrow> json_object" where
  "envelope_text obs event occurred device ver obj =
     text_field ''camera_frame_id'' (decimal (camera_frame_id obs))
       (text_field ''track_id'' (decimal (track_id obs))
         (text_field ''runtime_version'' ''edge-v1''
           (text_field ''gallery_version'' ver
             (text_field ''identity_id'' (identity_id obs)
               (text_field ''device_id'' device
                 (text_field ''occurred_at'' occurred
                   (text_field ''event_id'' event obj)))))))"

text \<open>The \<open>JsonObject\<close> that \<open>envelope\<close> builds, and the record made of its text.\<close>

definition envelope_object :: "attendance_observation \<Rightarrow> string \<Rightarrow> string \<Rightarrow> string \<Rightarrow> json_object result" where
  "envelope_object obs event device ver =
     bind_result (number_field ''schema_version'' 1 []) (\<lambda>o1.
     bind_result (timestamp (occurred_at_utc_ms obs)) (\<lambda>occurred.
     bind_result (number_field ''similarity'' (to_double (similarity obs))
                    (envelope_text obs event occurred device ver o1)) (\<lambda>o2.
     bind_result (number_field ''similarity_margin'' (to_double (similarity_margin obs)) o2) (\<lambda>o3.
     bind_result (number_field ''pad_median_p_real'' (to_double (pad_median_p_real obs)) o3) (\<lambda>o4.
       number_field ''pad_median_margin_p_real'' (to_double (pad_median_margin_p_real obs)) o4)))))"

definition envelope :: "json_api \<Rightarrow> attendance_observation \<Rightarrow> string \<Rightarrow> string \<Rightarrow> u8 list option \<Rightarrow>
    attendance_record result" where
  "envelope api obs device ver rng =
     bind_result (check_id device) (\<lambda>_.
     bind_result (check_id ver) (\<lambda>_.
     bind_result (check_id (identity_id obs)) (\<lambda>_.
     bind_result (uuid_v7 rng (occurred_at_utc_ms obs)) (\<lambda>event.
     bind_result (envelope_object obs event device ver) (\<lambda>obj.
       Inr \<lparr>record_id = event, payload = json_stringify api obj, occurred_ms = occurred_at_utc_ms obs,
            next_attempt_ms = 0, attempts = 0\<rparr>)))))"

section \<open>Galleries\<close>

text \<open>
  \<open>std::memcpy\<close> of 2048 little-endian bytes over \<open>std::array<float, 512>\<close>: each group of four bytes
  is an IEEE binary32 pattern. (Both zeros denote the rational 0.)
\<close>

definition float_of_bits :: "32 word \<Rightarrow> single" where
  "float_of_bits w =
     (let negative = bit w 31;
          exponent = uint (drop_bit 23 w AND 0xFF);
          mantissa = uint (w AND 0x7FFFFF);
          magnitude = (if exponent = 255 then (if mantissa = 0 then PInf else NaN)
                       else if exponent = 0 then Fin (of_int mantissa * pow2 (- 149))
                       else Fin (of_int (2 ^ 23 + mantissa) * pow2 (exponent - 150)))
      in Sgl (if negative then fl_neg magnitude else magnitude))"

definition bits_of_bytes :: "u8 \<Rightarrow> u8 \<Rightarrow> u8 \<Rightarrow> u8 \<Rightarrow> 32 word" where
  "bits_of_bytes b0 b1 b2 b3 =
     ucast b0 OR push_bit 8 (ucast b1) OR push_bit 16 (ucast b2) OR push_bit 24 (ucast b3)"

fun floats_of_bytes :: "u8 list \<Rightarrow> single list" where
  "floats_of_bytes (b0 # b1 # b2 # b3 # bs) = float_of_bits (bits_of_bytes b0 b1 b2 b3) # floats_of_bytes bs"
| "floats_of_bytes _ = []"

definition max_document :: nat where
  "max_document = 32 * 1024 * 1024"

definition parse_embedding :: "(string \<Rightarrow> u8 list option) \<Rightarrow> string \<Rightarrow> embedding result" where
  "parse_embedding base64 data =
     (if length data \<noteq> 2732 then Inl (InvalidArgument ''Invalid embedding length'')
      else case base64 data of
             None \<Rightarrow> Inl (InvalidArgument ''Invalid embedding base64'')
           | Some bytes \<Rightarrow>
               if length bytes \<noteq> 2048 then Inl (InvalidArgument ''Invalid embedding base64'')
               else if list_ex (\<lambda>x. \<not> sfinite x) (floats_of_bytes bytes)
               then Inl (InvalidArgument ''Invalid embedding number'')
               else normalize_embedding (floats_of_bytes bytes))"

text \<open>One turn of the loop over \<open>templates\<close>; \<open>seen\<close> is the set \<open>unique\<close>.\<close>

definition parse_template :: "(string \<Rightarrow> u8 list option) \<Rightarrow> string list \<Rightarrow> json \<Rightarrow>
    (string \<times> gallery_template) result" where
  "parse_template base64 seen v =
     bind_result (get_object v) (\<lambda>t.
     bind_result (get_named_string t ''template_id'') (\<lambda>tid.
     bind_result (check_id tid) (\<lambda>_.
     bind_result (require (tid \<notin> set seen) (InvalidArgument ''Duplicate template ID'')) (\<lambda>_.
     bind_result (get_named_string t ''identity_id'') (\<lambda>identity.
     bind_result (check_id identity) (\<lambda>_.
     bind_result (get_named_number t ''dimension'') (\<lambda>dimension.
     bind_result (require (dimension = double_lit 512) (InvalidArgument ''Invalid template encoding'')) (\<lambda>_.
     bind_result (get_named_string t ''encoding'') (\<lambda>encoding.
     bind_result (require (encoding = ''f32le-base64'') (InvalidArgument ''Invalid template encoding'')) (\<lambda>_.
     bind_result (get_named_string t ''data'') (\<lambda>data.
     bind_result (parse_embedding base64 data) (\<lambda>e.
       Inr (tid, \<lparr>template_identity = identity, template_embedding = e\<rparr>)))))))))))))"

fun parse_templates :: "(string \<Rightarrow> u8 list option) \<Rightarrow> string list \<Rightarrow> json list \<Rightarrow>
    (string \<times> gallery_template) list result" where
  "parse_templates base64 seen [] = Inr []"
| "parse_templates base64 seen (v # vs) =
     bind_result (parse_template base64 seen v) (\<lambda>item.
       bind_result (parse_templates base64 (fst item # seen) vs) (\<lambda>items. Inr (item # items)))"

definition parse_gallery :: "json_api \<Rightarrow> (string \<Rightarrow> u8 list option) \<Rightarrow> string \<Rightarrow> string \<Rightarrow> string \<Rightarrow>
    gallery_snapshot result" where
  "parse_gallery api base64 document tag expected_hash =
     (if length document > max_document then Inl (InvalidArgument ''GallerySnapshot exceeds size limit'')
      else
     bind_result (parse_object api document) (\<lambda>o1.
     bind_result (get_named_number o1 ''schema_version'') (\<lambda>schema.
     bind_result (require (schema = 1) (InvalidArgument ''Unsupported gallery schema/encoding'')) (\<lambda>_.
     bind_result (get_named_number o1 ''embedding_dimension'') (\<lambda>dimension.
     bind_result (require (dimension = double_lit 512) (InvalidArgument ''Unsupported gallery schema/encoding'')) (\<lambda>_.
     bind_result (get_named_string o1 ''embedding_encoding'') (\<lambda>encoding.
     bind_result (require (encoding = ''f32le-base64'') (InvalidArgument ''Unsupported gallery schema/encoding'')) (\<lambda>_.
     bind_result (get_named_string o1 ''embedding_model'') (\<lambda>model.
     bind_result (get_named_string o1 ''model_sha256'') (\<lambda>hash.
     bind_result (get_named_string o1 ''gallery_version'') (\<lambda>gversion.
     bind_result (check_id gversion) (\<lambda>_.
     bind_result (require (\<not> (tag = [] \<or> length tag > 256 \<or> contains_any line_breaks_and_nul tag))
                    (InvalidArgument ''Invalid gallery ETag'')) (\<lambda>_.
     bind_result (require (model = ''insightface/w600k_r50'' \<and> hash = expected_hash)
                    (InvalidArgument ''Incompatible gallery model'')) (\<lambda>_.
     bind_result (get_named_array o1 ''templates'') (\<lambda>list.
     bind_result (require (length list \<le> 10000) (InvalidArgument ''Too many templates'')) (\<lambda>_.
     bind_result (parse_templates base64 [] list) (\<lambda>items.
       Inr \<lparr>version = gversion, etag = tag, model_id = model, model_sha256 = hash,
            template_ids = map fst items, templates = map snd items\<rparr>)))))))))))))))))"

definition parse_gallery_file :: "json_api \<Rightarrow> (string \<Rightarrow> u8 list option) \<Rightarrow> string \<Rightarrow> string \<Rightarrow>
    gallery_snapshot result" where
  "parse_gallery_file api base64 json hash =
     bind_result (parse_object api json) (\<lambda>document.
     bind_result (get_named_string document ''etag'') (\<lambda>tag.
       parse_gallery api base64 json tag hash))"

section \<open>Batches and receipts\<close>

definition batch_event :: "json_api \<Rightarrow> string \<Rightarrow> attendance_record \<Rightarrow> json result" where
  "batch_event api device r =
     bind_result (parse_object api (payload r)) (\<lambda>event.
     bind_result (get_named_number event ''schema_version'') (\<lambda>schema.
     bind_result (require (schema = 1)
       (InvalidArgument ''Outbox payload does not match its event/device metadata'')) (\<lambda>_.
     bind_result (get_named_string event ''event_id'') (\<lambda>eid.
     bind_result (require (eid = record_id r)
       (InvalidArgument ''Outbox payload does not match its event/device metadata'')) (\<lambda>_.
     bind_result (get_named_string event ''device_id'') (\<lambda>did.
     bind_result (require (did = device)
       (InvalidArgument ''Outbox payload does not match its event/device metadata'')) (\<lambda>_.
       Inr (JObject event))))))))"

definition batch_payload :: "json_api \<Rightarrow> string \<Rightarrow> attendance_record list \<Rightarrow> string result" where
  "batch_payload api device rows =
     bind_result (check_id device) (\<lambda>_.
     bind_result (number_field ''schema_version'' 1 (text_field ''device_id'' device [])) (\<lambda>body.
     bind_result (mapM (batch_event api device) rows) (\<lambda>events.
       Inr (json_stringify api (insert_member ''events'' (JArray events) body)))))"

definition parse_receipt :: "string list \<Rightarrow> string list \<Rightarrow> json \<Rightarrow> delivery_receipt result" where
  "parse_receipt allowed seen v =
     bind_result (get_object v) (\<lambda>a.
     bind_result (get_named_string a ''event_id'') (\<lambda>eid.
     bind_result (get_named_string a ''status'') (\<lambda>status.
       if eid \<notin> set allowed \<or> eid \<in> set seen \<or>
          (status \<noteq> ''accepted'' \<and> status \<noteq> ''duplicate'' \<and> status \<noteq> ''rejected'')
       then Inl (InvalidArgument ''Invalid ACK member'')
       else Inr \<lparr>event_id = eid, disposition = status\<rparr>)))"

fun parse_receipt_list :: "string list \<Rightarrow> string list \<Rightarrow> json list \<Rightarrow> delivery_receipt list result" where
  "parse_receipt_list allowed seen [] = Inr []"
| "parse_receipt_list allowed seen (v # vs) =
     bind_result (parse_receipt allowed seen v) (\<lambda>r.
       bind_result (parse_receipt_list allowed (event_id r # seen) vs) (\<lambda>rs. Inr (r # rs)))"

definition parse_receipts :: "json_api \<Rightarrow> string \<Rightarrow> attendance_record list \<Rightarrow> delivery_receipt list result" where
  "parse_receipts api json sent =
     bind_result (parse_object api json) (\<lambda>o1.
     bind_result (get_named_number o1 ''schema_version'') (\<lambda>schema.
     bind_result (require (schema = 1) (InvalidArgument ''Invalid ACK schema'')) (\<lambda>_.
     bind_result (get_named_array o1 ''results'') (\<lambda>list.
     bind_result (require (length list \<le> length sent) (InvalidArgument ''Too many ACKs'')) (\<lambda>_.
       parse_receipt_list (map record_id sent) [] list)))))"

section \<open>What the parsers guarantee\<close>

definition valid_id :: "string \<Rightarrow> bool" where
  "valid_id s \<longleftrightarrow> s \<noteq> [] \<and> length s \<le> 256 \<and> set s \<inter> set line_breaks_and_nul = {}"

lemma check_id_iff [simp]: "check_id s = Inr u \<longleftrightarrow> valid_id s"
  by (auto simp: check_id_def valid_id_def contains_any_iff)

lemma number_field_iff [simp]:
  "number_field k v obj = Inr obj' \<longleftrightarrow> dfinite v \<and> obj' = insert_member k (JNumber v) obj"
  by (auto simp: number_field_def)

lemma parse_receipt_Inr:
  "parse_receipt allowed seen v = Inr r \<Longrightarrow>
     event_id r \<in> set allowed \<and> event_id r \<notin> set seen \<and> known_disposition (disposition r)"
  by (auto simp: parse_receipt_def known_disposition_def split: if_splits)

lemma parse_receipt_list_sound:
  "parse_receipt_list allowed seen vs = Inr rs \<Longrightarrow>
     distinct (map event_id rs) \<and> event_id ` set rs \<subseteq> set allowed - set seen \<and>
     list_all (\<lambda>r. known_disposition (disposition r)) rs \<and> length rs = length vs"
proof (induction vs arbitrary: seen rs)
  case (Cons v vs)
  then obtain r rs' where r: "parse_receipt allowed seen v = Inr r"
    and rs': "parse_receipt_list allowed (event_id r # seen) vs = Inr rs'" and rs: "rs = r # rs'"
    by auto
  show ?case using parse_receipt_Inr [OF r] Cons.IH [OF rs'] unfolding rs by auto
qed simp

lemma parse_receipts_sound:
  assumes "parse_receipts api json sent = Inr rs"
  shows "distinct (map event_id rs)" "event_id ` set rs \<subseteq> record_id ` set sent"
    "list_all (\<lambda>r. known_disposition (disposition r)) rs" "length rs \<le> length sent"
  using assms parse_receipt_list_sound [of "map record_id sent" "[]" _ rs]
  by (auto simp: parse_receipts_def)

lemma floats_of_bytes_length: "length bs = 4 * n \<Longrightarrow> length (floats_of_bytes bs) = n"
proof (induction n arbitrary: bs)
  case (Suc n)
  then obtain b0 b1 b2 b3 cs where "bs = b0 # b1 # b2 # b3 # cs" "length cs = 4 * n"
    by (auto simp: length_Suc_conv numeral_eq_Suc)
  with Suc.IH show ?case by simp
qed simp

lemma parse_embedding_length: "parse_embedding base64 data = Inr e \<Longrightarrow> length e = embedding_dimension"
  using floats_of_bytes_length [of _ 512]
  by (auto simp: parse_embedding_def embedding_dimension_def dest: normalize_embedding_length
      split: if_splits option.splits)

lemma parse_template_Inr:
  "parse_template base64 seen v = Inr (tid, g) \<Longrightarrow>
     valid_id tid \<and> tid \<notin> set seen \<and> valid_id (template_identity g) \<and>
     length (template_embedding g) = embedding_dimension"
  by (auto simp: parse_template_def dest: parse_embedding_length)

lemma parse_templates_sound:
  "parse_templates base64 seen vs = Inr items \<Longrightarrow>
     distinct (map fst items) \<and> fst ` set items \<inter> set seen = {} \<and> length items = length vs \<and>
     (\<forall>(tid, g) \<in> set items. valid_id tid \<and> valid_id (template_identity g) \<and>
        length (template_embedding g) = embedding_dimension)"
proof (induction vs arbitrary: seen items)
  case (Cons v vs)
  then obtain tid g items' where r: "parse_template base64 seen v = Inr (tid, g)"
    and rest: "parse_templates base64 (tid # seen) vs = Inr items'" and items: "items = (tid, g) # items'"
    by auto
  show ?case using parse_template_Inr [OF r] Cons.IH [OF rest] unfolding items by auto
qed simp

end
