(* ===== verification/RetryPolicy.thy ===== *)
theory RetryPolicy
  imports Calendar
begin

text \<open>
  \<^verbatim>\<open>src/edge_app/sync/retry_policy.cpp\<close>: the time of the next attempt. The random word of
  \<open>BCryptGenRandom\<close> is an argument. Times are 64-bit milliseconds; \<open>retry_at_range\<close> shows that the
  sum cannot leave that range.
\<close>

definition retry_jitter :: "nat option \<Rightarrow> nat" where
  "retry_jitter rng = (case rng of None \<Rightarrow> 250 | Some n \<Rightarrow> n mod 501)"

definition backoff :: "int \<Rightarrow> int" where
  "backoff attempts = std_min 300000 (1000 * 2 ^ nat (std_clamp attempts 0 9))"

definition server_delay :: "int \<Rightarrow> string \<Rightarrow> int" where
  "server_delay now header =
     (if header = [] then 0
      else if length header \<le> 10 \<and> only_from decimal_digits header
      then int (decimal_value header) * 1000
      else case get_http_date header of
             None \<Rightarrow> 0
           | Some tm \<Rightarrow>
               let sec = mkgmtime tm in if 0 < sec then std_max 0 (sec * 1000 - now) else 0)"

definition retry_at :: "int \<Rightarrow> int \<Rightarrow> string \<Rightarrow> nat \<Rightarrow> int" where
  "retry_at now attempts header jitter_ms =
     now + std_max (backoff attempts) (server_delay now header) + int (std_min jitter_ms 500)"

lemma retry_jitter_bound: "retry_jitter rng \<le> 500"
proof (cases rng)
  case (Some n)
  have "n mod 501 < 501" by (rule mod_less_divisor) simp
  then show ?thesis by (simp add: retry_jitter_def Some)
qed (simp add: retry_jitter_def)

lemma backoff_bounds: "1000 \<le> backoff attempts \<and> backoff attempts \<le> 300000"
proof -
  have "(1::int) \<le> 2 ^ n" for n :: nat by simp
  then have "(1000::int) \<le> 1000 * 2 ^ n" for n :: nat by (simp add: mult_le_cancel_left1)
  then show ?thesis by (simp add: backoff_def)
qed

lemma backoff_mono: "a \<le> b \<Longrightarrow> backoff a \<le> backoff b"
proof -
  assume "a \<le> b"
  then have "std_clamp a 0 9 \<le> std_clamp b 0 9" by (auto simp: std_clamp_def)
  then have "nat (std_clamp a 0 9) \<le> nat (std_clamp b 0 9)" by (rule nat_mono)
  then have "(2::int) ^ nat (std_clamp a 0 9) \<le> 2 ^ nat (std_clamp b 0 9)"
    by (rule power_increasing) simp
  then have "1000 * (2::int) ^ nat (std_clamp a 0 9) \<le> 1000 * 2 ^ nat (std_clamp b 0 9)" by simp
  then show ?thesis by (simp only: backoff_def std_min_linorder)
qed

lemma server_delay_nonneg: "0 \<le> server_delay now header"
  by (simp add: server_delay_def Let_def split: option.splits)

lemma mkgmtime_limit: "mkgmtime t \<le> gmtime_limit"
  by (simp add: mkgmtime_def Let_def gmtime_limit_def)

lemma server_delay_le:
  assumes "0 \<le> now"
  shows "server_delay now header \<le> 32535215999000"
proof (cases "length header \<le> 10 \<and> only_from decimal_digits header")
  case True
  then have "decimal_value header < 10 ^ length header" using decimal_value_bound by blast
  also have "(10::nat) ^ length header \<le> 10 ^ 10" by (rule power_increasing) (use True in auto)
  finally have "int (decimal_value header) * 1000 \<le> 32535215999000" by simp
  with True show ?thesis by (simp add: server_delay_def)
next
  case False
  have "mkgmtime tm * 1000 - now \<le> 32535215999000" for tm
    using mkgmtime_limit [of tm] assms by (simp add: gmtime_limit_def)
  with False show ?thesis by (auto simp: server_delay_def Let_def split: option.splits)
qed

lemma retry_at_range:
  assumes "0 \<le> now"
  shows "now + 1000 \<le> retry_at now attempts header j \<and>
         retry_at now attempts header j \<le> now + 32535215999500"
  using backoff_bounds [of attempts] server_delay_le [OF assms, of header]
  by (auto simp: retry_at_def)

lemma retry_at_ge_now: "now + 1000 \<le> retry_at now attempts header j"
  using backoff_bounds [of attempts] by (auto simp: retry_at_def)

end
