(* ===== verification/Credential.thy ===== *)
theory Credential
  imports Prelude
begin

text \<open>
  \<^verbatim>\<open>src/edge_app/security/device_credential.cpp\<close>: the device token and its encrypted file. The
  disk is a map from paths to contents; \<open>CryptProtectData\<close> and \<open>CryptUnprotectData\<close> are the
  fields of \<open>dpapi\<close> (\<open>None\<close> when the call fails), and the outcome of each call that can fail is
  part of the argument \<open>io\<close>.
\<close>

type_synonym path = string
type_synonym disk = "path \<rightharpoonup> string"

record dpapi =
  seal :: "string \<Rightarrow> string option"
  unseal :: "string \<Rightarrow> string option"

text \<open>
  The calls of \<open>protect_token\<close> that may fail: hardening the two files, writing the temporary one
  (\<open>write_result\<close> is what the file holds after a failed write), replacing the credential.
\<close>

record protect_io =
  prepare_file_ok :: bool
  prepare_temporary_ok :: bool
  write_result :: "string option"
  move_ok :: bool

definition validate_token :: "string \<Rightarrow> unit result" where
  "validate_token t =
     (if t = [] \<or> length t > 4096 then Inl (InvalidArgument ''Invalid credential length'')
      else if list_ex (\<lambda>c. byte_of c \<le> 32 \<or> byte_of c \<ge> 127) t
      then Inl (InvalidArgument ''Credential contains unsupported characters'')
      else Inr ())"

text \<open>What a successful \<open>prepare_private_file\<close> does to the contents: a missing file is created
  empty (\<open>CREATE_NEW\<close>), an existing one keeps its bytes.\<close>

definition touch :: "path \<Rightarrow> disk \<Rightarrow> disk" where
  "touch p d = (case d p of None \<Rightarrow> d(p \<mapsto> []) | Some _ \<Rightarrow> d)"

definition prepare :: "bool \<Rightarrow> path \<Rightarrow> (disk, unit) run" where
  "prepare ok p = (if ok then modify (touch p) else throw (RuntimeError ''Local data permission hardening failed''))"

definition write_new :: "string option \<Rightarrow> path \<Rightarrow> string \<Rightarrow> (disk, unit) run" where
  "write_new outcome p bytes =
     (case outcome of
        None \<Rightarrow> modify (\<lambda>d. d(p \<mapsto> bytes))
      | Some partial \<Rightarrow> andThen (modify (\<lambda>d. d(p \<mapsto> partial)))
                         (\<lambda>_. throw (RuntimeError ''Credential write failed'')))"

definition replace_file :: "bool \<Rightarrow> path \<Rightarrow> path \<Rightarrow> (disk, unit) run" where
  "replace_file ok from to =
     (if ok then modify (\<lambda>d. (d(to := d from))(from := None))
      else throw (RuntimeError ''Credential replacement failed''))"

definition protect_token :: "dpapi \<Rightarrow> protect_io \<Rightarrow> path \<Rightarrow> string \<Rightarrow> (disk, unit) run" where
  "protect_token api io file token =
     andThen (lift_result (validate_token token)) (\<lambda>_.
       case seal api token of
         None \<Rightarrow> throw (RuntimeError ''DPAPI protection failed'')
       | Some blob \<Rightarrow>
           andThen (prepare (prepare_file_ok io) file) (\<lambda>_.
           andThen (prepare (prepare_temporary_ok io) (file @ ''.new'')) (\<lambda>_.
           andThen (write_new (write_result io) (file @ ''.new'') blob) (\<lambda>_.
             replace_file (move_ok io) (file @ ''.new'') file))))"

text \<open>
  \<open>unprotect_token\<close>: a missing file makes \<open>file_size\<close> throw. \<open>read\<close> is what the second look at the
  file returns, as another process may have replaced it since its size was taken.
\<close>

definition unprotect_token :: "dpapi \<Rightarrow> path \<Rightarrow> disk \<Rightarrow> disk \<Rightarrow> string result" where
  "unprotect_token api file at_size at_read =
     (case at_size file of
        None \<Rightarrow> Inl (RuntimeError ''file_size'')
      | Some sized \<Rightarrow>
          if length sized = 0 \<or> length sized > 16384
          then Inl (RuntimeError ''Invalid protected credential size'')
          else let bytes = (case at_read file of None \<Rightarrow> [] | Some b \<Rightarrow> b)
               in if length bytes \<noteq> length sized then Inl (RuntimeError ''Credential read failed'')
                  else case unseal api bytes of
                         None \<Rightarrow> Inl (RuntimeError ''DPAPI unprotect failed for current Windows user'')
                       | Some token \<Rightarrow> bind_result (validate_token token) (\<lambda>_. Inr token))"

section \<open>Properties\<close>

definition valid_token :: "string \<Rightarrow> bool" where
  "valid_token t \<longleftrightarrow> t \<noteq> [] \<and> length t \<le> 4096 \<and> (\<forall>c \<in> set t. 32 < byte_of c \<and> byte_of c < 127)"

lemma validate_token_iff [simp]: "validate_token t = Inr u \<longleftrightarrow> valid_token t"
proof -
  have "list_ex (\<lambda>c. byte_of c \<le> 32 \<or> byte_of c \<ge> 127) t \<longleftrightarrow> \<not> (\<forall>c \<in> set t. 32 < byte_of c \<and> byte_of c < 127)"
    by (simp add: list_ex_iff not_less Bex_def)
  then show ?thesis by (auto simp: validate_token_def valid_token_def)
qed

lemma unprotect_valid: "unprotect_token api file d1 d2 = Inr t \<Longrightarrow> valid_token t"
  by (auto simp: unprotect_token_def Let_def split: option.splits if_splits)

text \<open>The documented contract of the data protection API: what one call seals the other opens.\<close>

definition seals :: "dpapi \<Rightarrow> string \<Rightarrow> bool" where
  "seals api t \<longleftrightarrow> (\<exists>blob. seal api t = Some blob \<and> unseal api blob = Some t \<and>
                             blob \<noteq> [] \<and> length blob \<le> 16384)"

lemma protect_roundtrip:
  assumes "seals api token" and "protect_token api io file token d = (Inr (), d')"
  shows "unprotect_token api file d' d' = Inr token"
proof -
  obtain blob where blob: "seal api token = Some blob" "unseal api blob = Some token" "blob \<noteq> []"
    "length blob \<le> 16384" using assms(1) by (auto simp: seals_def)
  have ok: "valid_token token" and io: "prepare_file_ok io" "prepare_temporary_ok io"
      "write_result io = None" "move_ok io"
    using assms(2) blob(1)
    by (auto simp: protect_token_def run_simps prepare_def write_new_def replace_file_def
        split: sum.splits if_splits option.splits prod.splits)
  have "d' file = Some blob"
    using assms(2) blob(1) io ok
    by (auto simp: protect_token_def run_simps prepare_def write_new_def replace_file_def
        split: sum.splits)
  with blob ok show ?thesis by (simp add: unprotect_token_def)
qed

lemma protect_failure_keeps:
  assumes "protect_token api io file token d = (Inl e, d')"
  shows "d' file = d file \<or> (d file = None \<and> d' file = Some [])"
proof (cases "validate_token token")
  case (Inl x)
  with assms show ?thesis by (auto simp: protect_token_def run_simps)
next
  case (Inr x)
  with assms show ?thesis
    by (cases "seal api token"; cases "prepare_file_ok io"; cases "prepare_temporary_ok io";
        cases "write_result io"; cases "move_ok io")
      (auto simp: protect_token_def run_simps prepare_def write_new_def replace_file_def touch_def
        split: option.splits)
qed

end
