(* ===== verification/Sync.thy ===== *)
theory Sync
  imports Wire RetryPolicy Credential
begin

text \<open>
  \<^verbatim>\<open>src/edge_app/sync\<close>: delivery of the outbox (\<^verbatim>\<open>attendance_sync.cpp\<close>), polling of the gallery
  (\<^verbatim>\<open>gallery_sync.cpp\<close>, \<^verbatim>\<open>.hpp\<close>), the service that runs both behind the authentication
  latch (\<^verbatim>\<open>sync_service.cpp\<close>, \<^verbatim>\<open>.hpp\<close>) and one turn of the worker thread
  (\<^verbatim>\<open>sync_worker.cpp\<close>). The world is the argument \<open>environment\<close>: the HTTP transport (\<open>None\<close>
  when it throws), the milliseconds a \<open>RetryClock\<close> has run when it is read, and the random word of
  the retry jitter. One step reads the clock and the jitter at most once.
\<close>

section \<open>Environment\<close>

record http_response =
  http_status :: int
  http_body :: string
  http_etag :: string
  http_retry_after :: string

record environment =
  env_request :: "string \<Rightarrow> string \<Rightarrow> string \<Rightarrow> string \<Rightarrow> http_response option"
  env_elapsed :: int
  env_rng :: "nat option"

datatype sync_result = Continue | AuthenticationBlocked

definition clock_now :: "environment \<Rightarrow> int \<Rightarrow> int" where
  "clock_now env start = start + env_elapsed env"

definition decimal_int :: "int \<Rightarrow> string" where
  "decimal_int n = (if n < 0 then CHR ''-'' # decimal (nat (- n)) else decimal (nat n))"

definition retry_time :: "environment \<Rightarrow> int \<Rightarrow> int \<Rightarrow> string \<Rightarrow> int" where
  "retry_time env now tries header = retry_at (clock_now env now) tries header (retry_jitter (env_rng env))"

section \<open>Attendance delivery\<close>

definition max_attempts :: "attendance_record list \<Rightarrow> int" where
  "max_attempts rows = foldl (\<lambda>m r. std_max m (attempts r)) 0 rows"

definition send_batch :: "json_api \<Rightarrow> environment \<Rightarrow> string \<Rightarrow> attendance_record list \<Rightarrow> http_response option" where
  "send_batch api env device rows =
     (case batch_payload api device rows of
        Inl _ \<Rightarrow> None
      | Inr body \<Rightarrow> env_request env ''POST'' ''/attendance-events/batch'' body [])"

definition unacknowledged :: "delivery_receipt list \<Rightarrow> attendance_record list \<Rightarrow> attendance_record list" where
  "unacknowledged receipts rows = filter (\<lambda>e. record_id e \<notin> event_id ` set receipts) rows"

definition retry_rows :: "environment \<Rightarrow> int \<Rightarrow> attendance_record list \<Rightarrow> string \<Rightarrow> string \<Rightarrow> unit db" where
  "retry_rows env now rows header reason = retry rows (retry_time env now (max_attempts rows) header) reason"

definition accept_response :: "json_api \<Rightarrow> environment \<Rightarrow> int \<Rightarrow> attendance_record list \<Rightarrow> http_response \<Rightarrow> unit db" where
  "accept_response api env now rows r =
     (case parse_receipts api (http_body r) rows of
        Inl _ \<Rightarrow> retry_rows env now rows (http_retry_after r) ''invalid_ack''
      | Inr receipts \<Rightarrow>
          andThen (acknowledge receipts) (\<lambda>_.
            let rest = unacknowledged receipts rows
            in if rest = [] then ret ()
               else retry_rows env now rest (http_retry_after r) ''missing_ack''))"

definition attendance_step :: "json_api \<Rightarrow> environment \<Rightarrow> string \<Rightarrow> int \<Rightarrow> sync_result db" where
  "attendance_step api env device now =
     andThen (due now default_limit) (\<lambda>rows.
       if rows = [] then ret Continue
       else case send_batch api env device rows of
              None \<Rightarrow> andThen (retry_rows env now rows [] ''transport_failure'') (\<lambda>_. ret Continue)
            | Some r \<Rightarrow>
                if http_status r = 401 \<or> http_status r = 403 then ret AuthenticationBlocked
                else andThen
                  (if http_status r = 400 \<or> http_status r = 422
                   then dead_letter rows (''schema_rejected_'' @ decimal_int (http_status r))
                   else if 200 \<le> http_status r \<and> http_status r < 300
                   then accept_response api env now rows r
                   else retry_rows env now rows (http_retry_after r) (''http_'' @ decimal_int (http_status r)))
                  (\<lambda>_. ret Continue))"

section \<open>Gallery polling\<close>

record gallery_sync =
  dirty :: bool
  gallery_due :: int
  gallery_attempts :: int

definition new_gallery_sync :: gallery_sync where
  "new_gallery_sync = \<lparr>dirty = False, gallery_due = 0, gallery_attempts = 0\<rparr>"

definition reset_poll :: "gallery_sync \<Rightarrow> gallery_sync" where
  "reset_poll g = g\<lparr>gallery_due := 0\<rparr>"

definition request_refresh :: "gallery_sync \<Rightarrow> gallery_sync" where
  "request_refresh g = (if gallery_attempts g = 0 then g\<lparr>gallery_due := 0\<rparr> else g)"

definition take_dirty :: "gallery_sync \<Rightarrow> bool \<times> gallery_sync" where
  "take_dirty g = (dirty g, g\<lparr>dirty := False\<rparr>)"

definition poll_failed :: "environment \<Rightarrow> int \<Rightarrow> string \<Rightarrow> gallery_sync \<Rightarrow> gallery_sync" where
  "poll_failed env now header g =
     g\<lparr>gallery_due := retry_time env now (gallery_attempts g) header,
       gallery_attempts := std_min (gallery_attempts g + 1) 30\<rparr>"

definition poll_done :: "environment \<Rightarrow> int \<Rightarrow> gallery_sync \<Rightarrow> gallery_sync" where
  "poll_done env now g = g\<lparr>gallery_due := clock_now env now + 60000, gallery_attempts := 0\<rparr>"

type_synonym 'a gallery_run = "(gallery_sync \<times> connection, 'a) run"

definition on_db :: "'a db \<Rightarrow> ('s \<times> connection, 'a) run" where
  "on_db m = (\<lambda>(g, c). case m c of (r, c') \<Rightarrow> (r, (g, c')))"

definition on_poll :: "(gallery_sync \<Rightarrow> gallery_sync) \<Rightarrow> unit gallery_run" where
  "on_poll f = modify (\<lambda>(g, c). (f g, c))"

definition gallery_reply :: "json_api \<Rightarrow> (string \<Rightarrow> u8 list option) \<Rightarrow> string \<Rightarrow> environment \<Rightarrow> int \<Rightarrow>
    http_response \<Rightarrow> unit gallery_run" where
  "gallery_reply api base64 hash env now r =
     (case (if http_status r = 200 then parse_gallery api base64 (http_body r) (http_etag r) hash
            else Inl HResultError) of
        Inr next \<Rightarrow>
          andThen (on_db (replace_gallery next)) (\<lambda>_.
            on_poll (\<lambda>g. poll_done env now (g\<lparr>dirty := True\<rparr>)))
      | Inl _ \<Rightarrow> on_poll (poll_failed env now (http_retry_after r)))"

definition gallery_step :: "json_api \<Rightarrow> (string \<Rightarrow> u8 list option) \<Rightarrow> string \<Rightarrow> environment \<Rightarrow> int \<Rightarrow>
    sync_result gallery_run" where
  "gallery_step api base64 hash env now =
     andThen get_state (\<lambda>(g, _).
       if now < gallery_due g then ret Continue
       else andThen (on_db load_metadata) (\<lambda>old.
         case env_request env ''GET'' ''/gallery'' [] (meta_etag old) of
           None \<Rightarrow> andThen (on_poll (poll_failed env now [])) (\<lambda>_. ret Continue)
         | Some r \<Rightarrow>
             if http_status r = 401 \<or> http_status r = 403 then ret AuthenticationBlocked
             else if http_status r = 304 \<and> meta_version old \<noteq> []
             then andThen (on_poll (poll_done env now)) (\<lambda>_. ret Continue)
             else andThen (gallery_reply api base64 hash env now r) (\<lambda>_. ret Continue)))"

section \<open>The service and its worker\<close>

record service =
  svc_token :: string
  svc_http_token :: string
  svc_blocked :: bool
  svc_refresh_requested :: bool
  svc_authenticated_connection :: bool
  svc_gallery :: gallery_sync

definition new_service :: service where
  "new_service = \<lparr>svc_token = [], svc_http_token = [], svc_blocked = False, svc_refresh_requested = False,
     svc_authenticated_connection = False, svc_gallery = new_gallery_sync\<rparr>"

definition request_gallery_refresh :: "bool \<Rightarrow> service \<Rightarrow> service" where
  "request_gallery_refresh authenticated s =
     (let s1 = s\<lparr>svc_refresh_requested := True\<rparr>
      in if authenticated then s1\<lparr>svc_authenticated_connection := True\<rparr> else s1)"

type_synonym 'a service_run = "(service \<times> connection, 'a) run"

definition on_service :: "(service \<Rightarrow> service) \<Rightarrow> unit service_run" where
  "on_service f = modify (\<lambda>(s, c). (f s, c))"

definition on_gallery :: "'a gallery_run \<Rightarrow> 'a service_run" where
  "on_gallery m = (\<lambda>(s, c). case m (svc_gallery s, c) of (r, (g, c')) \<Rightarrow> (r, (s\<lparr>svc_gallery := g\<rparr>, c')))"

text \<open>The transport's \<open>set_token\<close> validates before it stores, and so throws before \<open>token_\<close> changes.\<close>

definition service_set_token :: "string \<Rightarrow> unit service_run" where
  "service_set_token token =
     andThen get_state (\<lambda>(s, _).
       if token \<noteq> svc_token s
       then andThen (lift_result (validate_token token)) (\<lambda>_.
              on_service (\<lambda>s. s\<lparr>svc_http_token := token, svc_token := token, svc_blocked := False,
                                svc_gallery := reset_poll (svc_gallery s)\<rparr>))
       else ret ())"

text \<open>
  \<open>SyncService::step\<close>. \<open>env\<close> serves the delivery, \<open>elapsed\<close> is the clock when it has returned,
  \<open>genv\<close> serves the poll.
\<close>

definition service_step :: "json_api \<Rightarrow> (string \<Rightarrow> u8 list option) \<Rightarrow> string \<Rightarrow> string \<Rightarrow> environment \<Rightarrow> int \<Rightarrow>
    environment \<Rightarrow> int \<Rightarrow> unit service_run" where
  "service_step api base64 device hash env elapsed genv now =
     andThen (on_service (\<lambda>s. if svc_authenticated_connection s
                              then s\<lparr>svc_authenticated_connection := False, svc_blocked := False\<rparr> else s)) (\<lambda>_.
     andThen get_state (\<lambda>(s, _).
       if svc_blocked s \<or> svc_token s = [] then ret ()
       else
         andThen (on_service (\<lambda>s. if svc_refresh_requested s
                    then s\<lparr>svc_refresh_requested := False, svc_gallery := request_refresh (svc_gallery s)\<rparr>
                    else s)) (\<lambda>_.
         andThen (on_db (attendance_step api env device now)) (\<lambda>delivered.
           if delivered = AuthenticationBlocked then on_service (\<lambda>s. s\<lparr>svc_blocked := True\<rparr>)
           else andThen (on_gallery (gallery_step api base64 hash genv (now + elapsed))) (\<lambda>polled.
             if polled = AuthenticationBlocked then on_service (\<lambda>s. s\<lparr>svc_blocked := True\<rparr>)
             else ret ())))))"

text \<open>One turn of the worker's loop: the credential is read again, every exception ends the turn.\<close>

definition worker_turn :: "json_api \<Rightarrow> (string \<Rightarrow> u8 list option) \<Rightarrow> string \<Rightarrow> string \<Rightarrow> string result \<Rightarrow>
    environment \<Rightarrow> int \<Rightarrow> environment \<Rightarrow> int \<Rightarrow> service \<times> connection \<Rightarrow> string \<times> (service \<times> connection)" where
  "worker_turn api base64 device hash credential env elapsed genv now w =
     (case andThen (lift_result credential) (\<lambda>token.
             andThen (service_set_token token) (\<lambda>_.
               service_step api base64 device hash env elapsed genv now)) w of
        (Inr _, w') \<Rightarrow> (if svc_blocked (fst w') then ''authentication_blocked'' else ''running'', w')
      | (Inl _, w') \<Rightarrow> (''sync_error_or_credential_unavailable'', w'))"

end
