(* ===== verification/Delivery.thy ===== *)
theory Delivery
  imports Sync
begin

text \<open>
  What the delivery loop promises about attendance events. \<open>moved D t t'\<close> is the only way the
  tables may change: an event stays where it is, moves from the outbox to the retained events with
  its payload, or leaves the outbox because the server acknowledged it (\<open>D\<close>). The contract
  \<open>conserving_operation\<close> is proved for every repository operation and composed along
  \<open>attendance_step\<close>.
\<close>

section \<open>Conservation of events\<close>

definition moved :: "string set \<Rightarrow> tables \<Rightarrow> tables \<Rightarrow> bool" where
  "moved D t t' \<longleftrightarrow> tables_ok t' \<and> (\<forall>k.
     (pending t' k = pending t k \<and> retained t' k = retained t k) \<or>
     (pending t k \<noteq> None \<and> pending t' k = None \<and> retained t' k = pending t k) \<or>
     (pending t' k = None \<and> retained t' k = retained t k \<and> k \<in> D))"

lemma moved_refl [simp]: "tables_ok t \<Longrightarrow> moved D t t"
  by (simp add: moved_def)

lemma moved_ok: "moved D t t' \<Longrightarrow> tables_ok t'"
  by (simp add: moved_def)

lemma moved_cases:
  assumes "moved D t t'"
  obtains "pending t' k = pending t k" "retained t' k = retained t k"
    | "pending t k \<noteq> None" "pending t' k = None" "retained t' k = pending t k"
    | "pending t' k = None" "retained t' k = retained t k" "k \<in> D"
proof -
  have "(pending t' k = pending t k \<and> retained t' k = retained t k) \<or>
     (pending t k \<noteq> None \<and> pending t' k = None \<and> retained t' k = pending t k) \<or>
     (pending t' k = None \<and> retained t' k = retained t k \<and> k \<in> D)"
    using assms by (simp add: moved_def)
  then show thesis using that by blast
qed

lemma moved_trans:
  assumes "moved D t t1" and "moved D t1 t2"
  shows "moved D t t2"
  unfolding moved_def
proof (intro conjI allI)
  show "tables_ok t2" using assms(2) by (rule moved_ok)
  fix k
  show "(pending t2 k = pending t k \<and> retained t2 k = retained t k) \<or>
     (pending t k \<noteq> None \<and> pending t2 k = None \<and> retained t2 k = pending t k) \<or>
     (pending t2 k = None \<and> retained t2 k = retained t k \<and> k \<in> D)"
    by (rule moved_cases [OF assms(1), of k]; rule moved_cases [OF assms(2), of k]) simp_all
qed

lemma moved_mono: "moved D t t' \<Longrightarrow> D \<subseteq> E \<Longrightarrow> moved E t t'"
  unfolding moved_def by blast

lemma moved_event:
  assumes "moved D t t'" and "pending t k = Some p"
  shows "pending t' k = Some p \<or> (pending t' k = None \<and> retained t' k = Some p) \<or>
         (pending t' k = None \<and> k \<in> D)"
  using assms(2) by (auto intro: moved_cases [OF assms(1), of k])

lemma moved_retained:
  assumes "moved D t t'" and "tables_ok t" and "retained t k = Some p"
  shows "retained t' k = Some p"
proof -
  have "k \<in> dead_id ` set (dead_letters t)"
    using assms(3) retained_None [of t k] by auto
  then have "k \<notin> row_id ` set (outbox t)" using assms(2) by (auto simp: tables_ok_def)
  then have "pending t k = None" using pending_None [of t k] by blast
  with assms(3) show ?thesis by (auto intro: moved_cases [OF assms(1), of k])
qed

locale conserving_operation =
  fixes operation :: "'a db" and delivered :: "string set"
  assumes conserves: "quiescent c \<Longrightarrow> tables_ok (stored c) \<Longrightarrow> operation c = (r, c')
      \<Longrightarrow> quiescent c' \<and> moved delivered (stored c) (stored c')"
begin

lemma event_kept:
  assumes "quiescent c" and "tables_ok (stored c)" and "operation c = (r, c')"
    and "pending (stored c) k = Some p" and "k \<notin> delivered"
  shows "pending (stored c') k = Some p \<or> retained (stored c') k = Some p"
  using moved_event [OF conjunct2 [OF conserves [OF assms(1-3)]] assms(4)] assms(5) by blast

lemma retained_kept:
  assumes "quiescent c" and "tables_ok (stored c)" and "operation c = (r, c')"
    and "retained (stored c) k = Some p"
  shows "retained (stored c') k = Some p"
  using moved_retained [OF conjunct2 [OF conserves [OF assms(1-3)]] assms(2,4)] .

end

lemma conserving_mono:
  assumes "conserving_operation m D" and "D \<subseteq> E"
  shows "conserving_operation m E"
proof
  fix c r c' assume a: "quiescent c" "tables_ok (stored c)" "m c = (r, c')"
  show "quiescent c' \<and> moved E (stored c) (stored c')"
    using conserving_operation.conserves [OF assms(1) a] moved_mono [OF _ assms(2)] by blast
qed

lemma conserving_ret: "conserving_operation (ret x) D"
  by unfold_locales (auto simp: ret_def)

lemma conserving_bind:
  assumes m: "conserving_operation m D" and f: "\<And>x. conserving_operation (f x) D"
  shows "conserving_operation (andThen m f) D"
proof
  fix c r c' assume a: "quiescent c" "tables_ok (stored c)" "andThen m f c = (r, c')"
  obtain q d where d: "m c = (q, d)" by fastforce
  note first = conserving_operation.conserves [OF m a(1,2) d]
  show "quiescent c' \<and> moved D (stored c) (stored c')"
  proof (cases q)
    case (Inl e)
    with d a(3) first show ?thesis by (auto simp: andThen_def)
  next
    case (Inr x)
    with d a(3) have "f x d = (r, c')" by (simp add: andThen_def)
    from conserving_operation.conserves [OF f _ _ this] first moved_ok moved_trans
    show ?thesis by blast
  qed
qed

lemma conserving_atomic:
  assumes "atomic_operation m f"
    and "\<And>t x t'. tables_ok t \<Longrightarrow> f t = Inr (x, t') \<Longrightarrow> moved D t t'"
  shows "conserving_operation m D"
proof
  fix c r c' assume a: "quiescent c" "tables_ok (stored c)" "m c = (r, c')"
  have "moved D (stored c) (stored c')"
  proof (rule atomic_operation.preserves [OF assms(1) _ a(1) _ a(3), where P = "\<lambda>t. moved D (stored c) t"])
    show "moved D (stored c) (stored c)" using a(2) by simp
  qed (use assms(2) moved_ok moved_trans in blast)
  with atomic_operation.quiescent_after [OF assms(1) a(1,3)]
  show "quiescent c' \<and> moved D (stored c) (stored c')" by blast
qed

lemma query_cases:
  assumes "query f c = (r, c')"
  obtains "r = Inr (f (working c))" "stored c' = stored c" "working c' = working c"
    | rc where "r = Inl (StorageError rc)" "stored c' = stored c" "working c' = working c"
  using assms by (auto simp: query_def statement_def split: outcome.splits)

interpretation query_conserving: conserving_operation "query f" D for f D
  by unfold_locales (auto elim!: query_cases simp: quiescent_def)

interpretation retry_conserving: conserving_operation "retry rows n reason" D for rows n reason D
  by (rule conserving_atomic [OF retry_op.atomic_operation_axioms]) (simp add: moved_def spec_retry_ok)

interpretation dead_letter_conserving: conserving_operation "dead_letter rows reason" D for rows reason D
proof (rule conserving_atomic [OF dead_letter_op.atomic_operation_axioms])
  fix t x t' assume ok: "tables_ok t" and run: "spec_dead_letter rows reason t = Inr (x, t')"
  show "moved D t t'"
    by (rule spec_dead_letter_ok [OF ok, of rows reason])
      (use run in \<open>auto simp: moved_def restrict_map_def map_add_def split: option.splits\<close>)
qed

definition delivered_ids :: "delivery_receipt list \<Rightarrow> string set" where
  "delivered_ids receipts = event_id ` {r \<in> set receipts. disposition r \<noteq> ''rejected''}"

lemma conserving_acknowledge:
  assumes "distinct (map event_id receipts)"
    and "list_all (\<lambda>r. known_disposition (disposition r)) receipts"
  shows "conserving_operation (acknowledge receipts) (delivered_ids receipts)"
proof (rule conserving_atomic [OF acknowledge_op.atomic_operation_axioms])
  fix t x t' assume ok: "tables_ok t" and run: "spec_acknowledge receipts t = Inr (x, t')"
  have ids: "k \<in> event_id ` set receipts \<longleftrightarrow> k \<in> rejected_ids receipts \<or> k \<in> delivered_ids receipts" for k
    by (auto simp: rejected_ids_def delivered_ids_def)
  show "moved (delivered_ids receipts) t t'"
  proof (rule spec_acknowledge_ok [OF ok assms(2,1)])
    fix t1 assume t1: "spec_acknowledge receipts t = Inr ((), t1)" "tables_ok t1"
      "pending t1 = pending t |` (- event_id ` set receipts)"
      "retained t1 = retained t ++ (pending t |` rejected_ids receipts)"
    from run t1(1) have "t1 = t'" by simp
    moreover have "moved (delivered_ids receipts) t t1"
      unfolding moved_def t1(3,4)
      by (auto simp: t1(2) ids restrict_map_def map_add_def split: option.splits)
    ultimately show ?thesis by simp
  qed
qed


section \<open>The delivery step\<close>

text \<open>The rows the step sends, and the events the server's answer delivers.\<close>

definition batch_rows :: "int \<Rightarrow> connection \<Rightarrow> attendance_record list" where
  "batch_rows now c = map record_of_row (due_rows now default_limit (stored c))"

definition delivered_by :: "json_api \<Rightarrow> environment \<Rightarrow> string \<Rightarrow> attendance_record list \<Rightarrow> string set" where
  "delivered_by api env device rows =
     (case send_batch api env device rows of
        None \<Rightarrow> {}
      | Some r \<Rightarrow>
          if 200 \<le> http_status r \<and> http_status r < 300
          then (case parse_receipts api (http_body r) rows of Inl _ \<Rightarrow> {} | Inr rs \<Rightarrow> delivered_ids rs)
          else {})"

lemma conserving_accept:
  assumes "send_batch api env device rows = Some r" and "200 \<le> http_status r" and "http_status r < 300"
  shows "conserving_operation (accept_response api env now rows r) (delivered_by api env device rows)"
proof (cases "parse_receipts api (http_body r) rows")
  case (Inl e)
  then show ?thesis
    by (simp add: accept_response_def retry_rows_def retry_conserving.conserving_operation_axioms)
next
  case (Inr rs)
  have "delivered_by api env device rows = delivered_ids rs"
    using assms Inr by (simp add: delivered_by_def)
  then show ?thesis
    using Inr conserving_acknowledge [OF parse_receipts_sound(1,3) [OF Inr]]
    by (auto simp: accept_response_def retry_rows_def Let_def
        intro!: conserving_bind conserving_ret retry_conserving.conserving_operation_axioms)
qed

text \<open>What follows the query, with the rows the query found.\<close>

definition deliver :: "json_api \<Rightarrow> environment \<Rightarrow> string \<Rightarrow> int \<Rightarrow> attendance_record list \<Rightarrow> sync_result db" where
  "deliver api env device now rows =
     (if rows = [] then ret Continue
      else case send_batch api env device rows of
             None \<Rightarrow> andThen (retry_rows env now rows [] ''transport_failure'') (\<lambda>_. ret Continue)
           | Some r \<Rightarrow>
               if http_status r = 401 \<or> http_status r = 403 then ret AuthenticationBlocked
               else andThen
                 (if http_status r = 400 \<or> http_status r = 422
                  then dead_letter rows (''schema_rejected_'' @ decimal_int (http_status r))
                  else if 200 \<le> http_status r \<and> http_status r < 300
                  then accept_response api env now rows r
                  else retry_rows env now rows (http_retry_after r) (''http_'' @ decimal_int (http_status r)))
                 (\<lambda>_. ret Continue))"

lemma attendance_step_deliver:
  "attendance_step api env device now = andThen (due now default_limit) (deliver api env device now)"
  unfolding attendance_step_def deliver_def ..

interpretation deliver_conserving:
  conserving_operation "deliver api env device now rows" "delivered_by api env device rows"
  for api env device now rows
  unfolding deliver_def retry_rows_def
  by (auto intro!: conserving_bind conserving_ret retry_conserving.conserving_operation_axioms
      dead_letter_conserving.conserving_operation_axioms conserving_accept split: option.splits)

lemma attendance_step_cases:
  assumes "quiescent c" and "attendance_step api env device now c = (r, c')"
  obtains d where "quiescent d" "stored d = stored c"
      "deliver api env device now (batch_rows now c) d = (r, c')"
    | rc where "r = Inl (StorageError rc)" "stored c' = stored c" "quiescent c'"
proof -
  obtain q d where q: "due now default_limit c = (q, d)" by fastforce
  then have "query (\<lambda>t. map record_of_row (due_rows now default_limit t)) c = (q, d)"
    by (simp add: due_def)
  then show thesis
  proof (cases rule: query_cases)
    case 1
    then have "q = Inr (batch_rows now c)" "quiescent d"
      using assms(1) by (simp_all add: batch_rows_def quiescent_def)
    with q assms(2) 1 show thesis by (intro that(1)) (simp_all add: attendance_step_deliver andThen_def)
  next
    case (2 rc)
    with q assms show thesis
      by (intro that(2)) (auto simp: attendance_step_deliver andThen_def quiescent_def)
  qed
qed

lemma attendance_step_moved:
  assumes "quiescent c" and "tables_ok (stored c)" and "attendance_step api env device now c = (r, c')"
  shows "quiescent c' \<and> moved (delivered_by api env device (batch_rows now c)) (stored c) (stored c')"
  using assms(1,3)
proof (cases rule: attendance_step_cases)
  case (1 d)
  then show ?thesis using deliver_conserving.conserves [OF 1(1) _ 1(3)] assms(2) by simp
next
  case (2 rc)
  then show ?thesis using assms(2) by simp
qed


section \<open>Back-off\<close>

lemma foldl_bump_pause [simp]:
  "retry_not_before (foldl (\<lambda>t r. bump_row n reason (f r) t) t rows) = retry_not_before t"
  by (induction rows arbitrary: t) (simp_all add: bump_row_def)

lemma retry_pauses:
  assumes "quiescent c" and "tables_ok (stored c)" and "rows \<noteq> []" and "retry rows n reason c = (Inr u, c')"
  shows "\<exists>pause. retry_not_before (stored c') = Some pause \<and> n \<le> pause"
proof -
  have "spec_retry rows n reason (stored c) = Inr (u, stored c')"
    using retry_op.commits [OF assms(1,4)] by blast
  with assms(3) have "stored c' = foldl (\<lambda>t r. bump_row n reason (record_id r) t) (postpone n (stored c)) rows"
    by (simp add: spec_retry_def)
  then have "retry_not_before (stored c') = map_option (max n) (retry_not_before (stored c))"
    by (simp add: postpone_def)
  with assms(2) show ?thesis by (auto simp: tables_ok_def)
qed

lemma acknowledge_removes:
  assumes "quiescent c" and "tables_ok (stored c)" and "acknowledge receipts c = (Inr u, c')"
    and "distinct (map event_id receipts)" and "list_all (\<lambda>r. known_disposition (disposition r)) receipts"
    and "k \<in> event_id ` set receipts"
  shows "pending (stored c') k = None"
proof -
  have run: "spec_acknowledge receipts (stored c) = Inr (u, stored c')"
    using acknowledge_op.commits [OF assms(1,3)] by blast
  show ?thesis
    by (rule spec_acknowledge_ok [OF assms(2,5,4)]) (use run assms(6) in auto)
qed

lemma dead_letter_removes:
  assumes "quiescent c" and "tables_ok (stored c)" and "dead_letter rows reason c = (Inr u, c')"
    and "k \<in> record_id ` set rows"
  shows "pending (stored c') k = None"
proof -
  have run: "spec_dead_letter rows reason (stored c) = Inr (u, stored c')"
    using dead_letter_op.commits [OF assms(1,3)] by blast
  show ?thesis
    by (rule spec_dead_letter_ok [OF assms(2), of rows reason]) (use run assms(4) in auto)
qed

definition reply_header :: "json_api \<Rightarrow> environment \<Rightarrow> string \<Rightarrow> attendance_record list \<Rightarrow> string" where
  "reply_header api env device rows =
     (case send_batch api env device rows of None \<Rightarrow> [] | Some r \<Rightarrow> http_retry_after r)"

definition earliest_retry :: "environment \<Rightarrow> int \<Rightarrow> string \<Rightarrow> int" where
  "earliest_retry env now header =
     clock_now env now + max 1000 (server_delay (clock_now env now) header)"

lemma earliest_retry_le: "earliest_retry env now header \<le> retry_time env now tries header"
proof -
  have "max 1000 d \<le> max (backoff tries) d + int j" for d j
    using backoff_bounds [of tries] by (auto simp: max_def)
  then show ?thesis by (simp add: earliest_retry_def retry_time_def retry_at_def)
qed

definition paused_until :: "int \<Rightarrow> tables \<Rightarrow> bool" where
  "paused_until n t \<longleftrightarrow> (\<exists>pause. retry_not_before t = Some pause \<and> n \<le> pause)"

lemma paused_due: "paused_until n t \<Longrightarrow> now < n \<Longrightarrow> due_rows now limit t = []"
  by (auto simp: paused_until_def due_rows_def filter_empty_conv)

lemma retry_rows_pauses:
  assumes "quiescent c" and "tables_ok (stored c)" and "rows \<noteq> []"
    and "retry_rows env now rows header reason c = (Inr u, c')"
  shows "paused_until (earliest_retry env now header) (stored c')"
  using retry_pauses [OF assms(1-3)] assms(4) earliest_retry_le [of env now header "max_attempts rows"]
  unfolding retry_rows_def paused_until_def by (meson order_trans)

lemma accept_pauses:
  assumes c: "quiescent c" "tables_ok (stored c)" and "rows \<noteq> []" and "k \<in> record_id ` set rows"
    and run: "accept_response api env now rows r c = (Inr u, c')"
    and "pending (stored c') k \<noteq> None"
  shows "paused_until (earliest_retry env now (http_retry_after r)) (stored c')"
proof (cases "parse_receipts api (http_body r) rows")
  case (Inl e)
  with run retry_rows_pauses [OF c assms(3)] show ?thesis by (simp add: accept_response_def)
next
  case (Inr rs)
  let ?rest = "unacknowledged rs rows"
  from run Inr obtain x d where ack: "acknowledge rs c = (Inr x, d)"
    and rest: "(if ?rest = [] then ret ()
       else retry_rows env now ?rest (http_retry_after r) ''missing_ack'') d = (Inr u, c')"
    unfolding accept_response_def Inr sum.case Let_def andThen_Inr_iff by (elim exE conjE)
  note sound = parse_receipts_sound [OF Inr]
  have d: "quiescent d" "tables_ok (stored d)"
    using conserving_operation.conserves [OF conserving_acknowledge [OF sound(1,3)] c ack] moved_ok by blast+
  have removed: "pending (stored d) j = None" if "j \<in> event_id ` set rs" for j
    by (rule acknowledge_removes [OF c ack sound(1,3) that])
  have "?rest \<noteq> []"
  proof
    assume empty: "?rest = []"
    then have "\<forall>e \<in> set rows. record_id e \<in> event_id ` set rs"
      unfolding unacknowledged_def filter_empty_conv by simp
    with assms(4) have "k \<in> event_id ` set rs" by blast
    then have "pending (stored d) k = None" by (rule removed)
    moreover have "c' = d" using rest unfolding empty ret_def by simp
    ultimately show False using assms(6) by simp
  qed
  with rest retry_rows_pauses [OF d this] show ?thesis by simp
qed

lemma deliver_pauses:
  assumes c: "quiescent c" "tables_ok (stored c)" and k: "k \<in> record_id ` set rows"
    and run: "deliver api env device now rows c = (Inr Continue, c')"
    and left: "pending (stored c') k \<noteq> None"
  shows "paused_until (earliest_retry env now (reply_header api env device rows)) (stored c')"
proof -
  have rows: "rows \<noteq> []" using k by auto
  show ?thesis
  proof (cases "send_batch api env device rows")
    case None
    with run rows retry_rows_pauses [OF c rows] show ?thesis
      by (auto simp: deliver_def reply_header_def andThen_Inr_iff ret_def)
  next
    case (Some r)
    have header: "reply_header api env device rows = http_retry_after r"
      using Some by (simp add: reply_header_def)
    have auth: "\<not> (http_status r = 401 \<or> http_status r = 403)"
      using run rows Some by (auto simp: deliver_def ret_def)
    consider (schema) "http_status r = 400 \<or> http_status r = 422"
      | (accepted) "\<not> (http_status r = 400 \<or> http_status r = 422)" "200 \<le> http_status r \<and> http_status r < 300"
      | (other) "\<not> (http_status r = 400 \<or> http_status r = 422)" "\<not> (200 \<le> http_status r \<and> http_status r < 300)"
      by blast
    then show ?thesis
    proof cases
      case schema
      with run rows Some auth obtain u where
        "dead_letter rows (''schema_rejected_'' @ decimal_int (http_status r)) c = (Inr u, c')"
        by (auto simp: deliver_def andThen_Inr_iff ret_def)
      from dead_letter_removes [OF c this k] left show ?thesis by blast
    next
      case accepted
      with run rows Some auth obtain u where "accept_response api env now rows r c = (Inr u, c')"
        by (auto simp: deliver_def andThen_Inr_iff ret_def)
      from accept_pauses [OF c rows k this left] show ?thesis unfolding header .
    next
      case other
      with run rows Some auth obtain u where
        "retry_rows env now rows (http_retry_after r) (''http_'' @ decimal_int (http_status r)) c = (Inr u, c')"
        by (auto simp: deliver_def andThen_Inr_iff ret_def)
      from retry_rows_pauses [OF c rows this] show ?thesis unfolding header .
    qed
  qed
qed

section \<open>A sample run\<close>

text \<open>One waiting event, a transport that answers with a given status, and a JSON engine that knows
  the documents involved: the inputs on which the properties below are exercised.\<close>

definition sample_api :: json_api where
  "sample_api = \<lparr>json_parse = (\<lambda>s.
      if s = ''P1'' then Some [(''schema_version'', JNumber 1), (''event_id'', JString ''e1''),
                               (''device_id'', JString ''d1'')]
      else if s = ''R1'' then Some [(''schema_version'', JNumber 1), (''results'', JArray
             [JObject [(''event_id'', JString ''e1''), (''status'', JString ''accepted'')]])]
      else None),
    json_stringify = (\<lambda>_. ''B'')\<rparr>"

definition sample_env :: "int \<Rightarrow> environment" where
  "sample_env code = \<lparr>env_request = (\<lambda>_ _ _ _. Some \<lparr>http_status = code, http_body = ''R1'', http_etag = [],
     http_retry_after = ''7''\<rparr>), env_elapsed = 3, env_rng = Some 600\<rparr>"

definition sample_record :: attendance_record where
  "sample_record = \<lparr>record_id = ''e1'', payload = ''P1'', occurred_ms = 5, next_attempt_ms = 0, attempts = 0\<rparr>"

definition sample_tables :: tables where
  "sample_tables = no_tables\<lparr>user_version := 2, outbox := [fresh_row sample_record],
     retry_not_before := Some 0\<rparr>"

definition sample_connection :: connection where
  "sample_connection = \<lparr>stored = sample_tables, working = sample_tables, outcomes = []\<rparr>"

definition sample_step :: "int \<Rightarrow> (error + sync_result) \<times> connection" where
  "sample_step code = attendance_step sample_api (sample_env code) ''d1'' 1000 sample_connection"

lemma sample_quiescent: "quiescent sample_connection"
  by (simp add: quiescent_def sample_connection_def)

lemma sample_ok: "tables_ok (stored sample_connection)"
  by (simp add: tables_ok_def sample_connection_def sample_tables_def no_tables_def fresh_row_def)

lemma sample_step_run:
  "attendance_step sample_api (sample_env code) ''d1'' 1000 sample_connection
     = (fst (sample_step code), snd (sample_step code))"
  by (simp add: sample_step_def)

section \<open>Properties\<close>

text \<open>
  C1: no attendance event is lost. Whatever the server answers and whichever SQLite call fails,
  an event waiting before a delivery step is afterwards still waiting with the same payload, or
  retained with that payload, or was acknowledged as accepted or duplicate in a well-formed 2xx
  answer to the batch that contained it; retained events stay, and the tables stay well formed.
\<close>

theorem no_event_lost:
  assumes "quiescent c" and "tables_ok (stored c)"
    and "attendance_step api env device now c = (r, c')"
  shows "quiescent c' \<and> tables_ok (stored c') \<and>
    (\<forall>k p. pending (stored c) k = Some p \<longrightarrow>
       pending (stored c') k = Some p \<or> retained (stored c') k = Some p \<or>
       k \<in> delivered_by api env device (batch_rows now c)) \<and>
    (\<forall>k p. retained (stored c) k = Some p \<longrightarrow> retained (stored c') k = Some p)"
  using attendance_step_moved [OF assms] moved_ok moved_event moved_retained [OF _ assms(2)] by blast

theorem no_event_lost_witness:
  "pending (stored (snd (sample_step 503))) ''e1'' = Some ''P1'' \<or>
   retained (stored (snd (sample_step 503))) ''e1'' = Some ''P1'' \<or>
   ''e1'' \<in> delivered_by sample_api (sample_env 503) ''d1'' (batch_rows 1000 sample_connection)"
proof -
  have "pending (stored sample_connection) ''e1'' = Some ''P1''" by code_simp
  then show ?thesis
    using no_event_lost [OF sample_quiescent sample_ok sample_step_run] by blast
qed



text \<open>
  An answer of 401 or 403 leaves the durable tables exactly as they were: no attempt is
  counted, nothing is postponed, rejected or removed.
\<close>

theorem auth_block_changes_nothing:
  assumes "quiescent c" and "attendance_step api env device now c = (Inr AuthenticationBlocked, c')"
  shows "stored c' = stored c"
  using assms
proof (cases rule: attendance_step_cases)
  case (1 d)
  then have "stored c' = stored d"
    by (auto simp: deliver_def andThen_Inr_iff ret_def split: if_splits option.splits)
  with 1 show ?thesis by simp
qed simp

theorem auth_block_changes_nothing_witness: "stored (snd (sample_step 403)) = sample_tables"
proof -
  have "attendance_step sample_api (sample_env 403) ''d1'' 1000 sample_connection
      = (Inr AuthenticationBlocked, snd (sample_step 403))"
    unfolding sample_step_run by code_simp
  from auth_block_changes_nothing [OF sample_quiescent this] show ?thesis
    by (simp add: sample_connection_def)
qed

end
