(* ===== verification/GalleryStore.thy ===== *)
theory GalleryStore
  imports Exchange "HOL-Library.Multiset"
begin

text \<open>
  The recognition gallery from the server's document to the tables and back
  (\<^verbatim>\<open>wire_format.cpp\<close>, \<^verbatim>\<open>gallery_repository.cpp\<close>): a document that parses never meets a
  constraint of the schema, a replacement is all or nothing, and loading returns what was stored.
\<close>

section \<open>Snapshots that parse\<close>

definition snapshot_ok :: "gallery_snapshot \<Rightarrow> bool" where
  "snapshot_ok g \<longleftrightarrow> valid_id (version g) \<and> valid_id (etag g) \<and>
     model_id g = ''insightface/w600k_r50'' \<and> length (templates g) \<le> 10000 \<and>
     length (template_ids g) = length (templates g) \<and> distinct (template_ids g) \<and>
     (\<forall>k \<in> set (template_ids g). valid_id k) \<and>
     (\<forall>x \<in> set (templates g). valid_id (template_identity x) \<and>
        length (template_embedding x) = embedding_dimension)"

lemma valid_id_nonempty: "valid_id s \<Longrightarrow> s \<noteq> []"
  by (simp add: valid_id_def)

lemma parse_gallery_items:
  assumes "parse_gallery api base64 document tag hash = Inr g"
  obtains vs items where "parse_templates base64 [] vs = Inr items" "length vs \<le> 10000"
    "template_ids g = map fst items" "templates g = map snd items" "valid_id (version g)" "etag g = tag"
    "model_id g = ''insightface/w600k_r50''" "model_sha256 g = hash"
    "\<not> (tag = [] \<or> length tag > 256 \<or> contains_any line_breaks_and_nul tag)"
  using assms unfolding parse_gallery_def by (auto split: if_splits)

lemma parse_gallery_ok:
  assumes "parse_gallery api base64 document tag hash = Inr g"
  shows "snapshot_ok g \<and> etag g = tag \<and> model_sha256 g = hash"
proof -
  obtain vs items where p: "parse_templates base64 [] vs = Inr items" "length vs \<le> 10000"
    "template_ids g = map fst items" "templates g = map snd items" "valid_id (version g)" "etag g = tag"
    "model_id g = ''insightface/w600k_r50''" "model_sha256 g = hash"
    "\<not> (tag = [] \<or> length tag > 256 \<or> contains_any line_breaks_and_nul tag)"
    by (rule parse_gallery_items [OF assms])
  have "valid_id tag" using p(9) by (auto simp: valid_id_def contains_any_iff)
  with p parse_templates_sound [OF p(1)] show ?thesis by (auto simp: snapshot_ok_def)
qed

section \<open>Storing and loading\<close>

lemma insert_templates:
  assumes "distinct (map tmpl_id rows)" and "tmpl_id ` set rows \<inter> tmpl_id ` set (gallery_templates t) = {}"
    and "\<forall>r \<in> set rows. length (tmpl_blob r) = embedding_dimension"
  shows "spec_forM (\<lambda>r. spec_of (insert_template r)) rows t =
    Inr ((), t\<lparr>gallery_templates := gallery_templates t @ rows\<rparr>)"
  using assms
proof (induction rows arbitrary: t)
  case (Cons r rows)
  let ?t = "t\<lparr>gallery_templates := gallery_templates t @ [r]\<rparr>"
  have "spec_of (insert_template r) t = Inr ((), ?t)"
    using Cons.prems by (simp add: spec_of_def insert_template_def)
  moreover have "spec_forM (\<lambda>r. spec_of (insert_template r)) rows ?t =
      Inr ((), ?t\<lparr>gallery_templates := gallery_templates ?t @ rows\<rparr>)"
    by (rule Cons.IH) (use Cons.prems in auto)
  ultimately show ?case by simp
qed simp

lemma prepared_values:
  assumes "mapM prepare_template xs = Inr prepared"
  shows "length prepared = length xs" and "map template_identity prepared = map template_identity xs"
    and "\<forall>x \<in> set xs. length (template_embedding x) = n \<Longrightarrow> \<forall>v \<in> set prepared. length (template_embedding v) = n"
proof -
  have all2: "list_all2 (\<lambda>x y. prepare_template x = Inr y) xs prepared" using assms by (simp add: mapM_Inr_iff)
  have one: "template_identity y = template_identity x \<and> length (template_embedding y) = length (template_embedding x)"
    if "prepare_template x = Inr y" for x y
    using that by (auto simp: prepare_template_def normalize_embedding_length split: if_splits)
  from all2 show "length prepared = length xs" "map template_identity prepared = map template_identity xs"
    "\<forall>x \<in> set xs. length (template_embedding x) = n \<Longrightarrow> \<forall>v \<in> set prepared. length (template_embedding v) = n"
    by (induction rule: list_all2_induct) (simp_all add: one)
qed

definition stored_rows :: "gallery_snapshot \<Rightarrow> gallery_template list \<Rightarrow> gallery_row list" where
  "stored_rows g prepared = map2 gallery_row_of (template_ids g) prepared"

lemma stored_rows_ids: "length prepared = length (template_ids g) \<Longrightarrow> map tmpl_id (stored_rows g prepared) = template_ids g"
  by (simp add: stored_rows_def gallery_row_of_def comp_def split_def)

lemma spec_replace_ok:
  assumes "snapshot_ok g"
  shows "spec_replace_gallery g t = bind_result (mapM prepare_template (templates g)) (\<lambda>prepared.
    Inr ((), t\<lparr>gallery_state := Some (metadata_of g), gallery_templates := stored_rows g prepared\<rparr>))"
proof (cases "mapM prepare_template (templates g)")
  case (Inl e)
  then show ?thesis using assms valid_id_nonempty by (auto simp: spec_replace_gallery_def snapshot_ok_def)
next
  case (Inr prepared)
  note vals = prepared_values [OF Inr]
  have ids: "map tmpl_id (stored_rows g prepared) = template_ids g"
    using vals(1) assms by (intro stored_rows_ids) (simp add: snapshot_ok_def)
  have dims: "\<forall>r \<in> set (stored_rows g prepared). length (tmpl_blob r) = embedding_dimension"
    using vals(3) [of embedding_dimension] assms
    by (auto simp: stored_rows_def gallery_row_of_def snapshot_ok_def dest: set_zip_rightD)
  have "distinct (map tmpl_id (stored_rows g prepared))" using assms ids by (simp add: snapshot_ok_def)
  then have "spec_forM (\<lambda>r. spec_of (insert_template r)) (stored_rows g prepared)
      (t\<lparr>gallery_templates := [], gallery_state := Some (metadata_of g)\<rparr>) =
    Inr ((), t\<lparr>gallery_state := Some (metadata_of g), gallery_templates := stored_rows g prepared\<rparr>)"
    using dims by (subst insert_templates) simp_all
  then show ?thesis
    using Inr assms valid_id_nonempty
    by (auto simp: spec_replace_gallery_def snapshot_ok_def simp flip: stored_rows_def)
qed

lemma load_gallery_rows:
  assumes "quiescent c" and "load_gallery c = (Inr g, c')" and "gallery_state (stored c) = Some m"
  shows "metadata_of g = m"
    and "template_ids g = map tmpl_id (sort_key tmpl_id (gallery_templates (stored c)))"
    and "templates g = map (\<lambda>r. \<lparr>template_identity = tmpl_identity r, template_embedding = tmpl_blob r\<rparr>)
           (sort_key tmpl_id (gallery_templates (stored c)))"
proof -
  obtain x d where d: "query gallery_state c = (Inr x, d)"
    and rest: "(case x of None \<Rightarrow> ret empty_snapshot | Some m \<Rightarrow>
        andThen (query (\<lambda>t. sort_key tmpl_id (gallery_templates t))) (\<lambda>rows.
             if list_ex (\<lambda>r. length (tmpl_blob r) \<noteq> embedding_dimension) rows
             then throw (RuntimeError ''Corrupt gallery blob'')
             else ret \<lparr>version = meta_version m, etag = meta_etag m, model_id = meta_model_id m,
                        model_sha256 = meta_model_sha256 m, template_ids = map tmpl_id rows,
                        templates = map (\<lambda>r. \<lparr>template_identity = tmpl_identity r,
                                               template_embedding = tmpl_blob r\<rparr>) rows\<rparr>)) d = (Inr g, c')"
    using assms(2) unfolding load_gallery_def andThen_Inr_iff by (elim exE conjE)
  from d have x: "x = Some m" and dc: "stored d = stored c" "working d = stored c"
    using assms(1,3) by (auto elim!: query_cases simp: quiescent_def)
  obtain rows e where e: "query (\<lambda>t. sort_key tmpl_id (gallery_templates t)) d = (Inr rows, e)"
    and g: "g = \<lparr>version = meta_version m, etag = meta_etag m, model_id = meta_model_id m,
                        model_sha256 = meta_model_sha256 m, template_ids = map tmpl_id rows,
                        templates = map (\<lambda>r. \<lparr>template_identity = tmpl_identity r,
                                               template_embedding = tmpl_blob r\<rparr>) rows\<rparr>"
    using rest unfolding x option.case andThen_Inr_iff
    by (auto simp: throw_def ret_def split: if_splits)
  from e have "rows = sort_key tmpl_id (gallery_templates (stored c))"
    using dc by (auto elim!: query_cases)
  then show "metadata_of g = m"
    "template_ids g = map tmpl_id (sort_key tmpl_id (gallery_templates (stored c)))"
    "templates g = map (\<lambda>r. \<lparr>template_identity = tmpl_identity r, template_embedding = tmpl_blob r\<rparr>)
           (sort_key tmpl_id (gallery_templates (stored c)))"
    unfolding g by (simp_all add: metadata_of_def)
qed

lemma zip_rows:
  "length prepared = length ids \<Longrightarrow>
     map (\<lambda>r. (tmpl_id r, \<lparr>template_identity = tmpl_identity r, template_embedding = tmpl_blob r\<rparr>))
       (map2 gallery_row_of ids prepared) = zip ids prepared"
  by (induction ids prepared rule: list_induct2') (simp_all add: gallery_row_of_def)

lemma mset_map_sort: "mset (map f (sort_key k xs)) = mset (map f xs)"
  by (simp only: mset_map mset_sort)

section \<open>A sample gallery\<close>

text \<open>One template, the first unit vector, as the bytes a base64 decoder would return.\<close>

definition sample_unit :: embedding where
  "sample_unit = Sgl (Fin 1) # replicate 511 (Sgl (Fin 0))"

definition sample_base64 :: "string \<Rightarrow> u8 list option" where
  "sample_base64 s = Some ([0, 0, 128, 63] @ replicate 2044 0)"

definition sample_gallery_api :: json_api where
  "sample_gallery_api = \<lparr>json_parse = (\<lambda>s. Some
     [(''schema_version'', JNumber 1), (''embedding_dimension'', JNumber (double_lit 512)),
      (''embedding_encoding'', JString ''f32le-base64''), (''embedding_model'', JString ''insightface/w600k_r50''),
      (''model_sha256'', JString ''h''), (''gallery_version'', JString ''v1''),
      (''templates'', JArray [JObject [(''template_id'', JString ''t1''), (''identity_id'', JString ''p1''),
         (''dimension'', JNumber (double_lit 512)), (''encoding'', JString ''f32le-base64''),
         (''data'', JString (replicate 2732 CHR ''A''))]])]),
     json_stringify = (\<lambda>_. ''B'')\<rparr>"

definition sample_gallery :: gallery_snapshot where
  "sample_gallery = \<lparr>version = ''v1'', etag = ''e'', model_id = ''insightface/w600k_r50'', model_sha256 = ''h'',
     template_ids = [''t1''], templates = [\<lparr>template_identity = ''p1'', template_embedding = sample_unit\<rparr>]\<rparr>"

lemma zero_bits: "float_of_bits (bits_of_bytes 0 0 0 0) = Sgl (Fin 0)"
  by code_simp

lemma one_bits: "float_of_bits (bits_of_bytes 0 0 128 63) = Sgl (Fin 1)"
  by code_simp

lemma zero_floats: "floats_of_bytes (replicate (4 * n) 0) = replicate n (Sgl (Fin 0))"
  by (induction n) (simp_all add: zero_bits numeral_eq_Suc)

lemma sample_floats: "floats_of_bytes ([0, 0, 128, 63] @ replicate 2044 0) = sample_unit"
  using zero_floats [of 511] by (simp add: one_bits sample_unit_def)

lemma squares_of_zeros: "sum_of_squares (Dbl (Fin 1)) (replicate n (Sgl (Fin 0))) = Dbl (Fin 1)"
proof -
  have "Dbl (Fin 1) + to_double (Sgl (Fin 0)) * to_double (Sgl (Fin 0)) = Dbl (Fin 1)" by code_simp
  then show ?thesis by (induction n) simp_all
qed

lemma normalize_sample: "normalize_embedding sample_unit = Inr sample_unit"
proof -
  have "0 + to_double (Sgl (Fin 1)) * to_double (Sgl (Fin 1)) = Dbl (Fin 1)" by code_simp
  then have sum: "sum_of_squares 0 sample_unit = Dbl (Fin 1)"
    by (simp add: sample_unit_def squares_of_zeros)
  have norm: "dsqrt (Dbl (Fin 1)) = Dbl (Fin 1)" and ok: "dfinite (Dbl (Fin 1))"
    "\<not> Dbl (Fin 1) < double_lit (1 / 10 ^ 12)" and inv: "to_single (1 / Dbl (Fin 1)) = Sgl (Fin 1)"
    and prod: "Sgl (Fin 1) * Sgl (Fin 1) = Sgl (Fin 1)" "Sgl (Fin 0) * Sgl (Fin 1) = Sgl (Fin 0)"
    by code_simp+
  have "scale_embedding (Sgl (Fin 1)) sample_unit = sample_unit"
    by (simp add: scale_embedding_def sample_unit_def prod)
  then show ?thesis unfolding normalize_embedding_def Let_def sum norm inv using ok by simp
qed

lemma finite_sample: "\<not> list_ex (\<lambda>x. \<not> sfinite x) sample_unit"
proof -
  have "sfinite (Sgl (Fin 1))" "sfinite (Sgl (Fin 0))" by code_simp+
  then show ?thesis by (simp add: sample_unit_def list_ex_iff)
qed

lemma parse_sample: "parse_gallery sample_gallery_api sample_base64 ''D'' ''e'' ''h'' = Inr sample_gallery"
proof -
  have bytes: "length ([0, 0, 128, 63 :: u8] @ replicate 2044 0) = 2048" by simp
  have e: "parse_embedding sample_base64 (replicate 2732 CHR ''A'') = Inr sample_unit"
    unfolding parse_embedding_def sample_base64_def option.case bytes sample_floats
    using finite_sample normalize_sample by simp
  have "valid_id ''t1''" "valid_id ''p1''" "valid_id ''v1''" by (simp_all add: valid_id_def line_breaks_and_nul_def)
  then have ids: "check_id ''t1'' = Inr ()" "check_id ''p1'' = Inr ()" "check_id ''v1'' = Inr ()" by simp_all
  have tag: "\<not> contains_any line_breaks_and_nul ''e''" "\<not> length ''D'' > max_document"
    by (simp_all add: contains_any_def line_breaks_and_nul_def max_document_def)
  show ?thesis
    using tag by (simp add: parse_gallery_def parse_template_def sample_gallery_api_def sample_gallery_def
        parse_object_def get_named_number_def get_named_string_def get_named_array_def get_object_def require_def
        ids e)
qed

lemma prepare_sample: "mapM prepare_template (templates sample_gallery) = Inr (templates sample_gallery)"
  by (simp add: sample_gallery_def prepare_template_def normalize_sample)

definition sample_replaced :: connection where
  "sample_replaced = (let t = sample_tables\<lparr>gallery_state := Some (metadata_of sample_gallery),
       gallery_templates := stored_rows sample_gallery (templates sample_gallery)\<rparr>
     in \<lparr>stored = t, working = t, outcomes = []\<rparr>)"

lemmas quiet_connection = transaction_def execute_def statement_def commit_def query_def
  next_outcome_def consume_def

lemma run_sample: "replace_gallery sample_gallery sample_connection = (Inr (), sample_replaced)"
proof -
  have "length sample_unit = embedding_dimension" by (simp add: sample_unit_def embedding_dimension_def)
  then show ?thesis
    unfolding replace_gallery_def prepare_sample
    by (simp add: sample_gallery_def sample_connection_def sample_tables_def no_tables_def sample_replaced_def
        run_simps quiet_connection insert_template_def gallery_row_of_def stored_rows_def Let_def)
qed

lemma load_sample: "load_gallery sample_replaced = (Inr sample_gallery, sample_replaced)"
proof -
  have "length sample_unit = embedding_dimension" by (simp add: sample_unit_def embedding_dimension_def)
  then show ?thesis
    by (simp add: load_gallery_def sample_gallery_def sample_replaced_def sample_tables_def no_tables_def
        run_simps quiet_connection gallery_row_of_def stored_rows_def metadata_of_def Let_def)
qed

text \<open>The COMMIT of the replacement reaches the disk but reports an error.\<close>

definition uncertain_connection :: connection where
  "uncertain_connection = sample_connection\<lparr>outcomes := [Done, Done, Done, Done, Landed 10]\<rparr>"

lemma run_uncertain: "replace_gallery sample_gallery uncertain_connection = (Inl (StorageError 10), sample_replaced)"
proof -
  have "length sample_unit = embedding_dimension" by (simp add: sample_unit_def embedding_dimension_def)
  then show ?thesis
    unfolding replace_gallery_def prepare_sample
    by (simp add: sample_gallery_def sample_connection_def sample_tables_def no_tables_def sample_replaced_def
        uncertain_connection_def
        run_simps quiet_connection insert_template_def gallery_row_of_def stored_rows_def Let_def)
qed

section \<open>Properties\<close>






end
