(* ===== verification/Service.thy ===== *)
theory Service
  imports GalleryStore
begin

text \<open>
  What the synchronisation service (\<^verbatim>\<open>sync_service.cpp\<close>, \<^verbatim>\<open>gallery_sync.cpp\<close>,
  \<^verbatim>\<open>sync_worker.cpp\<close>) promises: the authentication latch, the pace of gallery polling, and the
  events of the outbox across a whole turn of the worker.
\<close>

section \<open>Composition\<close>

lemma on_db_run: "on_db m (s, c) = (r, w) \<longleftrightarrow> (\<exists>c'. m c = (r, c') \<and> w = (s, c'))"
  by (auto simp: on_db_def split: prod.splits)

text \<open>A component that only does database work keeps the events of the outbox.\<close>

lemma replace_outbox:
  "spec_replace_gallery g t = Inr (x, t') \<Longrightarrow> outbox t' = outbox t \<and> dead_letters t' = dead_letters t \<and>
     retry_not_before t' = retry_not_before t"
proof -
  have "spec_forM (\<lambda>r. spec_of (insert_template r)) rows t0 = Inr (y, t1) \<Longrightarrow>
      outbox t1 = outbox t0 \<and> dead_letters t1 = dead_letters t0 \<and> retry_not_before t1 = retry_not_before t0"
    for rows t0 t1 y
  proof (induction rows arbitrary: t0)
    case (Cons r rows)
    then obtain t2 where "spec_of (insert_template r) t0 = Inr ((), t2)"
      "spec_forM (\<lambda>r. spec_of (insert_template r)) rows t2 = Inr (y, t1)" by auto
    moreover from this(1) have "outbox t2 = outbox t0 \<and> dead_letters t2 = dead_letters t0 \<and>
        retry_not_before t2 = retry_not_before t0"
      by (auto simp: spec_of_def insert_template_def split: if_splits)
    ultimately show ?case using Cons.IH by simp
  qed simp
  from this [of "map2 gallery_row_of (template_ids g) _"]
  show "spec_replace_gallery g t = Inr (x, t') \<Longrightarrow> outbox t' = outbox t \<and> dead_letters t' = dead_letters t \<and>
      retry_not_before t' = retry_not_before t"
    by (fastforce simp: spec_replace_gallery_def split: if_splits)
qed

lemma same_rows_moved:
  assumes "tables_ok t" and "outbox t' = outbox t \<and> dead_letters t' = dead_letters t \<and>
     retry_not_before t' = retry_not_before t"
  shows "moved D t t'"
  using assms by (simp add: moved_def tables_ok_def pending_def retained_def find_outbox_def find_dead_def)

interpretation replace_conserving: conserving_operation "replace_gallery g" D for g D
proof (rule conserving_atomic [OF replace_op.atomic_operation_axioms])
  fix t x t' assume "tables_ok t" and "spec_replace_gallery g t = Inr (x, t')"
  then show "moved D t t'" using same_rows_moved replace_outbox by blast
qed

text \<open>The same contract for computations that carry more state beside the connection.\<close>

definition conserving_run :: "('s \<times> connection, 'a) run \<Rightarrow> string set \<Rightarrow> bool" where
  "conserving_run m D \<longleftrightarrow> (\<forall>s c r s' c'. quiescent c \<and> tables_ok (stored c) \<and> m (s, c) = (r, (s', c'))
     \<longrightarrow> quiescent c' \<and> moved D (stored c) (stored c'))"

named_theorems conserving_rules \<open>compositional rules for conserving_run\<close>

lemma conserving_on_db [conserving_rules]: "conserving_operation m D \<Longrightarrow> conserving_run (on_db m) D"
  unfolding conserving_run_def using conserving_operation.conserves by (fastforce simp: on_db_run)

lemma conserving_run_ret [conserving_rules]: "conserving_run (ret x) D"
  by (simp add: conserving_run_def ret_def)

lemma conserving_run_lift [conserving_rules]: "conserving_run (lift_result x) D"
  by (simp add: conserving_run_def lift_result_def)

lemma conserving_run_get [conserving_rules]: "conserving_run get_state D"
  by (simp add: conserving_run_def get_state_def)

lemma conserving_run_poll [conserving_rules]: "conserving_run (on_poll f) D"
  by (simp add: conserving_run_def on_poll_def modify_def)

lemma conserving_run_service [conserving_rules]: "conserving_run (on_service f) D"
  by (simp add: conserving_run_def on_service_def modify_def)

lemma conserving_run_gallery [conserving_rules]: "conserving_run m D \<Longrightarrow> conserving_run (on_gallery m) D"
  unfolding conserving_run_def on_gallery_def by (fastforce split: prod.splits)

lemma conserving_run_bind [conserving_rules]:
  assumes "conserving_run m D" and "\<And>x. conserving_run (f x) D"
  shows "conserving_run (andThen m f) D"
  unfolding conserving_run_def
proof (intro allI impI)
  fix s c r s' c'
  assume a: "quiescent c \<and> tables_ok (stored c) \<and> andThen m f (s, c) = (r, (s', c'))"
  obtain q s1 c1 where q: "m (s, c) = (q, (s1, c1))" by (metis surj_pair)
  from assms(1) a q have first: "quiescent c1" "moved D (stored c) (stored c1)"
    unfolding conserving_run_def by blast+
  show "quiescent c' \<and> moved D (stored c) (stored c')"
  proof (cases q)
    case (Inl e)
    with a q first show ?thesis by (simp add: andThen_def)
  next
    case (Inr x)
    with a q have "f x (s1, c1) = (r, (s', c'))" by (simp add: andThen_def)
    with assms(2) first have "quiescent c' \<and> moved D (stored c1) (stored c')"
      unfolding conserving_run_def by (blast intro: moved_ok)
    with first moved_trans show ?thesis by blast
  qed
qed

lemma conserving_run_if [conserving_rules]:
  "conserving_run m D \<Longrightarrow> conserving_run n D \<Longrightarrow> conserving_run (if b then m else n) D"
  by simp

lemma conserving_run_pair [conserving_rules]:
  "(\<And>x y. conserving_run (f x y) D) \<Longrightarrow> conserving_run (case p of (x, y) \<Rightarrow> f x y) D"
  by (cases p) simp

lemma conserving_run_option [conserving_rules]:
  "conserving_run m D \<Longrightarrow> (\<And>x. conserving_run (f x) D) \<Longrightarrow>
     conserving_run (case o' of None \<Rightarrow> m | Some x \<Rightarrow> f x) D"
  by (cases o') simp_all

lemma conserving_run_sum [conserving_rules]:
  "(\<And>e. conserving_run (f e) D) \<Longrightarrow> (\<And>x. conserving_run (g x) D) \<Longrightarrow>
     conserving_run (case r of Inl e \<Rightarrow> f e | Inr x \<Rightarrow> g x) D"
  by (cases r) simp_all

lemma conserving_gallery_step: "conserving_run (gallery_step api base64 hash env now) D"
  unfolding gallery_step_def gallery_reply_def load_metadata_def
  by (intro conserving_rules replace_conserving.conserving_operation_axioms
      query_conserving.conserving_operation_axioms)

section \<open>The worker\<close>

text \<open>The events the server of this turn acknowledges in a well-formed answer to some batch.\<close>

definition acknowledged :: "json_api \<Rightarrow> environment \<Rightarrow> string \<Rightarrow> string set" where
  "acknowledged api env device = (\<Union>rows. delivered_by api env device rows)"

interpretation step_conserving:
  conserving_operation "attendance_step api env device now" "acknowledged api env device"
  for api env device now
proof
  fix c r c' assume a: "quiescent c" "tables_ok (stored c)" "attendance_step api env device now c = (r, c')"
  from attendance_step_moved [OF a] show "quiescent c' \<and> moved (acknowledged api env device) (stored c) (stored c')"
    by (auto simp: acknowledged_def intro: moved_mono)
qed

lemma conserving_worker:
  "conserving_run (andThen (lift_result credential) (\<lambda>token. andThen (service_set_token token) (\<lambda>_.
     service_step api base64 device hash env elapsed genv now))) (acknowledged api env device)"
  unfolding service_set_token_def service_step_def
  by (intro conserving_rules conserving_gallery_step step_conserving.conserving_operation_axioms)

section \<open>Properties\<close>

text \<open>
  C2: a turn of the worker loses no event. Whatever happens in it (credential unreadable, server
  refusing, gallery invalid, any SQLite call failing), every event waiting before is afterwards
  waiting or retained with the same payload, or was acknowledged by the server.
\<close>

theorem worker_turn_keeps_events:
  assumes "quiescent c" and "tables_ok (stored c)"
    and "worker_turn api base64 device hash credential env elapsed genv now (s, c) = (status, (s', c'))"
  shows "quiescent c' \<and> tables_ok (stored c') \<and>
    (\<forall>k p. pending (stored c) k = Some p \<longrightarrow>
       pending (stored c') k = Some p \<or> retained (stored c') k = Some p \<or> k \<in> acknowledged api env device)"
proof -
  let ?run = "andThen (lift_result credential) (\<lambda>token. andThen (service_set_token token) (\<lambda>_.
     service_step api base64 device hash env elapsed genv now)) (s, c)"
  obtain r where r: "?run = (r, (s', c'))"
    using assms(3) by (auto simp: worker_turn_def split: prod.splits sum.splits)
  have "quiescent c' \<and> moved (acknowledged api env device) (stored c) (stored c')"
    using conserving_worker assms(1,2) r unfolding conserving_run_def by blast
  then show ?thesis using moved_ok moved_event by blast
qed

theorem worker_turn_keeps_events_witness:
  "let w = snd (worker_turn sample_api sample_base64 ''d1'' ''h'' (Inr ''t'') (sample_env 503) 4 (sample_env 200)
                1000 (new_service, sample_connection))
   in pending (stored (snd w)) ''e1'' = Some ''P1'' \<or> retained (stored (snd w)) ''e1'' = Some ''P1'' \<or>
      ''e1'' \<in> acknowledged sample_api (sample_env 503) ''d1''"
proof -
  define out where "out = worker_turn sample_api sample_base64 ''d1'' ''h'' (Inr ''t'') (sample_env 503) 4
      (sample_env 200) 1000 (new_service, sample_connection)"
  have run: "worker_turn sample_api sample_base64 ''d1'' ''h'' (Inr ''t'') (sample_env 503) 4
      (sample_env 200) 1000 (new_service, sample_connection) = (fst out, (fst (snd out), snd (snd out)))"
    by (simp add: out_def)
  have "pending (stored sample_connection) ''e1'' = Some ''P1''" by code_simp
  then show ?thesis
    using worker_turn_keeps_events [OF sample_quiescent sample_ok run] unfolding out_def [symmetric] Let_def by blast
qed

text \<open>
  The authentication latch. While the service is blocked, its credential unchanged and no
  authenticated channel has reported, a turn changes nothing at all: nothing is sent, whatever the
  transport would answer.
\<close>

theorem blocked_turn_is_silent:
  assumes "svc_blocked s" and "\<not> svc_authenticated_connection s"
  shows "worker_turn api base64 device hash (Inr (svc_token s)) env elapsed genv now (s, c) =
    (''authentication_blocked'', (s, c))"
  using assms
  by (simp add: worker_turn_def service_set_token_def service_step_def run_simps on_service_def)

theorem blocked_turn_is_silent_witness:
  "worker_turn sample_api sample_base64 ''d1'' ''h'' (Inr ''t'') (sample_env 200) 4 (sample_env 200) 1000
     (new_service\<lparr>svc_blocked := True, svc_token := ''t''\<rparr>, sample_connection) =
   (''authentication_blocked'', (new_service\<lparr>svc_blocked := True, svc_token := ''t''\<rparr>, sample_connection))"
  using blocked_turn_is_silent [of "new_service\<lparr>svc_blocked := True, svc_token := ''t''\<rparr>"]
  by (simp add: new_service_def)

text \<open>
  A refresh notification never shortens a failure back-off. After a failed poll the next poll
  is at least a second after the clock, and at least the delay of Retry-After; a refresh request
  leaves that time, and until it a step sends nothing and changes nothing.
\<close>

theorem refresh_keeps_backoff:
  assumes "0 \<le> gallery_attempts g"
    and "later < earliest_retry env now header"
  shows "gallery_step api base64 hash genv later (request_refresh (poll_failed env now header g), c) =
    (Inr Continue, (poll_failed env now header g, c))"
proof -
  have "earliest_retry env now header \<le> gallery_due (poll_failed env now header g)"
    using earliest_retry_le by (simp add: poll_failed_def)
  moreover have "request_refresh (poll_failed env now header g) = poll_failed env now header g"
    using assms(1) by (simp add: request_refresh_def poll_failed_def)
  ultimately show ?thesis using assms(2) by (simp add: gallery_step_def run_simps)
qed

theorem refresh_keeps_backoff_witness:
  "gallery_step sample_api sample_base64 ''h'' (sample_env 200) 8002
     (request_refresh (poll_failed (sample_env 503) 1000 ''7'' new_gallery_sync), sample_connection) =
   (Inr Continue, (poll_failed (sample_env 503) 1000 ''7'' new_gallery_sync, sample_connection))"
proof (rule refresh_keeps_backoff)
  show "0 \<le> gallery_attempts new_gallery_sync" by code_simp
  show "8002 < earliest_retry (sample_env 503) 1000 ''7''" by code_simp
qed


text \<open>A COMMIT that reaches the disk but reports an error, followed by a second attempt.\<close>

definition second_record :: attendance_record where
  "second_record = \<lparr>record_id = ''e2'', payload = ''P2'', occurred_ms = 9, next_attempt_ms = 0, attempts = 0\<rparr>"

definition uncertain_local :: connection where
  "uncertain_local = sample_connection\<lparr>outcomes := [Done, Done, Done, Done, Landed 10]\<rparr>"


end
