(* ===== verification/DeviceChannel.thy ===== *)
theory DeviceChannel
  imports Service
begin

text \<open>
  The operational channel, \<^verbatim>\<open>src/edge_app/sync/device_channel.cpp\<close>: the state the application reports
  into, the messages of the server, the periodic report, and the reconnecting loop. The socket, the
  credential file and the clock (nanoseconds of \<open>steady_clock\<close>) enter as values; one definition covers
  one pass of a loop.
\<close>

section \<open>Shared state\<close>

record channel_state =
  ch_runtime :: string
  ch_version :: string
  ch_channel :: string
  ch_templates :: nat
  ch_frame :: "int option"

definition new_channel :: channel_state where
  "new_channel = \<lparr>ch_runtime = ''starting'', ch_version = [], ch_channel = ''connecting'', ch_templates = 0, ch_frame = None\<rparr>"

definition report_runtime_state :: "string \<Rightarrow> channel_state \<Rightarrow> channel_state" where
  "report_runtime_state v s = s\<lparr>ch_runtime := v\<rparr>"

definition frame_processed :: "int \<Rightarrow> channel_state \<Rightarrow> channel_state" where
  "frame_processed now s = s\<lparr>ch_frame := Some now\<rparr>"

definition gallery_installed :: "string \<Rightarrow> nat \<Rightarrow> channel_state \<Rightarrow> channel_state" where
  "gallery_installed v n s = s\<lparr>ch_version := v, ch_templates := n\<rparr>"

section \<open>Messages of the server\<close>

record channel_connection =
  cn_closed :: bool
  cn_reconcile :: bool
  cn_last_server :: int

definition channel_message :: "json_api \<Rightarrow> bool \<Rightarrow> string \<Rightarrow> string result" where
  "channel_message api utf8 text =
     bind_result (require utf8 (RuntimeError ''Invalid channel message'')) (\<lambda>_.
     bind_result (parse_object api text) (\<lambda>json.
     bind_result (get_named_string json ''type'') (\<lambda>kind.
       if length json \<noteq> 2 then Inl (RuntimeError ''Invalid channel message'')
       else bind_result (get_named_number json ''schema_version'') (\<lambda>schema.
         if schema \<noteq> 1 \<or> (kind \<noteq> ''reconcile'' \<and> kind \<noteq> ''status_ack'')
         then Inl (RuntimeError ''Invalid channel message'')
         else Inr kind))))"

definition on_message :: "json_api \<Rightarrow> bool \<Rightarrow> string \<Rightarrow> int \<Rightarrow> channel_connection \<Rightarrow> channel_connection" where
  "on_message api utf8 text now c =
     (case channel_message api utf8 text of
        Inl _ \<Rightarrow> c\<lparr>cn_closed := True\<rparr>
      | Inr kind \<Rightarrow>
          let c = c\<lparr>cn_last_server := now\<rparr>
          in if kind = ''reconcile'' then c\<lparr>cn_reconcile := True\<rparr> else c)"

section \<open>The report\<close>

definition json_count :: "int \<Rightarrow> json" where
  "json_count n = JNumber (double_lit (of_int n))"

definition frame_age_ms :: "int \<Rightarrow> channel_state \<Rightarrow> json" where
  "frame_age_ms now s =
     (case ch_frame s of None \<Rightarrow> JNull | Some t \<Rightarrow> json_count (std_clamp ((now - t) div 1000000) 0 86400000))"

definition channel_report :: "string \<Rightarrow> channel_state \<Rightarrow> int \<Rightarrow> nat \<Rightarrow> nat \<Rightarrow> json_object" where
  "channel_report hash s now pending_rows dead_rows =
     insert_member ''outbox_dead_count'' (json_count (int dead_rows))
    (insert_member ''outbox_pending_count'' (json_count (int pending_rows))
    (insert_member ''frame_age_ms'' (frame_age_ms now s)
    (insert_member ''installed_template_count'' (json_count (int (ch_templates s)))
    (insert_member ''installed_gallery_version'' (JString (ch_version s))
    (insert_member ''runtime_state'' (JString (ch_runtime s))
    (insert_member ''model_sha256'' (JString hash)
    (insert_member ''type'' (JString ''status'')
    (insert_member ''schema_version'' (json_count 1) []))))))))"

section \<open>The connection\<close>

definition channel_url :: "string \<Rightarrow> string" where
  "channel_url base =
     (let url = rev (dropWhile (\<lambda>c. c = CHR ''/'') (rev base));
          scheme = (if take 6 url = ''https:'' then ''wss'' else ''ws'')
      in scheme @ dropWhile (\<lambda>c. c \<noteq> CHR '':'') url @ ''/device-channel'')"

definition set_status :: "string \<Rightarrow> (channel_state, unit) run" where
  "set_status v = modify (\<lambda>s. s\<lparr>ch_channel := v\<rparr>)"

text \<open>Opening: the token it authenticates with, or the exception that ends the attempt.\<close>

definition channel_open :: "string result \<Rightarrow> unit result \<Rightarrow> (channel_state, string) run" where
  "channel_open credential connect =
     andThen (lift_result credential) (\<lambda>token.
     andThen (lift_result (validate_token token)) (\<lambda>_.
     andThen (set_status ''connecting'') (\<lambda>_.
     andThen (lift_result connect) (\<lambda>_.
     andThen (set_status ''connected'') (\<lambda>_. ret token)))))"

record channel_link =
  ln_connection :: channel_connection
  ln_due :: int
  ln_reconciles :: nat

definition fresh_link :: "channel_connection \<Rightarrow> int \<Rightarrow> channel_link" where
  "fresh_link c now = \<lparr>ln_connection = c, ln_due = now, ln_reconciles = 1\<rparr>"

definition acknowledgement_limit :: int where
  "acknowledgement_limit = 35000000000"

definition report_interval :: int where
  "report_interval = 10000000000"

datatype turn_end = Idle | CredentialRotated | Reported json_object

text \<open>One pass of the connected loop, entered while the connection is open.\<close>

definition channel_turn :: "string \<Rightarrow> string \<Rightarrow> string result \<Rightarrow> unit result \<Rightarrow> channel_state \<Rightarrow> int \<Rightarrow>
    (channel_link \<times> connection, turn_end) run" where
  "channel_turn hash token credential sent s now =
     andThen (modify (\<lambda>(l, c). (if cn_reconcile (ln_connection l)
        then l\<lparr>ln_connection := (ln_connection l)\<lparr>cn_reconcile := False\<rparr>, ln_reconciles := ln_reconciles l + 1\<rparr> else l, c))) (\<lambda>_.
     andThen get_state (\<lambda>(l, _).
       if now - cn_last_server (ln_connection l) > acknowledgement_limit
       then throw (RuntimeError ''Device channel acknowledgement expired'')
       else if now < ln_due l then ret Idle
       else andThen (lift_result credential) (\<lambda>current.
         if current \<noteq> token then ret CredentialRotated
         else andThen (on_db pending_count) (\<lambda>waiting.
              andThen (on_db dead_count) (\<lambda>dead_rows.
              andThen (lift_result sent) (\<lambda>_.
              andThen (modify (\<lambda>(l, c). (l\<lparr>ln_due := now + report_interval\<rparr>, c))) (\<lambda>_.
                ret (Reported (channel_report hash s now waiting dead_rows)))))))))"

text \<open>The end of an attempt: \<open>raised\<close> when it ended by an exception, after \<open>lasted\<close> nanoseconds.\<close>

definition channel_failures :: "bool \<Rightarrow> int \<Rightarrow> nat \<Rightarrow> nat" where
  "channel_failures raised lasted failures = (if \<not> raised \<and> lasted > 30000000000 then 0 else failures)"

definition reconnect_delay :: "nat \<Rightarrow> nat \<Rightarrow> nat" where
  "reconnect_delay failures rnd = 1000 * 2 ^ min failures 5 + rnd mod 1000"

definition channel_lost :: "bool \<Rightarrow> bool \<Rightarrow> int \<Rightarrow> nat \<Rightarrow> nat \<Rightarrow> channel_state \<Rightarrow> (nat \<times> nat) \<times> channel_state" where
  "channel_lost stopping raised lasted failures rnd s =
     (let s = (if raised then s\<lparr>ch_channel := ''disconnected_or_credential_unavailable''\<rparr> else s);
          n = channel_failures raised lasted failures
      in if stopping then ((0, n), s\<lparr>ch_channel := ''stopped''\<rparr>)
         else ((reconnect_delay n rnd, n + 1), s\<lparr>ch_channel := ''reconnecting''\<rparr>))"

section \<open>Laws\<close>

lemma reconnect_delay_bounds: "1000 \<le> reconnect_delay n rnd \<and> reconnect_delay n rnd < 33000"
proof -
  define k m where "k = (2 :: nat) ^ min n 5" and "m = rnd mod 1000"
  have "k \<le> 2 ^ 5" unfolding k_def by (rule power_increasing) simp_all
  moreover have "1 \<le> k" "m < 1000" by (simp_all add: k_def m_def)
  ultimately show ?thesis unfolding reconnect_delay_def k_def [symmetric] m_def [symmetric] by auto
qed

text \<open>The channel reads the outbox and never changes it.\<close>

lemma conserving_channel_turn: "conserving_run (channel_turn hash token credential sent s now) D"
  unfolding channel_turn_def
  by (intro conserving_rules) (auto intro!: conserving_rules query_conserving.conserving_operation_axioms
      simp: pending_count_def dead_count_def conserving_run_def modify_def throw_def)

text \<open>Counts are never invented: a report went out only if both counts were read.\<close>

lemma reported_counts:
  assumes "channel_turn hash token credential sent s now (l, c) = (Inr (Reported r), (l', c'))"
  obtains waiting dead_rows c1 where "pending_count c = (Inr waiting, c1)" "dead_count c1 = (Inr dead_rows, c')"
    "r = channel_report hash s now waiting dead_rows" "credential = Inr token" "sent = Inr ()"
    "now - cn_last_server (ln_connection l) \<le> acknowledgement_limit"
  using assms
  by (auto simp: channel_turn_def andThen_Inr_iff get_state_def modify_def lift_result_def ret_def throw_def on_db_run
      split: if_splits prod.splits)

end
