(* ===== verification/FloatEval.thy ===== *)
theory FloatEval
  imports Floats
begin

text \<open>
  Code equations that evaluate the binary32 and binary64 operations on fractions of integers:
  powers of two are cancelled bit by bit, logarithms counted on the binary numerals, and a rounded
  value is kept as a significand and an exponent. Nothing here changes a definition of \<open>Floats\<close>;
  the equations let the witnesses of the vision components run inside the kernel.
\<close>

section \<open>Fractions without Euclid\<close>

fun strip_twos :: "num \<Rightarrow> num \<Rightarrow> num \<times> num" where
  "strip_twos (num.Bit0 a) (num.Bit0 b) = strip_twos a b"
| "strip_twos a b = (a, b)"

fun two_power :: "num \<Rightarrow> bool" where
  "two_power num.One = True"
| "two_power (num.Bit0 a) = two_power a"
| "two_power (num.Bit1 a) = False"

fun num_log :: "num \<Rightarrow> int" where
  "num_log num.One = 0"
| "num_log (num.Bit0 a) = num_log a + 1"
| "num_log (num.Bit1 a) = num_log a + 1"

lemma strip_twos_fraction:
  "strip_twos a b = (c, d) \<Longrightarrow> \<exists>k > 0. (numeral a :: int) = k * numeral c \<and> (numeral b :: int) = k * numeral d"
proof (induction a b rule: strip_twos.induct)
  case (1 a b)
  then obtain k :: int where "k > 0" "numeral a = k * numeral c" "numeral b = k * numeral d" by auto
  moreover have "(numeral (num.Bit0 n) :: int) = 2 * numeral n" for n by simp
  ultimately show ?case by (intro exI [of _ "2 * k"]) (metis mult.assoc mult_pos_pos zero_less_numeral)
qed (auto intro: exI [of _ 1])

lemma strip_twos_odd:
  "strip_twos a b = (c, d) \<Longrightarrow> odd (numeral c :: int) \<or> odd (numeral d :: int)"
  by (induction a b rule: strip_twos.induct) auto

lemma two_power_coprime: "two_power d \<Longrightarrow> odd (x :: int) \<Longrightarrow> coprime x (numeral d)"
proof (induction d)
  case (Bit0 d)
  moreover have "(numeral (num.Bit0 d) :: int) = 2 * numeral d" by simp
  ultimately show ?case by (simp only: coprime_mult_right_iff) (simp add: coprime_right_2_iff_odd)
qed simp_all

lemma two_power_odd: "two_power d \<Longrightarrow> odd (numeral d :: int) \<Longrightarrow> d = num.One"
  by (cases d) auto

text \<open>Reduction of a fraction; only a denominator that is not a power of two needs a gcd.\<close>

definition reduce :: "int \<Rightarrow> int \<Rightarrow> int \<times> int" where
  "reduce p q = Rat.normalize (p, q)"

lemma normalize_scale: "0 < k \<Longrightarrow> Rat.normalize (k * p, k * q) = Rat.normalize (p, q)"
  by (simp add: quotient_of_Fract [symmetric] mult_rat_cancel)

lemma strip_twos_normalize:
  assumes "strip_twos a b = (c, d)"
  shows "Rat.normalize (numeral a, numeral b) = Rat.normalize (numeral c, numeral d)"
    "Rat.normalize (- numeral a, numeral b) = Rat.normalize (- numeral c, numeral d)"
proof -
  obtain k :: int where k: "k > 0" "numeral a = k * numeral c" "numeral b = k * numeral d"
    using strip_twos_fraction [OF assms] by blast
  show "Rat.normalize (numeral a, numeral b) = Rat.normalize (numeral c, numeral d)"
    unfolding k(2,3) by (rule normalize_scale [OF k(1)])
  show "Rat.normalize (- numeral a, numeral b) = Rat.normalize (- numeral c, numeral d)"
    unfolding k(2,3) using normalize_scale [OF k(1), of "- numeral c" "numeral d"] by simp
qed

lemma stripped_coprime:
  assumes "strip_twos a b = (c, d)" and "two_power d"
  shows "coprime (numeral c :: int) (numeral d)"
proof (cases "odd (numeral c :: int)")
  case True
  then show ?thesis using two_power_coprime [OF assms(2)] by blast
next
  case False
  then show ?thesis using strip_twos_odd [OF assms(1)] two_power_odd [OF assms(2)] by auto
qed

definition divide_gcd :: "int \<Rightarrow> int \<Rightarrow> int \<times> int" where
  "divide_gcd p q = (let g = gcd p q in (p div g, q div g))"

lemma divide_gcd_normalize: "0 < q \<Longrightarrow> divide_gcd p q = Rat.normalize (p, q)"
  by (simp add: divide_gcd_def Rat.normalize_def)

lemma reduce_code [code]:
  "reduce 0 q = (0, 1)"
  "reduce p 0 = (0, 1)"
  "reduce (Int.Pos a) (Int.Pos b) = (case strip_twos a b of (c, d) \<Rightarrow>
     if two_power d then (Int.Pos c, Int.Pos d) else divide_gcd (Int.Pos c) (Int.Pos d))"
  "reduce (Int.Neg a) (Int.Pos b) = (case strip_twos a b of (c, d) \<Rightarrow>
     if two_power d then (Int.Neg c, Int.Pos d) else divide_gcd (Int.Neg c) (Int.Pos d))"
  "reduce (Int.Pos a) (Int.Neg b) = reduce (Int.Neg a) (Int.Pos b)"
  "reduce (Int.Neg a) (Int.Neg b) = reduce (Int.Pos a) (Int.Pos b)"
proof -
  show "reduce 0 q = (0, 1)" "reduce p 0 = (0, 1)" by (simp_all add: reduce_def Rat.normalize_def)
  show "reduce (Int.Pos a) (Int.Pos b) = (case strip_twos a b of (c, d) \<Rightarrow>
     if two_power d then (Int.Pos c, Int.Pos d) else divide_gcd (Int.Pos c) (Int.Pos d))"
    using strip_twos_normalize(1) [of a b] stripped_coprime [of a b]
    by (auto simp: reduce_def divide_gcd_normalize split: prod.splits)
  show "reduce (Int.Neg a) (Int.Pos b) = (case strip_twos a b of (c, d) \<Rightarrow>
     if two_power d then (Int.Neg c, Int.Pos d) else divide_gcd (Int.Neg c) (Int.Pos d))"
    using strip_twos_normalize(2) [of a b] stripped_coprime [of a b]
    by (auto simp: reduce_def divide_gcd_normalize split: prod.splits)
qed (simp_all add: reduce_def)

lemma normalize_reduce [code]: "Rat.normalize p = reduce (fst p) (snd p)"
  by (simp add: reduce_def)

section \<open>Logarithms on numerals\<close>

lemma zlog2_unique:
  assumes "0 \<le> k" and "2 ^ nat k \<le> n" and "n < 2 ^ nat (k + 1)"
  shows "zlog2 n = k"
proof -
  have "0 < n" using assms(2) by (rule less_le_trans [rotated]) simp
  note b = zlog2_bounds [OF this]
  have "(2 :: int) ^ nat k < 2 ^ nat (zlog2 n + 1)" "(2 :: int) ^ nat (zlog2 n) < 2 ^ nat (k + 1)"
    using b assms by linarith+
  then have "nat k < nat (zlog2 n + 1)" "nat (zlog2 n) < nat (k + 1)"
    by (simp_all only: power_strict_increasing_iff one_less_numeral_iff semiring_norm)
  then show ?thesis using assms(1) by simp
qed

lemma num_log_zlog2: "zlog2 (numeral n) = num_log n"
proof (induction n)
  case One
  show ?case by (simp add: zlog2.simps)
next
  case (Bit0 n)
  have "(numeral (num.Bit0 n) :: int) div 2 = numeral n" by simp
  then show ?case using Bit0 by (simp add: zlog2.simps [of "numeral (num.Bit0 n)"])
next
  case (Bit1 n)
  have "(numeral (num.Bit1 n) :: int) div 2 = numeral n" by simp
  then show ?case using Bit1 by (simp add: zlog2.simps [of "numeral (num.Bit1 n)"])
qed

lemma zlog2_code [code]:
  "zlog2 0 = 0" "zlog2 (Int.Pos n) = num_log n" "zlog2 (Int.Neg n) = 0"
  by (simp_all add: num_log_zlog2 zlog2.simps [of 0] zlog2.simps [of "- numeral n"])

lemma ilog2_unique: "pow2 e \<le> q \<Longrightarrow> q < pow2 (e + 1) \<Longrightarrow> ilog2 q = e"
  using ilog2_pow2_le [of e q] ilog2_less [of q "e + 1"] pow2_pos [of e] by fastforce

lemma zlog2_pow2: "0 < n \<Longrightarrow> pow2 (zlog2 n) \<le> of_int n \<and> of_int n < pow2 (zlog2 n + 1)"
  using zlog2_bounds [of n] by (simp add: pow2_int)

definition pow2_le_fraction :: "int \<Rightarrow> int \<Rightarrow> int \<Rightarrow> bool" where
  "pow2_le_fraction k n d = (if 0 \<le> k then 2 ^ nat k * d \<le> n else d \<le> n * 2 ^ nat (- k))"

lemma pow2_le_fraction: "0 < d \<Longrightarrow> pow2_le_fraction k n d \<longleftrightarrow> pow2 k \<le> of_int n / of_int d"
proof -
  assume d: "0 < d"
  show ?thesis
  proof (cases "0 \<le> k")
    case True
    have "pow2 k \<le> of_int n / of_int d \<longleftrightarrow> (of_int (2 ^ nat k * d) :: rat) \<le> of_int n"
      using d True by (simp add: pow2_int pos_le_divide_eq)
    then show ?thesis using True by (simp only: pow2_le_fraction_def of_int_le_iff if_True)
  next
    case False
    have "pow2 k \<le> of_int n / of_int d \<longleftrightarrow> (of_int d :: rat) \<le> of_int (n * 2 ^ nat (- k))"
      using d False by (simp add: pow2_def field_simps)
    then show ?thesis using False by (simp only: pow2_le_fraction_def of_int_le_iff if_False)
  qed
qed

definition fraction_log :: "int \<Rightarrow> int \<Rightarrow> int" where
  "fraction_log n d = (let k = zlog2 n - zlog2 d in if pow2_le_fraction k n d then k else k - 1)"

lemma fraction_log:
  assumes "0 < n" and "0 < d"
  shows "ilog2 (of_int n / of_int d) = fraction_log n d"
proof -
  define k where "k = zlog2 n - zlog2 d"
  have n: "pow2 (zlog2 n) \<le> of_int n" "of_int n < pow2 (zlog2 n + 1)" using zlog2_pow2 [OF assms(1)] by auto
  have d: "pow2 (zlog2 d) \<le> of_int d" "of_int d < pow2 (zlog2 d + 1)" using zlog2_pow2 [OF assms(2)] by auto
  have d0: "(0 :: rat) < of_int d" using assms(2) by simp
  have hi: "of_int n / of_int d < pow2 (k + 1)"
  proof -
    have "of_int n < pow2 (k + 1) * pow2 (zlog2 d)" using n(2) by (simp add: k_def pow2_add [symmetric] algebra_simps)
    also have "\<dots> \<le> pow2 (k + 1) * of_int d" using d(1) by simp
    finally show ?thesis using d0 by (simp add: divide_less_eq)
  qed
  have lo: "pow2 (k - 1) \<le> of_int n / of_int d"
  proof -
    have "pow2 (k - 1) * of_int d \<le> pow2 (k - 1) * pow2 (zlog2 d + 1)" using d(2) by simp
    also have "\<dots> = pow2 (zlog2 n)" by (simp add: k_def pow2_add [symmetric])
    finally show ?thesis using n(1) d0 by (simp add: pos_le_divide_eq)
  qed
  show ?thesis
  proof (cases "pow2 k \<le> of_int n / of_int d")
    case True
    then show ?thesis using hi ilog2_unique [OF True hi] pow2_le_fraction [OF assms(2)]
      by (simp add: fraction_log_def k_def)
  next
    case False
    then have "of_int n / of_int d < pow2 (k - 1 + 1)" by simp
    with lo have "ilog2 (of_int n / of_int d) = k - 1" by (rule ilog2_unique)
    then show ?thesis using False pow2_le_fraction [OF assms(2)] by (simp add: fraction_log_def k_def)
  qed
qed

lemma quotient_of_fraction: "quotient_of q = (n, d) \<Longrightarrow> 0 < d \<and> q = of_int n / of_int d"
  using quotient_of_denom_pos quotient_of_div by metis

lemma ilog2_code [code]:
  "ilog2 q = (case quotient_of q of (n, d) \<Rightarrow> if n \<le> 0 then - 1 else fraction_log n d)"
proof -
  obtain n d where nd: "quotient_of q = (n, d)" by fastforce
  note q = quotient_of_fraction [OF nd]
  show ?thesis
  proof (cases "n \<le> 0")
    case True
    then have "q \<le> 0" using q by (simp add: divide_nonpos_pos)
    then have le: "1 / q \<le> 0" by (simp add: divide_nonneg_nonpos)
    then have "\<lfloor>1 / q\<rfloor> < 2" "1 / q \<noteq> pow2 0" using le by (linarith, auto simp: pow2_def)
    then have "zlog2 \<lfloor>1 / q\<rfloor> = 0" by (simp add: zlog2.simps)
    then show ?thesis using True \<open>q \<le> 0\<close> \<open>1 / q \<noteq> pow2 0\<close> by (simp add: ilog2_def nd)
  next
    case False
    then have "ilog2 q = fraction_log n d" using q fraction_log [of n d] by simp
    then show ?thesis using False by (simp add: nd)
  qed
qed

section \<open>Rounding a fraction\<close>

definition divide_even :: "int \<Rightarrow> int \<Rightarrow> int" where
  "divide_even n d = (let u = n div d; r = n - u * d in
     if 2 * r < d then u else if d < 2 * r then u + 1 else if even u then u else u + 1)"

lemma divide_even:
  assumes "0 < d"
  shows "nearest_even (of_int n / of_int d) = divide_even n d"
proof -
  have floor: "\<lfloor>of_int n / (of_int d :: rat)\<rfloor> = n div d" by (rule floor_divide_of_int_eq)
  have "(of_int n :: rat) = of_int (n div d) * of_int d + of_int (n mod d)"
    by (simp add: of_int_mult [symmetric] of_int_add [symmetric] del: of_int_mult of_int_add)
  then have rest: "of_int n / of_int d - of_int (n div d) = (of_int (n mod d) / of_int d :: rat)"
    using assms by (simp add: field_simps)
  have "(of_int (n mod d) / of_int d < (1 / 2 :: rat)) = (of_int (2 * (n mod d)) < (of_int d :: rat))"
    "((1 / 2 :: rat) < of_int (n mod d) / of_int d) = ((of_int d :: rat) < of_int (2 * (n mod d)))"
    using assms by (simp_all add: field_simps)
  then show ?thesis
    unfolding nearest_even_def Let_def floor rest divide_even_def minus_div_mult_eq_mod by (simp only: of_int_less_iff)
qed

definition round_fraction :: "int \<Rightarrow> int \<Rightarrow> int \<Rightarrow> int" where
  "round_fraction e n d = (if 0 \<le> e then divide_even n (d * 2 ^ nat e) else divide_even (n * 2 ^ nat (- e)) d)"

lemma round_fraction:
  assumes "0 < d"
  shows "nearest_even (of_int n / of_int d / pow2 e) = round_fraction e n d"
proof (cases "0 \<le> e")
  case True
  have "0 < d * 2 ^ nat e" using assms by simp
  from divide_even [OF this, of n] show ?thesis using True by (simp add: round_fraction_def pow2_int)
next
  case False
  have "of_int n / of_int d / pow2 e = of_int (n * 2 ^ nat (- e)) / (of_int d :: rat)"
    using False by (simp add: pow2_def)
  then show ?thesis using False divide_even [OF assms] by (simp only: round_fraction_def if_False)
qed

definition scaled :: "int \<Rightarrow> int \<Rightarrow> rat" where
  "scaled m e = of_int m * pow2 e"

lemma scaled_code [code abstract]:
  "quotient_of (scaled m e) = (if 0 \<le> e then (m * 2 ^ nat e, 1) else reduce m (2 ^ nat (- e)))"
proof (cases "0 \<le> e")
  case True
  then have "scaled m e = of_int (m * 2 ^ nat e)" by (simp add: scaled_def pow2_int)
  then show ?thesis using True quotient_of_int [of "m * 2 ^ nat e"] by (simp add: Rat.of_int_def)
next
  case False
  then have "scaled m e = Fract m (2 ^ nat (- e))"
    by (simp add: scaled_def pow2_def Fract_of_int_quotient)
  then show ?thesis using False by (simp add: quotient_of_Fract reduce_def)
qed

lemma round_rat_fraction [code]:
  "round_rat f q = (case quotient_of q of (n, d) \<Rightarrow>
     if n = 0 then 0 else let e = quantum f q in scaled (round_fraction e n d) e)"
proof -
  obtain n d where nd: "quotient_of q = (n, d)" by fastforce
  note q = quotient_of_fraction [OF nd]
  then show ?thesis
    unfolding nd prod.case round_rat_def Let_def scaled_def using round_fraction [of d n "quantum f q"] by (auto simp: nearest_even_def)
qed

lemma ilog2_scaled: "0 < m \<Longrightarrow> ilog2 (of_int m * pow2 e) = zlog2 m + e"
  using zlog2_pow2 [of m] by (intro ilog2_unique) (simp_all add: pow2_add)

lemma fl_round_fraction [code]:
  "fl_round f q = (case quotient_of q of (n, d) \<Rightarrow>
     if n = 0 then Fin 0
     else let e = max (fraction_log \<bar>n\<bar> d - (precision f - 1)) (min_quantum f); m = round_fraction e n d
          in if m = 0 \<or> zlog2 \<bar>m\<bar> + e < max_exponent f then Fin (scaled m e)
             else if 0 < m then PInf else NInf)"
proof -
  obtain n d where nd: "quotient_of q = (n, d)" by fastforce
  note q = quotient_of_fraction [OF nd]
  show ?thesis
  proof (cases "n = 0")
    case True
    then have "q = 0" using q by simp
    then show ?thesis by (simp add: fl_round_def)
  next
    case False
    define e where "e = max (fraction_log \<bar>n\<bar> d - (precision f - 1)) (min_quantum f)"
    define m where "m = round_fraction e n d"
    have "\<bar>q\<bar> = of_int \<bar>n\<bar> / of_int d" using q by simp
    then have "ilog2 \<bar>q\<bar> = fraction_log \<bar>n\<bar> d" using fraction_log [of "\<bar>n\<bar>" d] False q by simp
    then have quantum: "quantum f q = e" using False q by (simp add: quantum_def e_def)
    have round: "round_rat f q = of_int m * pow2 e"
      unfolding round_rat_def Let_def quantum m_def using round_fraction [of d n e] q by simp
    have zero: "of_int m * pow2 e = 0 \<longleftrightarrow> m = 0" "0 < of_int m * pow2 e \<longleftrightarrow> 0 < m"
      using pow2_pos [of e] by (simp_all add: zero_less_mult_iff less_imp_not_less del: pow2_pos)
    have "\<bar>of_int m * pow2 e\<bar> = of_int \<bar>m\<bar> * pow2 e" by (simp add: abs_mult)
    then have log: "ilog2 \<bar>of_int m * pow2 e\<bar> = zlog2 \<bar>m\<bar> + e" if "m \<noteq> 0"
      using ilog2_scaled [of "\<bar>m\<bar>" e] that by simp
    have "fl_round f q = (if m = 0 \<or> zlog2 \<bar>m\<bar> + e < max_exponent f then Fin (scaled m e)
       else if 0 < m then PInf else NInf)"
      unfolding fl_round_def Let_def round zero scaled_def using log by auto
    then show ?thesis using False by (simp add: nd e_def m_def Let_def)
  qed
qed

end
