(* ===== verification/Faces.thy ===== *)
theory Faces
  imports FloatEval Prelude
begin

text \<open>
  What the vision components share: the camera frame and the face observation
  (\<^verbatim>\<open>src/vision_runtime/common\<close>), the landmark alignment of ArcFace and of the liveness
  model (\<^verbatim>\<open>arcface/arcface.cpp\<close>, \<^verbatim>\<open>liveness/liveness.cpp\<close>), the checks of their models
  and outputs, and the liveness votes (\<^verbatim>\<open>liveness/vote.hpp\<close>). Image warping and inference run on
  the GPU and in WinML: they are arguments of the evaluators.
\<close>

section \<open>Frames and observations\<close>

record point =
  point_x :: single
  point_y :: single

record face_detection =
  box_x1 :: single
  box_y1 :: single
  box_x2 :: single
  box_y2 :: single
  detection_score :: single
  landmarks :: "point list"

record gpu_frame =
  frame_texture :: bool
  frame_id :: nat
  callback_entry_ns :: nat
  frame_timestamp_ns :: nat
  frame_source_ns :: nat
  frame_width :: nat
  frame_height :: nat
  frame_format :: nat

definition frame_valid :: "gpu_frame \<Rightarrow> bool" where
  "frame_valid f = frame_texture f"

definition empty_detection :: face_detection where
  "empty_detection = \<lparr>box_x1 = 0, box_y1 = 0, box_x2 = 0, box_y2 = 0, detection_score = 0,
     landmarks = replicate 5 \<lparr>point_x = 0, point_y = 0\<rparr>\<rparr>"

text \<open>One track of the tracker's answer (\<^verbatim>\<open>bytetrack/bytetrack.hpp\<close>).\<close>

datatype track_state = NewTrack | Tracked | Lost | Removed

record track_result =
  result_id :: nat
  result_x1 :: single
  result_y1 :: single
  result_x2 :: single
  result_y2 :: single
  result_score :: single
  result_state :: track_state
  result_start_frame :: int
  result_frame :: int
  result_tracklet_len :: int
  has_observation :: bool
  observation :: face_detection

section \<open>The 4 by 4 solver\<close>

type_synonym matrix = "double list list"

definition entry :: "matrix \<Rightarrow> nat \<Rightarrow> nat \<Rightarrow> double" where
  "entry a i j = a ! i ! j"

definition set_entry :: "nat \<Rightarrow> nat \<Rightarrow> double \<Rightarrow> matrix \<Rightarrow> matrix" where
  "set_entry i j v a = a[i := (a ! i)[j := v]]"

definition swap_at :: "nat \<Rightarrow> nat \<Rightarrow> 'a list \<Rightarrow> 'a list" where
  "swap_at i j xs = xs[i := xs ! j, j := xs ! i]"

definition find_pivot :: "nat \<Rightarrow> matrix \<Rightarrow> nat \<times> double" where
  "find_pivot col a = foldl (\<lambda>(pivot, best) row.
       let cand = \<bar>entry a row col\<bar> in if cand > best then (row, cand) else (pivot, best))
     (col, \<bar>entry a col col\<bar>) [col + 1..<4]"

definition scale_row :: "nat \<Rightarrow> matrix \<times> double list \<Rightarrow> matrix \<times> double list" where
  "scale_row col = (\<lambda>(a, b).
     let diag = entry a col col
     in (foldl (\<lambda>a j. set_entry col j (entry a col j / diag) a) a [col..<4], b[col := b ! col / diag]))"

definition eliminate_row :: "nat \<Rightarrow> matrix \<times> double list \<Rightarrow> nat \<Rightarrow> matrix \<times> double list" where
  "eliminate_row col = (\<lambda>(a, b) row.
     if row = col then (a, b)
     else let factor = entry a row col
          in if \<bar>factor\<bar> < double_lit (1 / 10 ^ 18) then (a, b)
             else (foldl (\<lambda>a j. set_entry row j (entry a row j - factor * entry a col j) a) a [col..<4],
                   b[row := b ! row - factor * b ! col]))"

definition solve_column :: "nat \<Rightarrow> matrix \<times> double list \<Rightarrow> (matrix \<times> double list) result" where
  "solve_column col = (\<lambda>(a, b).
     let (pivot, best) = find_pivot col a
     in if best < double_lit (1 / 10 ^ 10) then Inl (RuntimeError ''degenerate landmark transform'')
        else let (a, b) = (if pivot \<noteq> col then (swap_at pivot col a, swap_at pivot col b) else (a, b))
             in Inr (foldl (eliminate_row col) (scale_row col (a, b)) [0..<4]))"

definition solve4 :: "matrix \<Rightarrow> double list \<Rightarrow> double list result" where
  "solve4 a b =
     bind_result (foldl (\<lambda>r col. bind_result r (solve_column col)) (Inr (a, b)) [0..<4]) (\<lambda>(_, b). Inr b)"

section \<open>Landmark alignment\<close>

record transform =
  src_to_dst :: "single list"
  dst_to_src :: "single list"
  rmse :: single

definition template_point :: "rat \<Rightarrow> rat \<Rightarrow> point" where
  "template_point x y = \<lparr>point_x = single_lit x, point_y = single_lit y\<rparr>"

definition arcface_template :: "point list" where
  "arcface_template =
     [template_point (382946 / 10000) (516963 / 10000), template_point (735318 / 10000) (515014 / 10000),
      template_point (560252 / 10000) (717366 / 10000), template_point (415493 / 10000) (923655 / 10000),
      template_point (707299 / 10000) (922041 / 10000)]"

definition liveness_template :: "point list" where
  "liveness_template =
     [template_point (3203 / 100) (3806 / 100), template_point (4789 / 100) (3798 / 100),
      template_point (4001 / 100) (4708 / 100), template_point (3350 / 100) (5636 / 100),
      template_point (4663 / 100) (5629 / 100)]"

definition accumulate_row :: "double list \<Rightarrow> double \<Rightarrow> matrix \<times> double list \<Rightarrow> matrix \<times> double list" where
  "accumulate_row row target = (\<lambda>(ata, atb). foldl (\<lambda>(ata, atb) i.
     (foldl (\<lambda>ata j. set_entry i j (entry ata i j + row ! i * row ! j) ata) ata [0..<4],
      atb[i := atb ! i + row ! i * target])) (ata, atb) [0..<4])"

definition accumulate_landmark :: "(matrix \<times> double list) result \<Rightarrow> point \<times> point \<Rightarrow>
    (matrix \<times> double list) result" where
  "accumulate_landmark acc = (\<lambda>(p, t). bind_result acc (\<lambda>m.
     let x = to_double (point_x p); y = to_double (point_y p);
         u = to_double (point_x t); v = to_double (point_y t)
     in if \<not> dfinite x \<or> \<not> dfinite y \<or> \<not> dfinite u \<or> \<not> dfinite v
        then Inl (InvalidArgument ''non-finite landmark'')
        else Inr (accumulate_row [y, x, 0, 1] v (accumulate_row [x, - y, 1, 0] u m))))"

definition fit_error :: "double \<Rightarrow> double \<Rightarrow> double \<Rightarrow> double \<Rightarrow> (point \<times> point) list \<Rightarrow> double" where
  "fit_error a b tx ty pairs = foldl (\<lambda>sq (p, t).
     let x = to_double (point_x p); y = to_double (point_y p);
         du = a * x - b * y + tx - to_double (point_x t);
         dv = b * x + a * y + ty - to_double (point_y t)
     in sq + (du * du + dv * dv)) 0 pairs"

definition inverse_transform :: "double \<Rightarrow> double \<Rightarrow> double \<Rightarrow> double \<Rightarrow> double \<Rightarrow> single list" where
  "inverse_transform a b tx ty denom =
     (let i00 = a / denom; i01 = b / denom; i10 = - b / denom; i11 = a / denom;
          i02 = - (i00 * tx + i01 * ty); i12 = - (i10 * tx + i11 * ty)
      in map to_single [i00, i01, i02, i10, i11, i12])"

text \<open>The body the two alignments share; \<open>template\<close> is the destination of the five landmarks.\<close>

definition fit_transform :: "point list \<Rightarrow> face_detection \<Rightarrow> transform result" where
  "fit_transform template obs =
     (let pairs = zip (landmarks obs) template
      in bind_result (foldl accumulate_landmark (Inr (replicate 4 (replicate 4 0), replicate 4 0)) pairs) (\<lambda>(ata, atb).
         bind_result (solve4 ata atb) (\<lambda>p.
           let a = p ! 0; b = p ! 1; tx = p ! 2; ty = p ! 3; denom = a * a + b * b
           in if denom < double_lit (1 / 10 ^ 12)
              then Inl (RuntimeError ''similarity transform scale near zero'')
              else Inr \<lparr>src_to_dst = map to_single [a, - b, tx, b, a, ty],
                        dst_to_src = inverse_transform a b tx ty denom,
                        rmse = to_single (dsqrt (fit_error a b tx ty pairs / double_lit 5))\<rparr>)))"

definition estimate_arcface_transform :: "face_detection \<Rightarrow> nat \<Rightarrow> nat \<Rightarrow> transform result" where
  "estimate_arcface_transform obs w h =
     (if w \<noteq> 112 \<or> h \<noteq> 112 then Inl (InvalidArgument ''ArcFace alignment is locked to 112x112'')
      else fit_transform arcface_template obs)"

definition estimate_liveness_transform :: "face_detection \<Rightarrow> nat \<Rightarrow> nat \<Rightarrow> transform result" where
  "estimate_liveness_transform obs w h =
     (if w \<noteq> 80 \<or> h \<noteq> 80 then Inl (InvalidArgument ''Liveness alignment is locked to 80x80'')
      else fit_transform liveness_template obs)"

lemma upt04: "[0..<4] = [0, 1, 2, 3 :: nat]"
  by (simp add: upt_rec)

lemma add_row:
  assumes "i < length m" and "m ! i = [a0, a1, a2, a3]"
  shows "foldl (\<lambda>ata j. set_entry i j (entry ata i j + c * [x0, x1, x2, x3] ! j) ata) m [0..<4] =
    m[i := [a0 + c * x0, a1 + c * x1, a2 + c * x2, a3 + c * x3]]"
  using assms by (simp add: upt04 entry_def set_entry_def numeral_nat)

lemma foldl4: "foldl f a [0..<4] = f (f (f (f a 0) 1) 2) 3"
  by (simp add: upt04)

text \<open>The nested loops of one observation add the outer product of its row.\<close>

lemma accumulate_row_outer:
  "accumulate_row [x0, x1, x2, x3] t ([[a00, a01, a02, a03], [a10, a11, a12, a13], [a20, a21, a22, a23],
     [a30, a31, a32, a33]], [b0, b1, b2, b3]) =
   ([[a00 + x0 * x0, a01 + x0 * x1, a02 + x0 * x2, a03 + x0 * x3],
     [a10 + x1 * x0, a11 + x1 * x1, a12 + x1 * x2, a13 + x1 * x3],
     [a20 + x2 * x0, a21 + x2 * x1, a22 + x2 * x2, a23 + x2 * x3],
     [a30 + x3 * x0, a31 + x3 * x1, a32 + x3 * x2, a33 + x3 * x3]],
    [b0 + x0 * t, b1 + x1 * t, b2 + x2 * t, b3 + x3 * t])"
proof -
  let ?row = "[x0, x1, x2, x3]"
  let ?f = "\<lambda>(ata, atb) i. (foldl (\<lambda>ata j. set_entry i j (entry ata i j + ?row ! i * ?row ! j) ata) ata [0..<4],
      atb[i := atb ! i + ?row ! i * t])"
  have s0: "?f ([[a00, a01, a02, a03], [a10, a11, a12, a13], [a20, a21, a22, a23], [a30, a31, a32, a33]], [b0, b1, b2, b3]) 0 =
    ([[a00 + x0 * x0, a01 + x0 * x1, a02 + x0 * x2, a03 + x0 * x3], [a10, a11, a12, a13], [a20, a21, a22, a23], [a30, a31, a32, a33]],
     [b0 + x0 * t, b1, b2, b3])"
    unfolding prod.case by (subst add_row) (simp_all add: numeral_nat)
  have s1: "?f ([[a00 + x0 * x0, a01 + x0 * x1, a02 + x0 * x2, a03 + x0 * x3], [a10, a11, a12, a13], [a20, a21, a22, a23], [a30, a31, a32, a33]], [b0 + x0 * t, b1, b2, b3]) 1 =
    ([[a00 + x0 * x0, a01 + x0 * x1, a02 + x0 * x2, a03 + x0 * x3], [a10 + x1 * x0, a11 + x1 * x1, a12 + x1 * x2, a13 + x1 * x3], [a20, a21, a22, a23], [a30, a31, a32, a33]],
     [b0 + x0 * t, b1 + x1 * t, b2, b3])"
    unfolding prod.case by (subst add_row) (simp_all add: numeral_nat)
  have s2: "?f ([[a00 + x0 * x0, a01 + x0 * x1, a02 + x0 * x2, a03 + x0 * x3], [a10 + x1 * x0, a11 + x1 * x1, a12 + x1 * x2, a13 + x1 * x3], [a20, a21, a22, a23], [a30, a31, a32, a33]], [b0 + x0 * t, b1 + x1 * t, b2, b3]) 2 =
    ([[a00 + x0 * x0, a01 + x0 * x1, a02 + x0 * x2, a03 + x0 * x3], [a10 + x1 * x0, a11 + x1 * x1, a12 + x1 * x2, a13 + x1 * x3], [a20 + x2 * x0, a21 + x2 * x1, a22 + x2 * x2, a23 + x2 * x3], [a30, a31, a32, a33]],
     [b0 + x0 * t, b1 + x1 * t, b2 + x2 * t, b3])"
    unfolding prod.case by (subst add_row) (simp_all add: numeral_nat)
  have s3: "?f ([[a00 + x0 * x0, a01 + x0 * x1, a02 + x0 * x2, a03 + x0 * x3], [a10 + x1 * x0, a11 + x1 * x1, a12 + x1 * x2, a13 + x1 * x3], [a20 + x2 * x0, a21 + x2 * x1, a22 + x2 * x2, a23 + x2 * x3], [a30, a31, a32, a33]], [b0 + x0 * t, b1 + x1 * t, b2 + x2 * t, b3]) 3 =
    ([[a00 + x0 * x0, a01 + x0 * x1, a02 + x0 * x2, a03 + x0 * x3], [a10 + x1 * x0, a11 + x1 * x1, a12 + x1 * x2, a13 + x1 * x3], [a20 + x2 * x0, a21 + x2 * x1, a22 + x2 * x2, a23 + x2 * x3], [a30 + x3 * x0, a31 + x3 * x1, a32 + x3 * x2, a33 + x3 * x3]],
     [b0 + x0 * t, b1 + x1 * t, b2 + x2 * t, b3 + x3 * t])"
    unfolding prod.case by (subst add_row) (simp_all add: numeral_nat)
  have "accumulate_row ?row t ([[a00, a01, a02, a03], [a10, a11, a12, a13], [a20, a21, a22, a23],
     [a30, a31, a32, a33]], [b0, b1, b2, b3]) = foldl ?f ([[a00, a01, a02, a03], [a10, a11, a12, a13], [a20, a21, a22, a23],
     [a30, a31, a32, a33]], [b0, b1, b2, b3]) [0..<4]"
    unfolding accumulate_row_def prod.case ..
  then show ?thesis unfolding foldl4 [of ?f] s0 s1 s2 s3 .
qed

section \<open>Embeddings\<close>

definition embedding_size :: nat where
  "embedding_size = 512"

definition dot_product :: "single list \<Rightarrow> single list \<Rightarrow> double" where
  "dot_product xs ys = foldl (\<lambda>acc (x, y). acc + to_double x * to_double y) 0 (zip xs ys)"

definition cosine_similarity :: "single list \<Rightarrow> single list \<Rightarrow> single" where
  "cosine_similarity a b =
     (let dot = dot_product a b; na = dot_product a a; nb = dot_product b b
      in if na \<le> 0 \<or> nb \<le> 0 then 0 else to_single (dot / dsqrt (na * nb)))"

definition normalize_face :: "single list \<Rightarrow> single list result" where
  "normalize_face e =
     (let norm = dsqrt (dot_product e e)
      in if \<not> dfinite norm \<or> norm < double_lit (1 / 10 ^ 12)
         then Inl (RuntimeError ''embedding norm'')
         else let inv = to_single (1 / norm) in Inr (map (\<lambda>v. v * inv) e))"

definition copy_embedding :: "single list \<Rightarrow> single list result" where
  "copy_embedding view =
     (if length view \<noteq> embedding_size then Inl (RuntimeError ''ArcFace output size'')
      else if list_ex (\<lambda>v. \<not> sfinite v) view then Inl (RuntimeError ''ArcFace output not finite'')
      else Inr view)"

section \<open>Models\<close>

text \<open>The metadata of a loaded model: whether each feature is a tensor, and its shape.\<close>

record feature =
  feature_tensor :: bool
  feature_shape :: "int list"

record learning_model =
  model_inputs :: "feature list"
  model_outputs :: "feature list"

definition dynamic_or_one :: "int \<Rightarrow> bool" where
  "dynamic_or_one v \<longleftrightarrow> v = 1 \<or> v \<le> 0"

definition check_image_input :: "int \<Rightarrow> feature \<Rightarrow> unit result" where
  "check_image_input side f =
     (case feature_shape f of
        [n, c, h, w] \<Rightarrow>
          require (dynamic_or_one n \<and> c = 3 \<and> h = side \<and> w = side) (RuntimeError ''input shape'')
      | _ \<Rightarrow> Inl (RuntimeError ''input rank''))"

definition check_arcface_output :: "feature \<Rightarrow> unit result" where
  "check_arcface_output f =
     (case feature_shape f of
        [n, d] \<Rightarrow> require (dynamic_or_one n \<and> d = 512) (RuntimeError ''output shape'')
      | _ \<Rightarrow> Inl (RuntimeError ''output rank''))"

definition check_liveness_output :: "feature \<Rightarrow> unit result" where
  "check_liveness_output f =
     (case feature_shape f of
        [n] \<Rightarrow> require (dynamic_or_one n) (RuntimeError ''output batch'')
      | [n, _] \<Rightarrow> require (dynamic_or_one n) (RuntimeError ''output batch'')
      | _ \<Rightarrow> Inl (RuntimeError ''output rank''))"

definition check_model :: "int \<Rightarrow> (feature \<Rightarrow> unit result) \<Rightarrow> learning_model \<Rightarrow> unit result" where
  "check_model side check_output m =
     (case model_inputs m of
        [i] \<Rightarrow> (case model_outputs m of
                  [f] \<Rightarrow>
                    bind_result (require (feature_tensor i) (RuntimeError ''input is no tensor'')) (\<lambda>_.
                    bind_result (require (feature_tensor f) (RuntimeError ''output is no tensor'')) (\<lambda>_.
                    bind_result (check_image_input side i) (\<lambda>_. check_output f)))
                | _ \<Rightarrow> Inl (RuntimeError ''one output expected''))
      | _ \<Rightarrow> Inl (RuntimeError ''one input expected''))"

definition load_arcface :: "learning_model \<Rightarrow> unit result" where
  "load_arcface = check_model 112 check_arcface_output"

definition load_liveness :: "learning_model \<Rightarrow> unit result" where
  "load_liveness = check_model 80 check_liveness_output"

record model_config =
  config_path :: string
  config_width :: nat
  config_height :: nat

definition validate_arcface_config :: "(string \<Rightarrow> bool) \<Rightarrow> model_config \<Rightarrow> unit result" where
  "validate_arcface_config exists c =
     (if config_path c = [] then Inl (InvalidArgument ''model_path'')
      else if \<not> exists (config_path c) then Inl (InvalidArgument ''model not found'')
      else require (config_width c = 112 \<and> config_height c = 112) (InvalidArgument ''locked to 112x112''))"

section \<open>Liveness\<close>

datatype liveness_decision = Live | Spoof | InputRejected

definition ta_live_threshold :: single where
  "ta_live_threshold = single_lit (95 / 100)"

definition validate_liveness_config :: "(string \<Rightarrow> bool) \<Rightarrow> model_config \<Rightarrow> single \<Rightarrow> unit result" where
  "validate_liveness_config exists c threshold =
     (if config_path c = [] then Inl (InvalidArgument ''model_path'')
      else if \<not> exists (config_path c) then Inl (InvalidArgument ''model not found'')
      else if config_width c \<noteq> 80 \<or> config_height c \<noteq> 80 then Inl (InvalidArgument ''locked to 80x80'')
      else require (sfinite threshold \<and> \<not> threshold < 0 \<and> \<not> threshold > 1) (InvalidArgument ''threshold''))"

definition classify_score :: "single \<Rightarrow> single \<Rightarrow> liveness_decision result" where
  "classify_score score threshold =
     (if \<not> sfinite score \<or> score < 0 \<or> score > 1 \<or> \<not> sfinite threshold \<or> threshold < 0 \<or> threshold > 1
      then Inl (InvalidArgument ''Liveness score/threshold must be finite probabilities'')
      else Inr (if score \<ge> threshold then Live else Spoof))"

definition copy_live_score :: "single list \<Rightarrow> single result" where
  "copy_live_score view =
     (case view of
        [v] \<Rightarrow>
          if \<not> sfinite v then Inl (RuntimeError ''liveness output not finite'')
          else if v < single_lit (- 1 / 10 ^ 4) \<or> v > single_lit (10001 / 10 ^ 4)
          then Inl (RuntimeError ''liveness output is no probability'')
          else Inr (std_clamp v 0 1)
      | _ \<Rightarrow> Inl (RuntimeError ''liveness output size''))"

record liveness_result =
  live_score :: "single option"
  live_decision :: liveness_decision
  out_of_bounds_ratio :: single
  live_transform :: transform

record vote_counts =
  vote_attempts :: nat
  vote_real :: nat
  vote_spoof :: nat
  vote_input_rejected :: nat

definition no_votes :: vote_counts where
  "no_votes = \<lparr>vote_attempts = 0, vote_real = 0, vote_spoof = 0, vote_input_rejected = 0\<rparr>"

definition add_vote :: "liveness_decision \<Rightarrow> vote_counts \<Rightarrow> vote_counts" where
  "add_vote d v =
     (if d = InputRejected then v\<lparr>vote_input_rejected := vote_input_rejected v + 1\<rparr>
      else let v' = v\<lparr>vote_attempts := vote_attempts v + 1\<rparr>
           in if d = Live then v'\<lparr>vote_real := vote_real v + 1\<rparr> else v'\<lparr>vote_spoof := vote_spoof v + 1\<rparr>)"

section \<open>Evaluators\<close>

text \<open>
  The GPU side of one evaluator: making the preprocessor, making the session and its binding,
  copying a frame, warping one aligned face (for liveness with the measured out-of-bounds ratio),
  inference. Each may throw, and \<open>ensure_runtime\<close> keeps what was made before a throw.
\<close>

record gpu_side =
  create_preprocessor :: "gpu_frame \<Rightarrow> unit result"
  create_session :: "gpu_frame \<Rightarrow> unit result"
  prepare_frame :: "gpu_frame \<Rightarrow> unit result"
  preprocess_aligned :: "gpu_frame \<Rightarrow> transform \<Rightarrow> single result"
  run_model :: "gpu_frame \<Rightarrow> transform \<Rightarrow> single list result"

record model_runtime =
  has_preprocessor :: bool
  has_session :: bool

definition unloaded :: model_runtime where
  "unloaded = \<lparr>has_preprocessor = False, has_session = False\<rparr>"

definition ensure_runtime :: "gpu_side \<Rightarrow> gpu_frame \<Rightarrow> (model_runtime, unit) run" where
  "ensure_runtime gpu frame = andThen get_state (\<lambda>rt.
     if has_preprocessor rt then ret ()
     else andThen (lift_result (create_preprocessor gpu frame)) (\<lambda>_.
          andThen (modify (\<lambda>rt. rt\<lparr>has_preprocessor := True\<rparr>)) (\<lambda>_.
          andThen (lift_result (create_session gpu frame)) (\<lambda>_.
            modify (\<lambda>rt. rt\<lparr>has_session := True\<rparr>)))))"

definition infer :: "gpu_side \<Rightarrow> model_runtime \<Rightarrow> gpu_frame \<Rightarrow> transform \<Rightarrow> single list result" where
  "infer gpu rt frame t = (if has_session rt then run_model gpu frame t else Inl NullHandle)"

record arcface_result =
  face_embedding :: "single list"
  raw_embedding_norm :: single
  face_transform :: transform

definition arcface_evaluate_prepared :: "gpu_side \<Rightarrow> model_config \<Rightarrow> model_runtime \<Rightarrow> gpu_frame \<Rightarrow>
    face_detection \<Rightarrow> arcface_result result" where
  "arcface_evaluate_prepared gpu cfg rt frame obs =
     bind_result (estimate_arcface_transform obs (config_width cfg) (config_height cfg)) (\<lambda>t.
     bind_result (preprocess_aligned gpu frame t) (\<lambda>_.
     bind_result (infer gpu rt frame t) (\<lambda>output.
     bind_result (copy_embedding output) (\<lambda>raw.
     bind_result (normalize_face raw) (\<lambda>e.
       Inr \<lparr>face_embedding = e, raw_embedding_norm = to_single (dsqrt (dot_product raw raw)),
            face_transform = t\<rparr>)))))"

definition liveness_evaluate_prepared :: "gpu_side \<Rightarrow> model_config \<Rightarrow> single \<Rightarrow> model_runtime \<Rightarrow> gpu_frame \<Rightarrow>
    face_detection \<Rightarrow> liveness_result result" where
  "liveness_evaluate_prepared gpu cfg threshold rt frame obs =
     bind_result (estimate_liveness_transform obs (config_width cfg) (config_height cfg)) (\<lambda>t.
     bind_result (preprocess_aligned gpu frame t) (\<lambda>outside.
       if outside > single_lit (3 / 10)
       then Inr \<lparr>live_score = None, live_decision = InputRejected, out_of_bounds_ratio = outside, live_transform = t\<rparr>
       else
         bind_result (infer gpu rt frame t) (\<lambda>output.
         bind_result (copy_live_score output) (\<lambda>score.
         bind_result (classify_score score threshold) (\<lambda>decision.
           Inr \<lparr>live_score = Some score, live_decision = decision, out_of_bounds_ratio = outside,
                live_transform = t\<rparr>)))))"

definition evaluate_many :: "gpu_side \<Rightarrow> (model_runtime \<Rightarrow> gpu_frame \<Rightarrow> face_detection \<Rightarrow> 'r result) \<Rightarrow> gpu_frame \<Rightarrow>
    face_detection list \<Rightarrow> (model_runtime, 'r list) run" where
  "evaluate_many gpu one frame observations =
     (if \<not> frame_valid frame then throw (InvalidArgument ''GpuFrame'')
      else if observations = [] then ret []
      else andThen (ensure_runtime gpu frame) (\<lambda>_.
           andThen (lift_result (prepare_frame gpu frame)) (\<lambda>_.
           andThen get_state (\<lambda>rt. lift_result (mapM (one rt frame) observations)))))"

definition evaluate_face :: "gpu_side \<Rightarrow> (model_runtime \<Rightarrow> gpu_frame \<Rightarrow> face_detection \<Rightarrow> 'r result) \<Rightarrow> gpu_frame \<Rightarrow>
    face_detection \<Rightarrow> (model_runtime, 'r) run" where
  "evaluate_face gpu one frame obs = andThen (evaluate_many gpu one frame [obs]) (\<lambda>rs. ret (hd rs))"

end
