(* ===== verification/Matcher.thy ===== *)
theory Matcher
  imports Faces
begin

text \<open>
  \<^verbatim>\<open>src/vision_runtime/pipeline/gallery_matcher.cpp\<close>: the best and the second best identity of a
  gallery for an aggregated embedding. \<open>best_\<close> is scratch space of \<open>match\<close>, rewritten by every call.
\<close>

record face_template =
  face_identity :: string
  face_vector :: "single list"

record gallery_match =
  match_valid :: bool
  match_identity :: string
  best_similarity :: single
  second_similarity :: single
  match_margin :: single

definition no_match :: gallery_match where
  "no_match = \<lparr>match_valid = False, match_identity = [], best_similarity = - 1, second_similarity = - 1,
     match_margin = 0\<rparr>"

record gallery_matcher =
  matrix_rows :: "single list list"
  owners :: "nat list"
  identities :: "string list"

definition empty_matcher :: gallery_matcher where
  "empty_matcher = \<lparr>matrix_rows = [], owners = [], identities = []\<rparr>"

definition gallery_size :: "gallery_matcher \<Rightarrow> nat" where
  "gallery_size m = length (matrix_rows m)"

definition lower_bound :: "'a::linorder list \<Rightarrow> 'a \<Rightarrow> nat" where
  "lower_bound xs k = length (takeWhile (\<lambda>x. x < k) xs)"

definition load_template :: "string list \<Rightarrow> face_template \<Rightarrow> (single list \<times> nat) result" where
  "load_template ids t =
     (if list_ex (\<lambda>v. \<not> sfinite v) (face_vector t) then Inl (InvalidArgument ''Non-finite embedding'')
      else bind_result (normalize_face (face_vector t)) (\<lambda>e. Inr (e, lower_bound ids (face_identity t))))"

text \<open>The new matcher is built aside and installed only when it is complete.\<close>

definition replace_templates :: "face_template list \<Rightarrow> (gallery_matcher, unit) run" where
  "replace_templates ts =
     (if list_ex (\<lambda>t. face_identity t = []) ts then throw (InvalidArgument ''Empty gallery identity'')
      else let ids = remdups_adj (sort (map face_identity ts))
           in andThen (lift_result (mapM (load_template ids) ts)) (\<lambda>rows.
                modify (\<lambda>_. \<lparr>matrix_rows = map fst rows, owners = map snd rows, identities = ids\<rparr>)))"

definition template_score :: "single list \<Rightarrow> single list \<Rightarrow> single" where
  "template_score query row = std_clamp (to_single (dot_product query row)) (- 1) 1"

definition identity_scores :: "gallery_matcher \<Rightarrow> single list \<Rightarrow> single list" where
  "identity_scores m query =
     foldl (\<lambda>best (row, owner). best[owner := std_max (best ! owner) (template_score query row)])
       (replicate (length (identities m)) (- 1)) (zip (matrix_rows m) (owners m))"

definition consider_identity :: "gallery_match \<Rightarrow> string \<times> single \<Rightarrow> gallery_match" where
  "consider_identity out = (\<lambda>(k, score).
     if \<not> match_valid out \<or> score > best_similarity out
     then out\<lparr>second_similarity := best_similarity out, best_similarity := score, match_identity := k,
              match_valid := True\<rparr>
     else out\<lparr>second_similarity := std_max (second_similarity out) score\<rparr>)"

definition two_best :: "(string \<times> single) list \<Rightarrow> gallery_match" where
  "two_best scored = foldl consider_identity no_match scored"

definition match_gallery :: "gallery_matcher \<Rightarrow> single list \<Rightarrow> gallery_match result" where
  "match_gallery m input =
     (if matrix_rows m = [] then Inr no_match
      else if list_ex (\<lambda>v. \<not> sfinite v) input then Inl (InvalidArgument ''Non-finite query'')
      else let norm = dsqrt (dot_product input input)
           in if norm < double_lit (1 / 10 ^ 12) then Inr no_match
              else let inverse_norm = to_single (1 / norm);
                       query = map (\<lambda>v. v * inverse_norm) input;
                       out = two_best (zip (identities m) (identity_scores m query))
                   in Inr (out\<lparr>match_margin := if length (identities m) = 1 then single_lit 2
                                               else best_similarity out - second_similarity out\<rparr>))"

section \<open>The loaded gallery\<close>

definition matcher_ok :: "gallery_matcher \<Rightarrow> bool" where
  "matcher_ok m \<longleftrightarrow> sorted (identities m) \<and> distinct (identities m) \<and>
     length (owners m) = length (matrix_rows m) \<and> (\<forall>i \<in> set (owners m). i < length (identities m)) \<and>
     set (owners m) = {0..<length (identities m)}"

lemma sorted_lower_bound:
  assumes "sorted xs" and "k \<in> set xs"
  shows "lower_bound xs k < length xs \<and> xs ! lower_bound xs k = k"
proof -
  let ?n = "length (takeWhile (\<lambda>x. x < k) xs)"
  have lt: "?n < length xs"
  proof (rule ccontr)
    assume "\<not> ?n < length xs"
    moreover have "?n \<le> length xs" by (rule length_takeWhile_le)
    ultimately have "takeWhile (\<lambda>x. x < k) xs = xs"
      by (metis order_antisym not_less takeWhile_eq_take take_all)
    with assms(2) show False using set_takeWhileD by fastforce
  qed
  then have ge: "\<not> xs ! ?n < k" by (rule nth_length_takeWhile)
  obtain j where j: "j < length xs" "xs ! j = k" using assms(2) by (auto simp: in_set_conv_nth)
  have "?n \<le> j"
  proof (rule ccontr)
    assume "\<not> ?n \<le> j"
    then have "j < ?n" by simp
    then have "xs ! j < k" using takeWhile_nth [of j "\<lambda>x. x < k" xs] set_takeWhileD [of "xs ! j" "\<lambda>x. x < k" xs]
      by (metis nth_mem)
    with j show False by simp
  qed
  then have "xs ! ?n \<le> k" using assms(1) j sorted_nth_mono by blast
  with ge lt show ?thesis by (simp add: lower_bound_def)
qed

lemma distinct_remdups_adj_sorted: "sorted xs \<Longrightarrow> distinct (remdups_adj xs)"
proof (induction xs rule: remdups_adj.induct)
  case (3 x y xs)
  show ?case
  proof (cases "x = y")
    case False
    moreover have "x \<le> y" using "3.prems" by simp
    ultimately have "x < y" by (simp add: order.strict_iff_order)
    then have "\<forall>z \<in> set (y # xs). x < z" using "3.prems" by auto
    then have "x \<notin> set (remdups_adj (y # xs))" by (metis less_irrefl remdups_adj_set)
    with "3.IH"(2) [OF False] "3.prems" False show ?thesis by simp
  qed (use 3 in simp)
qed simp_all

lemma load_template_owners:
  assumes "mapM (load_template ids) ts = Inr rows"
  shows "map snd rows = map (\<lambda>t. lower_bound ids (face_identity t)) ts"
proof -
  have "list_all2 (\<lambda>t r. load_template ids t = Inr r) ts rows" using assms by (simp add: mapM_Inr_iff)
  then show ?thesis
    by (induction rule: list_all2_induct) (auto simp: load_template_def split: if_splits)
qed

lemma replace_templates_ok:
  assumes "replace_templates ts m = (Inr (), m')"
  shows "matcher_ok m'" and "gallery_size m' = length ts"
    and "set (identities m') = face_identity ` set ts"
    and "map (\<lambda>i. identities m' ! i) (owners m') = map face_identity ts"
proof -
  let ?ids = "remdups_adj (sort (map face_identity ts))"
  obtain rows where rows: "mapM (load_template ?ids) ts = Inr rows"
    and m': "m' = \<lparr>matrix_rows = map fst rows, owners = map snd rows, identities = ?ids\<rparr>"
    using assms by (auto simp: replace_templates_def Let_def run_simps split: if_splits sum.splits)
  note own = load_template_owners [OF rows]
  have len: "length rows = length ts" using rows by (rule mapM_length)
  have sorted: "sorted ?ids" by (simp add: sorted_remdups_adj)
  have ids: "set ?ids = face_identity ` set ts" by simp
  have lb: "lower_bound ?ids (face_identity t) < length ?ids \<and>
      ?ids ! lower_bound ?ids (face_identity t) = face_identity t" if "t \<in> set ts" for t
    by (rule sorted_lower_bound [OF sorted]) (use that in simp)
  have dist: "distinct ?ids" by (simp add: distinct_remdups_adj_sorted)
  have "i \<in> set (map snd rows)" if "i < length ?ids" for i
  proof -
    have "?ids ! i \<in> set ?ids" using that by (rule nth_mem)
    then obtain t where t: "t \<in> set ts" "?ids ! i = face_identity t" unfolding ids by blast
    have "lower_bound ?ids (face_identity t) = i"
      using lb [OF t(1)] t(2) that dist by (metis nth_eq_iff_index_eq)
    with t(1) show ?thesis unfolding own by force
  qed
  then have "set (owners m') = {0..<length ?ids}" unfolding m' using lb by (auto simp: own)
  then show "matcher_ok m'" unfolding matcher_ok_def using sorted dist by (simp add: m')
  show "gallery_size m' = length ts" by (simp add: gallery_size_def m' len)
  show "set (identities m') = face_identity ` set ts" by (simp add: m')
  show "map (\<lambda>i. identities m' ! i) (owners m') = map face_identity ts"
    by (simp add: m' own lb cong: map_cong)
qed


section \<open>The match\<close>

lemma std_max_index: "length (foldl (\<lambda>best (row, owner). best[owner := f best row owner]) b rows) = length b"
  by (induction rows arbitrary: b) (auto split: prod.splits)

lemma identity_scores_length [simp]: "length (identity_scores m query) = length (identities m)"
  by (simp add: identity_scores_def std_max_index)

text \<open>The score of one identity: the largest over its templates, never below minus one.\<close>

definition best_of :: "single list \<Rightarrow> single" where
  "best_of scores = foldl std_max (- 1) scores"

lemma minus_one_not_nan [simp]: "\<not> snan (- 1)"
  by (simp add: snan_def float_simps)

lemma foldl_std_max_not_nan: "\<not> snan a \<Longrightarrow> \<not> snan (foldl std_max a scores)"
  by (induction scores arbitrary: a) simp_all

lemma foldl_std_max_ge: "\<not> snan a \<Longrightarrow> a \<le> foldl std_max a scores"
proof (induction scores arbitrary: a)
  case (Cons s scores)
  have "a \<le> std_max a s" by (rule single_max_ge1 [OF Cons.prems])
  also have "\<dots> \<le> foldl std_max (std_max a s) scores" using Cons by simp
  finally (single_le_trans) show ?case by simp
qed simp

lemma foldl_std_max_upper:
  "\<not> snan a \<Longrightarrow> s \<in> set scores \<Longrightarrow> \<not> snan s \<Longrightarrow> s \<le> foldl std_max a scores"
proof (induction scores arbitrary: a)
  case (Cons x scores)
  show ?case
  proof (cases "s = x")
    case True
    have "x \<le> std_max a x" using Cons.prems True by (intro single_max_ge2) simp_all
    also have "\<dots> \<le> foldl std_max (std_max a x) scores" using Cons.prems by (intro foldl_std_max_ge) simp
    finally (single_le_trans) show ?thesis using True by simp
  next
    case False
    with Cons show ?thesis by simp
  qed
qed simp

lemma foldl_std_max_mem: "foldl std_max a scores = a \<or> foldl std_max a scores \<in> set scores"
proof (induction scores arbitrary: a)
  case (Cons x scores)
  from Cons [of "std_max a x"] show ?case by (auto simp: std_max_def split: if_splits)
qed simp

lemma scatter_max:
  assumes "i < length b" and "\<forall>(row, owner) \<in> set rows. owner < length b"
  shows "foldl (\<lambda>best (row, owner). best[owner := std_max (best ! owner) (f row)]) b rows ! i =
    foldl std_max (b ! i) (map (f \<circ> fst) (filter (\<lambda>(row, owner). owner = i) rows))"
  using assms
proof (induction rows arbitrary: b)
  case (Cons r rows)
  obtain row owner where r: "r = (row, owner)" by fastforce
  show ?case using Cons.prems Cons.IH [of "b[owner := std_max (b ! owner) (f row)]"]
    by (auto simp: r nth_list_update)
qed simp

lemma identity_scores_nth:
  assumes "matcher_ok m" and "i < length (identities m)"
  shows "identity_scores m query ! i =
    best_of (map (template_score query \<circ> fst) (filter (\<lambda>(row, owner). owner = i) (zip (matrix_rows m) (owners m))))"
proof -
  have "\<forall>(row, owner) \<in> set (zip (matrix_rows m) (owners m)). owner < length (identities m)"
    using assms(1) by (auto simp: matcher_ok_def dest: set_zip_rightD)
  then show ?thesis using assms(2) by (simp add: identity_scores_def scatter_max best_of_def)
qed

lemma identity_scores_not_nan:
  assumes "matcher_ok m" and "s \<in> set (identity_scores m query)"
  shows "\<not> snan s"
  using assms by (auto simp: in_set_conv_nth identity_scores_nth best_of_def foldl_std_max_not_nan)

text \<open>\<open>second\<close> bounds every score but the best one's, and is one of them or the initial minus one.\<close>

definition ranked :: "(string \<times> single) list \<Rightarrow> gallery_match \<Rightarrow> bool" where
  "ranked scored out \<longleftrightarrow> match_valid out \<and>
     (\<exists>i < length scored. scored ! i = (match_identity out, best_similarity out) \<and>
       (\<forall>j < length scored. snd (scored ! j) \<le> best_similarity out) \<and>
       (\<forall>j < length scored. j \<noteq> i \<longrightarrow> snd (scored ! j) \<le> second_similarity out) \<and>
       (second_similarity out = - 1 \<or> (\<exists>j < length scored. j \<noteq> i \<and> snd (scored ! j) = second_similarity out))) \<and>
     \<not> snan (second_similarity out)"

lemma ranked_first:
  assumes "\<not> snan score"
  shows "ranked [(k, score)] (consider_identity no_match (k, score))"
  using assms by (simp add: ranked_def consider_identity_def no_match_def)

lemma ranked_step:
  assumes "ranked scored out" and "\<not> snan score"
  shows "ranked (scored @ [(k, score)]) (consider_identity out (k, score))"
proof -
  obtain i where i: "i < length scored" "scored ! i = (match_identity out, best_similarity out)"
    "\<forall>j < length scored. snd (scored ! j) \<le> best_similarity out"
    "\<forall>j < length scored. j \<noteq> i \<longrightarrow> snd (scored ! j) \<le> second_similarity out"
    "second_similarity out = - 1 \<or> (\<exists>j < length scored. j \<noteq> i \<and> snd (scored ! j) = second_similarity out)"
    "match_valid out" "\<not> snan (second_similarity out)"
    using assms(1) by (auto simp: ranked_def)
  have nb: "\<not> snan (best_similarity out)" using i(1,3) single_le_not_nan by blast
  show ?thesis
  proof (cases "score > best_similarity out")
    case True
    let ?new = "consider_identity out (k, score)"
    have new: "match_valid ?new" "match_identity ?new = k" "best_similarity ?new = score"
      "second_similarity ?new = best_similarity out" using True by (simp_all add: consider_identity_def)
    have best: "snd ((scored @ [(k, score)]) ! j) \<le> score" if "j < length scored + 1" for j
      using that i(3) True assms(2) single_le_less_trans single_less_imp_le
      by (cases "j < length scored") (auto simp: nth_append intro: single_less_imp_le single_le_less_trans)
    have snd: "snd ((scored @ [(k, score)]) ! j) \<le> best_similarity out" if "j < length scored + 1" "j \<noteq> length scored" for j
      using that i(3) by (auto simp: nth_append)
    show ?thesis unfolding ranked_def new
      by (intro conjI exI [of _ "length scored"])
        (use new(1) best snd i(1,2) nb in \<open>auto simp: nth_append intro!: exI [of _ i]\<close>)
  next
    case False
    let ?new = "consider_identity out (k, score)"
    let ?second = "std_max (second_similarity out) score"
    have new: "match_valid ?new" "match_identity ?new = match_identity out" "best_similarity ?new = best_similarity out"
      "second_similarity ?new = ?second" using False i(6) by (simp_all add: consider_identity_def)
    have "score \<le> best_similarity out" using False nb assms(2) single_not_less by blast
    then have best: "snd ((scored @ [(k, score)]) ! j) \<le> best_similarity out" if "j < length scored + 1" for j
      using that i(3) by (cases "j < length scored") (auto simp: nth_append)
    have snd: "snd ((scored @ [(k, score)]) ! j) \<le> ?second" if "j < length scored + 1" "j \<noteq> i" for j
    proof (cases "j < length scored")
      case True
      then have "snd (scored ! j) \<le> second_similarity out" using i(4) that by blast
      then have "snd (scored ! j) \<le> ?second" using single_max_ge1 [OF i(7), of score] single_le_trans by blast
      with True show ?thesis by (simp add: nth_append)
    next
      case False
      with that show ?thesis using single_max_ge2 [OF i(7) assms(2)] by (simp add: nth_append)
    qed
    have mem: "?second = - 1 \<or> (\<exists>j < length scored + 1. j \<noteq> i \<and> snd ((scored @ [(k, score)]) ! j) = ?second)"
    proof (cases "second_similarity out < score")
      case True
      then show ?thesis using i(1) by (intro disjI2 exI [of _ "length scored"]) (simp add: std_max_def nth_append)
    next
      case False
      then have "?second = second_similarity out" by (simp add: std_max_def)
      with i(5) show ?thesis by (auto simp: nth_append)
    qed
    show ?thesis unfolding ranked_def new
      by (intro conjI exI [of _ i]) (use new(1) best snd mem i in \<open>auto simp: nth_append\<close>)
  qed
qed

lemma two_best_ranked:
  assumes "scored \<noteq> []" and "\<forall>s \<in> set scored. \<not> snan (snd s)"
  shows "ranked scored (two_best scored)"
  using assms
proof (induction scored rule: rev_induct)
  case (snoc s scored)
  obtain k score where s: "s = (k, score)" by fastforce
  show ?case
  proof (cases "scored = []")
    case True
    then show ?thesis using snoc.prems ranked_first [of score k] by (simp add: two_best_def s)
  next
    case False
    then have "ranked scored (two_best scored)" using snoc by simp
    then show ?thesis using ranked_step [of scored _ score k] snoc.prems by (simp add: two_best_def s)
  qed
qed simp

section \<open>Properties\<close>

definition query_direction :: "single list \<Rightarrow> single list" where
  "query_direction input = map (\<lambda>v. v * to_single (1 / dsqrt (dot_product input input))) input"

lemma match_gallery_valid:
  assumes "matcher_ok m" and "match_gallery m input = Inr out" and "match_valid out"
  shows "ranked (zip (identities m) (identity_scores m (query_direction input)))
           (two_best (zip (identities m) (identity_scores m (query_direction input))))"
    and "out = two_best (zip (identities m) (identity_scores m (query_direction input)))
           \<lparr>match_margin := if length (identities m) = 1 then single_lit 2
                            else best_similarity out - second_similarity out\<rparr>"
proof -
  let ?scored = "zip (identities m) (identity_scores m (query_direction input))"
  have out: "matrix_rows m \<noteq> []" "out = two_best ?scored\<lparr>match_margin := if length (identities m) = 1 then single_lit 2
      else best_similarity (two_best ?scored) - second_similarity (two_best ?scored)\<rparr>"
    using assms(2,3) by (auto simp: match_gallery_def Let_def query_direction_def no_match_def split: if_splits)
  then show "out = two_best ?scored\<lparr>match_margin := if length (identities m) = 1 then single_lit 2
      else best_similarity out - second_similarity out\<rparr>" by simp
  have "owners m \<noteq> []" using out(1) assms(1) by (auto simp: matcher_ok_def)
  then have "identities m \<noteq> []" using assms(1) by (cases "owners m") (auto simp: matcher_ok_def)
  then have "?scored \<noteq> []" by (cases "identities m"; cases "identity_scores m (query_direction input)")
      (auto dest: arg_cong [of _ _ length])
  moreover have "\<forall>s \<in> set ?scored. \<not> snan (snd s)"
    using identity_scores_not_nan [OF assms(1)] by (auto dest: set_zip_rightD)
  ultimately show "ranked ?scored (two_best ?scored)" by (rule two_best_ranked)
qed

text \<open>Two identities, and the query on which the properties are exercised.\<close>

definition sample_faces :: "face_template list" where
  "sample_faces = [\<lparr>face_identity = ''b'', face_vector = [1, 0]\<rparr>, \<lparr>face_identity = ''a'', face_vector = [0, 1]\<rparr>]"

definition sample_matcher :: gallery_matcher where
  "sample_matcher = \<lparr>matrix_rows = [[1, 0], [0, 1]], owners = [1, 0], identities = [''a'', ''b'']\<rparr>"

definition sample_match :: gallery_match where
  "sample_match = \<lparr>match_valid = True, match_identity = ''b'', best_similarity = 1, second_similarity = 0,
     match_margin = 1\<rparr>"

lemma sample_matcher_run: "replace_templates sample_faces empty_matcher = (Inr (), sample_matcher)"
  by code_simp

lemma sample_matcher_ok: "matcher_ok sample_matcher"
  by (rule replace_templates_ok(1) [OF sample_matcher_run])

lemma sample_match_run: "match_gallery sample_matcher [1, 0] = Inr sample_match"
  by code_simp

text \<open>
  C16: the match is the best identity. The identity a valid match names has the largest score of
  the gallery, the second similarity bounds the score of every other identity and is attained (or
  is the initial minus one), and the margin is their difference, or 2 when there is one identity.
\<close>

theorem match_is_best:
  assumes "matcher_ok m" and "match_gallery m input = Inr out" and "match_valid out"
  shows "\<exists>i < length (identities m).
    match_identity out = identities m ! i \<and>
    best_similarity out = identity_scores m (query_direction input) ! i \<and>
    (\<forall>j < length (identities m). identity_scores m (query_direction input) ! j \<le> best_similarity out) \<and>
    (\<forall>j < length (identities m). j \<noteq> i \<longrightarrow>
       identity_scores m (query_direction input) ! j \<le> second_similarity out) \<and>
    (second_similarity out = - 1 \<or> (\<exists>j < length (identities m). j \<noteq> i \<and>
       identity_scores m (query_direction input) ! j = second_similarity out)) \<and>
    match_margin out = (if length (identities m) = 1 then single_lit 2
                        else best_similarity out - second_similarity out)"
proof -
  let ?scored = "zip (identities m) (identity_scores m (query_direction input))"
  note out = match_gallery_valid [OF assms]
  have eq: "match_identity out = match_identity (two_best ?scored)"
    "best_similarity out = best_similarity (two_best ?scored)"
    "second_similarity out = second_similarity (two_best ?scored)"
    by (subst out(2), simp)+
  have margin: "match_margin out = (if length (identities m) = 1 then single_lit 2
                        else best_similarity out - second_similarity out)"
    by (subst out(2)) simp
  have nth: "?scored ! j = (identities m ! j, identity_scores m (query_direction input) ! j)"
    if "j < length (identities m)" for j using that by simp
  obtain i where i: "i < length (identities m)" "?scored ! i = (match_identity out, best_similarity out)"
    "\<forall>j < length (identities m). snd (?scored ! j) \<le> best_similarity out"
    "\<forall>j < length (identities m). j \<noteq> i \<longrightarrow> snd (?scored ! j) \<le> second_similarity out"
    "second_similarity out = - 1 \<or> (\<exists>j < length (identities m). j \<noteq> i \<and> snd (?scored ! j) = second_similarity out)"
  proof -
    have "length ?scored = length (identities m)" by simp
    with out(1) show thesis unfolding ranked_def eq [symmetric] by (elim conjE exE) (rule that, simp_all)
  qed
  show ?thesis
    by (rule exI [of _ i]) (use i nth margin in \<open>auto simp del: One_nat_def\<close>)
qed

theorem match_is_best_witness:
  "\<exists>i < 2. identities sample_matcher ! i = ''b'' \<and>
     (\<forall>j < 2. identity_scores sample_matcher (query_direction [1, 0]) ! j \<le> 1)"
proof -
  have "match_valid sample_match" by (simp add: sample_match_def)
  from match_is_best [OF sample_matcher_ok sample_match_run this] obtain i where
    "i < length (identities sample_matcher)" "match_identity sample_match = identities sample_matcher ! i"
    "\<forall>j < length (identities sample_matcher).
       identity_scores sample_matcher (query_direction [1, 0]) ! j \<le> best_similarity sample_match" by blast
  moreover have "length (identities sample_matcher) = 2" "match_identity sample_match = ''b''"
    "best_similarity sample_match = 1" by (simp_all add: sample_matcher_def sample_match_def)
  ultimately show ?thesis by metis
qed

text \<open>
  The score of an identity is the largest over its own templates: no template of the identity
  scores higher (a NaN product counts for nothing), and the score is attained by one of them or is
  the initial minus one.
\<close>

theorem identity_score_is_maximum:
  assumes "matcher_ok m" and "n < length (owners m)"
    and "\<not> snan (template_score query (matrix_rows m ! n))"
  shows "template_score query (matrix_rows m ! n) \<le> identity_scores m query ! (owners m ! n) \<and>
    (identity_scores m query ! (owners m ! n) = - 1 \<or>
     (\<exists>k < length (owners m). owners m ! k = owners m ! n \<and>
        identity_scores m query ! (owners m ! n) = template_score query (matrix_rows m ! k)))"
proof -
  let ?rows = "filter (\<lambda>(row, owner). owner = owners m ! n) (zip (matrix_rows m) (owners m))"
  let ?scores = "map (template_score query \<circ> fst) ?rows"
  have len: "length (matrix_rows m) = length (owners m)" using assms(1) by (simp add: matcher_ok_def)
  have "owners m ! n \<in> set (owners m)" using assms(2) by (rule nth_mem)
  then have "owners m ! n < length (identities m)" using assms(1) unfolding matcher_ok_def by blast
  note score = identity_scores_nth [OF assms(1) this, of query]
  have "(matrix_rows m ! n, owners m ! n) \<in> set (zip (matrix_rows m) (owners m))"
    using assms(2) len by (auto simp: in_set_zip)
  then have "(matrix_rows m ! n, owners m ! n) \<in> set ?rows" by simp
  then have "template_score query (matrix_rows m ! n) \<in> set ?scores" by force
  then have "template_score query (matrix_rows m ! n) \<le> best_of ?scores"
    unfolding best_of_def using assms(3) by (intro foldl_std_max_upper) simp_all
  moreover have "best_of ?scores = - 1 \<or> best_of ?scores \<in> set ?scores"
    unfolding best_of_def by (rule foldl_std_max_mem)
  then have "best_of ?scores = - 1 \<or> (\<exists>k < length (owners m). owners m ! k = owners m ! n \<and>
      best_of ?scores = template_score query (matrix_rows m ! k))"
    using len by (auto simp: in_set_zip)
  ultimately show ?thesis unfolding score by blast
qed

theorem identity_score_is_maximum_witness:
  "template_score [1, 0] [1, 0] \<le> identity_scores sample_matcher [1, 0] ! 1"
proof -
  have "\<not> snan (template_score [1, 0] (matrix_rows sample_matcher ! 0))" by code_simp
  moreover have "0 < length (owners sample_matcher)" by (simp add: sample_matcher_def)
  ultimately show ?thesis
    using identity_score_is_maximum [OF sample_matcher_ok, of 0 "[1, 0]"] by (simp add: sample_matcher_def)
qed

end
