(* ===== verification/Processor.thy ===== *)
theory Processor
  imports Matcher
begin

text \<open>
  \<^verbatim>\<open>src/vision_runtime/pipeline/attendance_processor.cpp\<close>: per track, a quality gate, a
  liveness vote, recognition on averaged embeddings and one event per identity and cooldown. Times
  of the steady clock are nanoseconds, the configured durations milliseconds. The two evaluators
  and the UTC clock are arguments; an exception leaves the processor as the statements before it
  left it.
\<close>

section \<open>Configuration\<close>

record biometric_config =
  pad_live_threshold :: single
  pad_bona_fide_votes_required :: nat
  pad_attack_votes_required :: nat
  pad_max_attempts :: nat
  pad_every_frames :: nat
  min_detection_score :: single
  min_face_width :: single
  min_face_height :: single
  recognition_max_attempts :: nat
  recognition_every_frames :: nat
  recognition_similarity_threshold :: single
  calibration_id :: string
  allow_uncalibrated_thresholds :: bool
  max_alignment_rmse :: single
  retry_quality_gain :: single
  recognition_extra_attempts :: nat
  event_cooldown :: int
  evidence_ttl :: int
  recognition_min_margin :: single
  max_missing_runtime_frames :: nat

definition default_biometric_config :: biometric_config where
  "default_biometric_config = \<lparr>pad_live_threshold = ta_live_threshold,
     pad_bona_fide_votes_required = 2, pad_attack_votes_required = 2, pad_max_attempts = 3, pad_every_frames = 3,
     min_detection_score = single_lit (1 / 2), min_face_width = single_lit 64, min_face_height = single_lit 64,
     recognition_max_attempts = 3, recognition_every_frames = 3, recognition_similarity_threshold = Sgl NaN,
     calibration_id = [], allow_uncalibrated_thresholds = False, max_alignment_rmse = single_lit 8,
     retry_quality_gain = single_lit (5 / 4), recognition_extra_attempts = 1, event_cooldown = 30000,
     evidence_ttl = 3000, recognition_min_margin = 0, max_missing_runtime_frames = 45\<rparr>"

definition validate_attendance_config :: "biometric_config \<Rightarrow> unit result" where
  "validate_attendance_config c =
     (if \<not> sfinite (recognition_similarity_threshold c) \<or> recognition_similarity_threshold c \<le> - 1 \<or>
         recognition_similarity_threshold c > 1
      then Inl (InvalidArgument ''Set an explicit recognition threshold in (-1,1]'')
      else if calibration_id c = [] \<and> \<not> allow_uncalibrated_thresholds c
      then Inl (InvalidArgument ''calibration_id required; development tools must explicitly opt in'')
      else if \<not> sfinite (recognition_min_margin c) \<or> recognition_min_margin c < 0 \<or>
         recognition_min_margin c > single_lit 2 \<or>
         \<not> sfinite (pad_live_threshold c) \<or> pad_live_threshold c < 0 \<or> pad_live_threshold c > 1 \<or>
         \<not> sfinite (min_detection_score c) \<or> min_detection_score c < 0 \<or> min_detection_score c > 1 \<or>
         \<not> sfinite (min_face_width c) \<or> \<not> sfinite (min_face_height c) \<or> min_face_width c \<le> 0 \<or>
         min_face_height c \<le> 0 \<or> \<not> sfinite (max_alignment_rmse c) \<or> max_alignment_rmse c \<le> 0 \<or>
         \<not> sfinite (retry_quality_gain c) \<or> retry_quality_gain c \<le> 1
      then Inl (InvalidArgument ''Invalid biometric quality/threshold configuration'')
      else if pad_bona_fide_votes_required c = 0 \<or> pad_attack_votes_required c = 0 \<or> pad_max_attempts c = 0 \<or>
         pad_bona_fide_votes_required c > pad_max_attempts c \<or> pad_attack_votes_required c > pad_max_attempts c \<or>
         pad_every_frames c = 0 \<or> recognition_every_frames c = 0 \<or> recognition_max_attempts c = 0 \<or>
         max_missing_runtime_frames c = 0 \<or> event_cooldown c \<le> 0 \<or> evidence_ttl c \<le> 0
      then Inl (InvalidArgument ''Invalid biometric cadence/budget'')
      else Inr ())"

section \<open>State\<close>

datatype phase =
    WaitingQuality
  | CheckingPad
  | RejectedAttack
  | Recognizing
  | Recognized
  | UnknownIdentity
  | RecognitionDeferred
  | DuplicateIdentity

definition phase_name :: "phase \<Rightarrow> string" where
  "phase_name p = (case p of
     WaitingQuality \<Rightarrow> ''WAITING_QUALITY'' | CheckingPad \<Rightarrow> ''CHECKING_PAD''
   | Recognizing \<Rightarrow> ''RECOGNIZING'' | RejectedAttack \<Rightarrow> ''REJECTED_ATTACK''
   | Recognized \<Rightarrow> ''RECOGNIZED'' | DuplicateIdentity \<Rightarrow> ''DUPLICATE_IDENTITY''
   | RecognitionDeferred \<Rightarrow> ''RECOGNITION_DEFERRED'' | UnknownIdentity \<Rightarrow> ''UNKNOWN_IDENTITY'')"

record bio_state =
  bio_phase :: phase
  seen :: nat
  last_pad :: nat
  last_arc :: nat
  arc_attempts :: nat
  arc_extra :: nat
  arc_count :: nat
  evidence :: int
  terminal :: int
  votes :: vote_counts
  scores :: "single list"
  embedding_sums :: "double list"
  best_quality :: single
  bio_match :: gallery_match

definition fresh_bio :: bio_state where
  "fresh_bio = \<lparr>bio_phase = WaitingQuality, seen = 0, last_pad = 0, last_arc = 0, arc_attempts = 0,
     arc_extra = 0, arc_count = 0, evidence = 0, terminal = 0, votes = no_votes, scores = [],
     embedding_sums = replicate embedding_size 0, best_quality = 0, bio_match = no_match\<rparr>"

record processor =
  proc_config :: biometric_config
  proc_gallery :: gallery_matcher
  bio_states :: "nat \<rightharpoonup> bio_state"
  emitted :: "string \<rightharpoonup> int"
  tick :: nat
  last_frame :: nat
  last_time :: int
  have_time :: bool

record attendance_event =
  event_utc_ms :: int
  event_frame :: nat
  event_track :: nat
  event_identity :: string
  event_similarity :: single
  event_margin :: single
  event_pad_median :: single
  event_pad_margin :: single

record track_snapshot =
  snap_track :: nat
  snap_phase :: phase
  snap_score :: single
  snap_width :: single
  snap_height :: single
  snap_pad_attempts :: nat
  snap_pad_input_rejections :: nat
  snap_bona_fide :: nat
  snap_attack :: nat
  snap_pad_median :: single
  snap_recognition_attempts :: nat
  snap_identity :: string
  snap_similarity :: single
  snap_margin :: single

record biometric_frame =
  bio_gpu_frame :: gpu_frame
  bio_tracks :: "track_snapshot list"
  attendance_events :: "attendance_event list"

record tracking_frame =
  track_gpu_frame :: gpu_frame
  frame_detections :: "face_detection list"
  frame_tracks :: "track_result list"

record evaluators =
  eval_pad :: "gpu_frame \<Rightarrow> face_detection list \<Rightarrow> liveness_result list result"
  eval_recognize :: "gpu_frame \<Rightarrow> face_detection list \<Rightarrow> arcface_result list result"

definition new_processor :: "biometric_config \<Rightarrow> processor result" where
  "new_processor c = bind_result (validate_attendance_config c) (\<lambda>_.
     Inr \<lparr>proc_config = c, proc_gallery = empty_matcher, bio_states = Map.empty, emitted = Map.empty, tick = 0,
          last_frame = 0, last_time = 0, have_time = False\<rparr>)"

definition reset_processor :: "processor \<Rightarrow> processor" where
  "reset_processor p = p\<lparr>bio_states := Map.empty, tick := 0, last_frame := 0\<rparr>"

definition set_gallery :: "face_template list \<Rightarrow> (processor, unit) run" where
  "set_gallery ts p = (case replace_templates ts (proc_gallery p) of
     (Inl e, _) \<Rightarrow> (Inl e, p)
   | (Inr _, g) \<Rightarrow> (Inr (), reset_processor (p\<lparr>proc_gallery := g\<rparr>)))"

section \<open>Quality and median\<close>

fun insert_float :: "single \<Rightarrow> single list \<Rightarrow> single list" where
  "insert_float x [] = [x]"
| "insert_float x (y # ys) = (if x < y then x # y # ys else y # insert_float x ys)"

definition sort_floats :: "single list \<Rightarrow> single list" where
  "sort_floats xs = foldr insert_float xs []"

definition median :: "single list \<Rightarrow> single" where
  "median v =
     (if v = [] then 0
      else let s = sort_floats v; n = length s
           in if n mod 2 = 1 then s ! (n div 2) else (s ! (n div 2 - 1) + s ! (n div 2)) * single_lit (1 / 2))"

definition landmark_outside :: "face_detection \<Rightarrow> single \<Rightarrow> single \<Rightarrow> point \<Rightarrow> bool" where
  "landmark_outside d w h p \<longleftrightarrow>
     \<not> sfinite (point_x p) \<or> \<not> sfinite (point_y p) \<or>
     point_x p < box_x1 d - w * single_lit (1 / 4) \<or> point_x p > box_x2 d + w * single_lit (1 / 4) \<or>
     point_y p < box_y1 d - h * single_lit (1 / 4) \<or> point_y p > box_y2 d + h * single_lit (1 / 4)"

definition quality :: "track_result \<Rightarrow> biometric_config \<Rightarrow> single" where
  "quality t c =
     (if \<not> has_observation t then 0
      else let d = observation t; w = box_x2 d - box_x1 d; h = box_y2 d - box_y1 d; ps = landmarks d
           in if \<not> sfinite (detection_score d) \<or> detection_score d > 1 \<or> detection_score d < min_detection_score c \<or>
                 \<not> sfinite w \<or> \<not> sfinite h \<or> w < min_face_width c \<or> h < min_face_height c then 0
              else if list_ex (landmark_outside d w h) ps then 0
              else if shypot (point_x (ps ! 1) - point_x (ps ! 0)) (point_y (ps ! 1) - point_y (ps ! 0)) < 1 then 0
              else case estimate_arcface_transform d 112 112 of
                     Inl _ \<Rightarrow> 0
                   | Inr a \<Rightarrow> if \<not> sfinite (rmse a) \<or> rmse a > max_alignment_rmse c then 0
                              else std_min w h / (1 + rmse a))"

section \<open>One frame\<close>

text \<open>Durations of the configuration against differences of nanosecond times.\<close>

definition ns_of_ms :: "int \<Rightarrow> int" where
  "ns_of_ms d = d * 1000000"

definition prune :: "int \<Rightarrow> processor \<Rightarrow> processor" where
  "prune now p = p\<lparr>
     bio_states := (\<lambda>k. case bio_states p k of
        None \<Rightarrow> None
      | Some s \<Rightarrow> if tick p - seen s > max_missing_runtime_frames (proc_config p) then None else Some s),
     emitted := (\<lambda>k. case emitted p k of
        None \<Rightarrow> None
      | Some t \<Rightarrow> if now - t \<ge> ns_of_ms (event_cooldown (proc_config p)) then None else Some t)\<rparr>"

definition frame_rejected :: "tracking_frame \<Rightarrow> int \<Rightarrow> processor \<Rightarrow> error option" where
  "frame_rejected f now p =
     (if (have_time p \<and> now < last_time p) \<or> frame_id (track_gpu_frame f) \<le> last_frame p
      then Some (InvalidArgument ''Frame/time must advance monotonically'')
      else if \<not> distinct (map result_id (frame_tracks f))
      then Some (InvalidArgument ''Duplicate track ID in frame'')
      else None)"

definition begin_frame :: "tracking_frame \<Rightarrow> int \<Rightarrow> (processor, unit) run" where
  "begin_frame f now p =
     (case frame_rejected f now p of
        Some e \<Rightarrow> (Inl e, p)
      | None \<Rightarrow> (Inr (), prune now (p\<lparr>last_time := now, have_time := True,
                    last_frame := frame_id (track_gpu_frame f), tick := tick p + 1\<rparr>)))"

definition settled :: "phase \<Rightarrow> bool" where
  "settled ph \<longleftrightarrow> ph = Recognized \<or> ph = DuplicateIdentity \<or> ph = RejectedAttack \<or> ph = UnknownIdentity"

text \<open>The scheduling of one track; the flag says that its observation joins the liveness batch.\<close>

definition schedule_state :: "biometric_config \<Rightarrow> nat \<Rightarrow> nat \<Rightarrow> int \<Rightarrow> track_result \<Rightarrow> bio_state \<Rightarrow> bio_state \<times> bool" where
  "schedule_state c templates now_tick now t s0 =
     (let s1 = s0\<lparr>seen := now_tick\<rparr>;
          s2 = (if (bio_phase s1 = Recognized \<or> bio_phase s1 = DuplicateIdentity) \<and>
                   now - terminal s1 \<ge> ns_of_ms (event_cooldown c)
                then fresh_bio\<lparr>seen := now_tick\<rparr> else s1)
      in if settled (bio_phase s2) then (s2, False)
         else let s3 = (if vote_attempts (votes s2) \<noteq> 0 \<and> now - evidence s2 > ns_of_ms (evidence_ttl c)
                        then fresh_bio\<lparr>seen := seen s2\<rparr> else s2);
                  q = quality t c
              in if q \<le> 0 \<or> templates = 0 then (s3, False)
                 else if bio_phase s3 = RecognitionDeferred \<and>
                         (arc_extra s3 \<ge> recognition_extra_attempts c \<or> q < best_quality s3 * retry_quality_gain c)
                 then (s3, False)
                 else let s4 = (if bio_phase s3 = RecognitionDeferred
                                then s3\<lparr>arc_extra := arc_extra s3 + 1, bio_phase := Recognizing,
                                        embedding_sums := replicate embedding_size 0, arc_count := 0\<rparr>
                                else s3)
                      in if bio_phase s4 \<noteq> Recognizing \<and>
                            (last_pad s4 = 0 \<or> now_tick - last_pad s4 \<ge> pad_every_frames c)
                         then (s4\<lparr>bio_phase := CheckingPad\<rparr>, True)
                         else (s4, False))"

definition bio_at :: "nat \<Rightarrow> processor \<Rightarrow> bio_state" where
  "bio_at k p = (case bio_states p k of None \<Rightarrow> fresh_bio | Some s \<Rightarrow> s)"

definition put_bio :: "nat \<Rightarrow> bio_state \<Rightarrow> processor \<Rightarrow> processor" where
  "put_bio k s p = p\<lparr>bio_states := (bio_states p)(k \<mapsto> s)\<rparr>"

fun schedule :: "int \<Rightarrow> track_result list \<Rightarrow> processor \<Rightarrow> processor \<times> (nat \<times> face_detection) list" where
  "schedule now [] p = (p, [])"
| "schedule now (t # ts) p =
     (let (s, queued) = schedule_state (proc_config p) (gallery_size (proc_gallery p)) (tick p) now t
                          (bio_at (result_id t) p);
          (p', queue) = schedule now ts (put_bio (result_id t) s p)
      in (p', (if queued then [(result_id t, observation t)] else []) @ queue))"

section \<open>Liveness\<close>

definition decide_pad :: "biometric_config \<Rightarrow> bio_state \<Rightarrow> bio_state" where
  "decide_pad c s =
     (if vote_spoof (votes s) \<ge> pad_attack_votes_required c then s\<lparr>bio_phase := RejectedAttack\<rparr>
      else if vote_real (votes s) \<ge> pad_bona_fide_votes_required c then s\<lparr>bio_phase := Recognizing\<rparr>
      else if vote_attempts (votes s) \<ge> pad_max_attempts c then s\<lparr>bio_phase := RejectedAttack\<rparr>
      else s)"

definition apply_pad :: "biometric_config \<Rightarrow> nat \<Rightarrow> int \<Rightarrow> liveness_result \<Rightarrow> (bio_state, unit) run" where
  "apply_pad c now_tick now r s0 =
     (let s = s0\<lparr>last_pad := now_tick\<rparr>
      in if live_decision r = InputRejected
         then (if live_score r \<noteq> None then (Inl (RuntimeError ''Rejected PAD input has score''), s)
               else (Inr (), s\<lparr>votes := add_vote InputRejected (votes s), bio_phase := WaitingQuality\<rparr>))
         else case live_score r of
                None \<Rightarrow> (Inl (RuntimeError ''PAD result missing score''), s)
              | Some score \<Rightarrow>
                  (case classify_score score (pad_live_threshold c) of
                     Inl e \<Rightarrow> (Inl e, s)
                   | Inr decision \<Rightarrow>
                       (Inr (), decide_pad c
                          (s\<lparr>evidence := if vote_attempts (votes s) = 0 then now else evidence s,
                             votes := add_vote decision (votes s), scores := scores s @ [score]\<rparr>))))"

definition on_bio :: "nat \<Rightarrow> (bio_state, 'a) run \<Rightarrow> (processor, 'a) run" where
  "on_bio k m p = (case m (bio_at k p) of (r, s) \<Rightarrow> (r, put_bio k s p))"

fun pad_results :: "int \<Rightarrow> (nat \<times> liveness_result) list \<Rightarrow> (processor, unit) run" where
  "pad_results now [] = ret ()"
| "pad_results now ((k, r) # rs) =
     andThen get_state (\<lambda>p.
     andThen (on_bio k (apply_pad (proc_config p) (tick p) now r)) (\<lambda>_. pad_results now rs))"

definition pad_stage :: "evaluators \<Rightarrow> gpu_frame \<Rightarrow> int \<Rightarrow> (nat \<times> face_detection) list \<Rightarrow> (processor, unit) run" where
  "pad_stage ev frame now queue =
     (if queue = [] then ret ()
      else andThen (lift_result (eval_pad ev frame (map snd queue))) (\<lambda>results.
             if length results \<noteq> length queue then throw (RuntimeError ''PAD result count mismatch'')
             else pad_results now (zip (map fst queue) results)))"

section \<open>Recognition\<close>

definition wants_recognition :: "processor \<Rightarrow> track_result \<Rightarrow> bool" where
  "wants_recognition p t \<longleftrightarrow>
     (let s = bio_at (result_id t) p
      in \<not> (bio_phase s \<noteq> Recognizing \<or> quality t (proc_config p) \<le> 0 \<or>
            (last_arc s \<noteq> 0 \<and> tick p - last_arc s < recognition_every_frames (proc_config p))))"

fun recognition_queue :: "track_result list \<Rightarrow> processor \<Rightarrow> processor \<times> (nat \<times> face_detection) list" where
  "recognition_queue [] p = (p, [])"
| "recognition_queue (t # ts) p =
     (if wants_recognition p t
      then let s = bio_at (result_id t) p;
               (p', queue) = recognition_queue ts (put_bio (result_id t)
                  (s\<lparr>best_quality := std_max (best_quality s) (quality t (proc_config p))\<rparr>) p)
           in (p', (result_id t, observation t) # queue)
      else recognition_queue ts p)"

definition double_of_nat :: "nat \<Rightarrow> double" where
  "double_of_nat n = double_lit (of_nat n)"

definition accumulate_embedding :: "nat \<Rightarrow> single list \<Rightarrow> bio_state \<Rightarrow> bio_state" where
  "accumulate_embedding now_tick e s =
     s\<lparr>last_arc := now_tick, arc_attempts := arc_attempts s + 1, arc_count := arc_count s + 1,
       embedding_sums := map2 (\<lambda>x v. x + to_double v) (embedding_sums s) e\<rparr>"

definition mean_embedding :: "bio_state \<Rightarrow> single list" where
  "mean_embedding s = map (\<lambda>x. to_single (x / double_of_nat (arc_count s))) (embedding_sums s)"

definition accepted :: "biometric_config \<Rightarrow> gallery_match \<Rightarrow> bool" where
  "accepted c m \<longleftrightarrow> match_valid m \<and> best_similarity m \<ge> recognition_similarity_threshold c \<and>
     match_margin m \<ge> recognition_min_margin c"

definition exhausted :: "biometric_config \<Rightarrow> bio_state \<Rightarrow> bio_state" where
  "exhausted c s =
     (if arc_attempts s \<ge> recognition_max_attempts c + arc_extra s
      then s\<lparr>bio_phase := if arc_extra s < recognition_extra_attempts c then RecognitionDeferred else UnknownIdentity\<rparr>
      else s)"

definition new_event :: "int \<Rightarrow> gpu_frame \<Rightarrow> nat \<Rightarrow> bio_state \<Rightarrow> attendance_event" where
  "new_event utc frame k s = \<lparr>event_utc_ms = utc, event_frame = frame_id frame, event_track = k,
     event_identity = match_identity (bio_match s), event_similarity = best_similarity (bio_match s),
     event_margin = match_margin (bio_match s), event_pad_median = median (scores s), event_pad_margin = 0\<rparr>"

definition apply_recognition :: "int \<Rightarrow> gpu_frame \<Rightarrow> int \<Rightarrow> nat \<Rightarrow> single list \<Rightarrow>
    (processor, attendance_event list) run" where
  "apply_recognition utc frame now k e p =
     (let c = proc_config p; s = accumulate_embedding (tick p) e (bio_at k p)
      in case match_gallery (proc_gallery p) (mean_embedding s) of
           Inl err \<Rightarrow> (Inl err, put_bio k s p)
         | Inr m \<Rightarrow>
             let s = s\<lparr>bio_match := m\<rparr>
             in if accepted c m then
                  (if emitted p (match_identity m) \<noteq> None
                   then (Inr [], put_bio k (s\<lparr>terminal := now, bio_phase := DuplicateIdentity\<rparr>) p)
                   else (Inr [new_event utc frame k s],
                         put_bio k (s\<lparr>terminal := now, bio_phase := Recognized\<rparr>)
                           (p\<lparr>emitted := (emitted p)(match_identity m \<mapsto> now)\<rparr>)))
                else (Inr [], put_bio k (exhausted c s) p))"

fun recognition_results :: "(nat \<Rightarrow> int) \<Rightarrow> gpu_frame \<Rightarrow> int \<Rightarrow> nat \<Rightarrow> (nat \<times> arcface_result) list \<Rightarrow>
    (processor, attendance_event list) run" where
  "recognition_results utc frame now i [] = ret []"
| "recognition_results utc frame now i ((k, r) # rs) =
     andThen (apply_recognition (utc i) frame now k (face_embedding r)) (\<lambda>events.
     andThen (recognition_results utc frame now (i + 1) rs) (\<lambda>more. ret (events @ more)))"

definition recognition_stage :: "evaluators \<Rightarrow> (nat \<Rightarrow> int) \<Rightarrow> gpu_frame \<Rightarrow> int \<Rightarrow> track_result list \<Rightarrow>
    (processor, attendance_event list) run" where
  "recognition_stage ev utc frame now ts p0 =
     (let (p, queue) = recognition_queue ts p0
      in (if queue = [] then ret []
          else andThen (lift_result (eval_recognize ev frame (map snd queue))) (\<lambda>results.
                 if length results \<noteq> length queue then throw (RuntimeError ''Recognition result count mismatch'')
                 else recognition_results utc frame now 0 (zip (map fst queue) results))) p)"

section \<open>The frame's answer\<close>

definition snapshot_of :: "processor \<Rightarrow> track_result \<Rightarrow> track_snapshot" where
  "snapshot_of p t =
     (let s = bio_at (result_id t) p; d = observation t
      in \<lparr>snap_track = result_id t, snap_phase = bio_phase s,
          snap_score = (if has_observation t then detection_score d else 0),
          snap_width = box_x2 d - box_x1 d, snap_height = box_y2 d - box_y1 d,
          snap_pad_attempts = vote_attempts (votes s), snap_pad_input_rejections = vote_input_rejected (votes s),
          snap_bona_fide = vote_real (votes s), snap_attack = vote_spoof (votes s),
          snap_pad_median = median (scores s), snap_recognition_attempts = arc_attempts s,
          snap_identity = match_identity (bio_match s), snap_similarity = best_similarity (bio_match s),
          snap_margin = match_margin (bio_match s)\<rparr>)"

definition process :: "evaluators \<Rightarrow> (nat \<Rightarrow> int) \<Rightarrow> tracking_frame \<Rightarrow> int \<Rightarrow> (processor, biometric_frame) run" where
  "process ev utc f now =
     andThen (begin_frame f now) (\<lambda>_.
     andThen (\<lambda>p. let (p', queue) = schedule now (frame_tracks f) p in (Inr queue, p')) (\<lambda>queue.
     andThen (pad_stage ev (track_gpu_frame f) now queue) (\<lambda>_.
     andThen (recognition_stage ev utc (track_gpu_frame f) now (frame_tracks f)) (\<lambda>events.
     andThen get_state (\<lambda>p.
       ret \<lparr>bio_gpu_frame = track_gpu_frame f, bio_tracks = map (snapshot_of p) (frame_tracks f),
            attendance_events = events\<rparr>)))))"

end
