(* ===== verification/Association.thy ===== *)
theory Association
  imports Faces
begin

text \<open>
  \<^verbatim>\<open>src/vision_runtime/bytetrack/association.cpp\<close> and \<^verbatim>\<open>assignment.cpp\<close>: the cost of pairing tracks with
  detections (one minus their overlap), and the cheapest assignment with a cost limit. The solver is
  the rectangular Hungarian algorithm on doubles, its arrays are lists, its two loops partial
  functions: a run that does not end is \<open>None\<close>.
\<close>

section \<open>Overlap\<close>

record association_item =
  item_x1 :: single
  item_y1 :: single
  item_x2 :: single
  item_y2 :: single
  item_score :: single

definition iou :: "association_item \<Rightarrow> association_item \<Rightarrow> single" where
  "iou a b =
     (let left = std_max (item_x1 a) (item_x1 b); top = std_max (item_y1 a) (item_y1 b);
          right = std_min (item_x2 a) (item_x2 b); bottom = std_min (item_y2 a) (item_y2 b);
          iw = std_max 0 (right - left); ih = std_max 0 (bottom - top);
          inter = iw * ih;
          area_a = std_max 0 (item_x2 a - item_x1 a) * std_max 0 (item_y2 a - item_y1 a);
          area_b = std_max 0 (item_x2 b - item_x1 b) * std_max 0 (item_y2 b - item_y1 b);
          uni = area_a + area_b - inter
      in if uni > 0 then inter / uni else 0)"

definition pair_cost :: "bool \<Rightarrow> association_item \<Rightarrow> association_item \<Rightarrow> single" where
  "pair_cost fuse_score t d = (if fuse_score then 1 - iou t d * item_score d else 1 - iou t d)"

definition cost_matrix :: "association_item list \<Rightarrow> association_item list \<Rightarrow> bool \<Rightarrow> single list" where
  "cost_matrix tracks detections fuse_score = concat (map (\<lambda>t. map (pair_cost fuse_score t) detections) tracks)"

section \<open>Assignment\<close>

record assignment =
  matches :: "(nat \<times> nat) list"
  unmatched_rows :: "nat list"
  unmatched_cols :: "nat list"

definition usable :: "single \<Rightarrow> single \<Rightarrow> bool" where
  "usable max_cost c \<longleftrightarrow> sfinite c \<and> \<not> c > max_cost"

text \<open>\<open>a(i1, j1)\<close>: the augmented matrix, one-based, a dummy column per row after the real ones.\<close>

definition augmented :: "single list \<Rightarrow> nat \<Rightarrow> single \<Rightarrow> nat \<Rightarrow> nat \<Rightarrow> double" where
  "augmented costs cols max_cost i1 j1 =
     (let dummy = to_double max_cost + double_lit (1 / 10 ^ 6); i = i1 - 1; j = j1 - 1
      in if j \<ge> cols then dummy
         else let c = costs ! (i * cols + j)
              in if \<not> usable max_cost c then dummy + double_lit (10 ^ 6) else to_double c)"

record search =
  pot_u :: "double list"
  pot_v :: "double list"
  min_v :: "double list"
  way :: "nat list"
  used :: "bool list"
  column :: nat

text \<open>The scan over the columns keeps the smallest reduced cost of each and the best column so far.\<close>

definition scan_column :: "(nat \<Rightarrow> nat \<Rightarrow> double) \<Rightarrow> nat \<Rightarrow> search \<Rightarrow> (double list \<times> nat list) \<times> double \<times> nat \<Rightarrow> nat \<Rightarrow>
    (double list \<times> nat list) \<times> double \<times> nat" where
  "scan_column a i0 s = (\<lambda>((minv, wy), delta, j1) j.
     if used s ! j then ((minv, wy), delta, j1)
     else let cur = a i0 j - pot_u s ! i0 - pot_v s ! j;
              (minv, wy) = (if cur < minv ! j then (minv[j := cur], wy[j := column s]) else (minv, wy))
          in if minv ! j < delta then ((minv, wy), minv ! j, j) else ((minv, wy), delta, j1))"

definition relax_column :: "nat list \<Rightarrow> bool list \<Rightarrow> double \<Rightarrow> double list \<times> double list \<times> double list \<Rightarrow> nat \<Rightarrow>
    double list \<times> double list \<times> double list" where
  "relax_column p us delta = (\<lambda>(u, v, minv) j.
     if us ! j then (u[p ! j := u ! (p ! j) + delta], v[j := v ! j - delta], minv)
     else (u, v, minv[j := minv ! j - delta]))"

definition search_step :: "(nat \<Rightarrow> nat \<Rightarrow> double) \<Rightarrow> nat \<Rightarrow> nat list \<Rightarrow> search \<Rightarrow> search" where
  "search_step a m p s0 =
     (let s = s0\<lparr>used := (used s0)[column s0 := True]\<rparr>;
          ((minv, wy), delta, j1) = foldl (scan_column a (p ! column s) s) ((min_v s, way s), Dbl PInf, 0) [1..<m + 1];
          (u, v, minv) = foldl (relax_column p (used s) delta) (pot_u s, pot_v s, minv) [0..<m + 1]
      in \<lparr>pot_u = u, pot_v = v, min_v = minv, way = wy, used = used s, column = j1\<rparr>)"

partial_function (option) search_columns :: "(nat \<Rightarrow> nat \<Rightarrow> double) \<Rightarrow> nat \<Rightarrow> nat list \<Rightarrow> search \<Rightarrow> search option" where
  "search_columns a m p s =
     (let s' = search_step a m p s in if p ! column s' = 0 then Some s' else search_columns a m p s')"

partial_function (option) flip_path :: "nat list \<Rightarrow> nat list \<Rightarrow> nat \<Rightarrow> nat list option" where
  "flip_path wy p j0 =
     (let j1 = wy ! j0; p' = p[j0 := p ! j1] in if j1 = 0 then Some p' else flip_path wy p' j1)"

declare search_columns.simps [code] flip_path.simps [code]

record solver =
  sol_u :: "double list"
  sol_v :: "double list"
  sol_p :: "nat list"
  sol_way :: "nat list"

definition assign_row :: "(nat \<Rightarrow> nat \<Rightarrow> double) \<Rightarrow> nat \<Rightarrow> nat \<Rightarrow> solver \<Rightarrow> solver option" where
  "assign_row a m i s =
     (let p = (sol_p s)[0 := i]
      in case search_columns a m p \<lparr>pot_u = sol_u s, pot_v = sol_v s, min_v = replicate (m + 1) (Dbl PInf),
                way = sol_way s, used = replicate (m + 1) False, column = 0\<rparr> of
           None \<Rightarrow> None
         | Some r \<Rightarrow>
             (case flip_path (way r) p (column r) of
                None \<Rightarrow> None
              | Some p' \<Rightarrow> Some \<lparr>sol_u = pot_u r, sol_v = pot_v r, sol_p = p', sol_way = way r\<rparr>))"

fun assign_rows :: "(nat \<Rightarrow> nat \<Rightarrow> double) \<Rightarrow> nat \<Rightarrow> nat list \<Rightarrow> solver \<Rightarrow> solver option" where
  "assign_rows a m [] s = Some s"
| "assign_rows a m (i # is) s = (case assign_row a m i s of None \<Rightarrow> None | Some s' \<Rightarrow> assign_rows a m is s')"

definition initial_solver :: "nat \<Rightarrow> nat \<Rightarrow> solver" where
  "initial_solver rows m = \<lparr>sol_u = replicate (rows + 1) 0, sol_v = replicate (m + 1) 0,
     sol_p = replicate (m + 1) 0, sol_way = replicate (m + 1) 0\<rparr>"

text \<open>Reading the matches off \<open>p\<close>: a real column whose row has a finite cost within the limit there.\<close>

definition affordable :: "single \<Rightarrow> single \<Rightarrow> bool" where
  "affordable max_cost c \<longleftrightarrow> sfinite c \<and> c \<le> max_cost"

definition matched_pairs :: "single list \<Rightarrow> nat \<Rightarrow> single \<Rightarrow> nat list \<Rightarrow> nat \<Rightarrow> (nat \<times> nat) list" where
  "matched_pairs costs cols max_cost p m =
     map (\<lambda>j. (p ! j - 1, j - 1))
       (filter (\<lambda>j. p ! j \<noteq> 0 \<and> j - 1 < cols \<and> affordable max_cost (costs ! ((p ! j - 1) * cols + (j - 1)))) [1..<m + 1])"

definition read_assignment :: "nat \<Rightarrow> nat \<Rightarrow> (nat \<times> nat) list \<Rightarrow> assignment" where
  "read_assignment rows cols ms = \<lparr>matches = ms,
     unmatched_rows = filter (\<lambda>i. i \<notin> fst ` set ms) [0..<rows],
     unmatched_cols = filter (\<lambda>j. j \<notin> snd ` set ms) [0..<cols]\<rparr>"

definition linear_assignment :: "single list \<Rightarrow> nat \<Rightarrow> nat \<Rightarrow> single \<Rightarrow> assignment result" where
  "linear_assignment costs rows cols max_cost =
     (if length costs \<noteq> rows * cols then Inl (InvalidArgument ''linear_assignment: cost matrix size mismatch'')
      else if rows = 0 \<or> cols = 0
      then Inr \<lparr>matches = [], unmatched_rows = [0..<rows], unmatched_cols = [0..<cols]\<rparr>
      else let m = cols + rows
           in case assign_rows (augmented costs cols max_cost) m [1..<rows + 1] (initial_solver rows m) of
                None \<Rightarrow> Inl Diverges
              | Some s \<Rightarrow> Inr (read_assignment rows cols (matched_pairs costs cols max_cost (sol_p s) m)))"

end
