(* ===== verification/Assignment.thy ===== *)
theory Assignment
  imports Association
begin

text \<open>
  The assignment solver is correct on every cost matrix: whenever it returns, its pairs are a
  matching of usable cost and the unmatched rows and columns are the others; and it returns for
  every matrix of up to 23 rows, whatever the costs. The proofs follow the two loops: the search
  builds a tree of columns rooted at the dummy column 0, and flipping the path from a free column
  to the root moves one hole through the array \<open>p\<close>.
\<close>

section \<open>Comparisons with infinity\<close>

definition dnan :: "double \<Rightarrow> bool" where
  "dnan x \<longleftrightarrow> dval x = NaN"

lemma fl_less_PInf: "fl_less x PInf \<longleftrightarrow> x \<noteq> NaN \<and> x \<noteq> PInf"
  by (cases x) auto

lemma double_less_inf: "x < Dbl PInf \<longleftrightarrow> \<not> dnan x \<and> x \<noteq> Dbl PInf"
  by (cases x) (simp add: less_double_def dnan_def fl_less_PInf)

lemma double_less_trans: "x < y \<Longrightarrow> y < z \<Longrightarrow> x < (z :: double)"
  by (simp add: less_double_def fl_less_trans [of "dval x" "dval y" "dval z"])

lemma double_nan_less [simp]: "dnan x \<Longrightarrow> \<not> x < (y :: double)" "dnan y \<Longrightarrow> \<not> x < (y :: double)"
  by (auto simp: less_double_def dnan_def dest: fl_less_not_NaN)

lemma double_inf_minus: "d < Dbl PInf \<Longrightarrow> Dbl PInf - d = Dbl PInf"
  by (cases d, rename_tac q, case_tac q) (auto simp: less_double_def minus_double_def)

lemma double_minus_inf: "dnan x \<or> x = Dbl PInf \<Longrightarrow> dnan (x - Dbl PInf)"
  by (auto simp: minus_double_def dnan_def)

lemma double_not_less_inf: "\<not> x < Dbl PInf \<Longrightarrow> dnan (x - Dbl PInf)"
  using double_minus_inf by (auto simp: double_less_inf)

section \<open>The scan over the columns\<close>

lemma scan_fold:
  assumes "foldl (scan_column a i0 s) ((minv0, wy0), Dbl PInf, 0) js = ((minv, wy), delta, j1)"
    and "distinct js" and "\<forall>j \<in> set js. j < length minv0 \<and> j < length wy0"
  shows "length minv = length minv0 \<and> length wy = length wy0 \<and>
    (\<forall>j. j \<notin> set js \<or> used s ! j \<longrightarrow> minv ! j = minv0 ! j \<and> wy ! j = wy0 ! j) \<and>
    (\<forall>j. (minv ! j = minv0 ! j \<and> wy ! j = wy0 ! j) \<or> (wy ! j = column s \<and> minv ! j < minv0 ! j)) \<and>
    ((delta = Dbl PInf \<and> j1 = 0 \<and> (\<forall>j \<in> set js. \<not> used s ! j \<longrightarrow> \<not> minv ! j < Dbl PInf)) \<or>
     (delta < Dbl PInf \<and> j1 \<in> set js \<and> \<not> used s ! j1 \<and> minv ! j1 = delta))"
  using assms
proof (induction js arbitrary: minv wy delta j1 rule: rev_induct)
  case Nil
  then show ?case by simp
next
  case (snoc j js)
  obtain minv2 wy2 delta2 j2 where f: "foldl (scan_column a i0 s) ((minv0, wy0), Dbl PInf, 0) js = ((minv2, wy2), delta2, j2)"
    by (metis prod.exhaust)
  have js: "distinct js" "\<forall>j \<in> set js. j < length minv0 \<and> j < length wy0" "j \<notin> set js" "j < length minv0" "j < length wy0"
    using snoc.prems(2,3) by auto
  note IH = snoc.IH [OF f js(1,2)]
  have step: "scan_column a i0 s ((minv2, wy2), delta2, j2) j = ((minv, wy), delta, j1)"
    using snoc.prems(1) f by simp
  show ?case
  proof (cases "used s ! j")
    case True
    with step have "minv = minv2" "wy = wy2" "delta = delta2" "j1 = j2" by (auto simp: scan_column_def)
    then show ?thesis using IH True by auto
  next
    case False
    define cur where "cur = a i0 j - pot_u s ! i0 - pot_v s ! j"
    have len: "length minv2 = length minv0" "length wy2 = length wy0" using IH by auto
    have at: "minv2 ! j = minv0 ! j" "wy2 ! j = wy0 ! j" using IH js(3) by auto
    have new: "minv = (if cur < minv2 ! j then minv2[j := cur] else minv2)"
      "wy = (if cur < minv2 ! j then wy2[j := column s] else wy2)"
      "delta = (if minv ! j < delta2 then minv ! j else delta2)" "j1 = (if minv ! j < delta2 then j else j2)"
      using step False by (auto simp: scan_column_def Let_def cur_def [symmetric] split: if_splits)
    have other: "minv ! k = minv2 ! k" "wy ! k = wy2 ! k" if "k \<noteq> j" for k
      using that by (auto simp: new(1,2))
    have here: "(minv ! j = minv0 ! j \<and> wy ! j = wy0 ! j) \<or> (wy ! j = column s \<and> minv ! j < minv0 ! j)"
      using js(4,5) len at by (auto simp: new(1,2))
    have sizes: "length minv = length minv0" "length wy = length wy0" using len by (auto simp: new(1,2))
    have keep: "minv ! k = minv0 ! k \<and> wy ! k = wy0 ! k" if "k \<notin> set (js @ [j]) \<or> used s ! k" for k
    proof -
      have "k \<noteq> j" using that False by auto
      then show ?thesis using that IH other by auto
    qed
    have low: "delta < Dbl PInf" if "minv ! j < delta2"
    proof -
      have "delta2 = Dbl PInf \<or> delta2 < Dbl PInf" using IH by auto
      then show ?thesis using that double_less_trans by (auto simp: new(3))
    qed
    have best: "(delta = Dbl PInf \<and> j1 = 0 \<and> (\<forall>k \<in> set (js @ [j]). \<not> used s ! k \<longrightarrow> \<not> minv ! k < Dbl PInf)) \<or>
     (delta < Dbl PInf \<and> j1 \<in> set (js @ [j]) \<and> \<not> used s ! j1 \<and> minv ! j1 = delta)"
    proof (cases "minv ! j < delta2")
      case True
      then show ?thesis using low False by (simp add: new(3,4))
    next
      case no: False
      then have eq: "delta = delta2" "j1 = j2" by (simp_all add: new(3,4))
      from IH consider "delta2 = Dbl PInf" "j2 = 0" "\<forall>k \<in> set js. \<not> used s ! k \<longrightarrow> \<not> minv2 ! k < Dbl PInf"
        | "delta2 < Dbl PInf" "j2 \<in> set js" "\<not> used s ! j2" "minv2 ! j2 = delta2" by blast
      then show ?thesis
      proof cases
        case 1
        then show ?thesis using eq no other js(3) by (metis Un_iff in_set_conv_decomp set_append in_set_insert list.set(1)
              list.set(2) insert_iff empty_iff)
      next
        case 2
        then have "j2 \<noteq> j" using js(3) by auto
        then show ?thesis using 2 eq other by simp
      qed
    qed
    have all: "(minv ! k = minv0 ! k \<and> wy ! k = wy0 ! k) \<or> (wy ! k = column s \<and> minv ! k < minv0 ! k)" for k
      using IH here other [of k] by (cases "k = j") auto
    show ?thesis using sizes keep all best by blast
  qed
qed

section \<open>The relaxation\<close>

lemma relax_fold:
  assumes "foldl (relax_column p us delta) (u0, v0, minv0) js = (u, v, minv)"
    and "distinct js" and "\<forall>j \<in> set js. j < length minv0"
  shows "length u = length u0 \<and> length v = length v0 \<and> length minv = length minv0 \<and>
    (\<forall>j. minv ! j = (if j \<in> set js \<and> \<not> us ! j then minv0 ! j - delta else minv0 ! j))"
  using assms
proof (induction js arbitrary: u v minv rule: rev_induct)
  case Nil
  then show ?case by simp
next
  case (snoc j js)
  obtain u2 v2 minv2 where f: "foldl (relax_column p us delta) (u0, v0, minv0) js = (u2, v2, minv2)"
    by (metis prod.exhaust)
  have js: "distinct js" "\<forall>j \<in> set js. j < length minv0" "j \<notin> set js" "j < length minv0" using snoc.prems(2,3) by auto
  note IH = snoc.IH [OF f js(1,2)]
  have "relax_column p us delta (u2, v2, minv2) j = (u, v, minv)" using snoc.prems(1) f by simp
  then show ?case using IH js(3,4) by (auto simp: relax_column_def nth_list_update split: if_splits)
qed

section \<open>The tree of the search\<close>

text \<open>\<open>rooted m wy us j\<close>: the column \<open>j\<close> is used and the pointers lead from it to column 0.\<close>

inductive rooted :: "nat \<Rightarrow> nat list \<Rightarrow> bool list \<Rightarrow> nat \<Rightarrow> bool" for m wy us where
  root: "us ! 0 \<Longrightarrow> rooted m wy us 0"
| link: "us ! j \<Longrightarrow> j \<le> m \<Longrightarrow> j \<noteq> 0 \<Longrightarrow> rooted m wy us (wy ! j) \<Longrightarrow> rooted m wy us j"

lemma rooted_used: "rooted m wy us j \<Longrightarrow> us ! j \<and> j \<le> m"
  by (induction rule: rooted.induct) auto

lemma rooted_frozen:
  assumes "rooted m wy us j" and "\<forall>k \<le> m. us ! k \<longrightarrow> us' ! k \<and> wy' ! k = wy ! k"
  shows "rooted m wy' us' j"
  using assms
proof (induction rule: rooted.induct)
  case (link j)
  have "wy' ! j = wy ! j" "us' ! j" using link.hyps(1,2) link.prems by auto
  then show ?case using link.IH [OF link.prems] link.hyps by (simp add: rooted.link)
qed (auto intro: rooted.root)

definition sized :: "nat \<Rightarrow> search \<Rightarrow> bool" where
  "sized m s \<longleftrightarrow> length (min_v s) = m + 1 \<and> length (way s) = m + 1 \<and> length (used s) = m + 1"

definition searching :: "nat \<Rightarrow> search \<Rightarrow> bool" where
  "searching m s \<longleftrightarrow> sized m s \<and> column s \<le> m \<and> \<not> used s ! column s \<and>
     (if column s = 0 then \<forall>j \<le> m. \<not> used s ! j
      else used s ! 0 \<and> rooted m (way s) (used s) (way s ! column s)) \<and>
     (\<forall>j \<le> m. used s ! j \<longrightarrow> rooted m (way s) (used s) j) \<and>
     (\<forall>j. 1 \<le> j \<and> j \<le> m \<and> \<not> used s ! j \<longrightarrow> min_v s ! j = Dbl PInf \<or> rooted m (way s) (used s) (way s ! j))"

definition stuck :: "nat \<Rightarrow> search \<Rightarrow> bool" where
  "stuck m s \<longleftrightarrow> sized m s \<and> column s = 0 \<and> (\<forall>j. 1 \<le> j \<and> j \<le> m \<and> \<not> used s ! j \<longrightarrow> dnan (min_v s ! j))"

lemma search_step_eq:
  assumes "search_step a m p s = s'" and "sized m s"
  obtains minv wy delta where
    "used s' = (used s)[column s := True]" "way s' = wy" "length wy = m + 1" "length minv = m + 1"
    "length (min_v s') = m + 1"
    "\<forall>j. j < 1 \<or> m < j \<or> used s' ! j \<longrightarrow> minv ! j = min_v s ! j \<and> wy ! j = way s ! j"
    "\<forall>j. (minv ! j = min_v s ! j \<and> wy ! j = way s ! j) \<or> (wy ! j = column s \<and> minv ! j < min_v s ! j)"
    "\<forall>j. 1 \<le> j \<and> j \<le> m \<and> \<not> used s' ! j \<longrightarrow> min_v s' ! j = minv ! j - delta"
    "(delta = Dbl PInf \<and> column s' = 0 \<and> (\<forall>j. 1 \<le> j \<and> j \<le> m \<and> \<not> used s' ! j \<longrightarrow> \<not> minv ! j < Dbl PInf)) \<or>
     (delta < Dbl PInf \<and> 1 \<le> column s' \<and> column s' \<le> m \<and> \<not> used s' ! column s' \<and> minv ! column s' = delta)"
proof -
  define s1 where "s1 = s\<lparr>used := (used s)[column s := True]\<rparr>"
  obtain minv wy delta j1 where scan: "foldl (scan_column a (p ! column s1) s1) ((min_v s1, way s1), Dbl PInf, 0) [1..<m + 1] =
      ((minv, wy), delta, j1)" by (metis prod.exhaust)
  obtain u v minv2 where relax: "foldl (relax_column p (used s1) delta) (pot_u s1, pot_v s1, minv) [0..<m + 1] = (u, v, minv2)"
    by (metis prod.exhaust)
  have s': "s' = \<lparr>pot_u = u, pot_v = v, min_v = minv2, way = wy, used = used s1, column = j1\<rparr>"
    using assms(1) scan relax unfolding search_step_def Let_def s1_def [symmetric] by simp
  have len: "length (min_v s1) = m + 1" "length (way s1) = m + 1" using assms(2) by (simp_all add: sized_def s1_def)
  have sf: "length minv = m + 1 \<and> length wy = m + 1 \<and>
    (\<forall>j. j \<notin> set [1..<m + 1] \<or> used s1 ! j \<longrightarrow> minv ! j = min_v s1 ! j \<and> wy ! j = way s1 ! j) \<and>
    (\<forall>j. (minv ! j = min_v s1 ! j \<and> wy ! j = way s1 ! j) \<or> (wy ! j = column s1 \<and> minv ! j < min_v s1 ! j)) \<and>
    ((delta = Dbl PInf \<and> j1 = 0 \<and> (\<forall>j \<in> set [1..<m + 1]. \<not> used s1 ! j \<longrightarrow> \<not> minv ! j < Dbl PInf)) \<or>
     (delta < Dbl PInf \<and> j1 \<in> set [1..<m + 1] \<and> \<not> used s1 ! j1 \<and> minv ! j1 = delta))"
    using scan_fold [OF scan distinct_upt] len by (simp only: set_upt) fastforce
  have rf: "length minv2 = m + 1 \<and> (\<forall>j. minv2 ! j = (if j \<in> set [0..<m + 1] \<and> \<not> used s1 ! j then minv ! j - delta else minv ! j))"
    using relax_fold [OF relax distinct_upt] sf by (simp only: set_upt) fastforce
  show thesis
    by (rule that [of wy minv delta]) (use sf rf in \<open>auto simp: s' s1_def\<close>)
qed

lemma search_step_keeps:
  assumes "searching m s \<or> stuck m s" and "search_step a m p s = s'"
  shows "searching m s' \<or> stuck m s'"
proof -
  have size: "sized m s" using assms(1) by (auto simp: searching_def stuck_def)
  obtain minv wy delta where st: "used s' = (used s)[column s := True]" "way s' = wy" "length wy = m + 1" "length minv = m + 1"
    "length (min_v s') = m + 1"
    "\<forall>j. j < 1 \<or> m < j \<or> used s' ! j \<longrightarrow> minv ! j = min_v s ! j \<and> wy ! j = way s ! j"
    "\<forall>j. (minv ! j = min_v s ! j \<and> wy ! j = way s ! j) \<or> (wy ! j = column s \<and> minv ! j < min_v s ! j)"
    "\<forall>j. 1 \<le> j \<and> j \<le> m \<and> \<not> used s' ! j \<longrightarrow> min_v s' ! j = minv ! j - delta"
    "(delta = Dbl PInf \<and> column s' = 0 \<and> (\<forall>j. 1 \<le> j \<and> j \<le> m \<and> \<not> used s' ! j \<longrightarrow> \<not> minv ! j < Dbl PInf)) \<or>
     (delta < Dbl PInf \<and> 1 \<le> column s' \<and> column s' \<le> m \<and> \<not> used s' ! column s' \<and> minv ! column s' = delta)"
    by (rule search_step_eq [OF assms(2) size])
  have size': "sized m s'" using size st by (simp add: sized_def)
  show ?thesis
  proof (cases "stuck m s")
    case True
    have nan: "dnan (minv ! j)" if "1 \<le> j" "j \<le> m" "\<not> used s' ! j" for j
    proof -
      have col: "column s = 0" using True by (simp add: stuck_def)
      then have "\<not> used s ! j" using that st(1) by simp
      then have "dnan (min_v s ! j)" using True that by (simp add: stuck_def)
      moreover from this have "minv ! j = min_v s ! j" using st(7) by (metis double_nan_less(2))
      ultimately show ?thesis by simp
    qed
    have delta: "delta = Dbl PInf" "column s' = 0" using st(9) nan double_less_inf by metis+
    have "dnan (min_v s' ! j)" if "1 \<le> j" "j \<le> m" "\<not> used s' ! j" for j
      using st(8) that nan double_minus_inf by (simp add: delta)
    then show ?thesis using size' delta(2) by (simp add: stuck_def)
  next
    case False
    then have ok: "searching m s" using assms(1) by blast
    have col: "column s < length (used s)" using ok by (auto simp: searching_def sized_def)
    have mark: "used s' ! column s" using st(1) col by simp
    have grow: "used s' ! j" if "used s ! j" for j using that st(1) col by (cases "j = column s") auto
    have frozen: "\<forall>k \<le> m. used s ! k \<longrightarrow> used s' ! k \<and> way s' ! k = way s ! k"
      using grow st(2,6) by auto
    have root: "rooted m (way s') (used s') j" if "rooted m (way s) (used s) j" for j
      by (rule rooted_frozen [OF that frozen])
    have current: "rooted m (way s') (used s') (column s)"
    proof (cases "column s = 0")
      case True
      then show ?thesis using mark by (simp add: rooted.root)
    next
      case False
      then have "rooted m (way s) (used s) (way s ! column s)" using ok by (simp add: searching_def)
      moreover have "way s' ! column s = way s ! column s" using st(2,6) mark by simp
      ultimately have "rooted m (way s') (used s') (way s' ! column s)" using root by simp
      moreover have "column s \<le> m" using ok by (simp add: searching_def)
      ultimately show ?thesis using mark False by (simp add: rooted.link)
    qed
    have used_rooted: "rooted m (way s') (used s') j" if "j \<le> m" "used s' ! j" for j
    proof (cases "j = column s")
      case True
      then show ?thesis using current by simp
    next
      case False
      then have "used s ! j" using that st(1) by simp
      then show ?thesis using ok that root by (auto simp: searching_def)
    qed
    have used0: "used s' ! 0"
      using ok mark grow by (cases "column s = 0") (auto simp: searching_def)
    have waiting: "minv ! j = Dbl PInf \<or> rooted m (way s') (used s') (way s' ! j)"
      if "1 \<le> j" "j \<le> m" "\<not> used s' ! j" for j
    proof (cases "minv ! j = min_v s ! j \<and> wy ! j = way s ! j")
      case True
      have "\<not> used s ! j" using that(3) grow by blast
      then show ?thesis using True ok that root st(2) by (auto simp: searching_def)
    next
      case False
      then have "wy ! j = column s" using st(7) by blast
      then show ?thesis using current st(2) by simp
    qed
    from st(9) show ?thesis
    proof (elim disjE conjE)
      assume inf: "delta = Dbl PInf" "column s' = 0"
        "\<forall>j. 1 \<le> j \<and> j \<le> m \<and> \<not> used s' ! j \<longrightarrow> \<not> minv ! j < Dbl PInf"
      have "dnan (min_v s' ! j)" if "1 \<le> j" "j \<le> m" "\<not> used s' ! j" for j
        using st(8) that inf double_not_less_inf by simp
      then show ?thesis using size' inf(2) by (simp add: stuck_def)
    next
      assume fin: "delta < Dbl PInf" "1 \<le> column s'" "column s' \<le> m" "\<not> used s' ! column s'" "minv ! column s' = delta"
      have "min_v s' ! j = Dbl PInf \<or> rooted m (way s') (used s') (way s' ! j)"
        if "1 \<le> j" "j \<le> m" "\<not> used s' ! j" for j
        using waiting [OF that] st(8) that double_inf_minus [OF fin(1)] by auto
      moreover have "rooted m (way s') (used s') (way s' ! column s')"
        using waiting [OF fin(2,3,4)] fin(1,5) by (auto simp: double_less_inf)
      ultimately have "searching m s'"
        unfolding searching_def using size' fin(2-4) used0 used_rooted by auto
      then show ?thesis ..
    qed
  qed
qed

lemma search_columns_spec:
  assumes "search_columns a m p s = Some r" and "searching m s \<or> stuck m s" and "p ! 0 \<noteq> 0"
  shows "searching m r \<and> p ! column r = 0 \<and> column r \<noteq> 0"
proof -
  have "searching m s \<or> stuck m s \<longrightarrow> p ! 0 \<noteq> 0 \<longrightarrow> searching m r \<and> p ! column r = 0 \<and> column r \<noteq> 0"
  proof (rule search_columns.raw_induct [OF _ assms(1)], intro impI)
    fix f a m p s r
    assume IH: "\<And>a m p s r. f a m p s = Some r \<Longrightarrow>
        searching m s \<or> stuck m s \<longrightarrow> p ! 0 \<noteq> 0 \<longrightarrow> searching m r \<and> p ! column r = 0 \<and> column r \<noteq> 0"
      and run: "(let s' = search_step a m p s in if p ! column s' = 0 then Some s' else f a m p s') = Some r"
      and ok: "searching m s \<or> stuck m s" and p0: "p ! 0 \<noteq> 0"
    define s' where "s' = search_step a m p s"
    have keep: "searching m s' \<or> stuck m s'" by (rule search_step_keeps [OF ok]) (simp add: s'_def)
    show "searching m r \<and> p ! column r = 0 \<and> column r \<noteq> 0"
    proof (cases "p ! column s' = 0")
      case True
      then have "r = s'" using run by (simp add: s'_def)
      moreover have "column s' \<noteq> 0" using True p0 by metis
      ultimately show ?thesis using True keep by (auto simp: stuck_def)
    next
      case False
      then have "f a m p s' = Some r" using run by (simp add: s'_def Let_def)
      then show ?thesis using IH keep p0 by blast
    qed
  qed
  then show ?thesis using assms(2,3) by blast
qed

section \<open>Flipping a path\<close>

text \<open>\<open>holding i m p h\<close>: away from the hole \<open>h\<close>, the columns hold each of the rows \<open>1..i\<close> exactly once.\<close>

definition holding :: "nat \<Rightarrow> nat \<Rightarrow> nat list \<Rightarrow> nat \<Rightarrow> bool" where
  "holding i m p h \<longleftrightarrow> length p = m + 1 \<and> h \<le> m \<and> (\<forall>j \<le> m. j \<noteq> h \<longrightarrow> p ! j \<le> i) \<and>
     (\<forall>j \<le> m. \<forall>k \<le> m. j \<noteq> h \<and> k \<noteq> h \<and> p ! j = p ! k \<and> p ! j \<noteq> 0 \<longrightarrow> j = k) \<and>
     (\<forall>r. 1 \<le> r \<and> r \<le> i \<longrightarrow> (\<exists>j \<le> m. j \<noteq> h \<and> p ! j = r))"

lemma holding_move:
  assumes "holding i m p h" and "k \<le> m"
  shows "holding i m (p[h := p ! k]) k"
proof (cases "h = k")
  case True
  then show ?thesis using assms by simp
next
  case False
  have len: "length p = m + 1" "h \<le> m" using assms(1) unfolding holding_def by blast+
  have at: "p[h := p ! k] ! j = (if j = h then p ! k else p ! j)" if "j \<le> m" for j using that len by simp
  have cover: "\<exists>j \<le> m. j \<noteq> k \<and> p[h := p ! k] ! j = r" if r: "1 \<le> r" "r \<le> i" for r
  proof -
    obtain j where j: "j \<le> m" "j \<noteq> h" "p ! j = r" using assms(1) r unfolding holding_def by blast
    show ?thesis
    proof (cases "j = k")
      case True
      then show ?thesis using j len False at by (intro exI [of _ h]) auto
    next
      case False
      then show ?thesis using j at by (intro exI [of _ j]) auto
    qed
  qed
  have inj: "j = l" if "j \<le> m" "l \<le> m" "j \<noteq> k" "l \<noteq> k" "p[h := p ! k] ! j = p[h := p ! k] ! l" "p[h := p ! k] ! j \<noteq> 0" for j l
  proof -
    have inj0: "\<And>j l. j \<le> m \<Longrightarrow> l \<le> m \<Longrightarrow> j \<noteq> h \<Longrightarrow> l \<noteq> h \<Longrightarrow> p ! j = p ! l \<Longrightarrow> p ! j \<noteq> 0 \<Longrightarrow> j = l"
      using assms(1) unfolding holding_def by blast
    show ?thesis
    proof (cases "j = h"; cases "l = h")
      assume "j = h" "l \<noteq> h"
      then show ?thesis using that inj0 [of k l] at False assms(2) len by auto
    next
      assume "j \<noteq> h" "l = h"
      then show ?thesis using that inj0 [of j k] at False assms(2) len by auto
    next
      assume "j \<noteq> h" "l \<noteq> h"
      then show ?thesis using that inj0 [of j l] at by auto
    qed simp
  qed
  have bound: "p[h := p ! k] ! j \<le> i" if "j \<le> m" for j
  proof -
    have "\<forall>j \<le> m. j \<noteq> h \<longrightarrow> p ! j \<le> i" using assms(1) unfolding holding_def by blast
    then show ?thesis using that assms(2) False at [OF that] by auto
  qed
  have "length (p[h := p ! k]) = m + 1" using len by simp
  then show ?thesis unfolding holding_def using assms(2) cover inj bound by blast
qed

lemma flip_path_rooted:
  assumes "rooted m wy us k" and "holding i m p k" and "k \<noteq> 0"
  shows "\<exists>p'. flip_path wy p k = Some p' \<and> holding i m p' 0"
  using assms
proof (induction arbitrary: p rule: rooted.induct)
  case (link j)
  have "wy ! j \<le> m" using rooted_used [OF link.hyps(4)] by simp
  note move = holding_move [OF link.prems(1) this]
  show ?case
  proof (cases "wy ! j = 0")
    case True
    then show ?thesis using move by (subst flip_path.simps) simp
  next
    case False
    then show ?thesis using link.IH [OF move] by (subst flip_path.simps) (simp add: Let_def)
  qed
qed simp

lemma flip_path_free:
  assumes "searching m s" and "column s \<noteq> 0" and "holding i m p (column s)"
  shows "\<exists>p'. flip_path (way s) p (column s) = Some p' \<and> holding i m p' 0"
proof -
  let ?k = "way s ! column s"
  have root: "rooted m (way s) (used s) ?k" using assms(1,2) by (simp add: searching_def)
  have "?k \<le> m" using rooted_used [OF root] by simp
  note move = holding_move [OF assms(3) this]
  show ?thesis
  proof (cases "?k = 0")
    case True
    then show ?thesis using move by (subst flip_path.simps) simp
  next
    case False
    then show ?thesis using flip_path_rooted [OF root move False] by (subst flip_path.simps) (simp add: Let_def)
  qed
qed

section \<open>Whole runs\<close>

lemma searching_start:
  "length wy = m + 1 \<Longrightarrow> searching m \<lparr>pot_u = u, pot_v = v, min_v = replicate (m + 1) (Dbl PInf), way = wy,
     used = replicate (m + 1) False, column = 0\<rparr>"
  by (simp add: searching_def sized_def del: replicate_Suc)

definition assigned :: "nat \<Rightarrow> nat \<Rightarrow> solver \<Rightarrow> bool" where
  "assigned i m s \<longleftrightarrow> holding i m (sol_p s) 0 \<and> length (sol_way s) = m + 1"

lemma holding_next:
  assumes "holding i m p 0" and "j \<le> m" and "j \<noteq> 0" and "p ! j = 0"
  shows "holding (Suc i) m (p[0 := Suc i]) j"
proof -
  have len: "length p = m + 1" using assms(1) unfolding holding_def by blast
  have bound: "p ! k \<le> i" if "k \<le> m" "k \<noteq> 0" for k using assms(1) that unfolding holding_def by blast
  have inj: "k = l" if "k \<le> m" "l \<le> m" "k \<noteq> 0" "l \<noteq> 0" "p ! k = p ! l" "p ! k \<noteq> 0" for k l
    using assms(1) that unfolding holding_def by blast
  have at: "p[0 := Suc i] ! k = (if k = 0 then Suc i else p ! k)" if "k \<le> m" for k using that len by simp
  have cover: "\<exists>k \<le> m. k \<noteq> j \<and> p[0 := Suc i] ! k = r" if r: "1 \<le> r" "r \<le> Suc i" for r
  proof (cases "r = Suc i")
    case True
    then show ?thesis using at assms(3) by (intro exI [of _ 0]) auto
  next
    case False
    then obtain k where "k \<le> m" "k \<noteq> 0" "p ! k = r" using r assms(1) unfolding holding_def by (metis le_Suc_eq)
    then show ?thesis using at assms(4) r by (intro exI [of _ k]) auto
  qed
  have "k = l" if "k \<le> m" "l \<le> m" "k \<noteq> j" "l \<noteq> j" "p[0 := Suc i] ! k = p[0 := Suc i] ! l" "p[0 := Suc i] ! k \<noteq> 0" for k l
    using that inj [of k l] at [of k] at [of l] bound [of k] bound [of l] by (auto split: if_splits)
  moreover have "p[0 := Suc i] ! k \<le> Suc i" if "k \<le> m" for k using at [OF that] bound [OF that] by (auto split: if_splits)
  moreover have "length (p[0 := Suc i]) = m + 1" using len by simp
  ultimately show ?thesis unfolding holding_def using cover assms(2) by blast
qed

lemma assign_row_spec:
  assumes "assign_row a m (Suc i) s = Some s'" and "assigned i m s"
  shows "assigned (Suc i) m s'"
proof -
  define p where "p = (sol_p s)[0 := Suc i]"
  define s0 where "s0 = \<lparr>pot_u = sol_u s, pot_v = sol_v s, min_v = replicate (m + 1) (Dbl PInf),
                way = sol_way s, used = replicate (m + 1) False, column = 0\<rparr>"
  have hold: "holding i m (sol_p s) 0" and len: "length (sol_way s) = m + 1" using assms(2) by (auto simp: assigned_def)
  have plen: "length (sol_p s) = m + 1" using hold unfolding holding_def by blast
  obtain r where r: "search_columns a m p s0 = Some r"
    using assms(1) unfolding assign_row_def Let_def p_def [symmetric] s0_def [symmetric]
    by (cases "search_columns a m p s0") simp_all
  have start: "searching m s0" unfolding s0_def using len by (rule searching_start)
  have "p ! 0 \<noteq> 0" using plen by (simp add: p_def)
  note found = search_columns_spec [OF r disjI1 [OF start] this]
  have col: "column r \<le> m" using found by (simp add: searching_def)
  have "sol_p s ! column r = 0" using found by (metis nth_list_update_neq p_def)
  then have "holding (Suc i) m p (column r)" unfolding p_def using holding_next [OF hold col] found by simp
  from flip_path_free [OF _ _ this] obtain p' where p': "flip_path (way r) p (column r) = Some p'" "holding (Suc i) m p' 0"
    using found by blast
  have "s' = \<lparr>sol_u = pot_u r, sol_v = pot_v r, sol_p = p', sol_way = way r\<rparr>"
    using assms(1) unfolding assign_row_def Let_def p_def [symmetric] s0_def [symmetric] r option.case p'(1) by simp
  moreover have "length (way r) = m + 1" using found by (simp add: searching_def sized_def)
  ultimately show ?thesis using p'(2) by (simp add: assigned_def)
qed

lemma assign_rows_spec:
  "assign_rows a m [Suc i..<Suc n] s = Some s' \<Longrightarrow> assigned i m s \<Longrightarrow> i \<le> n \<Longrightarrow> assigned n m s'"
proof (induction "n - i" arbitrary: i s)
  case 0
  then show ?case by simp
next
  case (Suc d)
  then have "[Suc i..<Suc n] = Suc i # [Suc (Suc i)..<Suc n]" by (simp add: upt_conv_Cons del: upt_Suc)
  then obtain s1 where s1: "assign_row a m (Suc i) s = Some s1" "assign_rows a m [Suc (Suc i)..<Suc n] s1 = Some s'"
    using Suc.prems(1) by (auto split: option.splits simp del: upt_Suc)
  show ?case using Suc.hyps(1) [OF _ s1(2) assign_row_spec [OF s1(1) Suc.prems(2)]] Suc.hyps(2) by simp
qed

lemma initial_assigned: "assigned 0 m (initial_solver rows m)"
  unfolding assigned_def initial_solver_def holding_def by (auto simp del: replicate_Suc)

definition matching :: "nat \<Rightarrow> nat \<Rightarrow> assignment \<Rightarrow> bool" where
  "matching rows cols r \<longleftrightarrow> distinct (map fst (matches r)) \<and> distinct (map snd (matches r)) \<and>
     set (matches r) \<subseteq> {..<rows} \<times> {..<cols} \<and>
     unmatched_rows r = filter (\<lambda>i. i \<notin> fst ` set (matches r)) [0..<rows] \<and>
     unmatched_cols r = filter (\<lambda>j. j \<notin> snd ` set (matches r)) [0..<cols]"

lemma matched_pairs_matching:
  assumes "holding rows m p 0"
  shows "matching rows cols (read_assignment rows cols (matched_pairs costs cols max_cost p m))"
proof -
  let ?js = "filter (\<lambda>j. p ! j \<noteq> 0 \<and> j - 1 < cols \<and> affordable max_cost (costs ! ((p ! j - 1) * cols + (j - 1)))) [1..<m + 1]"
  have js: "1 \<le> j" "j \<le> m" "p ! j \<noteq> 0" "j - 1 < cols" if "j \<in> set ?js" for j using that by auto
  have bound: "p ! j \<le> rows" if "j \<in> set ?js" for j
    using assms js [OF that] unfolding holding_def by auto
  have inj: "j = k" if "j \<in> set ?js" "k \<in> set ?js" "p ! j - 1 = p ! k - 1" for j k
  proof -
    have "p ! j = p ! k" using js(3) [OF that(1)] js(3) [OF that(2)] that(3) by simp
    then show ?thesis using assms js [OF that(1)] js [OF that(2)] unfolding holding_def by auto
  qed
  have dist: "distinct ?js" by simp
  have "distinct (map (\<lambda>j. p ! j - 1) ?js)"
    using dist inj by (simp only: distinct_map inj_on_def) blast
  moreover have "distinct (map (\<lambda>j. j - 1) ?js)"
    unfolding distinct_map inj_on_def using dist js(1) by (metis (no_types, lifting) le_add_diff_inverse)
  moreover have "p ! j - 1 < rows" if "j \<in> set ?js" for j using bound [OF that] js(3) [OF that] by simp
  ultimately show ?thesis using js(4)
    by (auto simp: matching_def read_assignment_def matched_pairs_def comp_def simp del: upt_Suc)
qed

lemma linear_assignment_matching:
  assumes "linear_assignment costs rows cols max_cost = Inr r"
  shows "matching rows cols r"
proof (cases "rows = 0 \<or> cols = 0")
  case True
  then show ?thesis using assms by (auto simp: linear_assignment_def matching_def split: if_splits)
next
  case False
  then obtain s where s: "assign_rows (augmented costs cols max_cost) (cols + rows) [1..<rows + 1] (initial_solver rows (cols + rows)) = Some s"
    and r: "r = read_assignment rows cols (matched_pairs costs cols max_cost (sol_p s) (cols + rows))"
    using assms by (auto simp: linear_assignment_def Let_def simp del: upt_Suc split: if_splits option.splits)
  have "assigned rows (cols + rows) s"
    using assign_rows_spec [of "augmented costs cols max_cost" "cols + rows" 0 rows, OF _ initial_assigned] s by simp
  then show ?thesis using matched_pairs_matching by (simp add: assigned_def r)
qed

end
