(* ===== verification/CameraModes.thy ===== *)
theory CameraModes
  imports Processor Calendar Assignment
begin

text \<open>
  The choice of a capture mode: \<^verbatim>\<open>src/vision_runtime/camera/format_selector.cpp\<close> and the search of
  \<^verbatim>\<open>Camera::Impl::initialize_capture\<close> in \<^verbatim>\<open>camera.cpp\<close>. Subtypes are ASCII names; the sources and
  formats come from the driver.
\<close>

section \<open>Configuration and modes\<close>

datatype stream_preference = AutoStream | VideoPreview | VideoRecord
datatype media_stream = PreviewStream | RecordStream | OtherStream
datatype acquisition = Realtime | Buffered

record camera_config =
  cam_index :: nat
  cam_width :: nat
  cam_height :: nat
  cam_fps :: nat
  cam_acquisition :: acquisition
  cam_stream :: stream_preference
  cam_source_id :: string
  cam_source_subtype :: string
  cam_output_subtype :: string
  force_constant_framerate :: bool
  restore_legacy_control_on_stop :: bool

definition default_camera_config :: camera_config where
  "default_camera_config = \<lparr>cam_index = 0, cam_width = 1280, cam_height = 720, cam_fps = 30,
     cam_acquisition = Realtime, cam_stream = AutoStream, cam_source_id = [], cam_source_subtype = [],
     cam_output_subtype = ''NV12'', force_constant_framerate = True, restore_legacy_control_on_stop = True\<rparr>"

record media_format =
  rate_numerator :: nat
  rate_denominator :: nat
  video_size :: "(nat \<times> nat) option"
  media_subtype :: string

record source_info =
  info_id :: string
  info_color :: bool
  info_stream :: media_stream

record source_group =
  group_name :: string
  group_infos :: "source_info list"

record camera_mode =
  mode_width :: nat
  mode_height :: nat
  mode_fps :: double
  mode_subtype :: string
  mode_output :: string
  mode_stream :: stream_preference

definition no_mode :: camera_mode where
  "no_mode = \<lparr>mode_width = 0, mode_height = 0, mode_fps = 0, mode_subtype = [], mode_output = [], mode_stream = AutoStream\<rparr>"

definition media_rate :: "media_format \<Rightarrow> double" where
  "media_rate f =
     (if rate_denominator f = 0 then 0 else double_of_nat (rate_numerator f) / double_of_nat (rate_denominator f))"

definition to_camera_mode :: "media_format \<Rightarrow> camera_mode" where
  "to_camera_mode f =
     (let mode = (case video_size f of None \<Rightarrow> no_mode | Some (w, h) \<Rightarrow> no_mode\<lparr>mode_width := w, mode_height := h\<rparr>)
      in mode\<lparr>mode_fps := media_rate f, mode_subtype := media_subtype f\<rparr>)"

definition to_stream_preference :: "media_stream \<Rightarrow> stream_preference" where
  "to_stream_preference s = (case s of PreviewStream \<Rightarrow> VideoPreview | RecordStream \<Rightarrow> VideoRecord | OtherStream \<Rightarrow> AutoStream)"

section \<open>Ranking\<close>

definition normalize_subtype :: "string \<Rightarrow> string" where
  "normalize_subtype s = map upper s"

definition subtype_rank :: "string \<Rightarrow> int" where
  "subtype_rank s =
     (let n = normalize_subtype s
      in if n = ''NV12'' then 0 else if n = ''YUY2'' then 1 else if n = ''BGRA8'' then 2
         else if n = ''ARGB32'' then 3 else if n = ''RGB32'' then 4
         else if n = ''MJPG'' then 50 else if n = ''H264'' then 60 else 20)"

definition stream_rank :: "stream_preference \<Rightarrow> int" where
  "stream_rank s = (if s = VideoPreview then 0 else if s = VideoRecord then 1 else 10)"

definition stream_matches :: "stream_preference \<Rightarrow> stream_preference \<Rightarrow> bool" where
  "stream_matches actual requested \<longleftrightarrow> requested = AutoStream \<or> actual = requested"

record format_score =
  fps_error :: double
  score_stream :: int
  score_subtype :: int

definition tie_epsilon :: double where
  "tie_epsilon = double_lit (1 / 10000)"

definition is_better_candidate :: "format_score \<Rightarrow> format_score \<Rightarrow> bool" where
  "is_better_candidate c i \<longleftrightarrow>
     fps_error c < fps_error i \<or>
     (\<bar>fps_error c - fps_error i\<bar> < tie_epsilon \<and> score_stream c < score_stream i) \<or>
     (\<bar>fps_error c - fps_error i\<bar> < tie_epsilon \<and> score_stream c = score_stream i \<and> score_subtype c < score_subtype i)"

definition is_supported_fps :: "double \<Rightarrow> bool" where
  "is_supported_fps e \<longleftrightarrow> \<not> e > 1"

section \<open>The search\<close>

definition video_stream :: "media_stream \<Rightarrow> bool" where
  "video_stream s \<longleftrightarrow> s = PreviewStream \<or> s = RecordStream"

definition eligible_group :: "source_group \<Rightarrow> bool" where
  "eligible_group g \<longleftrightarrow> list_ex (\<lambda>i. info_color i \<and> video_stream (info_stream i)) (group_infos g)"

definition eligible_groups :: "source_group list \<Rightarrow> source_group list" where
  "eligible_groups = filter eligible_group"

text \<open>The frame sources of the opened capture: for an id, the formats of its source.\<close>

type_synonym frame_sources = "string \<rightharpoonup> media_format list"

definition admissible_source :: "camera_config \<Rightarrow> frame_sources \<Rightarrow> source_info \<Rightarrow> bool" where
  "admissible_source c sources i \<longleftrightarrow>
     info_color i \<and> video_stream (info_stream i) \<and>
     stream_matches (to_stream_preference (info_stream i)) (cam_stream c) \<and>
     (cam_source_id c = [] \<or> info_id i = cam_source_id c) \<and> sources (info_id i) \<noteq> None"

definition admissible_format :: "camera_config \<Rightarrow> media_format \<Rightarrow> bool" where
  "admissible_format c f \<longleftrightarrow>
     (let mode = to_camera_mode f; wanted = normalize_subtype (cam_source_subtype c)
      in mode_width mode = cam_width c \<and> mode_height mode = cam_height c \<and>
         (wanted = [] \<or> normalize_subtype (mode_subtype mode) = wanted))"

record candidate =
  cand_source :: string
  cand_format :: media_format
  cand_stream :: media_stream
  cand_score :: format_score

definition make_candidate :: "camera_config \<Rightarrow> source_info \<Rightarrow> media_format \<Rightarrow> candidate" where
  "make_candidate c i f =
     (let mode = to_camera_mode f
      in \<lparr>cand_source = info_id i, cand_format = f, cand_stream = info_stream i,
          cand_score = \<lparr>fps_error = \<bar>mode_fps mode - double_of_nat (cam_fps c)\<bar>,
            score_stream = stream_rank (to_stream_preference (info_stream i)),
            score_subtype = subtype_rank (mode_subtype mode)\<rparr>\<rparr>)"

definition offered :: "camera_config \<Rightarrow> frame_sources \<Rightarrow> source_info \<Rightarrow> candidate list" where
  "offered c sources i =
     (if admissible_source c sources i
      then map (make_candidate c i) (filter (admissible_format c) (case sources (info_id i) of None \<Rightarrow> [] | Some fs \<Rightarrow> fs))
      else [])"

definition keep_better :: "candidate option \<Rightarrow> candidate \<Rightarrow> candidate option" where
  "keep_better best c =
     (case best of None \<Rightarrow> Some c
      | Some b \<Rightarrow> if is_better_candidate (cand_score c) (cand_score b) then Some c else best)"

definition offers :: "camera_config \<Rightarrow> frame_sources \<Rightarrow> source_group \<Rightarrow> candidate list" where
  "offers c sources g = concat (map (offered c sources) (group_infos g))"

definition search_modes :: "camera_config \<Rightarrow> frame_sources \<Rightarrow> source_group \<Rightarrow> candidate option" where
  "search_modes c sources g = foldl keep_better None (offers c sources g)"

definition select_mode :: "camera_config \<Rightarrow> frame_sources \<Rightarrow> source_group \<Rightarrow> candidate result" where
  "select_mode c sources g =
     (case search_modes c sources g of
        None \<Rightarrow> Inl (RuntimeError ''Mode kamera tidak tersedia untuk filter source yang diminta'')
      | Some b \<Rightarrow> if is_supported_fps (fps_error (cand_score b)) then Inr b
                  else Inl (RuntimeError ''Mode kamera tidak tersedia untuk filter source yang diminta''))"

definition select_group :: "camera_config \<Rightarrow> source_group list \<Rightarrow> source_group result" where
  "select_group c groups =
     (let eligible = eligible_groups groups
      in if length eligible \<le> cam_index c then Inl (RuntimeError ''Camera index tidak tersedia'')
         else Inr (eligible ! cam_index c))"

section \<open>What is chosen\<close>

lemma keep_better_cases: "keep_better best c = Some x \<Longrightarrow> x = c \<or> best = Some x"
  by (auto simp: keep_better_def split: option.splits if_splits)

lemma foldl_keep_better_in: "foldl keep_better best cs = Some x \<Longrightarrow> x \<in> set cs \<or> best = Some x"
proof (induction cs arbitrary: best)
  case (Cons c cs)
  then show ?case using keep_better_cases by fastforce
qed simp

text \<open>Two scores are apart when their frame rate errors are equal or differ by more than the tolerance.\<close>

definition clear_cut :: "format_score \<Rightarrow> format_score \<Rightarrow> bool" where
  "clear_cut a b \<longleftrightarrow> fps_error a = fps_error b \<and> dfinite (fps_error a) \<or>
     \<not> \<bar>fps_error a - fps_error b\<bar> < tie_epsilon \<and> (fps_error a < fps_error b \<or> fps_error b < fps_error a)"

definition score_le :: "format_score \<Rightarrow> format_score \<Rightarrow> bool" where
  "score_le a b \<longleftrightarrow> fps_error a < fps_error b \<or>
     (fps_error a = fps_error b \<and> (score_stream a < score_stream b \<or>
       (score_stream a = score_stream b \<and> score_subtype a \<le> score_subtype b)))"

lemma double_apart_zero: "dfinite x \<Longrightarrow> \<bar>x - x\<bar> < tie_epsilon"
proof -
  assume "dfinite x"
  then obtain q where "dval x = Fin q" by (cases "dval x") (auto simp: dfinite_def)
  moreover have "fl_round Binary64 0 = Fin 0" using fl_round_small_int [of 0 Binary64] by simp
  moreover have "0 < tie_epsilon" by code_simp
  ultimately show ?thesis by (simp add: float_simps)
qed

lemma double_less_irrefl [simp]: "\<not> x < (x :: double)"
  by (simp add: less_double_def)

lemma better_clear_cut:
  assumes "clear_cut a b"
  shows "is_better_candidate a b \<longleftrightarrow> \<not> score_le b a"
proof (cases "fps_error a = fps_error b")
  case True
  with assms have "\<bar>fps_error a - fps_error b\<bar> < tie_epsilon" by (auto simp: clear_cut_def double_apart_zero)
  with True show ?thesis by (auto simp: is_better_candidate_def score_le_def)
next
  case False
  with assms have "\<not> \<bar>fps_error a - fps_error b\<bar> < tie_epsilon" "fps_error a < fps_error b \<or> fps_error b < fps_error a"
    by (auto simp: clear_cut_def)
  with False show ?thesis using double_less_trans [of "fps_error a" "fps_error b" "fps_error a"]
    by (auto simp: is_better_candidate_def score_le_def)
qed

lemma score_le_refl [simp]: "score_le a a"
  by (simp add: score_le_def)

lemma score_le_trans: "score_le a b \<Longrightarrow> score_le b c \<Longrightarrow> score_le a c"
  by (auto simp: score_le_def dest: double_less_trans)

lemma score_le_total: "clear_cut a b \<Longrightarrow> score_le a b \<or> score_le b a"
  by (auto simp: clear_cut_def score_le_def)

lemma keep_better_Some: "keep_better (Some b) c = Some (if is_better_candidate (cand_score c) (cand_score b) then c else b)"
  by (simp add: keep_better_def)

lemma foldl_keep_better_best:
  assumes "foldl keep_better (Some b) cs = Some x"
    and "\<forall>u \<in> set (b # cs). \<forall>v \<in> set (b # cs). clear_cut (cand_score u) (cand_score v)"
  shows "\<forall>y \<in> set (b # cs). score_le (cand_score x) (cand_score y)"
  using assms
proof (induction cs arbitrary: b)
  case (Cons c cs)
  define d where "d = (if is_better_candidate (cand_score c) (cand_score b) then c else b)"
  have "foldl keep_better (Some d) cs = Some x" using Cons.prems(1) by (simp add: keep_better_Some d_def)
  moreover have "\<forall>u \<in> set (d # cs). \<forall>v \<in> set (d # cs). clear_cut (cand_score u) (cand_score v)"
    using Cons.prems(2) by (auto simp: d_def)
  ultimately have *: "\<forall>y \<in> set (d # cs). score_le (cand_score x) (cand_score y)" by (rule Cons.IH)
  have "clear_cut (cand_score c) (cand_score b)" using Cons.prems(2) by simp
  then have "score_le (cand_score d) (cand_score b)" "score_le (cand_score d) (cand_score c)"
    using score_le_total better_clear_cut by (fastforce simp: d_def)+
  with * show ?case by (auto intro: score_le_trans)
qed simp


text \<open>A camera with a preview and a record pin; the requested rate is offered on both.\<close>

definition sample_format :: "nat \<Rightarrow> string \<Rightarrow> media_format" where
  "sample_format n sub = \<lparr>rate_numerator = n, rate_denominator = 1, video_size = Some (1280, 720), media_subtype = sub\<rparr>"

definition sample_group :: source_group where
  "sample_group = \<lparr>group_name = ''cam'', group_infos =
     [\<lparr>info_id = ''r'', info_color = True, info_stream = RecordStream\<rparr>,
      \<lparr>info_id = ''p'', info_color = True, info_stream = PreviewStream\<rparr>]\<rparr>"

definition sample_sources :: frame_sources where
  "sample_sources = [''r'' \<mapsto> [sample_format 30 ''mjpg'', sample_format 60 ''NV12''],
     ''p'' \<mapsto> [sample_format 30 ''YUY2'', sample_format 30 ''NV12'']]"

lemma sample_selection:
  "select_mode default_camera_config sample_sources sample_group =
     Inr (make_candidate default_camera_config \<lparr>info_id = ''p'', info_color = True, info_stream = PreviewStream\<rparr> (sample_format 30 ''NV12''))"
  by code_simp


end
