(* ===== verification/LowLight.thy ===== *)
theory LowLight
  imports Calendar
begin

text \<open>
  The legacy low-light control, \<^verbatim>\<open>src/vision_runtime/camera/directshow_low_light_control.cpp\<close>: the
  camera's DirectShow filter is found by its friendly name, and property 19 (auto exposure
  priority) is read, or written and read back. The COM device is the record \<open>low_light_device\<close>;
  the value the camera holds is threaded as an integer.
\<close>

section \<open>The device\<close>

text \<open>
  A moniker of the enumeration: its property bag (\<open>None\<close> when it cannot be opened) with the friendly
  name (\<open>None\<close> when it is no string), and what binding the filter yields.
\<close>

record moniker =
  property_bag :: "string option option"
  bind_filter :: "unit result"

text \<open>
  \<open>video_devices\<close> is \<open>None\<close> when there is no video input device. \<open>read_property\<close> and \<open>write_property\<close> see the
  value the camera holds; \<open>None\<close>, and \<open>False\<close>, are failing HRESULTs.
\<close>

record low_light_device =
  video_devices :: "moniker list option result"
  control_interface :: bool
  read_property :: "int \<Rightarrow> (int \<times> int) option"
  read_range :: "(int \<times> int \<times> int \<times> int \<times> int) option"
  write_property :: "int \<Rightarrow> int \<Rightarrow> bool \<times> int"

fun scan_monikers :: "string \<Rightarrow> moniker list \<Rightarrow> bool result" where
  "scan_monikers name [] = Inr False"
| "scan_monikers name (m # ms) =
     (case property_bag m of
        Some (Some current) \<Rightarrow>
          if map upper current = map upper name then bind_result (bind_filter m) (\<lambda>_. Inr True) else scan_monikers name ms
      | _ \<Rightarrow> scan_monikers name ms)"

definition find_camera_filter :: "low_light_device \<Rightarrow> string \<Rightarrow> bool result" where
  "find_camera_filter dev name =
     bind_result (video_devices dev) (\<lambda>ds. case ds of None \<Rightarrow> Inr False | Some ms \<Rightarrow> scan_monikers name ms)"

text \<open>Whether the device was found, and whether it has a camera control.\<close>

definition get_camera_control :: "low_light_device \<Rightarrow> string \<Rightarrow> (bool \<times> bool) result" where
  "get_camera_control dev name =
     bind_result (find_camera_filter dev name) (\<lambda>found. Inr (found, found \<and> control_interface dev))"

section \<open>Reading and writing\<close>

record legacy_state =
  device_found :: bool
  control_available :: bool
  legacy_supported :: bool
  legacy_value :: int
  legacy_flags :: int
  legacy_range :: "int \<times> int \<times> int \<times> int \<times> int"
  legacy_error :: string

definition no_legacy :: legacy_state where
  "no_legacy = \<lparr>device_found = False, control_available = False, legacy_supported = False, legacy_value = 0,
     legacy_flags = 0, legacy_range = (0, 0, 0, 0, 0), legacy_error = []\<rparr>"

definition query_legacy :: "low_light_device \<Rightarrow> string \<Rightarrow> int \<Rightarrow> legacy_state" where
  "query_legacy dev name held =
     (case get_camera_control dev name of
        Inl e \<Rightarrow> no_legacy\<lparr>legacy_error := ''WinRT/COM error''\<rparr>
      | Inr (found, control) \<Rightarrow>
          let result = no_legacy\<lparr>device_found := found\<rparr>
          in if \<not> control
             then result\<lparr>legacy_error := if found then ''Device ditemukan, tetapi IAMCameraControl tidak tersedia''
                    else ''Device DirectShow dengan FriendlyName yang sama tidak ditemukan''\<rparr>
             else let result = result\<lparr>control_available := True\<rparr>
                  in case read_property dev held of
                       None \<Rightarrow> result\<lparr>legacy_error := ''Property 19 tidak didukung''\<rparr>
                     | Some (v, flags) \<Rightarrow>
                         let result = result\<lparr>legacy_supported := True, legacy_value := v, legacy_flags := flags\<rparr>
                         in case read_range dev of None \<Rightarrow> result | Some r \<Rightarrow> result\<lparr>legacy_range := r\<rparr>)"

text \<open>The answer, and the value the camera holds afterwards.\<close>

definition set_legacy :: "low_light_device \<Rightarrow> string \<Rightarrow> int \<Rightarrow> int \<Rightarrow> bool \<times> int" where
  "set_legacy dev name wanted held =
     (case get_camera_control dev name of
        Inl e \<Rightarrow> (False, held)
      | Inr (found, control) \<Rightarrow>
          if \<not> control then (False, held)
          else case write_property dev wanted held of
                 (False, held') \<Rightarrow> (False, held')
               | (True, held') \<Rightarrow>
                   (case read_property dev held' of
                      None \<Rightarrow> (False, held')
                    | Some (v, _) \<Rightarrow> (v = wanted, held')))"

section \<open>Laws\<close>

text \<open>
  A camera that answers: a read that succeeds yields the held value, a write that succeeds holds the
  written value, one that fails holds the old one.
\<close>

definition honest :: "low_light_device \<Rightarrow> bool" where
  "honest dev \<longleftrightarrow> (\<forall>held. case read_property dev held of None \<Rightarrow> True | Some (v, _) \<Rightarrow> v = held) \<and>
     (\<forall>wanted held. write_property dev wanted held \<in> {(True, wanted), (False, held)})"

definition readable :: "low_light_device \<Rightarrow> bool" where
  "readable dev \<longleftrightarrow> (\<forall>held. read_property dev held \<noteq> None)"

lemma query_legacy_value:
  assumes "honest dev" "legacy_supported (query_legacy dev name held)"
  shows "legacy_value (query_legacy dev name held) = held"
  using assms
  by (auto simp: query_legacy_def no_legacy_def honest_def Let_def split: sum.splits prod.splits option.splits if_splits)

lemma set_legacy_true:
  assumes "honest dev" "set_legacy dev name wanted held = (True, held')"
  shows "held' = wanted"
proof -
  from assms(2) obtain h where "write_property dev wanted held = (True, h)" "held' = h"
    by (auto simp: set_legacy_def split: sum.splits prod.splits option.splits if_splits bool.splits)
  moreover have "write_property dev wanted held \<in> {(True, wanted), (False, held)}" using assms(1) unfolding honest_def by blast
  ultimately show ?thesis by auto
qed

text \<open>A write that is refused changes nothing, provided that the property can be read back.\<close>

lemma set_legacy_refused:
  assumes "honest dev" "readable dev" "set_legacy dev name wanted held = (False, held')"
  shows "held' = held"
proof -
  have w: "write_property dev wanted held \<in> {(True, wanted), (False, held)}" using assms(1) unfolding honest_def by blast
  have r: "\<exists>flags. read_property dev h = Some (h, flags)" for h
  proof -
    obtain v flags where "read_property dev h = Some (v, flags)" using assms(2) by (force simp: readable_def)
    moreover have "case read_property dev h of None \<Rightarrow> True | Some (v, _) \<Rightarrow> v = h" using assms(1) unfolding honest_def by blast
    ultimately show ?thesis by simp
  qed
  from r [of wanted] obtain flags where "read_property dev wanted = Some (wanted, flags)" by blast
  with w assms(3) show ?thesis
    by (auto simp: set_legacy_def split: sum.splits prod.splits option.splits if_splits bool.splits)
qed

end
