(* ===== verification/Camera.thy ===== *)
theory Camera
  imports CameraModes LowLight
begin

text \<open>
  The camera, \<^verbatim>\<open>src/vision_runtime/camera/camera.cpp\<close>: opening and closing the capture, the optional
  controls, the frame callback with its failure budget, and the waiting consumer. Media Foundation
  is the record \<open>camera_driver\<close>; \<open>low_light_value\<close> is the value the device holds in property 19.

  The control thread runs from \<open>start\<close> until a stop is requested. \<open>start\<close> blocks until the capture is
  open, so opening is one step; the winding down after a stop request is one step of its own
  (\<open>wind_down\<close>), which \<open>stop\<close> waits for. A callback is one step, as is the moment \<open>wait_for_frame\<close>
  wakes up, by a notification or by its time-out.
\<close>

section \<open>Driver and state\<close>

datatype start_status = Success | UnknownFailure | DeviceNotAvailable | OutputFormatNotSupported | ExclusiveControlNotAvailable

record control_device =
  has_controller :: "bool result"
  priority_answer :: "bool result"
  priority_disable :: "unit result"
  priority_reading :: "bool result"
  exposure_answer :: "bool result"
  auto_reading :: "bool result"
  value_reading :: "int result"
  min_reading :: "int result"
  max_reading :: "int result"
  step_reading :: "int result"

record camera_driver =
  apartment :: "unit result"
  source_groups :: "source_group list result"
  low_light :: low_light_device
  make_capture :: "unit result"
  open_capture :: "source_group \<Rightarrow> unit result"
  capture_controls :: "bool \<Rightarrow> control_device"
  opened_sources :: "frame_sources result"
  set_format :: "candidate \<Rightarrow> unit result"
  current_format :: "media_format result"
  create_reader :: "string \<Rightarrow> unit result"
  set_acquisition :: "acquisition \<Rightarrow> unit result"
  add_handler :: "unit result"
  start_reader :: "start_status result"
  remove_handler :: "unit result"
  close_reader :: "unit result"
  close_capture :: "unit result"

record control_status =
  low_supported :: bool
  low_forced_off :: bool
  low_restore_pending :: bool
  low_original :: int
  low_current :: int
  priority_supported :: bool
  priority_enabled :: bool
  priority_forced_off :: bool
  exposure_supported :: bool
  exposure_auto :: bool
  exposure_value :: int
  exposure_min :: int
  exposure_max :: int
  exposure_step :: int

definition no_controls :: control_status where
  "no_controls = \<lparr>low_supported = False, low_forced_off = False, low_restore_pending = False, low_original = - 1,
     low_current = - 1, priority_supported = False, priority_enabled = False, priority_forced_off = False,
     exposure_supported = False, exposure_auto = False, exposure_value = 0, exposure_min = 0, exposure_max = 0,
     exposure_step = 0\<rparr>"

definition empty_frame :: gpu_frame where
  "empty_frame = \<lparr>frame_texture = False, frame_id = 0, callback_entry_ns = 0, frame_timestamp_ns = 0, frame_source_ns = 0,
     frame_width = 0, frame_height = 0, frame_format = 0\<rparr>"

record camera =
  cam_thread :: bool
  cam_looping :: bool
  cam_running :: bool
  cam_stopping :: bool
  failed_reads_count :: nat
  current_frame_id :: nat
  consecutive_failures :: nat
  latest_frame :: gpu_frame
  cam_error :: "error option"
  active_mode :: camera_mode
  cam_controls :: control_status
  texture_metadata :: "(nat \<times> nat \<times> nat) option"
  friendly_name :: string
  legacy_original_value :: int
  legacy_restore_pending :: bool
  capture_open :: bool
  reader_open :: bool
  handler_registered :: bool
  low_light_value :: int

definition new_camera :: "int \<Rightarrow> camera" where
  "new_camera held = \<lparr>cam_thread = False, cam_looping = False, cam_running = False, cam_stopping = False,
     failed_reads_count = 0, current_frame_id = 0, consecutive_failures = 0, latest_frame = empty_frame, cam_error = None,
     active_mode = no_mode, cam_controls = no_controls, texture_metadata = None, friendly_name = [],
     legacy_original_value = 0, legacy_restore_pending = False, capture_open = False, reader_open = False,
     handler_registered = False, low_light_value = held\<rparr>"

section \<open>Optional controls\<close>

definition forced_constant :: "camera_config \<Rightarrow> low_light_device \<Rightarrow> int \<Rightarrow> camera \<Rightarrow> camera" where
  "forced_constant c dev found s =
     (let observed = (cam_controls s)\<lparr>low_supported := True, low_original := found, low_current := found\<rparr>;
          (changed, held) = set_legacy dev (friendly_name s) 0 (low_light_value s);
          s = s\<lparr>low_light_value := held\<rparr>
      in if changed
         then s\<lparr>legacy_original_value := found, legacy_restore_pending := restore_legacy_control_on_stop c,
                cam_controls := observed\<lparr>low_forced_off := True, low_current := 0,
                  low_restore_pending := restore_legacy_control_on_stop c\<rparr>\<rparr>
         else s\<lparr>cam_controls := observed\<rparr>)"

definition apply_legacy_constant_frame_rate :: "camera_config \<Rightarrow> low_light_device \<Rightarrow> camera \<Rightarrow> camera" where
  "apply_legacy_constant_frame_rate c dev s =
     (if \<not> force_constant_framerate c \<or> friendly_name s = [] then s
      else let snapshot = query_legacy dev (friendly_name s) (low_light_value s); v = legacy_value snapshot
           in if \<not> legacy_supported snapshot then s\<lparr>cam_controls := (cam_controls s)\<lparr>low_supported := False\<rparr>\<rparr>
              else if v = 0
              then s\<lparr>cam_controls := (cam_controls s)\<lparr>low_supported := True, low_original := v, low_current := v,
                     low_forced_off := True, low_restore_pending := False\<rparr>\<rparr>
              else forced_constant c dev v s)"

definition restore_legacy_camera_control :: "low_light_device \<Rightarrow> camera \<Rightarrow> camera" where
  "restore_legacy_camera_control dev s =
     (if \<not> legacy_restore_pending s \<or> friendly_name s = [] then s
      else let (restored, held) = set_legacy dev (friendly_name s) (legacy_original_value s) (low_light_value s)
           in s\<lparr>low_light_value := held, legacy_restore_pending := \<not> restored\<rparr>)"

text \<open>Readings that stop at the first exception and keep what was read before.\<close>

definition reading :: "'a result \<Rightarrow> ('a \<Rightarrow> control_status \<Rightarrow> control_status) \<Rightarrow> (control_status \<Rightarrow> control_status) \<Rightarrow> control_status \<Rightarrow> control_status" where
  "reading r keep rest got = (case r of Inl _ \<Rightarrow> got | Inr v \<Rightarrow> rest (keep v got))"

definition observe_priority :: "control_device \<Rightarrow> control_status \<Rightarrow> control_status" where
  "observe_priority d got =
     (case priority_answer d of
        Inr True \<Rightarrow>
          reading (priority_disable d) (\<lambda>_. id)
            (reading (priority_reading d) (\<lambda>v. priority_enabled_update (\<lambda>_. v) \<circ> priority_forced_off_update (\<lambda>_. \<not> v)) id)
            (got\<lparr>priority_supported := True\<rparr>)
      | _ \<Rightarrow> got)"

definition observe_exposure :: "control_device \<Rightarrow> control_status \<Rightarrow> control_status" where
  "observe_exposure d got =
     (case exposure_answer d of
        Inr True \<Rightarrow>
          reading (auto_reading d) (\<lambda>v. exposure_auto_update (\<lambda>_. v))
            (reading (value_reading d) (\<lambda>v. exposure_value_update (\<lambda>_. v))
              (reading (min_reading d) (\<lambda>v. exposure_min_update (\<lambda>_. v))
                (reading (max_reading d) (\<lambda>v. exposure_max_update (\<lambda>_. v))
                  (reading (step_reading d) (\<lambda>v. exposure_step_update (\<lambda>_. v)) id))))
            (got\<lparr>exposure_supported := True\<rparr>)
      | _ \<Rightarrow> got)"

definition configure_constant_frame_rate :: "control_device \<Rightarrow> camera \<Rightarrow> camera" where
  "configure_constant_frame_rate d s =
     (if \<not> capture_open s then s
      else case has_controller d of
             Inr True \<Rightarrow> s\<lparr>cam_controls := observe_exposure d (observe_priority d (cam_controls s))\<rparr>
           | _ \<Rightarrow> s)"

section \<open>Opening and closing\<close>

definition initialize_capture :: "camera_driver \<Rightarrow> camera_config \<Rightarrow> (camera, unit) run" where
  "initialize_capture drv c =
     andThen (lift_result (bind_result (source_groups drv) (select_group c))) (\<lambda>g.
     andThen (modify (\<lambda>s. apply_legacy_constant_frame_rate c (low_light drv) (s\<lparr>friendly_name := group_name g\<rparr>))) (\<lambda>_.
     andThen (lift_result (make_capture drv)) (\<lambda>_.
     andThen (modify (\<lambda>s. s\<lparr>capture_open := True\<rparr>)) (\<lambda>_.
     andThen (lift_result (open_capture drv g)) (\<lambda>_.
     andThen (modify (configure_constant_frame_rate (capture_controls drv False))) (\<lambda>_.
     andThen (lift_result (bind_result (opened_sources drv) (\<lambda>sources. select_mode c sources g))) (\<lambda>best.
     andThen (lift_result (set_format drv best)) (\<lambda>_.
     andThen (lift_result (current_format drv)) (\<lambda>current.
     let output = (if cam_output_subtype c = [] then media_subtype (cand_format best) else normalize_subtype (cam_output_subtype c))
     in andThen (modify (\<lambda>s. s\<lparr>active_mode := (to_camera_mode current)\<lparr>mode_stream := to_stream_preference (cand_stream best),
                   mode_output := output\<rparr>\<rparr>)) (\<lambda>_.
        andThen (lift_result (create_reader drv output)) (\<lambda>_.
        andThen (modify (\<lambda>s. s\<lparr>reader_open := True\<rparr>)) (\<lambda>_.
          lift_result (set_acquisition drv (cam_acquisition c))))))))))))))"

definition start_failure :: "start_status \<Rightarrow> unit result" where
  "start_failure st = (case st of
     Success \<Rightarrow> Inr ()
   | UnknownFailure \<Rightarrow> Inl (RuntimeError ''MediaFrameReader gagal start (UnknownFailure)'')
   | DeviceNotAvailable \<Rightarrow> Inl (RuntimeError ''MediaFrameReader gagal start (DeviceNotAvailable)'')
   | OutputFormatNotSupported \<Rightarrow> Inl (RuntimeError ''MediaFrameReader gagal start (OutputFormatNotSupported)'')
   | ExclusiveControlNotAvailable \<Rightarrow> Inl (RuntimeError ''MediaFrameReader gagal start (ExclusiveControlNotAvailable)''))"

definition open_camera :: "camera_driver \<Rightarrow> camera_config \<Rightarrow> (camera, unit) run" where
  "open_camera drv c =
     andThen (lift_result (apartment drv)) (\<lambda>_.
     andThen (initialize_capture drv c) (\<lambda>_.
     andThen (lift_result (add_handler drv)) (\<lambda>_.
     andThen (modify (\<lambda>s. s\<lparr>handler_registered := True\<rparr>)) (\<lambda>_.
     andThen (lift_result (bind_result (start_reader drv) start_failure)) (\<lambda>_.
       modify (\<lambda>s. (configure_constant_frame_rate (capture_controls drv True) s)\<lparr>cam_running := True\<rparr>))))))"

definition cleanup_capture :: "camera_driver \<Rightarrow> (camera, unit) run" where
  "cleanup_capture drv =
     andThen get_state (\<lambda>s.
     andThen (if \<not> reader_open s then ret ()
              else andThen (if \<not> handler_registered s then ret ()
                            else andThen (lift_result (remove_handler drv)) (\<lambda>_. modify (\<lambda>s. s\<lparr>handler_registered := False\<rparr>))) (\<lambda>_.
                   andThen (lift_result (close_reader drv)) (\<lambda>_. modify (\<lambda>s. s\<lparr>reader_open := False\<rparr>)))) (\<lambda>_.
     andThen (if \<not> capture_open s then ret ()
              else andThen (lift_result (close_capture drv)) (\<lambda>_. modify (\<lambda>s. s\<lparr>capture_open := False\<rparr>))) (\<lambda>_.
       modify (\<lambda>s. (restore_legacy_camera_control (low_light drv) s)\<lparr>friendly_name := []\<rparr>))))"

definition wind_down :: "camera_driver \<Rightarrow> camera \<Rightarrow> camera" where
  "wind_down drv s = (snd (cleanup_capture drv (s\<lparr>cam_running := False\<rparr>)))\<lparr>latest_frame := empty_frame, cam_looping := False\<rparr>"

definition fresh_session :: "camera \<Rightarrow> camera" where
  "fresh_session s = s\<lparr>latest_frame := empty_frame, cam_error := None, active_mode := no_mode, cam_controls := no_controls,
     texture_metadata := None, failed_reads_count := 0, consecutive_failures := 0, current_frame_id := 0,
     cam_running := False, cam_stopping := False\<rparr>"

definition camera_start :: "camera_driver \<Rightarrow> camera_config \<Rightarrow> (camera, unit) run" where
  "camera_start drv c s =
     (if cam_thread s then (Inl (RuntimeError ''Camera sudah dijalankan''), s)
      else case open_camera drv c (fresh_session s) of
             (Inr _, t) \<Rightarrow> (Inr (), t\<lparr>cam_thread := True, cam_looping := True\<rparr>)
           | (Inl e, t) \<Rightarrow> (Inl e, (wind_down drv (t\<lparr>cam_error := Some e\<rparr>))\<lparr>cam_stopping := True\<rparr>))"

definition camera_stop :: "camera_driver \<Rightarrow> camera \<Rightarrow> camera" where
  "camera_stop drv s =
     (let s = s\<lparr>cam_stopping := True\<rparr>
      in if \<not> cam_thread s then s
         else (if cam_looping s then wind_down drv s else s)\<lparr>cam_thread := False\<rparr>)"

section \<open>Frames\<close>

text \<open>What the callback finds: each call may throw, or yield nothing.\<close>

record arrival =
  entered_ns :: nat
  acquired :: "bool result"
  system_time_ns :: "int option result"
  video_part :: "bool result"
  surface_part :: "bool result"
  texture_desc :: "(nat \<times> nat \<times> nat) result"
  stamped_ns :: nat

definition max_consecutive_failures :: nat where
  "max_consecutive_failures = 30"

definition record_failure :: "string \<Rightarrow> camera \<Rightarrow> camera" where
  "record_failure message s =
     (let s = s\<lparr>failed_reads_count := failed_reads_count s + 1, consecutive_failures := consecutive_failures s + 1\<rparr>
      in if consecutive_failures s < max_consecutive_failures then s
         else s\<lparr>cam_error := (case cam_error s of None \<Rightarrow> Some (RuntimeError (message @ '' (30 kegagalan berturut-turut)'')) | Some e \<Rightarrow> Some e),
                cam_stopping := True\<rparr>)"

text \<open>The frame, or the message of the failure.\<close>

definition received :: "arrival \<Rightarrow> string + (nat \<times> nat \<times> nat \<times> nat)" where
  "received a =
     (let thrown = ''Exception saat menerima GPU camera frame''
      in case acquired a of
           Inl _ \<Rightarrow> Inl thrown
         | Inr False \<Rightarrow> Inl ''TryAcquireLatestFrame() tidak mengembalikan frame''
         | Inr True \<Rightarrow>
        case system_time_ns a of
           Inl _ \<Rightarrow> Inl thrown
         | Inr t \<Rightarrow>
        case video_part a of
           Inl _ \<Rightarrow> Inl thrown
         | Inr False \<Rightarrow> Inl ''Frame bukan VideoMediaFrame yang dapat dipakai''
         | Inr True \<Rightarrow>
        case surface_part a of
           Inl _ \<Rightarrow> Inl thrown
         | Inr False \<Rightarrow> Inl ''Direct3DSurface null; GPU-backed capture tidak tersedia''
         | Inr True \<Rightarrow>
        case texture_desc a of
           Inl _ \<Rightarrow> Inl thrown
         | Inr (w, h, format) \<Rightarrow> Inr (case t of None \<Rightarrow> 0 | Some ns \<Rightarrow> nat ns, w, h, format))"

definition publish_frame :: "arrival \<Rightarrow> nat \<times> nat \<times> nat \<times> nat \<Rightarrow> camera \<Rightarrow> camera" where
  "publish_frame a r s =
     (let (source_ns, desc) = r;
          s = (case texture_metadata s of None \<Rightarrow> s\<lparr>texture_metadata := Some desc\<rparr> | Some _ \<Rightarrow> s);
          (w, h, format) = the (texture_metadata s);
          n = current_frame_id s + 1
      in s\<lparr>current_frame_id := n, consecutive_failures := 0,
           latest_frame := \<lparr>frame_texture = True, frame_id = n, callback_entry_ns = entered_ns a,
             frame_timestamp_ns = stamped_ns a, frame_source_ns = source_ns, frame_width = w, frame_height = h,
             frame_format = format\<rparr>\<rparr>)"

definition on_frame_arrived :: "arrival \<Rightarrow> camera \<Rightarrow> camera" where
  "on_frame_arrived a s =
     (if \<not> cam_running s then s
      else case received a of Inl message \<Rightarrow> record_failure message s | Inr r \<Rightarrow> publish_frame a r s)"

definition frame_ready :: "nat \<Rightarrow> camera \<Rightarrow> bool" where
  "frame_ready seen_id s \<longleftrightarrow>
     cam_error s \<noteq> None \<or> \<not> cam_running s \<or> (frame_valid (latest_frame s) \<and> frame_id (latest_frame s) \<noteq> seen_id)"

text \<open>The consumer at the moment it wakes up.\<close>

definition wait_for_frame :: "nat \<Rightarrow> camera \<Rightarrow> gpu_frame option result" where
  "wait_for_frame seen_id s =
     (case cam_error s of
        Some e \<Rightarrow> Inl e
      | None \<Rightarrow> Inr (if \<not> frame_ready seen_id s \<or> \<not> cam_running s then None else Some (latest_frame s)))"

section \<open>Everything that can happen to a camera\<close>

inductive camera_step :: "camera_driver \<Rightarrow> camera_config \<Rightarrow> camera \<Rightarrow> camera \<Rightarrow> bool" for drv c where
  starting: "camera_start drv c s = (r, t) \<Longrightarrow> camera_step drv c s t"
| stopping: "camera_step drv c s (camera_stop drv s)"
| arriving: "camera_step drv c s (on_frame_arrived a s)"
| winding: "cam_looping s \<Longrightarrow> cam_stopping s \<Longrightarrow> camera_step drv c s (wind_down drv s)"

section \<open>Frames and failures\<close>

definition camera_ok :: "camera \<Rightarrow> bool" where
  "camera_ok s \<longleftrightarrow>
     (frame_valid (latest_frame s) \<longrightarrow> 0 < current_frame_id s \<and> frame_id (latest_frame s) = current_frame_id s) \<and>
     (cam_looping s \<longrightarrow> cam_thread s) \<and> (cam_running s \<longrightarrow> cam_looping s) \<and>
     (max_consecutive_failures \<le> consecutive_failures s \<longrightarrow> cam_error s \<noteq> None)"

text \<open>What opening, closing and the controls leave alone.\<close>

definition same_frames :: "camera \<Rightarrow> camera \<Rightarrow> bool" where
  "same_frames s t \<longleftrightarrow> latest_frame t = latest_frame s \<and> current_frame_id t = current_frame_id s \<and>
     consecutive_failures t = consecutive_failures s \<and> cam_error t = cam_error s \<and> cam_thread t = cam_thread s \<and>
     cam_looping t = cam_looping s"

lemma same_frames_refl [simp]: "same_frames s s"
  by (simp add: same_frames_def)

lemma same_frames_trans: "same_frames s t \<Longrightarrow> same_frames t u \<Longrightarrow> same_frames s u"
  by (simp add: same_frames_def)

definition leaves_frames :: "(camera, 'a) run \<Rightarrow> bool" where
  "leaves_frames m \<longleftrightarrow> (\<forall>s. same_frames s (snd (m s)))"

lemma leaves_frames_basic [intro]:
  "leaves_frames (lift_result r)" "leaves_frames (ret x)" "leaves_frames get_state"
  "(\<And>s. same_frames s (f s)) \<Longrightarrow> leaves_frames (modify f)"
  by (simp_all add: leaves_frames_def run_simps)

lemma leaves_frames_andThen [intro]:
  assumes "leaves_frames m" and "\<And>x. leaves_frames (f x)"
  shows "leaves_frames (andThen m f)"
  unfolding leaves_frames_def
proof
  fix s
  have "same_frames s (snd (m s))" using assms(1) by (simp add: leaves_frames_def)
  moreover have "same_frames t (snd (f x t))" for x t using assms(2) by (simp add: leaves_frames_def)
  ultimately show "same_frames s (snd (andThen m f s))"
    by (cases "m s"; cases "fst (m s)") (auto simp: andThen_def intro: same_frames_trans)
qed

lemma leaves_frames_if [intro]: "leaves_frames m \<Longrightarrow> leaves_frames n \<Longrightarrow> leaves_frames (if b then m else n)"
  by simp

lemma controls_frames [simp]:
  "same_frames s (configure_constant_frame_rate d s)"
  "same_frames s (restore_legacy_camera_control dev s)"
  "same_frames s (apply_legacy_constant_frame_rate c dev s)"
  by (auto simp: same_frames_def configure_constant_frame_rate_def restore_legacy_camera_control_def
      apply_legacy_constant_frame_rate_def forced_constant_def Let_def split: sum.split bool.split prod.split)

lemma same_frames_more [simp]:
  "same_frames s (restore_legacy_camera_control dev s\<lparr>friendly_name := n\<rparr>)"
  "same_frames s (apply_legacy_constant_frame_rate c dev (s\<lparr>friendly_name := n\<rparr>))"
  "same_frames s (configure_constant_frame_rate d s\<lparr>cam_running := b\<rparr>)"
  using controls_frames(2) [of s dev] controls_frames(1) [of s d] controls_frames(3) [of "s\<lparr>friendly_name := n\<rparr>" c dev]
  by (simp_all add: same_frames_def)

lemma open_frames: "leaves_frames (open_camera drv c)"
  unfolding open_camera_def initialize_capture_def Let_def
  by (intro leaves_frames_andThen leaves_frames_basic; simp?; simp add: same_frames_def)

lemma cleanup_frames: "leaves_frames (cleanup_capture drv)"
  unfolding cleanup_capture_def
  by (intro leaves_frames_andThen leaves_frames_basic leaves_frames_if; simp?; simp add: same_frames_def)

lemma wind_down_frames:
  "latest_frame (wind_down drv s) = empty_frame" "\<not> cam_looping (wind_down drv s)"
  "current_frame_id (wind_down drv s) = current_frame_id s" "consecutive_failures (wind_down drv s) = consecutive_failures s"
  "cam_error (wind_down drv s) = cam_error s" "cam_thread (wind_down drv s) = cam_thread s"
  using cleanup_frames [of drv] by (simp_all add: wind_down_def leaves_frames_def same_frames_def)

text \<open>The running flag is set by opening only.\<close>

lemma cleanup_running: "\<not> cam_running s \<Longrightarrow> \<not> cam_running (snd (cleanup_capture drv s))"
  by (auto simp: cleanup_capture_def andThen_def run_simps restore_legacy_camera_control_def Let_def
      split: sum.splits prod.splits if_splits)

lemma wind_down_stopped: "\<not> cam_running (wind_down drv s)"
  using cleanup_running [of "s\<lparr>cam_running := False\<rparr>" drv] by (simp add: wind_down_def)

lemma new_camera_ok: "camera_ok (new_camera held)"
  by (simp add: camera_ok_def new_camera_def empty_frame_def frame_valid_def max_consecutive_failures_def)

lemma empty_frame_invalid [simp]: "\<not> frame_valid empty_frame"
  by (simp add: empty_frame_def frame_valid_def)

lemma start_cases:
  assumes "camera_start drv c s = (r, t)"
  obtains "cam_thread s" "t = s" "r = Inl (RuntimeError ''Camera sudah dijalankan'')"
  | u where "\<not> cam_thread s" "r = Inr ()" "open_camera drv c (fresh_session s) = (Inr (), u)" "same_frames (fresh_session s) u"
      "t = u\<lparr>cam_thread := True, cam_looping := True\<rparr>"
  | e u where "\<not> cam_thread s" "r = Inl e" "open_camera drv c (fresh_session s) = (Inl e, u)" "same_frames (fresh_session s) u"
      "t = (wind_down drv (u\<lparr>cam_error := Some e\<rparr>))\<lparr>cam_stopping := True\<rparr>"
proof (cases "cam_thread s")
  case True
  with assms have "t = s" "r = Inl (RuntimeError ''Camera sudah dijalankan'')" by (simp_all add: camera_start_def)
  with True show thesis by (rule that(1))
next
  case False
  obtain x u where run: "open_camera drv c (fresh_session s) = (x, u)" by fastforce
  then have "same_frames (fresh_session s) u" using open_frames [of drv c] by (metis leaves_frames_def snd_conv)
  note frames = this
  show thesis
  proof (cases x)
    case (Inl e)
    with False run assms have "r = Inl e" "t = (wind_down drv (u\<lparr>cam_error := Some e\<rparr>))\<lparr>cam_stopping := True\<rparr>"
      by (simp_all add: camera_start_def)
    then show thesis using that(3) False run frames Inl by blast
  next
    case (Inr w)
    with False run assms have "r = Inr ()" "t = u\<lparr>cam_thread := True, cam_looping := True\<rparr>"
      by (simp_all add: camera_start_def)
    then show thesis using that(2) False run frames Inr by (metis (full_types) old.unit.exhaust)
  qed
qed

lemma fresh_session_simps [simp]:
  "latest_frame (fresh_session s) = empty_frame" "current_frame_id (fresh_session s) = 0"
  "consecutive_failures (fresh_session s) = 0" "cam_error (fresh_session s) = None"
  "cam_thread (fresh_session s) = cam_thread s" "cam_looping (fresh_session s) = cam_looping s"
  by (simp_all add: fresh_session_def)

lemma wind_down_ok: "camera_ok s \<Longrightarrow> camera_ok (wind_down drv s)"
  using wind_down_frames [of drv s] wind_down_stopped [of drv s] by (simp add: camera_ok_def)

lemma arrival_ok: "camera_ok s \<Longrightarrow> camera_ok (on_frame_arrived a s)"
proof -
  assume ok: "camera_ok s"
  then have "camera_ok (record_failure m s)" for m
    by (auto simp: camera_ok_def record_failure_def Let_def split: option.split)
  moreover have "camera_ok (publish_frame a r s)" for r
    using ok by (simp add: camera_ok_def publish_frame_def Let_def max_consecutive_failures_def split: prod.split option.split)
  ultimately show ?thesis using ok by (simp add: on_frame_arrived_def split: sum.split)
qed

lemma start_ok: "camera_start drv c s = (r, t) \<Longrightarrow> camera_ok s \<Longrightarrow> camera_ok t"
proof (erule start_cases)
  fix u
  assume "same_frames (fresh_session s) u" "t = u\<lparr>cam_thread := True, cam_looping := True\<rparr>"
  then show "camera_ok t" by (simp add: camera_ok_def same_frames_def max_consecutive_failures_def)
next
  fix e u
  assume u: "same_frames (fresh_session s) u" and t: "t = (wind_down drv (u\<lparr>cam_error := Some e\<rparr>))\<lparr>cam_stopping := True\<rparr>"
  show "camera_ok t"
    using wind_down_frames [of drv "u\<lparr>cam_error := Some e\<rparr>"] wind_down_stopped [of drv "u\<lparr>cam_error := Some e\<rparr>"]
    by (simp add: t camera_ok_def)
qed simp

lemma stop_ok: "camera_ok s \<Longrightarrow> camera_ok (camera_stop drv s)"
proof -
  assume ok: "camera_ok s"
  then have "camera_ok (s\<lparr>cam_stopping := True\<rparr>)" by (simp add: camera_ok_def)
  from wind_down_ok [OF this, of drv] wind_down_frames [of drv "s\<lparr>cam_stopping := True\<rparr>"]
    wind_down_stopped [of drv "s\<lparr>cam_stopping := True\<rparr>"] ok
  show ?thesis by (auto simp: camera_stop_def Let_def camera_ok_def)
qed

lemma camera_step_ok: "camera_step drv c s t \<Longrightarrow> camera_ok s \<Longrightarrow> camera_ok t"
  by (induction rule: camera_step.induct) (auto intro: start_ok stop_ok arrival_ok wind_down_ok)

lemma camera_reach_ok: "(camera_step drv c)\<^sup>*\<^sup>* (new_camera held) s \<Longrightarrow> camera_ok s"
  by (induction rule: rtranclp_induct) (auto intro: new_camera_ok camera_step_ok)

text \<open>What a consumer gets is newer than what it had, and the counter never falls within a session.\<close>

lemma newer_frame:
  assumes "wait_for_frame n s = Inr (Some f)" and "camera_ok s" and "n \<le> current_frame_id s"
  shows "n < frame_id f \<and> frame_id f = current_frame_id s \<and> frame_valid f"
  using assms
  by (auto simp: wait_for_frame_def frame_ready_def camera_ok_def split: option.splits if_splits)

lemma arrival_counter: "current_frame_id s \<le> current_frame_id (on_frame_arrived a s)"
  by (simp add: on_frame_arrived_def record_failure_def publish_frame_def Let_def split: sum.split prod.split option.split)

text \<open>A run of failing callbacks.\<close>

lemma failing_run:
  assumes "\<forall>a \<in> set as. \<exists>m. received a = Inl m" and "cam_running s" and "cam_error s = None"
    and "consecutive_failures s < max_consecutive_failures"
  shows "let t = foldl (\<lambda>s a. on_frame_arrived a s) s as in
    cam_running t \<and> consecutive_failures t = consecutive_failures s + length as \<and>
    failed_reads_count t = failed_reads_count s + length as \<and> latest_frame t = latest_frame s \<and>
    (cam_error t = None \<longleftrightarrow> consecutive_failures t < max_consecutive_failures) \<and>
    (cam_error t = None \<or> cam_stopping t)"
  using assms
proof (induction as rule: rev_induct)
  case (snoc a as)
  define t where "t = foldl (\<lambda>s a. on_frame_arrived a s) s as"
  from snoc have "let t = foldl (\<lambda>s a. on_frame_arrived a s) s as in
      cam_running t \<and> consecutive_failures t = consecutive_failures s + length as \<and>
      failed_reads_count t = failed_reads_count s + length as \<and> latest_frame t = latest_frame s \<and>
      (cam_error t = None \<longleftrightarrow> consecutive_failures t < max_consecutive_failures) \<and> (cam_error t = None \<or> cam_stopping t)"
    by simp
  then have t: "cam_running t" "consecutive_failures t = consecutive_failures s + length as"
    "failed_reads_count t = failed_reads_count s + length as" "latest_frame t = latest_frame s"
    "cam_error t = None \<longleftrightarrow> consecutive_failures t < max_consecutive_failures" "cam_error t = None \<or> cam_stopping t"
    unfolding Let_def t_def [symmetric] by blast+
  from snoc obtain m where "received a = Inl m" by auto
  with t(1) have "on_frame_arrived a t = record_failure m t" by (simp add: on_frame_arrived_def)
  with t show ?case
    by (auto simp: t_def [symmetric] Let_def record_failure_def split: option.split)
qed simp


definition no_frame :: arrival where
  "no_frame = \<lparr>entered_ns = 0, acquired = Inr False, system_time_ns = Inr None, video_part = Inr True,
     surface_part = Inr True, texture_desc = Inr (1280, 720, 103), stamped_ns = 0\<rparr>"


section \<open>The low-light control is put back\<close>

text \<open>
  \<open>held\<close> is what the device held before the client touched it: the device holds it still, or the client
  remembers it and owes its restoration.
\<close>

definition control_kept :: "int \<Rightarrow> camera \<Rightarrow> bool" where
  "control_kept held s \<longleftrightarrow>
     (if legacy_restore_pending s then legacy_original_value s = held \<and> low_light_value s = 0 else low_light_value s = held)"

lemma forced_kept:
  assumes "honest dev" "readable dev" "restore_legacy_control_on_stop c" "control_kept held s"
  shows "control_kept held (apply_legacy_constant_frame_rate c dev s)"
proof -
  obtain ch h where set: "set_legacy dev (friendly_name s) 0 (low_light_value s) = (ch, h)" by fastforce
  have "ch \<Longrightarrow> h = 0" "\<not> ch \<Longrightarrow> h = low_light_value s"
    using set_legacy_true [OF assms(1)] set_legacy_refused [OF assms(1,2)] set by (metis (full_types))+
  moreover have "legacy_supported (query_legacy dev (friendly_name s) (low_light_value s)) \<Longrightarrow>
      legacy_value (query_legacy dev (friendly_name s) (low_light_value s)) = low_light_value s"
    using query_legacy_value [OF assms(1)] .
  ultimately show ?thesis
    using assms(3,4) set
    by (auto simp: apply_legacy_constant_frame_rate_def forced_constant_def control_kept_def Let_def split: if_splits)
qed

lemma restored_kept:
  assumes "honest dev" "readable dev" "control_kept held s"
  shows "control_kept held (restore_legacy_camera_control dev s)"
proof -
  obtain ch h where set: "set_legacy dev (friendly_name s) (legacy_original_value s) (low_light_value s) = (ch, h)" by fastforce
  have "ch \<Longrightarrow> h = legacy_original_value s" "\<not> ch \<Longrightarrow> h = low_light_value s"
    using set_legacy_true [OF assms(1)] set_legacy_refused [OF assms(1,2)] set by (metis (full_types))+
  then show ?thesis
    using assms(3) set by (auto simp: restore_legacy_camera_control_def control_kept_def Let_def split: if_splits)
qed

definition keeps_control :: "int \<Rightarrow> (camera, 'a) run \<Rightarrow> bool" where
  "keeps_control held m \<longleftrightarrow> (\<forall>s. control_kept held s \<longrightarrow> control_kept held (snd (m s)))"

lemma keeps_control_basic [intro]:
  "keeps_control held (lift_result r)" "keeps_control held (ret x)" "keeps_control held get_state"
  "(\<And>s. control_kept held s \<Longrightarrow> control_kept held (f s)) \<Longrightarrow> keeps_control held (modify f)"
  by (simp_all add: keeps_control_def run_simps)

lemma keeps_control_andThen [intro]:
  "keeps_control held m \<Longrightarrow> (\<And>x. keeps_control held (f x)) \<Longrightarrow> keeps_control held (andThen m f)"
  unfolding keeps_control_def andThen_def by (fastforce split: prod.split sum.split)

lemma keeps_control_if [intro]: "keeps_control held m \<Longrightarrow> keeps_control held n \<Longrightarrow> keeps_control held (if b then m else n)"
  by simp

lemma control_kept_more [simp]:
  "control_kept held (s\<lparr>friendly_name := n\<rparr>) = control_kept held s"
  "control_kept held (s\<lparr>capture_open := b\<rparr>) = control_kept held s"
  "control_kept held (s\<lparr>reader_open := b\<rparr>) = control_kept held s"
  "control_kept held (s\<lparr>handler_registered := b\<rparr>) = control_kept held s"
  "control_kept held (s\<lparr>cam_running := b\<rparr>) = control_kept held s"
  "control_kept held (s\<lparr>cam_looping := b\<rparr>) = control_kept held s"
  "control_kept held (s\<lparr>cam_thread := b\<rparr>) = control_kept held s"
  "control_kept held (s\<lparr>cam_stopping := b\<rparr>) = control_kept held s"
  "control_kept held (s\<lparr>cam_error := e\<rparr>) = control_kept held s"
  "control_kept held (s\<lparr>latest_frame := l\<rparr>) = control_kept held s"
  "control_kept held (s\<lparr>active_mode := m\<rparr>) = control_kept held s"
  "control_kept held (configure_constant_frame_rate d s) = control_kept held s"
  "control_kept held (fresh_session s) = control_kept held s"
  "control_kept held (on_frame_arrived a s) = control_kept held s"
  by (auto simp: control_kept_def configure_constant_frame_rate_def fresh_session_def on_frame_arrived_def
      record_failure_def publish_frame_def Let_def split: sum.split bool.split prod.split option.split)

lemma step_control_kept:
  assumes "camera_step drv c s t" and "honest (low_light drv)" "readable (low_light drv)" "restore_legacy_control_on_stop c"
    and "control_kept held s"
  shows "control_kept held t"
proof -
  have opened: "keeps_control held (open_camera drv c)"
    unfolding open_camera_def initialize_capture_def Let_def
    by (intro keeps_control_andThen keeps_control_basic; simp?; simp add: forced_kept [OF assms(2,3,4)])
  have "keeps_control held (cleanup_capture drv)"
    unfolding cleanup_capture_def
    by (intro keeps_control_andThen keeps_control_basic keeps_control_if; simp?; simp add: restored_kept [OF assms(2,3)])
  then have down: "control_kept held (wind_down drv u)" if "control_kept held u" for u
    using that by (simp add: wind_down_def keeps_control_def)
  from assms(1) show ?thesis
  proof cases
    case (starting r)
    then show ?thesis
    proof (cases rule: start_cases)
      case (2 u)
      then show ?thesis using opened assms(5) by (metis control_kept_more(6,7,13) keeps_control_def snd_conv)
    next
      case (3 e u)
      then have "control_kept held u" using opened assms(5) by (metis control_kept_more(13) keeps_control_def snd_conv)
      then show ?thesis using 3 down [of "u\<lparr>cam_error := Some e\<rparr>"] by simp
    qed (use assms(5) in simp)
  next
    case stopping
    then show ?thesis using down [of "s\<lparr>cam_stopping := True\<rparr>"] assms(5) by (auto simp: camera_stop_def Let_def)
  qed (use assms(5) down in auto)
qed

lemma reach_control_kept:
  assumes "(camera_step drv c)\<^sup>*\<^sup>* (new_camera held) s"
    and "honest (low_light drv)" "readable (low_light drv)" "restore_legacy_control_on_stop c"
  shows "control_kept held s"
  using assms(1)
proof (induction rule: rtranclp_induct)
  case base
  then show ?case by (simp add: control_kept_def new_camera_def)
next
  case (step t u)
  then show ?case using step_control_kept [OF _ assms(2-4)] by blast
qed

lemma closed_restores:
  assumes "remove_handler drv = Inr ()" "close_reader drv = Inr ()" "close_capture drv = Inr ()"
  obtains s' where "snd (cleanup_capture drv s) = (restore_legacy_camera_control (low_light drv) s')\<lparr>friendly_name := []\<rparr>"
    "friendly_name s' = friendly_name s" "legacy_restore_pending s' = legacy_restore_pending s"
    "legacy_original_value s' = legacy_original_value s" "low_light_value s' = low_light_value s"
proof -
  let ?h = "if reader_open s then False else handler_registered s"
  have "snd (cleanup_capture drv s) =
      (restore_legacy_camera_control (low_light drv) (s\<lparr>handler_registered := ?h, reader_open := False, capture_open := False\<rparr>))
        \<lparr>friendly_name := []\<rparr>"
    using assms
    by (cases s; cases "reader_open s"; cases "handler_registered s"; cases "capture_open s") (simp_all add: cleanup_capture_def run_simps)
  then show thesis by (rule that) simp_all
qed

text \<open>
  C27: the client gives the camera back as it found it. Whatever starts, stops, callbacks and failures
  came before, stopping a running camera leaves property 19 of the device at the value it had before
  the client touched it, when the device answers truthfully, its property can be read back, the
  capture closes without an exception, and the device takes the old value.
\<close>

theorem low_light_restored:
  assumes "(camera_step drv c)\<^sup>*\<^sup>* (new_camera held) s"
    and "honest (low_light drv)" "readable (low_light drv)" "restore_legacy_control_on_stop c"
    and "cam_looping s" "friendly_name s \<noteq> []"
    and "remove_handler drv = Inr ()" "close_reader drv = Inr ()" "close_capture drv = Inr ()"
    and "fst (set_legacy (low_light drv) (friendly_name s) held 0)"
  shows "low_light_value (camera_stop drv s) = held \<and> \<not> legacy_restore_pending (camera_stop drv s)"
proof -
  have kept: "control_kept held s" by (rule reach_control_kept [OF assms(1-4)])
  have thread: "cam_thread s" using camera_reach_ok [OF assms(1)] assms(5) by (simp add: camera_ok_def)
  define u where "u = s\<lparr>cam_stopping := True, cam_running := False\<rparr>"
  obtain u' where u': "snd (cleanup_capture drv u) = (restore_legacy_camera_control (low_light drv) u')\<lparr>friendly_name := []\<rparr>"
    "friendly_name u' = friendly_name s" "legacy_restore_pending u' = legacy_restore_pending s"
    "legacy_original_value u' = legacy_original_value s" "low_light_value u' = low_light_value s"
    by (rule closed_restores [OF assms(7-9), of u]) (simp add: u_def)
  have stop: "low_light_value (camera_stop drv s) = low_light_value (restore_legacy_camera_control (low_light drv) u')"
    "legacy_restore_pending (camera_stop drv s) = legacy_restore_pending (restore_legacy_camera_control (low_light drv) u')"
    using thread assms(5) u'(1) by (simp_all add: camera_stop_def Let_def wind_down_def u_def)
  obtain h where set: "set_legacy (low_light drv) (friendly_name s) held 0 = (True, h)"
    using assms(10) by (cases "set_legacy (low_light drv) (friendly_name s) held 0") simp
  then have "h = held" by (rule set_legacy_true [OF assms(2)])
  with set kept assms(6) u' show ?thesis
    unfolding stop by (auto simp: restore_legacy_camera_control_def control_kept_def split: if_splits)
qed

text \<open>A camera with the control, at value 1, and a driver that goes through.\<close>

definition sample_low_light :: low_light_device where
  "sample_low_light = \<lparr>video_devices = Inr (Some [\<lparr>property_bag = Some (Some ''CAM''), bind_filter = Inr ()\<rparr>]),
     control_interface = True, read_property = (\<lambda>held. Some (held, 2)), read_range = None,
     write_property = (\<lambda>wanted held. (True, wanted))\<rparr>"

definition plain_controls :: control_device where
  "plain_controls = \<lparr>has_controller = Inr False, priority_answer = Inr False, priority_disable = Inr (), priority_reading = Inr False,
     exposure_answer = Inr False, auto_reading = Inr False, value_reading = Inr 0, min_reading = Inr 0, max_reading = Inr 0,
     step_reading = Inr 0\<rparr>"

definition sample_driver :: camera_driver where
  "sample_driver = \<lparr>apartment = Inr (), source_groups = Inr [sample_group], low_light = sample_low_light, make_capture = Inr (),
     open_capture = (\<lambda>_. Inr ()), capture_controls = (\<lambda>_. plain_controls), opened_sources = Inr sample_sources,
     set_format = (\<lambda>_. Inr ()), current_format = Inr (sample_format 30 ''NV12''), create_reader = (\<lambda>_. Inr ()),
     set_acquisition = (\<lambda>_. Inr ()), add_handler = Inr (), start_reader = Inr Success, remove_handler = Inr (),
     close_reader = Inr (), close_capture = Inr ()\<rparr>"

lemma sample_low_light_laws: "honest sample_low_light" "readable sample_low_light"
  "query_legacy sample_low_light ''cam'' h = no_legacy\<lparr>device_found := True, control_available := True,
     legacy_supported := True, legacy_value := h, legacy_flags := 2\<rparr>"
  "set_legacy sample_low_light ''cam'' v h = (True, v)"
proof -
  have same: "map upper ''CAM'' = map upper ''cam''" by code_simp
  have found: "get_camera_control sample_low_light ''cam'' = Inr (True, True)"
    using same by (simp add: get_camera_control_def find_camera_filter_def sample_low_light_def)
  show "honest sample_low_light" "readable sample_low_light" by (simp_all add: honest_def readable_def sample_low_light_def)
  show "query_legacy sample_low_light ''cam'' h = no_legacy\<lparr>device_found := True, control_available := True,
     legacy_supported := True, legacy_value := h, legacy_flags := 2\<rparr>"
    unfolding query_legacy_def found by (simp add: sample_low_light_def no_legacy_def)
  show "set_legacy sample_low_light ''cam'' v h = (True, v)"
    unfolding set_legacy_def found by (simp add: sample_low_light_def)
qed

lemma sample_group_chosen: "select_group default_camera_config [sample_group] = Inr sample_group"
  by code_simp

lemma sample_started:
  "\<exists>s. camera_start sample_driver default_camera_config (new_camera 1) = (Inr (), s) \<and> cam_looping s \<and> cam_running s \<and>
     friendly_name s = ''cam'' \<and> low_light_value s = 0 \<and> latest_frame s = empty_frame \<and> current_frame_id s = 0 \<and>
     cam_error s = None \<and> texture_metadata s = None"
proof -
  have group: "group_name sample_group = ''cam''" by (simp add: sample_group_def)
  show ?thesis
    using sample_selection sample_group_chosen group sample_low_light_laws(3,4)
    by (simp add: camera_start_def new_camera_def fresh_session_def open_camera_def initialize_capture_def sample_driver_def
        run_simps Let_def start_failure_def configure_constant_frame_rate_def plain_controls_def
        apply_legacy_constant_frame_rate_def forced_constant_def default_camera_config_def)
qed

theorem low_light_restored_witness:
  "\<exists>s. camera_start sample_driver default_camera_config (new_camera 1) = (Inr (), s) \<and>
     low_light_value s = 0 \<and> low_light_value (camera_stop sample_driver s) = 1"
proof -
  obtain s where s: "camera_start sample_driver default_camera_config (new_camera 1) = (Inr (), s)" "cam_looping s"
    "friendly_name s = ''cam''" "low_light_value s = 0"
    using sample_started by blast
  have reach: "(camera_step sample_driver default_camera_config)\<^sup>*\<^sup>* (new_camera 1) s"
    using camera_step.starting [OF s(1)] by (rule r_into_rtranclp)
  have dev: "low_light sample_driver = sample_low_light" by (simp add: sample_driver_def)
  have "low_light_value (camera_stop sample_driver s) = 1 \<and> \<not> legacy_restore_pending (camera_stop sample_driver s)"
    by (rule low_light_restored [OF reach])
      (simp_all add: dev sample_low_light_laws s, simp_all add: sample_driver_def default_camera_config_def)
  with s show ?thesis by blast
qed

text \<open>
  Readability is needed: when the write succeeds and reading back fails, \<^verbatim>\<open>set_legacy_low_light_priority\<close>
  reports a failure, and the value the client has overwritten is not remembered.
\<close>

definition mute_low_light :: low_light_device where
  "mute_low_light = sample_low_light\<lparr>read_property := (\<lambda>held. if held = 0 then None else Some (held, 2))\<rparr>"

lemma unreadable_original_lost:
  "honest mute_low_light \<and>
   (let s = apply_legacy_constant_frame_rate default_camera_config mute_low_light ((new_camera 1)\<lparr>friendly_name := ''cam''\<rparr>)
    in low_light_value s = 0 \<and> \<not> legacy_restore_pending s)"
proof -
  have same: "map upper ''CAM'' = map upper ''cam''" by code_simp
  have found: "get_camera_control mute_low_light ''cam'' = Inr (True, True)"
    using same by (simp add: get_camera_control_def find_camera_filter_def sample_low_light_def mute_low_light_def)
  show ?thesis
    by (simp add: apply_legacy_constant_frame_rate_def forced_constant_def query_legacy_def set_legacy_def found new_camera_def
        default_camera_config_def honest_def Let_def no_legacy_def)
      (simp add: mute_low_light_def sample_low_light_def)
qed

end
