(* ===== verification/Scrfd.thy ===== *)
theory Scrfd
  imports Faces
begin

text \<open>
  The face detector, \<^verbatim>\<open>src/vision_runtime/scrfd\<close>: its configuration and model checks, the letterbox
  transform of the preprocessor, the assignment of the nine output tensors to the three strides, the
  decoding of anchors, non-maximum suppression and the mapping back to the camera frame
  (\<^verbatim>\<open>scrfd.cpp\<close>, \<^verbatim>\<open>gpu_preprocessor.cpp\<close>, \<^verbatim>\<open>detector.cpp\<close>). Direct3D and WinML are the record
  \<open>scrfd_device\<close>. Messages leave out HRESULTs and paths.
\<close>

section \<open>Configuration and model\<close>

record scrfd_config =
  scrfd_path :: string
  scrfd_width :: nat
  scrfd_height :: nat
  score_threshold :: single
  nms_threshold :: single

definition default_scrfd_config :: scrfd_config where
  "default_scrfd_config = \<lparr>scrfd_path = [], scrfd_width = 640, scrfd_height = 640,
     score_threshold = single_lit (1 / 2), nms_threshold = single_lit (4 / 10)\<rparr>"

definition validate_scrfd_config :: "(string \<Rightarrow> bool) \<Rightarrow> scrfd_config \<Rightarrow> unit result" where
  "validate_scrfd_config exists c =
     (if scrfd_path c = [] then Inl (InvalidArgument ''ScrfdConfig.model_path belum diisi'')
      else if \<not> exists (scrfd_path c) then Inl (InvalidArgument ''Model SCRFD tidak ditemukan'')
      else if scrfd_width c \<noteq> 640 \<or> scrfd_height c \<noteq> 640
      then Inl (InvalidArgument ''SCRFD v3.1 baseline menggunakan original input 640x640'')
      else if score_threshold c < 0 \<or> score_threshold c > 1
      then Inl (InvalidArgument ''score_threshold harus berada pada rentang 0..1'')
      else if nms_threshold c < 0 \<or> nms_threshold c > 1
      then Inl (InvalidArgument ''nms_threshold harus berada pada rentang 0..1'')
      else Inr ())"

definition load_scrfd :: "learning_model \<Rightarrow> unit result" where
  "load_scrfd m =
     (case model_inputs m of
        [i] \<Rightarrow>
          if \<not> feature_tensor i then Inl (RuntimeError ''Input original SCRFD bukan TensorFeatureDescriptor'')
          else require (length (model_outputs m) = 9) (RuntimeError ''SCRFD det_500m diharapkan memiliki 9 output'')
      | _ \<Rightarrow> Inl (RuntimeError ''det_500m.onnx diharapkan memiliki tepat satu input''))"

section \<open>Letterbox\<close>

definition dxgi_unknown :: nat where
  "dxgi_unknown = 0"

definition dxgi_nv12 :: nat where
  "dxgi_nv12 = 103"

definition validate_gpu_frame :: "gpu_frame \<Rightarrow> unit result" where
  "validate_gpu_frame f =
     (if \<not> frame_valid f then Inl (InvalidArgument ''Detector menerima GpuFrame yang tidak valid'')
      else if frame_width f = 0 \<or> frame_height f = 0
      then Inl (InvalidArgument ''Detector menerima GpuFrame dengan dimensi nol'')
      else if frame_format f = dxgi_unknown
      then Inl (InvalidArgument ''Detector menerima GpuFrame dengan DXGI format UNKNOWN'')
      else Inr ())"

definition single_nat :: "nat \<Rightarrow> single" where
  "single_nat n = single_lit (of_nat n)"

record letterbox =
  lb_scale :: single
  lb_pad_x :: single
  lb_pad_y :: single
  source_width :: nat
  source_height :: nat

definition letterbox_for :: "scrfd_config \<Rightarrow> nat \<times> nat \<Rightarrow> letterbox" where
  "letterbox_for c texture =
     (let scale_x = single_nat (scrfd_width c) / single_nat (fst texture);
          scale_y = single_nat (scrfd_height c) / single_nat (snd texture);
          scale = std_min scale_x scale_y;
          resized_width = single_nat (fst texture) * scale;
          resized_height = single_nat (snd texture) * scale
      in \<lparr>lb_scale = scale,
          lb_pad_x = (single_nat (scrfd_width c) - resized_width) * single_lit (1 / 2),
          lb_pad_y = (single_nat (scrfd_height c) - resized_height) * single_lit (1 / 2),
          source_width = fst texture, source_height = snd texture\<rparr>)"

section \<open>Output tensors\<close>

record tensor_blob =
  blob_shape :: "int list"
  blob_data :: "single list"

definition last_dimension :: "tensor_blob \<Rightarrow> nat" where
  "last_dimension b = (if blob_shape b = [] then 0 else if last (blob_shape b) \<le> 0 then 0 else nat (last (blob_shape b)))"

definition row_count :: "tensor_blob \<Rightarrow> nat" where
  "row_count b =
     (let dim = last_dimension b
      in if dim = 0 \<or> length (blob_data b) mod dim \<noteq> 0 then 0 else length (blob_data b) div dim)"

definition strides :: "nat list" where
  "strides = [8, 16, 32]"

definition anchor_count :: "nat \<Rightarrow> nat \<Rightarrow> nat \<Rightarrow> nat" where
  "anchor_count w h stride = w div stride * (h div stride) * 2"

definition stride_for_anchor_count :: "nat \<Rightarrow> nat \<Rightarrow> nat \<Rightarrow> nat" where
  "stride_for_anchor_count anchors w h =
     (case find (\<lambda>stride. anchors = anchor_count w h stride) strides of None \<Rightarrow> 0 | Some stride \<Rightarrow> stride)"

text \<open>A level of the pyramid; a tensor that has not arrived is \<open>None\<close>.\<close>

record level_blobs =
  level_stride :: nat
  level_anchors :: nat
  level_scores :: "tensor_blob option"
  level_bbox :: "tensor_blob option"
  level_kps :: "tensor_blob option"

definition empty_level :: level_blobs where
  "empty_level = \<lparr>level_stride = 0, level_anchors = 0, level_scores = None, level_bbox = None, level_kps = None\<rparr>"

definition place_blob :: "scrfd_config \<Rightarrow> (nat \<rightharpoonup> level_blobs) \<Rightarrow> tensor_blob \<Rightarrow> (nat \<rightharpoonup> level_blobs) result" where
  "place_blob c levels b =
     (let dim = last_dimension b; rows = row_count b;
          stride = stride_for_anchor_count rows (scrfd_width c) (scrfd_height c)
      in if stride = 0 then Inl (RuntimeError ''Shape output SCRFD tidak cocok dengan stride 8/16/32'')
         else let level = (case levels stride of None \<Rightarrow> empty_level | Some l \<Rightarrow> l);
                  level = level\<lparr>level_stride := stride, level_anchors := rows\<rparr>
              in if dim = 1 then Inr (levels(stride \<mapsto> level\<lparr>level_scores := Some b\<rparr>))
                 else if dim = 4 then Inr (levels(stride \<mapsto> level\<lparr>level_bbox := Some b\<rparr>))
                 else if dim = 10 then Inr (levels(stride \<mapsto> level\<lparr>level_kps := Some b\<rparr>))
                 else Inl (RuntimeError ''Output SCRFD memiliki dimensi terakhir yang tidak dikenal''))"

fun place_blobs :: "scrfd_config \<Rightarrow> (nat \<rightharpoonup> level_blobs) \<Rightarrow> tensor_blob list \<Rightarrow> (nat \<rightharpoonup> level_blobs) result" where
  "place_blobs c levels [] = Inr levels"
| "place_blobs c levels (b # bs) = bind_result (place_blob c levels b) (\<lambda>levels'. place_blobs c levels' bs)"

definition complete_level :: "level_blobs \<Rightarrow> bool" where
  "complete_level l \<longleftrightarrow> level_scores l \<noteq> None \<and> level_bbox l \<noteq> None \<and> level_kps l \<noteq> None"

definition take_level :: "(nat \<rightharpoonup> level_blobs) \<Rightarrow> nat \<Rightarrow> level_blobs result" where
  "take_level levels stride =
     (case levels stride of
        None \<Rightarrow> Inl (RuntimeError ''Output SCRFD untuk stride tidak ditemukan'')
      | Some l \<Rightarrow> if complete_level l then Inr l else Inl (RuntimeError ''Output SCRFD stride tidak lengkap''))"

definition organize_outputs :: "scrfd_config \<Rightarrow> tensor_blob list \<Rightarrow> level_blobs list result" where
  "organize_outputs c blobs = bind_result (place_blobs c Map.empty blobs) (\<lambda>levels. mapM (take_level levels) strides)"

section \<open>Decoding\<close>

definition level_data :: "tensor_blob option \<Rightarrow> single list" where
  "level_data b = (case b of None \<Rightarrow> [] | Some t \<Rightarrow> blob_data t)"

definition decode_anchor :: "nat \<Rightarrow> nat \<Rightarrow> single \<Rightarrow> single list \<Rightarrow> single list \<Rightarrow> nat \<Rightarrow> face_detection" where
  "decode_anchor stride feat_width score bbox kps i =
     (let cell = i div 2; grid_x = cell mod feat_width; grid_y = cell div feat_width;
          anchor_x = single_nat (grid_x * stride); anchor_y = single_nat (grid_y * stride);
          s = single_nat stride; o4 = i * 4; o10 = i * 10
      in \<lparr>box_x1 = anchor_x - bbox ! o4 * s, box_y1 = anchor_y - bbox ! (o4 + 1) * s,
          box_x2 = anchor_x + bbox ! (o4 + 2) * s, box_y2 = anchor_y + bbox ! (o4 + 3) * s,
          detection_score = score,
          landmarks = map (\<lambda>p. \<lparr>point_x = anchor_x + kps ! (o10 + p * 2) * s,
                                point_y = anchor_y + kps ! (o10 + p * 2 + 1) * s\<rparr>) [0..<5]\<rparr>)"

definition decode_level :: "scrfd_config \<Rightarrow> level_blobs \<Rightarrow> face_detection list result" where
  "decode_level c l =
     (let scores = level_data (level_scores l); bbox = level_data (level_bbox l); kps = level_data (level_kps l);
          stride = level_stride l; feat_width = scrfd_width c div stride
      in if length scores \<noteq> level_anchors l \<or> length bbox \<noteq> level_anchors l * 4 \<or> length kps \<noteq> level_anchors l * 10
         then Inl (RuntimeError ''Jumlah elemen output SCRFD tidak konsisten'')
         else Inr (map (\<lambda>i. decode_anchor stride feat_width (scores ! i) bbox kps i)
                (filter (\<lambda>i. \<not> scores ! i < score_threshold c) [0..<level_anchors l])))"

section \<open>Non-maximum suppression\<close>

definition iou_inclusive :: "face_detection \<Rightarrow> face_detection \<Rightarrow> single" where
  "iou_inclusive a b =
     (let xx1 = std_max (box_x1 a) (box_x1 b); yy1 = std_max (box_y1 a) (box_y1 b);
          xx2 = std_min (box_x2 a) (box_x2 b); yy2 = std_min (box_y2 a) (box_y2 b);
          width = std_max 0 (xx2 - xx1 + 1); height = std_max 0 (yy2 - yy1 + 1);
          intersection = width * height;
          area_a = std_max 0 (box_x2 a - box_x1 a + 1) * std_max 0 (box_y2 a - box_y1 a + 1);
          area_b = std_max 0 (box_x2 b - box_x1 b + 1) * std_max 0 (box_y2 b - box_y1 b + 1);
          denominator = area_a + area_b - intersection
      in if denominator \<le> 0 then 0 else intersection / denominator)"

text \<open>
  \<open>std::sort\<close> by falling score. Equal scores may come out in any order; the model keeps the order of
  the anchors.
\<close>

fun insert_by_score :: "face_detection \<Rightarrow> face_detection list \<Rightarrow> face_detection list" where
  "insert_by_score d [] = [d]"
| "insert_by_score d (e # es) = (if detection_score e > detection_score d then e # insert_by_score d es else d # e # es)"

definition sort_by_score :: "face_detection list \<Rightarrow> face_detection list" where
  "sort_by_score ds = foldr insert_by_score ds []"

definition suppressed :: "single \<Rightarrow> face_detection list \<Rightarrow> face_detection \<Rightarrow> bool" where
  "suppressed threshold kept d \<longleftrightarrow> list_ex (\<lambda>a. iou_inclusive d a > threshold) kept"

fun suppress :: "single \<Rightarrow> face_detection list \<Rightarrow> face_detection list \<Rightarrow> face_detection list" where
  "suppress threshold kept [] = kept"
| "suppress threshold kept (d # ds) =
     suppress threshold (if suppressed threshold kept d then kept else kept @ [d]) ds"

definition nms :: "single \<Rightarrow> face_detection list \<Rightarrow> face_detection list" where
  "nms threshold candidates = suppress threshold [] (sort_by_score candidates)"

section \<open>Back to the camera frame\<close>

definition clampf :: "single \<Rightarrow> single \<Rightarrow> single \<Rightarrow> single" where
  "clampf v low high = std_max low (std_min v high)"

definition to_camera :: "letterbox \<Rightarrow> gpu_frame \<Rightarrow> face_detection \<Rightarrow> face_detection" where
  "to_camera t f d =
     (let inverse = 1 / lb_scale t; max_x = single_nat (frame_width f - 1); max_y = single_nat (frame_height f - 1);
          cx = (\<lambda>v. clampf ((v - lb_pad_x t) * inverse) 0 max_x);
          cy = (\<lambda>v. clampf ((v - lb_pad_y t) * inverse) 0 max_y)
      in d\<lparr>box_x1 := cx (box_x1 d), box_y1 := cy (box_y1 d), box_x2 := cx (box_x2 d), box_y2 := cy (box_y2 d),
           landmarks := map (\<lambda>p. \<lparr>point_x = cx (point_x p), point_y = cy (point_y p)\<rparr>) (landmarks d)\<rparr>)"

definition decode :: "scrfd_config \<Rightarrow> letterbox \<Rightarrow> level_blobs list \<Rightarrow> gpu_frame \<Rightarrow> face_detection list result" where
  "decode c t levels f =
     bind_result (mapM (decode_level c) levels) (\<lambda>cs.
       Inr (filter (\<lambda>d. box_x2 d > box_x1 d \<and> box_y2 d > box_y1 d)
              (map (to_camera t f) (nms (nms_threshold c) (concat cs)))))"

section \<open>The detector\<close>

text \<open>
  An output of the network as WinML hands it over: some other value, or a float tensor of which
  \<open>GetMany\<close> delivers a number of elements.
\<close>

record tensor_view =
  view_shape :: "int list"
  view_elements :: "single list"
  view_delivered :: nat

datatype output_value = OtherValue | FloatTensor tensor_view

text \<open>
  What Direct3D and WinML do for the detector. \<open>make_preprocessor\<close> yields the size of the camera texture;
  \<open>evaluate_session\<close> sees whether an input tensor is bound and yields the lookup of the i-th output.
\<close>

record scrfd_device =
  make_preprocessor :: "gpu_frame \<Rightarrow> (nat \<times> nat) result"
  make_session :: "unit result"
  make_binding :: "unit result"
  dispatch_preprocess :: "gpu_frame \<Rightarrow> unit result"
  bind_input :: "unit result"
  evaluate_session :: "bool \<Rightarrow> gpu_frame \<Rightarrow> (nat \<Rightarrow> output_value result) result"

record scrfd_runtime =
  sc_letterbox :: "letterbox option"
  sc_session :: bool
  sc_binding :: bool
  sc_bound :: bool

definition unloaded_scrfd :: scrfd_runtime where
  "unloaded_scrfd = \<lparr>sc_letterbox = None, sc_session = False, sc_binding = False, sc_bound = False\<rparr>"

text \<open>\<open>rethrow_stage\<close> on a WinRT error; the wider handler also renames a \<open>std::exception\<close>.\<close>

definition stage :: "string \<Rightarrow> 'a result \<Rightarrow> 'a result" where
  "stage name r = (case r of Inl HResultError \<Rightarrow> Inl (RuntimeError name) | _ \<Rightarrow> r)"

definition whole_stage :: "string \<Rightarrow> 'a result \<Rightarrow> 'a result" where
  "whole_stage name r = (case r of Inl e \<Rightarrow> if e = NullHandle then Inl e else Inl (RuntimeError name) | Inr x \<Rightarrow> Inr x)"

definition check_source :: "gpu_frame \<Rightarrow> unit result" where
  "check_source f =
     bind_result (validate_gpu_frame f) (\<lambda>_.
       require (frame_format f = dxgi_nv12) (InvalidArgument ''SCRFD GPU preprocessor saat ini membutuhkan DXGI_FORMAT_NV12''))"

definition create_preprocessing :: "scrfd_device \<Rightarrow> scrfd_config \<Rightarrow> gpu_frame \<Rightarrow> letterbox result" where
  "create_preprocessing dev c f =
     bind_result (check_source f) (\<lambda>_.
     bind_result (require (scrfd_width c \<noteq> 0 \<and> scrfd_height c \<noteq> 0) (InvalidArgument ''Ukuran input SCRFD tidak boleh nol'')) (\<lambda>_.
     bind_result (require (scrfd_width c = 640 \<and> scrfd_height c = 640)
        (InvalidArgument ''Baseline SCRFD dikunci ke input original 640x640'')) (\<lambda>_.
     bind_result (make_preprocessor dev f) (\<lambda>texture. Inr (letterbox_for c texture)))))"

definition preprocess_frame :: "scrfd_device \<Rightarrow> letterbox \<Rightarrow> gpu_frame \<Rightarrow> unit result" where
  "preprocess_frame dev t f =
     bind_result (validate_gpu_frame f) (\<lambda>_.
       if frame_width f \<noteq> source_width t \<or> frame_height f \<noteq> source_height t \<or> frame_format f \<noteq> dxgi_nv12
       then Inl (InvalidArgument ''Format/dimensi camera frame berubah setelah SCRFD preprocessor diinisialisasi'')
       else dispatch_preprocess dev f)"

definition initialize_scrfd :: "scrfd_device \<Rightarrow> scrfd_config \<Rightarrow> gpu_frame \<Rightarrow> (scrfd_runtime, unit) run" where
  "initialize_scrfd dev c f =
     andThen (lift_result (whole_stage ''create GPU preprocessor'' (create_preprocessing dev c f))) (\<lambda>t.
     andThen (modify (\<lambda>rt. rt\<lparr>sc_letterbox := Some t\<rparr>)) (\<lambda>_.
     andThen (lift_result (stage ''LearningModelSession(GPU device)'' (make_session dev))) (\<lambda>_.
     andThen (modify (\<lambda>rt. rt\<lparr>sc_session := True\<rparr>)) (\<lambda>_.
     andThen (lift_result (stage ''LearningModelBinding'' (make_binding dev))) (\<lambda>_.
     andThen (modify (\<lambda>rt. rt\<lparr>sc_binding := True\<rparr>)) (\<lambda>_.
     andThen (lift_result (whole_stage ''first GPU preprocess'' (preprocess_frame dev t f))) (\<lambda>_.
     andThen (lift_result (stage ''Bind input tensor'' (bind_input dev))) (\<lambda>_.
       modify (\<lambda>rt. rt\<lparr>sc_bound := True\<rparr>)))))))))"

definition copy_tensor_data :: "tensor_view \<Rightarrow> single list result" where
  "copy_tensor_data v =
     (if view_elements v \<noteq> [] \<and> view_delivered v \<noteq> length (view_elements v)
      then Inl (RuntimeError ''WinML hanya mengembalikan sebagian output tensor'')
      else Inr (view_elements v))"

definition read_output :: "(nat \<Rightarrow> output_value result) \<Rightarrow> nat \<Rightarrow> tensor_blob result" where
  "read_output output_map i =
     bind_result (output_map i) (\<lambda>value. case value of
         OtherValue \<Rightarrow> Inl (RuntimeError ''Output SCRFD bukan TensorFloat'')
       | FloatTensor v \<Rightarrow>
           bind_result (copy_tensor_data v) (\<lambda>elements. Inr \<lparr>blob_shape = view_shape v, blob_data = elements\<rparr>))"

definition evaluate_outputs :: "scrfd_device \<Rightarrow> learning_model \<Rightarrow> gpu_frame \<Rightarrow> (scrfd_runtime, tensor_blob list) run" where
  "evaluate_outputs dev m f = andThen get_state (\<lambda>rt.
     if \<not> sc_session rt then throw NullHandle
     else andThen (lift_result (stage ''LearningModelSession::Evaluate''
                     (evaluate_session dev (sc_binding rt \<and> sc_bound rt) f))) (\<lambda>output_map.
          lift_result (mapM (read_output output_map) [0..<length (model_outputs m)])))"

definition current_letterbox :: "scrfd_runtime \<Rightarrow> letterbox" where
  "current_letterbox rt = (case sc_letterbox rt of Some t \<Rightarrow> t
     | None \<Rightarrow> \<lparr>lb_scale = 1, lb_pad_x = 0, lb_pad_y = 0, source_width = 0, source_height = 0\<rparr>)"

definition detect ::
  "scrfd_device \<Rightarrow> scrfd_config \<Rightarrow> learning_model \<Rightarrow> gpu_frame \<Rightarrow> (scrfd_runtime, face_detection list) run" where
  "detect dev c m f =
     andThen (lift_result (validate_gpu_frame f)) (\<lambda>_.
     andThen get_state (\<lambda>rt.
     andThen (case sc_letterbox rt of
                None \<Rightarrow> initialize_scrfd dev c f
              | Some t \<Rightarrow> lift_result (preprocess_frame dev t f)) (\<lambda>_.
     andThen (evaluate_outputs dev m f) (\<lambda>blobs.
     andThen (lift_result (organize_outputs c blobs)) (\<lambda>levels.
     andThen get_state (\<lambda>rt'.
       lift_result (decode c (current_letterbox rt') levels f)))))))"

section \<open>Properties\<close>

lemma single_nat_nonneg: "0 \<le> single_nat n"
proof -
  have "fl_le (fl_round Binary32 0) (fl_round Binary32 (of_nat n))" by (rule fl_round_mono) simp_all
  moreover have "fl_round Binary32 0 = Fin 0" using fl_round_small_int [of 0 Binary32] by simp
  ultimately show ?thesis by (simp add: single_nat_def single_lit_def less_eq_single_def zero_single_def)
qed

lemma clampf_bounds:
  assumes "lo \<le> (hi :: single)"
  shows "lo \<le> clampf v lo hi \<and> clampf v lo hi \<le> hi"
  using assms single_le_not_nan [OF assms]
  by (auto simp: clampf_def std_max_def std_min_def single_not_less snan_def
      dest: single_less_not_nan single_less_imp_le split: if_splits)

text \<open>\<open>inside w h d\<close>: a proper box, and landmarks, within a frame of that size.\<close>

definition inside :: "nat \<Rightarrow> nat \<Rightarrow> face_detection \<Rightarrow> bool" where
  "inside w h d \<longleftrightarrow>
     0 \<le> box_x1 d \<and> box_x1 d < box_x2 d \<and> box_x2 d \<le> single_nat (w - 1) \<and>
     0 \<le> box_y1 d \<and> box_y1 d < box_y2 d \<and> box_y2 d \<le> single_nat (h - 1) \<and>
     length (landmarks d) = 5 \<and>
     list_all (\<lambda>p. 0 \<le> point_x p \<and> point_x p \<le> single_nat (w - 1) \<and>
                   0 \<le> point_y p \<and> point_y p \<le> single_nat (h - 1)) (landmarks d)"

lemma to_camera_inside:
  assumes "box_x2 d' > box_x1 d'" "box_y2 d' > box_y1 d'" "d' = to_camera t f d" "length (landmarks d) = 5"
  shows "inside (frame_width f) (frame_height f) d'"
  using assms single_nat_nonneg
  by (auto simp: inside_def to_camera_def Let_def list_all_iff clampf_bounds)

lemma to_camera_score [simp]: "detection_score (to_camera t f d) = detection_score d"
  by (simp add: to_camera_def Let_def)

lemma decode_anchor_simps [simp]:
  "detection_score (decode_anchor stride w score bbox kps i) = score"
  "length (landmarks (decode_anchor stride w score bbox kps i)) = 5"
  by (simp_all add: decode_anchor_def Let_def)

lemma set_sort_by_score [simp]: "set (sort_by_score ds) = set ds"
proof -
  have "set (insert_by_score d es) = insert d (set es)" for d es
    by (induction es) auto
  then show ?thesis by (induction ds) (simp_all add: sort_by_score_def)
qed

lemma suppress_subset: "set (suppress threshold kept ds) \<subseteq> set kept \<union> set ds"
  by (induction threshold kept ds rule: suppress.induct) (auto split: if_splits)

lemma nms_subset: "set (nms threshold ds) \<subseteq> set ds"
  using suppress_subset [of threshold "[]" "sort_by_score ds"] by (simp add: nms_def)

lemma decode_level_scores:
  "decode_level c l = Inr ds \<Longrightarrow> d \<in> set ds \<Longrightarrow> \<not> detection_score d < score_threshold c \<and> length (landmarks d) = 5"
  by (auto simp: decode_level_def Let_def split: if_splits)

lemma decode_sound:
  assumes "decode c t levels f = Inr ds" and "d \<in> set ds"
  shows "inside (frame_width f) (frame_height f) d \<and> \<not> detection_score d < score_threshold c"
proof -
  from assms obtain cs e where cs: "mapM (decode_level c) levels = Inr cs"
    and e: "e \<in> set (nms (nms_threshold c) (concat cs))" and d: "d = to_camera t f e"
    and box: "box_x2 d > box_x1 d" "box_y2 d > box_y1 d"
    by (auto simp: decode_def)
  from e nms_subset have "e \<in> set (concat cs)" by blast
  then have "\<not> detection_score e < score_threshold c \<and> length (landmarks e) = 5"
    using mapM_in [OF cs] decode_level_scores by fastforce
  with d box show ?thesis using to_camera_inside [of d] by simp
qed

lemma detect_sound:
  assumes "detect dev c m f rt = (Inr ds, rt')" and "d \<in> set ds"
  shows "inside (frame_width f) (frame_height f) d \<and> \<not> detection_score d < score_threshold c"
proof -
  from assms(1) obtain levels t where "decode c t levels f = Inr ds"
    unfolding detect_def by (auto simp: andThen_Inr_iff lift_result_def)
  then show ?thesis using decode_sound assms(2) by blast
qed

text \<open>
  C22: every detection the detector returns is a proper box within the camera frame, its five
  landmarks are within it too, and its score is not below the configured threshold, whatever the
  network puts out (NaN and infinities included).
\<close>

theorem detections_inside_frame:
  "case detect dev c m f rt of
     (Inr ds, rt') \<Rightarrow>
        list_all (\<lambda>d. inside (frame_width f) (frame_height f) d \<and> \<not> detection_score d < score_threshold c) ds
   | _ \<Rightarrow> True"
  using detect_sound [of dev c m f rt] by (auto simp: list_all_iff split: prod.split sum.split)

text \<open>The textbook form of the suppression: take the best box, drop what overlaps it, go on.\<close>

function greedy :: "single \<Rightarrow> face_detection list \<Rightarrow> face_detection list" where
  "greedy threshold [] = []"
| "greedy threshold (d # ds) = d # greedy threshold (filter (\<lambda>e. \<not> iou_inclusive e d > threshold) ds)"
  by pat_completeness auto
termination
  by (relation "measure (length \<circ> snd)") (auto simp: le_imp_less_Suc)

lemma suppress_greedy:
  "suppress threshold kept ds = kept @ greedy threshold (filter (\<lambda>d. \<not> suppressed threshold kept d) ds)"
proof (induction ds arbitrary: kept)
  case (Cons d ds)
  have "suppressed threshold (kept @ [d]) e \<longleftrightarrow> suppressed threshold kept e \<or> iou_inclusive e d > threshold" for e
    by (auto simp: suppressed_def)
  then show ?case by (simp add: Cons.IH filter_filter conj_commute)
qed simp

text \<open>
  C23: the suppression loop, which checks each candidate against the boxes accepted so far, keeps
  the same boxes in the same order as the textbook algorithm that repeatedly takes the best
  remaining candidate and removes all it overlaps.
\<close>

theorem nms_is_greedy: "nms threshold candidates = greedy threshold (sort_by_score candidates)"
  by (simp add: nms_def suppress_greedy suppressed_def)

text \<open>\<open>shaped w h l\<close>: the tensors of a level have one row per anchor of its stride.\<close>

definition rows_of :: "nat \<Rightarrow> nat \<Rightarrow> tensor_blob option \<Rightarrow> bool" where
  "rows_of anchors cols b \<longleftrightarrow> (case b of None \<Rightarrow> True | Some t \<Rightarrow> length (blob_data t) = anchors * cols)"

definition shaped :: "nat \<Rightarrow> nat \<Rightarrow> level_blobs \<Rightarrow> bool" where
  "shaped w h l \<longleftrightarrow> level_anchors l = anchor_count w h (level_stride l) \<and>
     rows_of (level_anchors l) 1 (level_scores l) \<and> rows_of (level_anchors l) 4 (level_bbox l) \<and>
     rows_of (level_anchors l) 10 (level_kps l)"

definition shaped_levels :: "nat \<Rightarrow> nat \<Rightarrow> (nat \<rightharpoonup> level_blobs) \<Rightarrow> bool" where
  "shaped_levels w h levels \<longleftrightarrow> (\<forall>stride l. levels stride = Some l \<longrightarrow> level_stride l = stride \<and> shaped w h l)"

lemma stride_for_anchor_count_some:
  assumes "stride_for_anchor_count a w h = stride" "stride \<noteq> 0"
  shows "a = anchor_count w h stride \<and> stride \<in> set strides"
  using assms by (auto simp: stride_for_anchor_count_def find_Some_iff in_set_conv_nth split: option.splits)

lemma row_count_length:
  assumes "row_count b \<noteq> 0"
  shows "length (blob_data b) = row_count b * last_dimension b"
  using assms by (auto simp: row_count_def Let_def split: if_splits)

lemma place_blob_shaped:
  assumes "place_blob c levels b = Inr levels'" and "shaped_levels (scrfd_width c) (scrfd_height c) levels"
    and size: "scrfd_width c = 640" "scrfd_height c = 640"
  shows "shaped_levels (scrfd_width c) (scrfd_height c) levels'"
proof -
  define stride where "stride = stride_for_anchor_count (row_count b) (scrfd_width c) (scrfd_height c)"
  define level where "level = (case levels stride of None \<Rightarrow> empty_level | Some l \<Rightarrow> l)"
  from assms(1) have s: "stride \<noteq> 0" by (auto simp: place_blob_def Let_def stride_def split: if_splits)
  then have a: "row_count b = anchor_count 640 640 stride" and "stride \<in> set strides"
    using stride_for_anchor_count_some [of "row_count b" 640 640 stride] size by (simp_all add: stride_def)
  then have "row_count b \<noteq> 0" by (auto simp: strides_def anchor_count_def)
  then have len: "length (blob_data b) = row_count b * last_dimension b" by (rule row_count_length)
  have old: "rows_of (row_count b) 1 (level_scores level)" "rows_of (row_count b) 4 (level_bbox level)"
    "rows_of (row_count b) 10 (level_kps level)"
  proof (atomize (full), cases "levels stride")
    case (Some l)
    with assms(2) size have "level_stride l = stride" "shaped 640 640 l" by (auto simp: shaped_levels_def)
    with Some a show "rows_of (row_count b) 1 (level_scores level) \<and> rows_of (row_count b) 4 (level_bbox level) \<and>
        rows_of (row_count b) 10 (level_kps level)"
      by (auto simp: level_def shaped_def)
  qed (simp add: level_def empty_level_def rows_of_def)
  have "\<exists>l. levels' = levels(stride \<mapsto> l) \<and> level_stride l = stride \<and> shaped 640 640 l"
  proof -
    let ?l = "level\<lparr>level_stride := stride, level_anchors := row_count b\<rparr>"
    from assms(1) consider
        "last_dimension b = 1" "levels' = levels(stride \<mapsto> ?l\<lparr>level_scores := Some b\<rparr>)"
      | "last_dimension b = 4" "levels' = levels(stride \<mapsto> ?l\<lparr>level_bbox := Some b\<rparr>)"
      | "last_dimension b = 10" "levels' = levels(stride \<mapsto> ?l\<lparr>level_kps := Some b\<rparr>)"
      using s by (fastforce simp: place_blob_def Let_def stride_def [symmetric] level_def [symmetric] split: if_splits)
    then show ?thesis
      by cases (rule exI, rule conjI, assumption, use len old a in \<open>simp add: shaped_def rows_of_def\<close>)+
  qed
  with assms(2) size show ?thesis by (auto simp: shaped_levels_def split: if_splits)
qed

lemma place_blobs_shaped:
  assumes "place_blobs c levels bs = Inr levels'" and "shaped_levels (scrfd_width c) (scrfd_height c) levels"
    and "scrfd_width c = 640" "scrfd_height c = 640"
  shows "shaped_levels (scrfd_width c) (scrfd_height c) levels'"
  using assms
proof (induction bs arbitrary: levels)
  case (Cons b bs)
  then show ?case using place_blob_shaped by fastforce
qed simp

lemma take_level_shaped:
  assumes "take_level levels stride = Inr l" and "shaped_levels w h levels"
  shows "level_stride l = stride \<and> shaped w h l \<and> complete_level l"
  using assms by (auto simp: take_level_def shaped_levels_def split: option.splits if_splits)

lemma decode_shaped_level:
  assumes "shaped w h l" "complete_level l"
  shows "\<exists>ds. decode_level c l = Inr ds"
  using assms by (auto simp: decode_level_def Let_def shaped_def complete_level_def rows_of_def level_data_def)

lemma validated_size:
  "validate_scrfd_config exists c = Inr () \<Longrightarrow> scrfd_width c = 640 \<and> scrfd_height c = 640"
  by (auto simp: validate_scrfd_config_def split: if_splits)

lemma mapM_total:
  assumes "\<And>x. x \<in> set xs \<Longrightarrow> \<exists>y. f x = Inr y"
  shows "\<exists>ys. mapM f xs = Inr ys"
  using assms by (induction xs) fastforce+

text \<open>
  C24: when the outputs of the network are accepted, they are the levels of strides 8, 16 and 32, in
  this order and each with its full grid of anchors, and decoding them cannot fail: the consistency
  error of the decoder is never raised.
\<close>

theorem accepted_outputs_decode:
  assumes "validate_scrfd_config exists c = Inr ()" and "organize_outputs c blobs = Inr levels"
  shows "map level_stride levels = [8, 16, 32] \<and>
    map level_anchors levels = [12800, 3200, 800] \<and> (\<exists>ds. decode c t levels f = Inr ds)"
proof -
  note size = validated_size [OF assms(1)]
  from assms(2) obtain ls where ls: "place_blobs c Map.empty blobs = Inr ls" and ol: "mapM (take_level ls) strides = Inr levels"
    by (auto simp: organize_outputs_def)
  have sh: "shaped_levels 640 640 ls"
    using place_blobs_shaped [OF ls] size by (simp add: shaped_levels_def)
  from ol have l2: "list_all2 (\<lambda>s l. take_level ls s = Inr l) strides levels" by (simp add: mapM_Inr_iff)
  then have "list_all2 (\<lambda>s l. level_stride l = s \<and> shaped 640 640 l \<and> complete_level l) strides levels"
    by (rule list_all2_mono) (use take_level_shaped [OF _ sh] in blast)
  then obtain l8 l16 l32 where lv: "levels = [l8, l16, l32]"
    "level_stride l8 = 8" "level_stride l16 = 16" "level_stride l32 = 32"
    "shaped 640 640 l8" "shaped 640 640 l16" "shaped 640 640 l32"
    "complete_level l8" "complete_level l16" "complete_level l32"
    by (auto simp: strides_def list_all2_Cons1)
  then have "\<exists>cs. mapM (decode_level c) levels = Inr cs"
    by (intro mapM_total) (auto intro: decode_shaped_level)
  then have "\<exists>ds. decode c t levels f = Inr ds" by (auto simp: decode_def)
  with lv show ?thesis by (simp add: shaped_def anchor_count_def)
qed

text \<open>Nine silent tensors, the boxes and landmarks in an order of their own.\<close>

definition blank_blob :: "nat \<Rightarrow> nat \<Rightarrow> tensor_blob" where
  "blank_blob rows cols = \<lparr>blob_shape = [int rows, int cols], blob_data = replicate (rows * cols) 0\<rparr>"

definition blank_outputs :: "tensor_blob list" where
  "blank_outputs = [blank_blob 12800 1, blank_blob 3200 1, blank_blob 800 1, blank_blob 800 4, blank_blob 800 10,
     blank_blob 12800 4, blank_blob 12800 10, blank_blob 3200 10, blank_blob 3200 4]"

lemma blank_blob_simps [simp]:
  "0 < cols \<Longrightarrow> last_dimension (blank_blob rows cols) = cols"
  "0 < cols \<Longrightarrow> row_count (blank_blob rows cols) = rows"
  by (simp_all add: last_dimension_def blank_blob_def row_count_def)

theorem accepted_outputs_decode_witness:
  "\<exists>levels ds. organize_outputs (default_scrfd_config\<lparr>scrfd_path := ''det_500m.onnx''\<rparr>) blank_outputs = Inr levels \<and>
     decode (default_scrfd_config\<lparr>scrfd_path := ''det_500m.onnx''\<rparr>)
       (letterbox_for default_scrfd_config (1280, 720)) levels
       \<lparr>frame_texture = True, frame_id = 1, callback_entry_ns = 0, frame_timestamp_ns = 0, frame_source_ns = 0,
         frame_width = 1280, frame_height = 720, frame_format = dxgi_nv12\<rparr> = Inr ds"
proof -
  let ?c = "default_scrfd_config\<lparr>scrfd_path := ''det_500m.onnx''\<rparr>"
  have v: "validate_scrfd_config (\<lambda>_. True) ?c = Inr ()"
    by code_simp
  have "\<exists>levels. organize_outputs ?c blank_outputs = Inr levels"
    by (simp add: organize_outputs_def blank_outputs_def place_blob_def stride_for_anchor_count_def strides_def
        anchor_count_def default_scrfd_config_def empty_level_def take_level_def complete_level_def)
  then obtain levels where "organize_outputs ?c blank_outputs = Inr levels" by blast
  with accepted_outputs_decode [OF v] show ?thesis by blast
qed

end
