(* ===== verification/AssignmentReturns.thy ===== *)
theory AssignmentReturns
  imports Assignment
begin

text \<open>
  The assignment solver returns. Its doubles grow: one pass of the search adds at most three to the
  binary logarithm of every potential, the search of row \<open>i\<close> makes at most \<open>i\<close> passes, and the costs
  start below \<open>2 ^ 130\<close>; so with up to 23 rows no potential reaches infinity, every pass finds a
  column below infinity, and the columns run out.
\<close>

section \<open>Doubles below a power of two\<close>

definition bounded :: "int \<Rightarrow> double \<Rightarrow> bool" where
  "bounded k x \<longleftrightarrow> (\<exists>q. dval x = Fin q \<and> \<bar>q\<bar> \<le> pow2 k)"

lemma bounded_mono: "bounded k x \<Longrightarrow> k \<le> l \<Longrightarrow> bounded l x"
  unfolding bounded_def using pow2_mono [of k l] by force

lemma bounded_less: "bounded k x \<Longrightarrow> x < Dbl PInf"
  by (auto simp: bounded_def double_less_inf dnan_def)

lemma pow2_round:
  assumes "- 1074 \<le> k" and "k \<le> 1023"
  shows "fl_round Binary64 (pow2 k) = Fin (pow2 k)" "fl_round Binary64 (- pow2 k) = Fin (- pow2 k)"
proof -
  have one: "1 \<le> pow2 53" using pow2_mono [of 0 53] by (simp add: pow2_def [of 0])
  have "representable Binary64 (pow2 k)"
    by (rule representable_multiple [where m = 1 and e = k]) (use assms one in simp_all)
  moreover have "representable Binary64 (- pow2 k)"
    by (rule representable_multiple [where m = "- 1" and e = k]) (use assms one in simp_all)
  moreover have "\<bar>pow2 k\<bar> < pow2 1024" using assms by (simp add: pow2_less_iff)
  ultimately show "fl_round Binary64 (pow2 k) = Fin (pow2 k)" "fl_round Binary64 (- pow2 k) = Fin (- pow2 k)"
    by (auto intro!: fl_round_representable)
qed

lemma round_bounded:
  assumes "\<bar>q\<bar> \<le> pow2 k" and "- 1074 \<le> k" and "k \<le> 1023"
  shows "bounded k (Dbl (fl_round Binary64 q))"
proof -
  have "fl_le (fl_round Binary64 q) (Fin (pow2 k))" "fl_le (Fin (- pow2 k)) (fl_round Binary64 q)"
    using assms fl_round_mono [of q "pow2 k" Binary64] fl_round_mono [of "- pow2 k" q Binary64] pow2_round by auto
  then show ?thesis by (cases "fl_round Binary64 q") (auto simp: bounded_def fl_le_def)
qed

lemma bounded_sum:
  assumes "bounded k x" and "bounded k y" and "- 1074 \<le> k" and "k < 1023"
  shows "bounded (k + 1) (x + y)" "bounded (k + 1) (x - y)"
proof -
  obtain p q where eq: "dval x = Fin p" "dval y = Fin q" and le: "\<bar>p\<bar> \<le> pow2 k" "\<bar>q\<bar> \<le> pow2 k"
    using assms(1,2) by (auto simp: bounded_def)
  have "pow2 (k + 1) = 2 * pow2 k" by (simp add: pow2_add pow2_def [of 1])
  then have "\<bar>p + q\<bar> \<le> pow2 (k + 1)" "\<bar>p + - q\<bar> \<le> pow2 (k + 1)" using le by linarith+
  then show "bounded (k + 1) (x + y)" "bounded (k + 1) (x - y)"
    using round_bounded [of _ "k + 1"] assms(3,4) eq by (simp_all add: plus_double_def minus_double_def)
qed

section \<open>One pass\<close>

lemma nth_update_any: "xs[i := x] ! j = (if i = j \<and> i < length xs then x else xs ! j)"
  by (cases "i = j"; cases "i < length xs") (simp_all add: list_update_beyond)

lemma scan_values:
  assumes "foldl (scan_column a i0 s) ((minv0, wy0), d0, c0) js = ((minv, wy), delta, j1)"
    and "distinct js" and "\<forall>j \<in> set js. j < length minv0"
  shows "length minv = length minv0 \<and>
    (\<forall>j \<in> set js. \<not> used s ! j \<longrightarrow> minv ! j = (if a i0 j - pot_u s ! i0 - pot_v s ! j < minv0 ! j
        then a i0 j - pot_u s ! i0 - pot_v s ! j else minv0 ! j)) \<and>
    (\<forall>j. j \<notin> set js \<longrightarrow> minv ! j = minv0 ! j)"
  using assms
proof (induction js arbitrary: minv wy delta j1 rule: rev_induct)
  case (snoc j js)
  obtain minv2 wy2 d2 j2 where f: "foldl (scan_column a i0 s) ((minv0, wy0), d0, c0) js = ((minv2, wy2), d2, j2)"
    by (metis prod.exhaust)
  have js: "distinct js" "\<forall>j \<in> set js. j < length minv0" "j \<notin> set js" "j < length minv0" using snoc.prems(2,3) by auto
  note IH = snoc.IH [OF f js(1,2)]
  have "scan_column a i0 s ((minv2, wy2), d2, j2) j = ((minv, wy), delta, j1)" using snoc.prems(1) f by simp
  then have "minv = (if \<not> used s ! j \<and> a i0 j - pot_u s ! i0 - pot_v s ! j < minv2 ! j
      then minv2[j := a i0 j - pot_u s ! i0 - pot_v s ! j] else minv2)"
    by (auto simp: scan_column_def Let_def split: if_splits)
  then show ?case using IH js(3,4) by (auto simp: nth_list_update)
qed simp

lemma relax_v:
  assumes "foldl (relax_column p us delta) (u0, v0, minv0) js = (u, v, minv)" and "distinct js"
  shows "length v = length v0 \<and> (\<forall>j. v ! j = v0 ! j \<or> v ! j = v0 ! j - delta) \<and> (\<forall>j. j \<notin> set js \<longrightarrow> v ! j = v0 ! j)"
  using assms
proof (induction js arbitrary: u v minv rule: rev_induct)
  case (snoc j js)
  obtain u2 v2 minv2 where f: "foldl (relax_column p us delta) (u0, v0, minv0) js = (u2, v2, minv2)"
    by (metis prod.exhaust)
  have js: "distinct js" "j \<notin> set js" using snoc.prems(2) by auto
  note IH = snoc.IH [OF f js(1)]
  have "relax_column p us delta (u2, v2, minv2) j = (u, v, minv)" using snoc.prems(1) f by simp
  then have "v = (if us ! j then v2[j := v2 ! j - delta] else v2)" by (auto simp: relax_column_def split: if_splits)
  then show ?case using IH js(2) by (auto simp: nth_update_any)
qed simp

lemma relax_u:
  assumes "foldl (relax_column p us delta) (u0, v0, minv0) js = (u, v, minv)" and "distinct js"
    and "inj_on (nth p) {j \<in> set js. us ! j}"
  shows "length u = length u0 \<and> (\<forall>r. u ! r = u0 ! r \<or> u ! r = u0 ! r + delta) \<and>
    (\<forall>r. r \<notin> nth p ` {j \<in> set js. us ! j} \<longrightarrow> u ! r = u0 ! r)"
  using assms
proof (induction js arbitrary: u v minv rule: rev_induct)
  case (snoc j js)
  obtain u2 v2 minv2 where f: "foldl (relax_column p us delta) (u0, v0, minv0) js = (u2, v2, minv2)"
    by (metis prod.exhaust)
  have js: "distinct js" "j \<notin> set js" using snoc.prems(2) by auto
  have "inj_on (nth p) {j \<in> set js. us ! j}" by (rule inj_on_subset [OF snoc.prems(3)]) auto
  note IH = snoc.IH [OF f js(1) this]
  have "relax_column p us delta (u2, v2, minv2) j = (u, v, minv)" using snoc.prems(1) f by simp
  then have u: "u = (if us ! j then u2[p ! j := u2 ! (p ! j) + delta] else u2)" by (auto simp: relax_column_def split: if_splits)
  have fresh: "p ! j \<notin> nth p ` {k \<in> set js. us ! k}" if "us ! j"
    using snoc.prems(3) js(2) that by (auto simp: inj_on_def)
  show ?case
  proof (cases "us ! j")
    case True
    then have "u2 ! (p ! j) = u0 ! (p ! j)" using IH fresh by blast
    then show ?thesis using IH True u by (auto simp: nth_update_any)
  next
    case False
    then show ?thesis using IH u by auto
  qed
qed simp

text \<open>\<open>tame\<close>: every potential and every reached minimum is below \<open>2 ^ k\<close>.\<close>

definition tame :: "nat \<Rightarrow> nat \<Rightarrow> int \<Rightarrow> search \<Rightarrow> bool" where
  "tame n m k s \<longleftrightarrow> (\<forall>i \<le> n. bounded k (pot_u s ! i)) \<and> (\<forall>j \<le> m. bounded k (pot_v s ! j)) \<and>
     (\<forall>j. 1 \<le> j \<and> j \<le> m \<and> \<not> used s ! j \<longrightarrow> min_v s ! j = Dbl PInf \<or> bounded k (min_v s ! j))"

lemma tame_mono: "tame n m k s \<Longrightarrow> k \<le> l \<Longrightarrow> tame n m l s"
  unfolding tame_def using bounded_mono by blast

lemma pass:
  assumes "search_step a m p s = s'" and "sized m s" and "tame n m k s"
    and cost: "\<forall>i j. 1 \<le> i \<and> i \<le> n \<and> j \<le> m \<longrightarrow> bounded k (a i j)" and k: "0 \<le> k" "k + 3 \<le> 1023"
    and row: "1 \<le> p ! column s" "p ! column s \<le> n"
    and inj: "inj_on (nth p) {j. j \<le> m \<and> used s' ! j}"
    and free: "1 \<le> j" "j \<le> m" "\<not> used s' ! j"
  shows "tame n m (k + 3) s' \<and> 1 \<le> column s' \<and> column s' \<le> m \<and> \<not> used s' ! column s'"
proof -
  define s1 where "s1 = s\<lparr>used := (used s)[column s := True]\<rparr>"
  obtain minv wy delta j1 where scan: "foldl (scan_column a (p ! column s1) s1) ((min_v s1, way s1), Dbl PInf, 0) [1..<m + 1] =
      ((minv, wy), delta, j1)" by (metis prod.exhaust)
  obtain u v minv2 where relax: "foldl (relax_column p (used s1) delta) (pot_u s1, pot_v s1, minv) [0..<m + 1] = (u, v, minv2)"
    by (metis prod.exhaust)
  have s': "s' = \<lparr>pot_u = u, pot_v = v, min_v = minv2, way = wy, used = used s1, column = j1\<rparr>"
    using assms(1) scan relax unfolding search_step_def Let_def s1_def [symmetric] by simp
  have size: "length (min_v s1) = m + 1" "length (way s1) = m + 1" using assms(2) by (simp_all add: sized_def s1_def)
  have below: "\<forall>j \<in> set [1..<m + 1]. j < length (min_v s1)" "\<forall>j \<in> set [1..<m + 1]. j < length (min_v s1) \<and> j < length (way s1)"
    using size by (simp_all del: upt_Suc)
  have more_used: "used s1 ! j" if "used s ! j" for j
    using that by (simp add: s1_def nth_update_any)
  define cur where "cur = (\<lambda>j. a (p ! column s) j - pot_u s ! (p ! column s) - pot_v s ! j)"
  have cur: "bounded (k + 2) (cur j)" if "j \<le> m" for j
  proof -
    have "bounded k (pot_u s ! (p ! column s))" "bounded k (pot_v s ! j)" using assms(3) row(2) that by (auto simp: tame_def)
    then have "bounded (k + 1) (a (p ! column s) j - pot_u s ! (p ! column s))" "bounded (k + 1) (pot_v s ! j)"
      using bounded_sum(2) [of k "a (p ! column s) j"] cost row that k by (simp_all add: bounded_mono)
    from bounded_sum(2) [OF this] show ?thesis using k unfolding cur_def by (simp add: add.assoc)
  qed
  have old: "min_v s ! j = Dbl PInf \<or> bounded (k + 2) (min_v s ! j)" if "1 \<le> j" "j \<le> m" "\<not> used s1 ! j" for j
  proof -
    have "\<not> used s ! j" using that(3) more_used by blast
    then have "min_v s ! j = Dbl PInf \<or> bounded k (min_v s ! j)" using assms(3) that(1,2) unfolding tame_def by blast
    then show ?thesis using bounded_mono [of k _ "k + 2"] by auto
  qed
  have new: "minv ! j = (if cur j < min_v s ! j then cur j else min_v s ! j)" if "1 \<le> j" "j \<le> m" "\<not> used s1 ! j" for j
    using scan_values [OF scan distinct_upt below(1)] that unfolding cur_def by (simp add: s1_def del: upt_Suc)
  have minv: "bounded (k + 2) (minv ! j)" if "1 \<le> j" "j \<le> m" "\<not> used s1 ! j" for j
    using new [OF that] old [OF that] cur [OF that(2)] bounded_less by (auto split: if_splits)
  have free': "\<not> used s1 ! j" using free(3) by (simp add: s')
  have best: "delta < Dbl PInf \<and> 1 \<le> j1 \<and> j1 \<le> m \<and> \<not> used s1 ! j1 \<and> minv ! j1 = delta"
    using scan_fold [OF scan distinct_upt below(2)] minv [OF free(1,2) free'] bounded_less free(1,2) free' by (simp del: upt_Suc) fastforce
  then have delta: "bounded (k + 2) delta" using minv by metis
  have inj': "inj_on (nth p) {j \<in> set [0..<m + 1]. used s1 ! j}"
    by (rule inj_on_subset [OF inj]) (auto simp: s')
  have step: "bounded (k + 3) (x + delta)" "bounded (k + 3) (x - delta)" if "bounded (k + 2) x" for x
    using bounded_sum [OF that delta] k by (simp_all add: add.assoc)
  have "bounded (k + 3) (u ! i)" if "i \<le> n" for i
  proof -
    have "bounded k (pot_u s ! i)" using assms(3) that by (simp add: tame_def)
    then have "bounded (k + 2) (pot_u s ! i)" "bounded (k + 3) (pot_u s ! i)" by (simp_all add: bounded_mono)
    moreover have "u ! i = pot_u s ! i \<or> u ! i = pot_u s ! i + delta" using relax_u [OF relax distinct_upt inj'] by (simp add: s1_def)
    ultimately show ?thesis using step(1) by metis
  qed
  moreover have "bounded (k + 3) (v ! j)" if "j \<le> m" for j
  proof -
    have "bounded k (pot_v s ! j)" using assms(3) that by (simp add: tame_def)
    then have "bounded (k + 2) (pot_v s ! j)" "bounded (k + 3) (pot_v s ! j)" by (simp_all add: bounded_mono)
    moreover have "v ! j = pot_v s ! j \<or> v ! j = pot_v s ! j - delta" using relax_v [OF relax distinct_upt] by (simp add: s1_def)
    ultimately show ?thesis using step(2) by metis
  qed
  moreover have "bounded (k + 3) (minv2 ! j)" if "1 \<le> j" "j \<le> m" "\<not> used s1 ! j" for j
  proof -
    have "length minv = m + 1" using scan_values [OF scan distinct_upt below(1)] size by simp
    then have "minv2 ! j = minv ! j - delta" using relax_fold [OF relax distinct_upt] that by (simp del: upt_Suc)
    then show ?thesis using step(2) [OF minv [OF that]] by simp
  qed
  ultimately show ?thesis using best by (simp add: s' tame_def)
qed

section \<open>One search\<close>

lemma holding_inj:
  "holding i m p h \<Longrightarrow> j \<le> m \<Longrightarrow> l \<le> m \<Longrightarrow> j \<noteq> h \<Longrightarrow> l \<noteq> h \<Longrightarrow> p ! j = p ! l \<Longrightarrow> p ! j \<noteq> 0 \<Longrightarrow> j = l"
  unfolding holding_def by blast

lemma holding_le: "holding i m p h \<Longrightarrow> j \<le> m \<Longrightarrow> j \<noteq> h \<Longrightarrow> p ! j \<le> i"
  unfolding holding_def by blast

definition open_columns :: "nat \<Rightarrow> nat list \<Rightarrow> search \<Rightarrow> nat set" where
  "open_columns m p s = {j. j \<le> m \<and> p ! j \<noteq> 0 \<and> \<not> used s ! j}"

lemma search_ends:
  assumes hold: "holding i m p h" "1 \<le> h" "p ! h = 0" "i \<le> n"
    and cost: "\<forall>i j. 1 \<le> i \<and> i \<le> n \<and> j \<le> m \<longrightarrow> bounded k0 (a i j)" and low: "0 \<le> k0"
    and "searching m s" "tame n m k s" "k0 \<le> k" "p ! column s \<noteq> 0" "\<forall>j \<le> m. used s ! j \<longrightarrow> p ! j \<noteq> 0"
    and "card (open_columns m p s) \<le> c" "k + 3 * int c \<le> 1023"
  shows "\<exists>r. search_columns a m p s = Some r \<and> tame n m (k + 3 * int c) r"
  using assms(7-)
proof (induction c arbitrary: s k)
  case 0
  have "column s \<in> open_columns m p s" using 0 by (simp add: open_columns_def searching_def)
  moreover have "finite (open_columns m p s)" by (simp add: open_columns_def)
  ultimately show ?case using 0 by auto
next
  case (Suc c)
  define s' where "s' = search_step a m p s"
  have ok: "sized m s" "column s \<le> m" "\<not> used s ! column s" using Suc.prems(1) by (auto simp: searching_def)
  have us: "used s' = (used s)[column s := True]" using search_step_eq [of a m p s s'] ok(1) s'_def by metis
  have len: "length (used s) = m + 1" using ok(1) by (simp add: sized_def)
  have open_set: "open_columns m p s' = open_columns m p s - {column s}"
    using len ok(2) by (auto simp: open_columns_def us nth_update_any)
  have nonzero: "\<forall>j \<le> m. used s' ! j \<longrightarrow> p ! j \<noteq> 0"
    using Suc.prems(4,5) by (auto simp: us nth_update_any split: if_splits)
  have le_m: "h \<le> m" using hold(1) unfolding holding_def by blast
  have inj: "inj_on (nth p) {j. j \<le> m \<and> used s' ! j}"
  proof (rule inj_onI)
    fix j l assume j: "j \<in> {j. j \<le> m \<and> used s' ! j}" and l: "l \<in> {j. j \<le> m \<and> used s' ! j}" and eq: "p ! j = p ! l"
    have nz: "p ! j \<noteq> 0" "p ! l \<noteq> 0" using j l nonzero by auto
    then have "j \<noteq> h" "l \<noteq> h" using hold(3) by metis+
    then show "j = l" using holding_inj [OF hold(1) _ _ _ _ eq nz(1)] j l by simp
  qed
  have "column s \<noteq> h" using Suc.prems(4) hold(3) by metis
  then have "p ! column s \<le> i" using hold(1) ok(2) unfolding holding_def by blast
  then have row: "1 \<le> p ! column s" "p ! column s \<le> n" using hold(4) Suc.prems(4) by simp_all
  have free: "\<not> used s' ! h" using nonzero hold(3) le_m by blast
  have low': "0 \<le> k" "k + 3 \<le> 1023" using low Suc.prems(3,7) by simp_all
  have cost': "\<forall>i j. 1 \<le> i \<and> i \<le> n \<and> j \<le> m \<longrightarrow> bounded k (a i j)" using cost Suc.prems(3) bounded_mono by blast
  note next_state = pass [OF s'_def [symmetric] ok(1) Suc.prems(2) cost' low' row inj hold(2) le_m free]
  have "searching m s'"
    using search_step_keeps [OF disjI1 [OF Suc.prems(1)] s'_def [symmetric]] next_state by (auto simp: stuck_def)
  have "card (open_columns m p s') \<le> c"
  proof -
    have "column s \<in> open_columns m p s" using Suc.prems(4) ok by (simp add: open_columns_def)
    then show ?thesis using Suc.prems(6) by (simp add: open_set)
  qed
  have unfold: "search_columns a m p s = (if p ! column s' = 0 then Some s' else search_columns a m p s')"
    by (subst search_columns.simps) (simp add: s'_def)
  show ?case
  proof (cases "p ! column s' = 0")
    case True
    then show ?thesis using unfold next_state tame_mono [of n m "k + 3" s' "k + 3 * int (Suc c)"] by simp
  next
    case False
    have "\<exists>r. search_columns a m p s' = Some r \<and> tame n m (k + 3 + 3 * int c) r"
      using Suc.IH [OF \<open>searching m s'\<close> _ _ False nonzero \<open>card (open_columns m p s') \<le> c\<close>] next_state Suc.prems(3,7) by simp
    then show ?thesis using unfold False by (simp add: add.assoc)
  qed
qed

section \<open>Whole runs\<close>

lemma free_column:
  assumes "holding i m p 0" and "i < m"
  shows "\<exists>h. 1 \<le> h \<and> h \<le> m \<and> p ! h = 0"
proof (rule ccontr)
  assume "\<not> ?thesis"
  then have nz: "p ! j \<noteq> 0" if "1 \<le> j" "j \<le> m" for j using that by simp
  have "inj_on (nth p) {1..m}"
  proof (rule inj_onI)
    fix j l assume j: "j \<in> {1..m}" and l: "l \<in> {1..m}" and eq: "p ! j = p ! l"
    show "j = l" using j l nz [of j] by (intro holding_inj [OF assms(1) _ _ _ _ eq]) simp_all
  qed
  moreover have "nth p ` {1..m} \<subseteq> {1..i}"
  proof
    fix r assume "r \<in> nth p ` {1..m}"
    then obtain j where "1 \<le> j" "j \<le> m" "r = p ! j" by auto
    then show "r \<in> {1..i}" using nz [of j] holding_le [OF assms(1), of j] by simp
  qed
  ultimately have "card {1..m} \<le> card {1..i}" by (rule card_inj_on_le) simp
  then show False using assms(2) by simp
qed

lemma few_open:
  assumes "holding i m p h" and "p ! h = 0"
  shows "card (open_columns m p s) \<le> i"
proof -
  have "inj_on (nth p) (open_columns m p s)"
  proof (rule inj_onI)
    fix j l assume "j \<in> open_columns m p s" "l \<in> open_columns m p s" and eq: "p ! j = p ! l"
    then have nz: "j \<le> m" "l \<le> m" "p ! j \<noteq> 0" "p ! l \<noteq> 0" by (auto simp: open_columns_def)
    then have "j \<noteq> h" "l \<noteq> h" using assms(2) by metis+
    then show "j = l" using holding_inj [OF assms(1) nz(1,2) _ _ eq nz(3)] by simp
  qed
  moreover have "nth p ` open_columns m p s \<subseteq> {1..i}"
  proof
    fix r assume "r \<in> nth p ` open_columns m p s"
    then obtain j where "j \<le> m" "p ! j \<noteq> 0" "r = p ! j" by (auto simp: open_columns_def)
    then have "j \<noteq> h" using assms(2) by metis
    then show "r \<in> {1..i}" using holding_le [OF assms(1) \<open>j \<le> m\<close>] \<open>p ! j \<noteq> 0\<close> \<open>r = p ! j\<close> by simp
  qed
  ultimately have "card (open_columns m p s) \<le> card {1..i}" by (rule card_inj_on_le) simp
  then show ?thesis by simp
qed

definition low_potentials :: "nat \<Rightarrow> nat \<Rightarrow> int \<Rightarrow> solver \<Rightarrow> bool" where
  "low_potentials n m k s \<longleftrightarrow> (\<forall>i \<le> n. bounded k (sol_u s ! i)) \<and> (\<forall>j \<le> m. bounded k (sol_v s ! j))"

lemma assign_row_returns:
  assumes "assigned i m s" and "low_potentials n m k s" and "i < n" and "n \<le> m"
    and cost: "\<forall>i j. 1 \<le> i \<and> i \<le> n \<and> j \<le> m \<longrightarrow> bounded k0 (a i j)" and k: "0 \<le> k0" "k0 \<le> k" "k + 3 * int (Suc i) \<le> 1023"
  shows "\<exists>s'. assign_row a m (Suc i) s = Some s' \<and> low_potentials n m (k + 3 * int (Suc i)) s'"
proof -
  define p where "p = (sol_p s)[0 := Suc i]"
  define s0 where "s0 = \<lparr>pot_u = sol_u s, pot_v = sol_v s, min_v = replicate (m + 1) (Dbl PInf),
                way = sol_way s, used = replicate (m + 1) False, column = 0\<rparr>"
  have hold: "holding i m (sol_p s) 0" and len: "length (sol_way s) = m + 1" using assms(1) by (auto simp: assigned_def)
  have plen: "length (sol_p s) = m + 1" using hold unfolding holding_def by blast
  have "i < m" using assms(3,4) by simp
  from free_column [OF hold this] obtain h where h: "1 \<le> h" "h \<le> m" "sol_p s ! h = 0" by blast
  have hold': "holding (Suc i) m p h" unfolding p_def using holding_next [OF hold h(2) _ h(3)] h(1) by simp
  have ph: "p ! h = 0" and p0: "p ! 0 \<noteq> 0" using h plen by (simp_all add: p_def)
  have start: "searching m s0" unfolding s0_def using len by (rule searching_start)
  have "tame n m k s0" using assms(2) by (simp add: tame_def low_potentials_def s0_def del: replicate_Suc)
  moreover have "\<forall>j \<le> m. used s0 ! j \<longrightarrow> p ! j \<noteq> 0" by (simp add: s0_def del: replicate_Suc)
  moreover have "p ! column s0 \<noteq> 0" using p0 by (simp add: s0_def)
  moreover have "Suc i \<le> n" using assms(3) by simp
  ultimately obtain r where r: "search_columns a m p s0 = Some r" "tame n m (k + 3 * int (Suc i)) r"
    using search_ends [OF hold' h(1) ph _ cost k(1) start _ k(2) _ _ few_open [OF hold' ph] k(3)] by blast
  note found = search_columns_spec [OF r(1) disjI1 [OF start] p0]
  have col: "column r \<le> m" using found by (simp add: searching_def)
  have "sol_p s ! column r = 0" using found by (metis nth_list_update_neq p_def)
  then have "holding (Suc i) m p (column r)" unfolding p_def using holding_next [OF hold col] found by simp
  from flip_path_free [OF _ _ this] obtain p' where p': "flip_path (way r) p (column r) = Some p'"
    using found by blast
  have "assign_row a m (Suc i) s = Some \<lparr>sol_u = pot_u r, sol_v = pot_v r, sol_p = p', sol_way = way r\<rparr>"
    unfolding assign_row_def Let_def p_def [symmetric] s0_def [symmetric] r(1) option.case p' by (rule refl)
  then show ?thesis using r(2) by (simp add: tame_def low_potentials_def)
qed

primrec height :: "nat \<Rightarrow> int" where
  "height 0 = 130"
| "height (Suc i) = height i + 3 * int (Suc i)"

lemma height_mono: "i \<le> j \<Longrightarrow> height i \<le> height j"
  by (induction j) (auto simp: le_Suc_eq)

lemma height_ge: "130 \<le> height i"
  using height_mono [of 0 i] by simp

lemma assign_rows_returns:
  assumes "assigned i m s" and "low_potentials n m (height i) s" and "i \<le> n" and "n \<le> m"
    and cost: "\<forall>i j. 1 \<le> i \<and> i \<le> n \<and> j \<le> m \<longrightarrow> bounded 130 (a i j)" and n: "height n \<le> 1023"
  shows "\<exists>s'. assign_rows a m [Suc i..<Suc n] s = Some s'"
  using assms(1-3)
proof (induction "n - i" arbitrary: i s)
  case 0
  then show ?case by simp
next
  case (Suc d)
  then have upt: "[Suc i..<Suc n] = Suc i # [Suc (Suc i)..<Suc n]" by (simp add: upt_conv_Cons del: upt_Suc)
  have "Suc i \<le> n" using Suc.hyps(2) by simp
  then have "height i + 3 * int (Suc i) \<le> 1023" using height_mono [of "Suc i" n] n by simp
  then obtain s1 where s1: "assign_row a m (Suc i) s = Some s1" "low_potentials n m (height (Suc i)) s1"
    using assign_row_returns [OF Suc.prems(1,2) \<open>Suc i \<le> n\<close> [unfolded Suc_le_eq] assms(4) cost _ height_ge] by auto
  have "\<exists>s'. assign_rows a m [Suc (Suc i)..<Suc n] s1 = Some s'"
    using Suc.hyps(1) [OF _ assign_row_spec [OF s1(1) Suc.prems(1)] s1(2)] Suc.hyps(2) by simp
  then show ?case using s1(1) upt by (simp del: upt_Suc)
qed

definition in_range :: "single \<Rightarrow> bool" where
  "in_range x \<longleftrightarrow> (\<forall>q. sval x = Fin q \<longrightarrow> \<bar>q\<bar> \<le> pow2 128)"

lemma augmented_bounded:
  assumes "in_range max_cost" and "sfinite max_cost" and "\<forall>c \<in> set costs. in_range c"
    and "length costs = rows * cols" and "0 < cols" and "1 \<le> i" and "i \<le> rows"
  shows "bounded 130 (augmented costs cols max_cost i j)"
proof -
  obtain q where "sval max_cost = Fin q" using assms(2) by (auto simp: sfinite_def fl_finite_iff)
  then have mc: "bounded 128 (to_double max_cost)" using assms(1) by (simp add: to_double_def bounded_def in_range_def)
  have small: "bounded 128 (double_lit (1 / 10 ^ 6))" "bounded 129 (double_lit (10 ^ 6))"
    unfolding double_lit_def using pow2_mono [of 0 128] pow2_mono [of 20 129]
    by (auto intro!: round_bounded simp: pow2_def [of 0] pow2_def [of 20])
  have dummy: "bounded 129 (to_double max_cost + double_lit (1 / 10 ^ 6))" using bounded_sum(1) [OF mc small(1)] by simp
  have dear: "bounded 130 (to_double max_cost + double_lit (1 / 10 ^ 6) + double_lit (10 ^ 6))"
    using bounded_sum(1) [OF dummy small(2)] by simp
  have real: "bounded 130 (to_double (costs ! ((i - 1) * cols + (j - 1))))"
    if "j - 1 < cols" "sfinite (costs ! ((i - 1) * cols + (j - 1)))"
  proof -
    have "(i - 1) * cols + (j - 1) < (i - 1) * cols + cols" using that(1) by simp
    also have "\<dots> = i * cols" using assms(6) by (cases i) simp_all
    also have "\<dots> \<le> length costs" using assms(4,7) by simp
    finally have "costs ! ((i - 1) * cols + (j - 1)) \<in> set costs" by simp
    then have "in_range (costs ! ((i - 1) * cols + (j - 1)))" using assms(3) by blast
    then have "bounded 128 (to_double (costs ! ((i - 1) * cols + (j - 1))))"
      using that(2) by (auto simp: in_range_def sfinite_def fl_finite_iff to_double_def bounded_def)
    then show ?thesis by (rule bounded_mono) simp
  qed
  show ?thesis
    using bounded_mono [OF dummy, of 130] dear real by (auto simp: augmented_def Let_def usable_def)
qed

lemma initial_low: "low_potentials rows m 130 (initial_solver rows m)"
proof -
  have "bounded 130 0" by (simp add: bounded_def zero_double_def)
  then show ?thesis by (simp add: low_potentials_def initial_solver_def del: replicate_Suc)
qed

lemma assignment_ends:
  assumes "in_range max_cost" and "sfinite max_cost" and "\<forall>c \<in> set costs. in_range c" and "rows \<le> 23"
  shows "linear_assignment costs rows cols max_cost \<noteq> Inl Diverges"
proof (cases "length costs = rows * cols \<and> rows \<noteq> 0 \<and> cols \<noteq> 0")
  case True
  have cost: "\<forall>i j. 1 \<le> i \<and> i \<le> rows \<and> j \<le> cols + rows \<longrightarrow> bounded 130 (augmented costs cols max_cost i j)"
    using augmented_bounded [OF assms(1-3)] True by simp
  have "height rows \<le> height 23" using assms(4) by (rule height_mono)
  also have "\<dots> = 958" by (simp add: eval_nat_numeral)
  finally have high: "height rows \<le> 1023" by simp
  have low: "low_potentials rows (cols + rows) (height 0) (initial_solver rows (cols + rows))" using initial_low by simp
  obtain s where "assign_rows (augmented costs cols max_cost) (cols + rows) [1..<rows + 1] (initial_solver rows (cols + rows)) = Some s"
    using assign_rows_returns [OF initial_assigned low _ _ cost high] by (auto simp del: upt_Suc)
  then show ?thesis using True by (simp add: linear_assignment_def del: upt_Suc)
next
  case False
  then show ?thesis by (auto simp: linear_assignment_def)
qed

section \<open>Properties\<close>

text \<open>
  C20: The assignment is a matching within the cost limit. Whatever the costs, NaN and infinities
  included, no row and no column is matched twice, every matched pair has a finite cost not above the
  limit, and the unmatched rows and columns are exactly the others, in order.
\<close>

theorem assignment_is_matching:
  assumes "linear_assignment costs rows cols max_cost = Inr r"
  shows "matching rows cols r \<and> (\<forall>(i, j) \<in> set (matches r). affordable max_cost (costs ! (i * cols + j)))"
proof -
  have "\<forall>(i, j) \<in> set (matches r). affordable max_cost (costs ! (i * cols + j))"
    using assms by (auto simp: linear_assignment_def Let_def read_assignment_def matched_pairs_def
        simp del: upt_Suc split: if_splits option.splits)
  then show ?thesis using linear_assignment_matching [OF assms] by blast
qed

theorem assignment_is_matching_witness:
  "matches \<lparr>matches = [(0, 0)], unmatched_rows = [], unmatched_cols = [1]\<rparr> = [(0, 0)] \<and>
   matching 1 2 \<lparr>matches = [(0, 0)], unmatched_rows = [], unmatched_cols = [1]\<rparr>"
proof -
  have "linear_assignment [single_lit (1 / 4), single_lit (3 / 4)] 1 2 (single_lit (8 / 10)) =
      Inr \<lparr>matches = [(0, 0)], unmatched_rows = [], unmatched_cols = [1]\<rparr>"
    by code_simp
  from assignment_is_matching [OF this] show ?thesis by simp
qed

text \<open>
  C21: The assignment returns. For up to 23 rows, whatever the costs, neither the search nor the
  flipping of a path runs on: every potential stays below infinity, so each pass of the search
  reaches a column it has not used, and there are only finitely many.
\<close>

theorem assignment_returns:
  assumes "in_range max_cost" and "sfinite max_cost" and "\<forall>c \<in> set costs. in_range c" and "rows \<le> 23"
    and "length costs = rows * cols"
  shows "\<exists>r. linear_assignment costs rows cols max_cost = Inr r"
proof (cases "linear_assignment costs rows cols max_cost")
  case (Inl e)
  then have "e = Diverges" using assms(5) by (auto simp: linear_assignment_def Let_def split: if_splits option.splits)
  then show ?thesis using assignment_ends [OF assms(1-4)] Inl by simp
qed simp

theorem assignment_returns_witness:
  "\<exists>r. linear_assignment [Sgl PInf, Sgl NaN, 0, 1] 2 2 1 = Inr r"
proof -
  have "in_range (Sgl PInf)" "in_range (Sgl NaN)" "in_range 0" "in_range 1"
    using pow2_mono [of 0 128] by (simp_all add: in_range_def zero_single_def one_single_def pow2_def [of 0])
  then show ?thesis by (intro assignment_returns) simp_all
qed

end
