(* ===== verification/Kalman.thy ===== *)
theory Kalman
  imports FloatEval
begin

text \<open>
  \<^verbatim>\<open>src/vision_runtime/bytetrack/kalman_filter.cpp\<close>: the constant-velocity filter of a track. The
  mean has eight entries (centre, aspect ratio, height and their velocities), the covariance is the
  row-major list of its 64 entries. Inverting a singular projected covariance throws. The covariance
  of every update that returns is exactly symmetric.
\<close>

section \<open>Matrices\<close>

definition at8 :: "double list \<Rightarrow> nat \<Rightarrow> nat \<Rightarrow> double" where
  "at8 m r c = m ! (r * 8 + c)"

definition at4 :: "double list \<Rightarrow> nat \<Rightarrow> nat \<Rightarrow> double" where
  "at4 m r c = m ! (r * 4 + c)"

definition build :: "nat \<Rightarrow> nat \<Rightarrow> (nat \<Rightarrow> nat \<Rightarrow> double) \<Rightarrow> double list" where
  "build rows cols f = concat (map (\<lambda>r. map (f r) [0..<cols]) [0..<rows])"

definition sum_up :: "nat \<Rightarrow> (nat \<Rightarrow> double) \<Rightarrow> double" where
  "sum_up n f = foldl (\<lambda>acc k. acc + f k) 0 [0..<n]"

definition add_diagonal :: "nat \<Rightarrow> double list \<Rightarrow> double list \<Rightarrow> double list" where
  "add_diagonal n stddev m = foldl (\<lambda>m i. m[i * n + i := m ! (i * n + i) + stddev ! i * stddev ! i]) m [0..<length stddev]"

section \<open>The inverse of the projected covariance\<close>

definition column_pivot :: "double list \<Rightarrow> nat \<Rightarrow> nat \<times> double" where
  "column_pivot aug col =
     foldl (\<lambda>(pivot, best) r. let v = \<bar>aug ! (r * 8 + col)\<bar> in if v > best then (r, v) else (pivot, best))
       (col, \<bar>aug ! (col * 8 + col)\<bar>) [col + 1..<4]"

definition swap_rows :: "nat \<Rightarrow> nat \<Rightarrow> double list \<Rightarrow> double list" where
  "swap_rows a b aug = foldl (\<lambda>m c. m[a * 8 + c := m ! (b * 8 + c), b * 8 + c := m ! (a * 8 + c)]) aug [0..<8]"

definition scale_row :: "nat \<Rightarrow> double \<Rightarrow> double list \<Rightarrow> double list" where
  "scale_row col d aug = foldl (\<lambda>m c. m[col * 8 + c := m ! (col * 8 + c) / d]) aug [0..<8]"

definition clear_row :: "nat \<Rightarrow> double list \<Rightarrow> nat \<Rightarrow> double list" where
  "clear_row col aug r =
     (if r = col then aug
      else let factor = aug ! (r * 8 + col)
           in foldl (\<lambda>m c. m[r * 8 + c := m ! (r * 8 + c) - factor * m ! (col * 8 + c)]) aug [0..<8])"

definition eliminate_column :: "double list \<Rightarrow> nat \<Rightarrow> double list result" where
  "eliminate_column aug col =
     (let (pivot, best) = column_pivot aug col
      in if best < double_lit (1 / 10 ^ 12) then Inl (RuntimeError ''ByteTrack Kalman projected covariance singular'')
         else let aug = (if pivot \<noteq> col then swap_rows col pivot aug else aug);
                  aug = scale_row col (aug ! (col * 8 + col)) aug
              in Inr (foldl (clear_row col) aug [0..<4]))"

definition invert4 :: "double list \<Rightarrow> double list result" where
  "invert4 input =
     bind_result
       (foldl (\<lambda>acc col. bind_result acc (\<lambda>aug. eliminate_column aug col))
          (Inr (build 4 8 (\<lambda>r c. if c < 4 then at4 input r c else if r = c - 4 then 1 else 0))) [0..<4])
       (\<lambda>aug. Inr (build 4 4 (\<lambda>r c. aug ! (r * 8 + 4 + c))))"

section \<open>The filter\<close>

definition weight_position :: double where
  "weight_position = double_lit 1 / double_lit 20"

definition weight_velocity :: double where
  "weight_velocity = double_lit 1 / double_lit 160"

definition clamped_height :: "double \<Rightarrow> double" where
  "clamped_height h = std_max (double_lit (1 / 10 ^ 6)) h"

definition initiate :: "double list \<Rightarrow> double list \<times> double list" where
  "initiate measurement =
     (let h = clamped_height (measurement ! 3);
          p = double_lit 2 * weight_position * h; v = double_lit 10 * weight_velocity * h;
          stddev = [p, p, double_lit (1 / 10 ^ 2), p, v, v, double_lit (1 / 10 ^ 5), v]
      in (map (\<lambda>i. measurement ! i) [0..<4] @ replicate 4 0,
          foldl (\<lambda>m i. m[i * 8 + i := stddev ! i * stddev ! i]) (replicate 64 0) [0..<8]))"

definition transition :: "nat \<Rightarrow> nat \<Rightarrow> double" where
  "transition r c = (if r = c then 1 else if r < 4 \<and> c = r + 4 then 1 else 0)"

definition predict :: "double list \<Rightarrow> double list \<Rightarrow> double list \<times> double list" where
  "predict mean covariance =
     (let tmp = build 8 8 (\<lambda>r c. sum_up 8 (\<lambda>k. transition r k * at8 covariance k c));
          cov = build 8 8 (\<lambda>r c. sum_up 8 (\<lambda>k. at8 tmp r k * transition c k));
          h = clamped_height (mean ! 3);
          p = weight_position * h; v = weight_velocity * h;
          stddev = [p, p, double_lit (1 / 10 ^ 2), p, v, v, double_lit (1 / 10 ^ 5), v]
      in (map (\<lambda>i. if i < 4 then mean ! i + mean ! (i + 4) else mean ! i) [0..<8], add_diagonal 8 stddev cov))"

definition mirror :: "double list \<Rightarrow> nat \<times> nat \<Rightarrow> double list" where
  "mirror m = (\<lambda>(r, c). let v = double_lit (1 / 2) * (at8 m r c + at8 m c r) in m[r * 8 + c := v, c * 8 + r := v])"

definition upper_pairs :: "(nat \<times> nat) list" where
  "upper_pairs = concat (map (\<lambda>r. map (Pair r) [r + 1..<8]) [0..<8])"

definition symmetrised :: "double list \<Rightarrow> double list" where
  "symmetrised m = foldl mirror m upper_pairs"

definition kalman_update :: "double list \<Rightarrow> double list \<Rightarrow> double list \<Rightarrow> (double list \<times> double list) result" where
  "kalman_update mean covariance measurement =
     (let h = clamped_height (mean ! 3); p = weight_position * h;
          stddev = [p, p, double_lit (1 / 10), p];
          projected = add_diagonal 4 stddev (build 4 4 (\<lambda>r c. at8 covariance r c))
      in bind_result (invert4 projected) (\<lambda>inv.
           let gain = build 8 4 (\<lambda>r c. sum_up 4 (\<lambda>k. at8 covariance r k * at4 inv k c));
               innovation = map (\<lambda>i. measurement ! i - mean ! i) [0..<4];
               m = map (\<lambda>r. foldl (\<lambda>acc k. acc + at4 gain r k * innovation ! k) (mean ! r) [0..<4]) [0..<8];
               cov = build 8 8 (\<lambda>r c. at8 covariance r c - sum_up 4 (\<lambda>k. at4 gain r k * at8 covariance c k))
           in Inr (m, symmetrised cov)))"

section \<open>Symmetry\<close>

definition symmetric8 :: "double list \<Rightarrow> bool" where
  "symmetric8 m \<longleftrightarrow> (\<forall>r < 8. \<forall>c < 8. at8 m r c = at8 m c r)"

lemma position8:
  assumes "c < 8" and "c' < (8 :: nat)"
  shows "r * 8 + c = r' * 8 + c' \<longleftrightarrow> r = r' \<and> c = c'"
proof -
  have "(r * 8 + c) div 8 = r" "(r * 8 + c) mod 8 = c" "(r' * 8 + c') div 8 = r'" "(r' * 8 + c') mod 8 = c'"
    using assms by simp_all
  then show ?thesis by metis
qed

lemma length_build [simp]: "length (build rows cols f) = rows * cols"
  by (simp add: build_def length_concat comp_def sum_list_triv)

lemma mirror_length [simp]: "length (mirror m rc) = length m"
  by (simp add: mirror_def Let_def split: prod.split)

lemma mirror_at:
  assumes "r < 8" "c < 8" "i < 8" "j < 8" "length m = 64"
  shows "at8 (mirror m (r, c)) i j =
    (if (i = r \<and> j = c) \<or> (i = c \<and> j = r) then double_lit (1 / 2) * (at8 m r c + at8 m c r) else at8 m i j)"
proof -
  define v where "v = double_lit (1 / 2) * (at8 m r c + at8 m c r)"
  have eq: "mirror m (r, c) = m[r * 8 + c := v, c * 8 + r := v]" by (simp add: mirror_def v_def Let_def)
  have len: "r * 8 + c < length m" "c * 8 + r < length m" using assms by simp_all
  have "r * 8 + c = i * 8 + j \<longleftrightarrow> r = i \<and> c = j" "c * 8 + r = i * 8 + j \<longleftrightarrow> c = i \<and> r = j"
    using position8 assms by blast+
  then have "at8 (m[r * 8 + c := v, c * 8 + r := v]) i j = (if (i = r \<and> j = c) \<or> (i = c \<and> j = r) then v else at8 m i j)"
    unfolding at8_def using len by (metis (full_types) length_list_update nth_list_update_eq nth_list_update_neq)
  then show ?thesis unfolding eq v_def .
qed

lemma mirror_fold:
  assumes "length m = 64" and "\<forall>(r, c) \<in> set ps. r < 8 \<and> c < 8"
  shows "length (foldl mirror m ps) = 64 \<and>
    (\<forall>i < 8. \<forall>j < 8. (i, j) \<in> set ps \<or> (j, i) \<in> set ps \<longrightarrow> at8 (foldl mirror m ps) i j = at8 (foldl mirror m ps) j i)"
  using assms
proof (induction ps rule: rev_induct)
  case (snoc rc ps)
  obtain r c where rc: "rc = (r, c)" by (cases rc)
  have "r < 8" "c < 8" and IH: "length (foldl mirror m ps) = 64"
    "\<forall>i < 8. \<forall>j < 8. (i, j) \<in> set ps \<or> (j, i) \<in> set ps \<longrightarrow> at8 (foldl mirror m ps) i j = at8 (foldl mirror m ps) j i"
    using snoc rc by auto
  then show ?case using mirror_at [of r c _ _ "foldl mirror m ps"] by (auto simp: rc)
qed simp

lemma symmetrised_symmetric:
  assumes "length m = 64"
  shows "length (symmetrised m) = 64 \<and> symmetric8 (symmetrised m)"
proof -
  have pairs: "(r, c) \<in> set upper_pairs \<longleftrightarrow> r < c \<and> c < 8" for r c
    unfolding upper_pairs_def by (simp add: image_iff del: upt_Suc) auto
  then have "\<forall>(r, c) \<in> set upper_pairs. r < 8 \<and> c < 8" by fastforce
  note fold = mirror_fold [OF assms this]
  have "at8 (foldl mirror m upper_pairs) r c = at8 (foldl mirror m upper_pairs) c r" if "r < 8" "c < 8" for r c
    using fold that pairs [of r c] pairs [of c r] by (metis linorder_neqE_nat)
  then show ?thesis using fold by (simp add: symmetrised_def symmetric8_def)
qed

lemma update_sizes:
  "kalman_update mean cov z = Inr (m, P) \<Longrightarrow> length m = 8 \<and> length P = 64 \<and> symmetric8 P"
  unfolding kalman_update_def Let_def
  by (auto simp: symmetrised_symmetric simp del: upt_Suc)

lemma bind_fold_error:
  assumes "foldl (\<lambda>acc x. bind_result acc (\<lambda>y. f y x)) acc xs = Inl e"
  shows "acc = Inl e \<or> (\<exists>x \<in> set xs. \<exists>y. f y x = Inl e)"
  using assms by (induction xs rule: rev_induct) (auto simp: bind_result_Inl_iff)

lemma invert4_error: "invert4 m = Inl e \<Longrightarrow> e = RuntimeError ''ByteTrack Kalman projected covariance singular''"
  unfolding invert4_def
  by (auto simp: bind_result_Inl_iff eliminate_column_def Let_def dest!: bind_fold_error
      split: prod.splits if_splits simp del: upt_Suc)

lemma update_error:
  "kalman_update mean cov z = Inl e \<Longrightarrow> e = RuntimeError ''ByteTrack Kalman projected covariance singular''"
  unfolding kalman_update_def Let_def by (auto simp: bind_result_Inl_iff invert4_error simp del: upt_Suc)

section \<open>Properties\<close>

text \<open>
  An update of the filter either throws the singular covariance or yields eight means and a
  covariance of 64 entries that is exactly symmetric, whatever the covariance before was.
\<close>

theorem update_covariance_symmetric:
  "case kalman_update mean covariance measurement of
     Inl e \<Rightarrow> e = RuntimeError ''ByteTrack Kalman projected covariance singular''
   | Inr (m, P) \<Rightarrow> length m = 8 \<and> length P = 64 \<and> symmetric8 P"
  using update_sizes [of mean covariance measurement] update_error [of mean covariance measurement]
  by (auto split: sum.split)

end
