(* ===== verification/Tracker.thy ===== *)
theory Tracker
  imports AssignmentReturns Kalman
begin

text \<open>
  \<^verbatim>\<open>src/vision_runtime/bytetrack/bytetrack.cpp\<close>. The program's \<open>std::shared_ptr<STrack>\<close> is an index
  into the store of all \<open>STrack\<close> objects, so that the lists \<open>tracked\<close>, \<open>lost\<close> and \<open>removed\<close> share
  objects as the code does and a method of an object changes it for every list that holds it. One
  update runs in the monad of state with exceptions over the tracker and the four local lists.
  Timing measurements are left out; frame numbers and track ids are unbounded (the code's \<open>int\<close>
  and \<open>std::uint64_t\<close> last for two years and for ever at 30 frames a second).
\<close>

section \<open>Tracks\<close>

record strack =
  trk_id :: nat
  trk_score :: single
  trk_state :: track_state
  activated :: bool
  seen_frame :: int
  start_frame :: int
  tracklet_len :: int
  initial_tlwh :: "single list"
  trk_observation :: face_detection
  trk_observed :: bool
  has_state :: bool
  trk_mean :: "double list"
  trk_covariance :: "double list"

definition tlbr_to_tlwh :: "face_detection \<Rightarrow> single list" where
  "tlbr_to_tlwh d = [box_x1 d, box_y1 d, box_x2 d - box_x1 d, box_y2 d - box_y1 d]"

definition new_strack :: "face_detection \<Rightarrow> strack" where
  "new_strack d = \<lparr>trk_id = 0, trk_score = detection_score d, trk_state = NewTrack, activated = False,
     seen_frame = 0, start_frame = 0, tracklet_len = 0, initial_tlwh = tlbr_to_tlwh d,
     trk_observation = d, trk_observed = True, has_state = False,
     trk_mean = replicate 8 0, trk_covariance = replicate 64 0\<rparr>"

definition tlwh :: "strack \<Rightarrow> single list" where
  "tlwh t =
     (if \<not> has_state t then initial_tlwh t
      else let m = trk_mean t; w = to_single (m ! 2 * m ! 3); h = to_single (m ! 3)
           in [to_single (m ! 0) - w * single_lit (1 / 2), to_single (m ! 1) - h * single_lit (1 / 2), w, h])"

definition tlbr :: "strack \<Rightarrow> single list" where
  "tlbr t = (let b = tlwh t in [b ! 0, b ! 1, b ! 2 + b ! 0, b ! 3 + b ! 1])"

definition tlwh_to_xyah :: "single list \<Rightarrow> double list" where
  "tlwh_to_xyah b =
     (let h = to_double (std_max (single_lit (1 / 10 ^ 6)) (b ! 3))
      in [to_double (b ! 0 + b ! 2 * single_lit (1 / 2)), to_double (b ! 1 + b ! 3 * single_lit (1 / 2)),
          to_double (b ! 2) / h, h])"

definition xyah :: "strack \<Rightarrow> double list" where
  "xyah t = tlwh_to_xyah (tlwh t)"

definition filtered :: "double list \<times> double list \<Rightarrow> strack \<Rightarrow> strack" where
  "filtered st t = t\<lparr>trk_mean := fst st, trk_covariance := snd st\<rparr>"

definition predict_track :: "strack \<Rightarrow> strack" where
  "predict_track t =
     (if \<not> has_state t then t
      else let mean = (if trk_state t \<noteq> Tracked then (trk_mean t)[7 := 0] else trk_mean t)
           in filtered (predict mean (trk_covariance t)) t)"

definition activate_track :: "int \<Rightarrow> nat \<Rightarrow> strack \<Rightarrow> strack" where
  "activate_track frame i t = (filtered (initiate (tlwh_to_xyah (initial_tlwh t))) t)
     \<lparr>trk_id := i, has_state := True, tracklet_len := 0, trk_state := Tracked, activated := (frame = 1),
      seen_frame := frame, start_frame := frame\<rparr>"

definition observed_from :: "strack \<Rightarrow> strack \<Rightarrow> strack" where
  "observed_from det t = t\<lparr>trk_score := trk_score det, trk_observation := trk_observation det,
     trk_observed := trk_observed det\<rparr>"

definition association_item_of :: "strack \<Rightarrow> association_item" where
  "association_item_of t = (let b = tlbr t in
     \<lparr>item_x1 = b ! 0, item_y1 = b ! 1, item_x2 = b ! 2, item_y2 = b ! 3, item_score = trk_score t\<rparr>)"

definition result_of :: "strack \<Rightarrow> track_result" where
  "result_of t = (let b = tlbr t in
     \<lparr>result_id = trk_id t, result_x1 = b ! 0, result_y1 = b ! 1, result_x2 = b ! 2, result_y2 = b ! 3,
      result_score = trk_score t, result_state = trk_state t, result_start_frame = start_frame t,
      result_frame = seen_frame t, result_tracklet_len = tracklet_len t,
      has_observation = trk_observed t, observation = trk_observation t\<rparr>)"

section \<open>The tracker\<close>

record bytetrack_config =
  track_threshold :: single
  low_threshold :: single
  new_track_threshold :: single
  match_threshold :: single
  second_match_threshold :: single
  unconfirmed_match_threshold :: single
  track_buffer :: int
  frame_rate :: int
  mot20 :: bool

record tracker =
  bt_config :: bytetrack_config
  store :: "strack list"
  tracked :: "nat list"
  lost :: "nat list"
  removed :: "nat list"
  frame :: int
  max_time_lost :: int
  next_id :: nat

record update_state = tracker +
  now_activated :: "nat list"
  refound :: "nat list"
  newly_lost :: "nat list"
  newly_removed :: "nat list"

text \<open>Conversion to \<open>int\<close> truncates; of a value that is not finite it is undefined in C++, 0 here.\<close>

definition truncated :: "double \<Rightarrow> int" where
  "truncated x = (case dval x of Fin q \<Rightarrow> (if 0 \<le> q then \<lfloor>q\<rfloor> else - \<lfloor>- q\<rfloor>) | _ \<Rightarrow> 0)"

definition double_int :: "int \<Rightarrow> double" where
  "double_int n = Dbl (fl_round Binary64 (of_int n))"

definition make_tracker :: "bytetrack_config \<Rightarrow> tracker" where
  "make_tracker c =
     \<lparr>bt_config = (if new_track_threshold c \<le> 0 then c\<lparr>new_track_threshold := track_threshold c + single_lit (1 / 10)\<rparr> else c),
      store = [], tracked = [], lost = [], removed = [], frame = 0,
      max_time_lost = truncated (double_int (frame_rate c) / double_lit 30 * double_int (track_buffer c)),
      next_id = 1\<rparr>"

definition reset_tracker :: "tracker \<Rightarrow> tracker" where
  "reset_tracker s = s\<lparr>tracked := [], lost := [], removed := [], frame := 0, next_id := 1\<rparr>"

definition id_of :: "strack list \<Rightarrow> nat \<Rightarrow> nat" where
  "id_of st r = trk_id (st ! r)"

text \<open>\<open>joint_tracks\<close>: the first list, then what the second adds under new ids.\<close>

fun new_under :: "strack list \<Rightarrow> nat set \<Rightarrow> nat list \<Rightarrow> nat list" where
  "new_under st ids [] = []"
| "new_under st ids (t # ts) =
     (if id_of st t \<in> ids then new_under st ids ts else t # new_under st (insert (id_of st t) ids) ts)"

definition joint_tracks :: "strack list \<Rightarrow> nat list \<Rightarrow> nat list \<Rightarrow> nat list" where
  "joint_tracks st a b = a @ new_under st (id_of st ` set a) b"

definition subtract_tracks :: "strack list \<Rightarrow> nat list \<Rightarrow> nat list \<Rightarrow> nat list" where
  "subtract_tracks st a b = filter (\<lambda>t. id_of st t \<notin> id_of st ` set b) a"

definition to_items :: "strack list \<Rightarrow> nat list \<Rightarrow> association_item list" where
  "to_items st ts = map (\<lambda>t. association_item_of (st ! t)) ts"

text \<open>A pair closer than 0.15 costs the younger of the two tracks its place.\<close>

definition lifetime :: "strack \<Rightarrow> int" where
  "lifetime t = seen_frame t - start_frame t"

definition duplicate_pair :: "strack list \<Rightarrow> nat list \<Rightarrow> nat list \<Rightarrow> single list \<Rightarrow> nat \<Rightarrow> nat \<Rightarrow> bool" where
  "duplicate_pair st a b costs i j \<longleftrightarrow> \<not> costs ! (i * length b + j) \<ge> single_lit (15 / 100)"

definition outlives :: "strack list \<Rightarrow> nat list \<Rightarrow> nat list \<Rightarrow> nat \<Rightarrow> nat \<Rightarrow> bool" where
  "outlives st a b i j \<longleftrightarrow> lifetime (st ! (a ! i)) > lifetime (st ! (b ! j))"

definition remove_duplicates :: "strack list \<Rightarrow> nat list \<Rightarrow> nat list \<Rightarrow> nat list \<times> nat list" where
  "remove_duplicates st a b =
     (if a = [] \<or> b = [] then (a, b)
      else let costs = cost_matrix (to_items st a) (to_items st b) False;
               keep_a = filter (\<lambda>i. \<not> list_ex (\<lambda>j. duplicate_pair st a b costs i j \<and> \<not> outlives st a b i j) [0..<length b]) [0..<length a];
               keep_b = filter (\<lambda>j. \<not> list_ex (\<lambda>i. duplicate_pair st a b costs i j \<and> outlives st a b i j) [0..<length a]) [0..<length b]
           in (map (nth a) keep_a, map (nth b) keep_b))"

section \<open>Methods of shared tracks\<close>

definition change :: "nat \<Rightarrow> (strack \<Rightarrow> strack) \<Rightarrow> (update_state, unit) run" where
  "change r f = modify (\<lambda>s. s\<lparr>store := (store s)[r := f (store s ! r)]\<rparr>)"

definition create :: "face_detection \<Rightarrow> (update_state, nat) run" where
  "create d = andThen get_state (\<lambda>s.
     andThen (modify (\<lambda>s. s\<lparr>store := store s @ [new_strack d]\<rparr>)) (\<lambda>_. ret (length (store s))))"

definition corrected :: "nat \<Rightarrow> nat \<Rightarrow> (update_state, unit) run" where
  "corrected r d = andThen get_state (\<lambda>s.
     andThen (lift_result (kalman_update (trk_mean (store s ! r)) (trk_covariance (store s ! r)) (xyah (store s ! d)))) (\<lambda>st.
       change r (filtered st)))"

definition update_track :: "nat \<Rightarrow> nat \<Rightarrow> (update_state, unit) run" where
  "update_track r d = andThen get_state (\<lambda>s.
     andThen (change r (\<lambda>t. t\<lparr>seen_frame := frame s, tracklet_len := tracklet_len t + 1\<rparr>)) (\<lambda>_.
     andThen (corrected r d) (\<lambda>_.
       change r (\<lambda>t. observed_from (store s ! d) (t\<lparr>trk_state := Tracked, activated := True\<rparr>)))))"

definition re_activate :: "nat \<Rightarrow> nat \<Rightarrow> (update_state, unit) run" where
  "re_activate r d = andThen get_state (\<lambda>s.
     andThen (corrected r d) (\<lambda>_.
       change r (\<lambda>t. observed_from (store s ! d)
         (t\<lparr>tracklet_len := 0, trk_state := Tracked, activated := True, seen_frame := frame s\<rparr>))))"

definition mark :: "track_state \<Rightarrow> nat \<Rightarrow> (update_state, unit) run" where
  "mark st r = change r (\<lambda>t. t\<lparr>trk_state := st\<rparr>)"

section \<open>One update\<close>

fun split_detections :: "bytetrack_config \<Rightarrow> face_detection list \<Rightarrow> (update_state, nat list \<times> nat list) run" where
  "split_detections c [] = ret ([], [])"
| "split_detections c (d # ds) =
     (if detection_score d > track_threshold c
      then andThen (create d) (\<lambda>r. andThen (split_detections c ds) (\<lambda>(high, low). ret (r # high, low)))
      else if detection_score d > low_threshold c \<and> detection_score d < track_threshold c
      then andThen (create d) (\<lambda>r. andThen (split_detections c ds) (\<lambda>(high, low). ret (high, r # low)))
      else split_detections c ds)"

definition associate :: "nat list \<Rightarrow> nat list \<Rightarrow> bool \<Rightarrow> single \<Rightarrow> (update_state, assignment) run" where
  "associate tracks detections fuse_score threshold = andThen get_state (\<lambda>s.
     lift_result (linear_assignment (cost_matrix (to_items (store s) tracks) (to_items (store s) detections) fuse_score)
       (length tracks) (length detections) threshold))"

definition match_pair :: "nat \<Rightarrow> nat \<Rightarrow> (update_state, unit) run" where
  "match_pair r d = andThen get_state (\<lambda>s.
     if trk_state (store s ! r) = Tracked
     then andThen (update_track r d) (\<lambda>_. modify (\<lambda>s. s\<lparr>now_activated := now_activated s @ [r]\<rparr>))
     else andThen (re_activate r d) (\<lambda>_. modify (\<lambda>s. s\<lparr>refound := refound s @ [r]\<rparr>)))"

definition match_all :: "nat list \<Rightarrow> nat list \<Rightarrow> (nat \<times> nat) list \<Rightarrow> (update_state, unit) run" where
  "match_all rows cols ms = forM (\<lambda>(i, j). match_pair (rows ! i) (cols ! j)) ms"

definition lose :: "nat \<Rightarrow> (update_state, unit) run" where
  "lose r = andThen get_state (\<lambda>s.
     if trk_state (store s ! r) \<noteq> Lost
     then andThen (mark Lost r) (\<lambda>_. modify (\<lambda>s. s\<lparr>newly_lost := newly_lost s @ [r]\<rparr>))
     else ret ())"

definition confirm_pair :: "nat \<Rightarrow> nat \<Rightarrow> (update_state, unit) run" where
  "confirm_pair r d = andThen (update_track r d) (\<lambda>_. modify (\<lambda>s. s\<lparr>now_activated := now_activated s @ [r]\<rparr>))"

definition discard :: "nat \<Rightarrow> (update_state, unit) run" where
  "discard r = andThen (mark Removed r) (\<lambda>_. modify (\<lambda>s. s\<lparr>newly_removed := newly_removed s @ [r]\<rparr>))"

definition start_track :: "nat \<Rightarrow> (update_state, unit) run" where
  "start_track d = andThen get_state (\<lambda>s.
     if trk_score (store s ! d) < new_track_threshold (bt_config s) then ret ()
     else andThen (change d (activate_track (frame s) (next_id s))) (\<lambda>_.
            modify (\<lambda>s. s\<lparr>next_id := next_id s + 1, now_activated := now_activated s @ [d]\<rparr>)))"

definition expire :: "nat \<Rightarrow> (update_state, unit) run" where
  "expire r = andThen get_state (\<lambda>s. if frame s - seen_frame (store s ! r) > max_time_lost s then discard r else ret ())"

definition relist :: "update_state \<Rightarrow> update_state" where
  "relist s =
     (let st = store s;
          tr = filter (\<lambda>t. trk_state (st ! t) = Tracked) (tracked s);
          tr = joint_tracks st tr (now_activated s);
          tr = joint_tracks st tr (refound s);
          lo = subtract_tracks st (lost s) tr;
          lo = subtract_tracks st (lo @ newly_lost s) (newly_removed s);
          (tr', lo') = remove_duplicates st tr lo
      in s\<lparr>tracked := tr', lost := lo', removed := removed s @ newly_removed s\<rparr>)"

definition update_steps :: "face_detection list \<Rightarrow> (update_state, track_result list) run" where
  "update_steps input =
     andThen (modify (\<lambda>s. s\<lparr>frame := frame s + 1\<rparr>)) (\<lambda>_.
     andThen get_state (\<lambda>s0.
     let c = bt_config s0 in
     andThen (split_detections c input) (\<lambda>(high, low).
     andThen get_state (\<lambda>s1.
     let unconfirmed = filter (\<lambda>t. \<not> activated (store s1 ! t)) (tracked s1);
         confirmed = filter (\<lambda>t. activated (store s1 ! t)) (tracked s1);
         pool = joint_tracks (store s1) confirmed (lost s1) in
     andThen (forM (\<lambda>t. change t predict_track) pool) (\<lambda>_.
     andThen (associate pool high (\<not> mot20 c) (match_threshold c)) (\<lambda>first.
     andThen (match_all pool high (matches first)) (\<lambda>_.
     andThen get_state (\<lambda>s2.
     let remaining = filter (\<lambda>t. trk_state (store s2 ! t) = Tracked) (map (nth pool) (unmatched_rows first)) in
     andThen (associate remaining low False (second_match_threshold c)) (\<lambda>second.
     andThen (match_all remaining low (matches second)) (\<lambda>_.
     andThen (forM lose (map (nth remaining) (unmatched_rows second))) (\<lambda>_.
     let remaining_high = map (nth high) (unmatched_cols first) in
     andThen (associate unconfirmed remaining_high (\<not> mot20 c) (unconfirmed_match_threshold c)) (\<lambda>unc.
     andThen (forM (\<lambda>(i, j). confirm_pair (unconfirmed ! i) (remaining_high ! j)) (matches unc)) (\<lambda>_.
     andThen (forM discard (map (nth unconfirmed) (unmatched_rows unc))) (\<lambda>_.
     andThen (forM start_track (map (nth remaining_high) (unmatched_cols unc))) (\<lambda>_.
     andThen get_state (\<lambda>s3.
     andThen (forM expire (lost s3)) (\<lambda>_.
     andThen (modify relist) (\<lambda>_.
     andThen get_state (\<lambda>s4.
       ret (map (\<lambda>t. result_of (store s4 ! t)) (filter (\<lambda>t. activated (store s4 ! t)) (tracked s4))))))))))))))))))))))"

definition tracker_update :: "face_detection list \<Rightarrow> (tracker, track_result list) run" where
  "tracker_update input s =
     (let (r, s') = update_steps input (tracker.extend s (update_state.fields [] [] [] []))
      in (r, tracker.truncate s'))"

end
