(* ===== verification/Tracking.thy ===== *)
theory Tracking
  imports Tracker
begin

text \<open>
  What an update of the tracker keeps and promises. Between updates the tracked tracks are in the
  state \<open>Tracked\<close>, the lost ones \<open>Lost\<close>, and no id is shared. Within an update, every old track is
  claimed by one detection, lost or removed, so that what the update reports was seen in this very
  frame. Only a singular covariance ends an update early.
\<close>

section \<open>Lists of tracks\<close>

lemma new_under_subset: "set (new_under st ids ts) \<subseteq> set ts"
  by (induction st ids ts rule: new_under.induct) auto

lemma new_under_ids: "ids \<union> id_of st ` set (new_under st ids ts) = ids \<union> id_of st ` set ts"
  by (induction st ids ts rule: new_under.induct) auto

lemma new_under_distinct:
  "distinct (map (id_of st) (new_under st ids ts)) \<and> id_of st ` set (new_under st ids ts) \<inter> ids = {}"
  by (induction st ids ts rule: new_under.induct) auto

lemma new_under_all:
  "distinct (map (id_of st) ts) \<Longrightarrow> id_of st ` set ts \<inter> ids = {} \<Longrightarrow> new_under st ids ts = ts"
  by (induction st ids ts rule: new_under.induct) auto

lemma joint_subset: "set (joint_tracks st a b) \<subseteq> set a \<union> set b"
  using new_under_subset [of st "id_of st ` set a" b] by (auto simp: joint_tracks_def)

lemma joint_ids: "id_of st ` set (joint_tracks st a b) = id_of st ` set a \<union> id_of st ` set b"
  using new_under_ids [of "id_of st ` set a" st b] by (simp add: joint_tracks_def image_Un)

lemma joint_distinct: "distinct (map (id_of st) a) \<Longrightarrow> distinct (map (id_of st) (joint_tracks st a b))"
  using new_under_distinct [of st "id_of st ` set a" b] by (auto simp: joint_tracks_def)

lemma joint_append: "distinct (map (id_of st) (a @ b)) \<Longrightarrow> joint_tracks st a b = a @ b"
  unfolding joint_tracks_def by (subst new_under_all) auto

lemma distinct_map_filter': "distinct (map f xs) \<Longrightarrow> distinct (map f (filter P xs))"
  by (induction xs) auto

lemma select_subset: "set (map (nth a) (filter P [0..<length a])) \<subseteq> set a"
  by auto

lemma select_distinct: "distinct (map f a) \<Longrightarrow> distinct (map f (map (nth a) (filter P [0..<length a])))"
  by (auto simp: distinct_map inj_on_def comp_def) (metis nth_eq_iff_index_eq nth_mem)

lemma remove_duplicates_sub:
  assumes "remove_duplicates st a b = (a', b')"
  shows "set a' \<subseteq> set a" "set b' \<subseteq> set b"
    "distinct (map (id_of st) a) \<Longrightarrow> distinct (map (id_of st) a')"
    "distinct (map (id_of st) b) \<Longrightarrow> distinct (map (id_of st) b')"
  using assms select_subset [of a] select_subset [of b] select_distinct [of "id_of st" a] select_distinct [of "id_of st" b]
  unfolding remove_duplicates_def Let_def by (auto split: if_splits)

section \<open>The invariant between updates\<close>

definition tracker_ok :: "tracker \<Rightarrow> bool" where
  "tracker_ok s \<longleftrightarrow> distinct (map (id_of (store s)) (tracked s @ lost s)) \<and> 0 \<le> max_time_lost s \<and>
     (\<forall>r \<in> set (tracked s @ lost s). r < length (store s) \<and> id_of (store s) r < next_id s) \<and>
     (\<forall>r \<in> set (tracked s). trk_state (store s ! r) = Tracked) \<and>
     (\<forall>r \<in> set (lost s). trk_state (store s ! r) = Lost)"

lemma tracker_ok_old: "tracker_ok s \<Longrightarrow> r \<in> set (tracked s @ lost s) \<Longrightarrow> r < length (store s) \<and> id_of (store s) r < next_id s"
  unfolding tracker_ok_def by blast

section \<open>The invariant within an update\<close>

definition claimed :: "update_state \<Rightarrow> nat set" where
  "claimed s = set (now_activated s) \<union> set (refound s)"

definition fresh :: "int \<Rightarrow> face_detection list \<Rightarrow> strack \<Rightarrow> bool" where
  "fresh f input t \<longleftrightarrow> trk_state t = Tracked \<and> seen_frame t = f \<and> trk_observed t \<and> trk_observation t \<in> set input"

text \<open>
  \<open>s0\<close> is the tracker before the update, \<open>pending\<close> the tracked tracks not dealt with yet. The store
  below \<open>length (store s0)\<close> holds the old tracks, above it the detections.
\<close>

definition updating :: "tracker \<Rightarrow> face_detection list \<Rightarrow> nat set \<Rightarrow> update_state \<Rightarrow> bool" where
  "updating s0 input pending s \<longleftrightarrow>
     tracked s = tracked s0 \<and> lost s = lost s0 \<and> frame s = frame s0 + 1 \<and> max_time_lost s = max_time_lost s0 \<and>
     length (store s0) \<le> length (store s) \<and> next_id s0 \<le> next_id s \<and>
     (\<forall>r < length (store s0). id_of (store s) r = id_of (store s0) r) \<and>
     (\<forall>d. length (store s0) \<le> d \<and> d < length (store s) \<longrightarrow> trk_observed (store s ! d) \<and> trk_observation (store s ! d) \<in> set input) \<and>
     (\<forall>r \<in> claimed s. fresh (frame s) input (store s ! r) \<and> r < length (store s) \<and>
        (r \<in> set (tracked s0 @ lost s0) \<or>
         (length (store s0) \<le> r \<and> next_id s0 \<le> id_of (store s) r \<and> id_of (store s) r < next_id s))) \<and>
     inj_on (id_of (store s)) {r \<in> claimed s. length (store s0) \<le> r} \<and>
     distinct (newly_lost s) \<and> set (newly_lost s) \<subseteq> set (tracked s0) \<and>
     (\<forall>r \<in> set (newly_lost s). trk_state (store s ! r) = Lost) \<and>
     (\<forall>r \<in> set (newly_removed s). trk_state (store s ! r) = Removed \<and> r \<in> set (tracked s0 @ lost s0)) \<and>
     pending \<subseteq> set (tracked s0) \<and> pending \<inter> claimed s = {} \<and>
     (\<forall>r \<in> pending. trk_state (store s ! r) = Tracked) \<and>
     (\<forall>r \<in> set (tracked s0). r \<in> pending \<or> r \<in> claimed s \<or> r \<in> set (newly_lost s) \<or> r \<in> set (newly_removed s)) \<and>
     (\<forall>r \<in> set (lost s0). trk_state (store s ! r) = Lost \<or> r \<in> claimed s \<or> r \<in> set (newly_removed s))"

lemmas updatingD = updating_def [THEN iffD1]

lemma forM_append: "forM f (xs @ ys) = andThen (forM f xs) (\<lambda>_. forM f ys)"
  by (induction xs) (auto simp: run_simps fun_eq_iff split: prod.splits sum.splits)

text \<open>A loop whose body keeps an invariant of the elements still to come keeps it.\<close>

lemma forM_keeps:
  assumes "forM f xs s = (Inr u, s')" and "I xs s"
    and "\<And>x ys s s'. I (x # ys) s \<Longrightarrow> f x s = (Inr (), s') \<Longrightarrow> I ys s'"
  shows "I [] s'"
  using assms
proof (induction xs arbitrary: s)
  case Nil
  then show ?case by (simp add: ret_def)
next
  case (Cons x xs)
  then obtain t where "f x s = (Inr (), t)" "forM f xs t = (Inr u, s')"
    by (auto simp: andThen_Inr_iff)
  then show ?case using Cons by blast
qed

section \<open>The operations of an update\<close>

definition claims :: "nat \<Rightarrow> nat \<Rightarrow> update_state \<Rightarrow> update_state \<Rightarrow> bool" where
  "claims r d s s' \<longleftrightarrow>
     (\<exists>t. store s' = (store s)[r := t] \<and> trk_id t = id_of (store s) r \<and> trk_state t = Tracked \<and> seen_frame t = frame s \<and>
        trk_observed t = trk_observed (store s ! d) \<and> trk_observation t = trk_observation (store s ! d)) \<and>
     claimed s' = insert r (claimed s) \<and> tracked s' = tracked s \<and> lost s' = lost s \<and> frame s' = frame s \<and>
     max_time_lost s' = max_time_lost s \<and> next_id s' = next_id s \<and> newly_lost s' = newly_lost s \<and>
     newly_removed s' = newly_removed s"

lemma corrected_returns:
  "corrected r d s = (Inr u, s') \<Longrightarrow> \<exists>st. s' = s\<lparr>store := (store s)[r := filtered st (store s ! r)]\<rparr>"
  by (auto simp: corrected_def change_def run_simps split: prod.splits sum.splits)

lemma update_track_returns:
  assumes "update_track r d s = (Inr u, s')" and "r < length (store s)"
  shows "\<exists>t. s' = s\<lparr>store := (store s)[r := t]\<rparr> \<and> trk_id t = id_of (store s) r \<and> trk_state t = Tracked \<and>
    seen_frame t = frame s \<and> trk_observed t = trk_observed (store s ! d) \<and> trk_observation t = trk_observation (store s ! d)"
proof -
  define s1 where "s1 = s\<lparr>store := (store s)[r := (store s ! r)\<lparr>seen_frame := frame s, tracklet_len := tracklet_len (store s ! r) + 1\<rparr>]\<rparr>"
  obtain s2 where s2: "corrected r d s1 = (Inr (), s2)"
    and s': "s' = s2\<lparr>store := (store s2)[r := observed_from (store s ! d) ((store s2 ! r)\<lparr>trk_state := Tracked, activated := True\<rparr>)]\<rparr>"
    using assms(1) by (auto simp: update_track_def change_def run_simps s1_def split: prod.splits sum.splits)
  obtain st where "s2 = s1\<lparr>store := (store s1)[r := filtered st (store s1 ! r)]\<rparr>" using corrected_returns [OF s2] by blast
  then show ?thesis
    using assms(2) by (intro exI [of _ "store s' ! r"]) (simp add: s' s1_def filtered_def observed_from_def id_of_def)
qed

lemma re_activate_returns:
  assumes "re_activate r d s = (Inr u, s')" and "r < length (store s)"
  shows "\<exists>t. s' = s\<lparr>store := (store s)[r := t]\<rparr> \<and> trk_id t = id_of (store s) r \<and> trk_state t = Tracked \<and>
    seen_frame t = frame s \<and> trk_observed t = trk_observed (store s ! d) \<and> trk_observation t = trk_observation (store s ! d)"
proof -
  obtain s2 where s2: "corrected r d s = (Inr (), s2)"
    and s': "s' = s2\<lparr>store := (store s2)[r := observed_from (store s ! d)
        ((store s2 ! r)\<lparr>tracklet_len := 0, trk_state := Tracked, activated := True, seen_frame := frame s\<rparr>)]\<rparr>"
    using assms(1) by (auto simp: re_activate_def change_def run_simps split: prod.splits sum.splits)
  obtain st where "s2 = s\<lparr>store := (store s)[r := filtered st (store s ! r)]\<rparr>" using corrected_returns [OF s2] by blast
  then show ?thesis
    using assms(2) by (intro exI [of _ "store s' ! r"]) (simp add: s' filtered_def observed_from_def id_of_def)
qed

lemma confirm_pair_claims:
  assumes "confirm_pair r d s = (Inr u, s')" and "r < length (store s)"
  shows "claims r d s s'"
proof -
  obtain s1 where s1: "update_track r d s = (Inr (), s1)" "s' = s1\<lparr>now_activated := now_activated s1 @ [r]\<rparr>"
    using assms(1) by (auto simp: confirm_pair_def run_simps split: prod.splits sum.splits)
  obtain t where "s1 = s\<lparr>store := (store s)[r := t]\<rparr>" "trk_id t = id_of (store s) r" "trk_state t = Tracked"
    "seen_frame t = frame s" "trk_observed t = trk_observed (store s ! d)" "trk_observation t = trk_observation (store s ! d)"
    using update_track_returns [OF s1(1) assms(2)] by blast
  then show ?thesis unfolding claims_def by (auto simp: s1(2) claimed_def)
qed

lemma match_pair_claims:
  assumes "match_pair r d s = (Inr u, s')" and "r < length (store s)"
  shows "claims r d s s'"
proof (cases "trk_state (store s ! r) = Tracked")
  case True
  then have "confirm_pair r d s = (Inr u, s')"
    using assms(1) by (simp add: match_pair_def confirm_pair_def get_state_def andThen_def)
  then show ?thesis using assms(2) by (rule confirm_pair_claims)
next
  case False
  then obtain s1 where s1: "re_activate r d s = (Inr (), s1)" "s' = s1\<lparr>refound := refound s1 @ [r]\<rparr>"
    using assms(1) by (auto simp: match_pair_def run_simps split: prod.splits sum.splits)
  obtain t where "s1 = s\<lparr>store := (store s)[r := t]\<rparr>" "trk_id t = id_of (store s) r" "trk_state t = Tracked"
    "seen_frame t = frame s" "trk_observed t = trk_observed (store s ! d)" "trk_observation t = trk_observation (store s ! d)"
    using re_activate_returns [OF s1(1) assms(2)] by blast
  then show ?thesis unfolding claims_def by (auto simp: s1(2) claimed_def)
qed

lemma updating_claims:
  assumes up: "updating s0 input pending s" and cl: "claims r d s s'"
    and r: "r \<in> set (tracked s0 @ lost s0)" "r < length (store s0)" "r \<notin> set (newly_lost s)" "r \<notin> set (newly_removed s)"
    and d: "length (store s0) \<le> d" "d < length (store s)"
  shows "updating s0 input (pending - {r}) s'"
proof -
  note u = updatingD [OF up]
  obtain t where t: "store s' = (store s)[r := t]" "trk_id t = id_of (store s) r" "trk_state t = Tracked" "seen_frame t = frame s"
    "trk_observed t = trk_observed (store s ! d)" "trk_observation t = trk_observation (store s ! d)"
    and rest: "claimed s' = insert r (claimed s)" "tracked s' = tracked s" "lost s' = lost s" "frame s' = frame s"
     "max_time_lost s' = max_time_lost s" "next_id s' = next_id s" "newly_lost s' = newly_lost s" "newly_removed s' = newly_removed s"
    using cl unfolding claims_def by blast
  have "r < length (store s)" using u r(2) by linarith
  then have at: "store s' ! x = (if x = r then t else store s ! x)" for x by (simp add: t(1) nth_list_update)
  have ids: "id_of (store s') = id_of (store s)" using t(2) by (auto simp: id_of_def at fun_eq_iff)
  have len: "length (store s') = length (store s)" by (simp add: t(1))
  have fr: "fresh (frame s') input t" using t u d by (auto simp: fresh_def rest)
  have old: "{x \<in> claimed s'. length (store s0) \<le> x} = {x \<in> claimed s. length (store s0) \<le> x}"
    using r(2) by (auto simp: rest)
  show ?thesis
    unfolding updating_def old ids len
  proof (intro conjI)
    show "\<forall>x\<in>claimed s'. fresh (frame s') input (store s' ! x) \<and> x < length (store s) \<and>
        (x \<in> set (tracked s0 @ lost s0) \<or> length (store s0) \<le> x \<and> next_id s0 \<le> id_of (store s) x \<and> id_of (store s) x < next_id s')"
      using u fr r(1) \<open>r < length (store s)\<close> by (auto simp: rest at)
    show "\<forall>d. length (store s0) \<le> d \<and> d < length (store s) \<longrightarrow> trk_observed (store s' ! d) \<and> trk_observation (store s' ! d) \<in> set input"
      using u r(2) by (auto simp: at)
  qed (use u r in \<open>auto simp: rest at\<close>)
qed

definition base_ok :: "tracker \<Rightarrow> bool" where
  "base_ok s0 \<longleftrightarrow> (\<forall>r \<in> set (tracked s0 @ lost s0). r < length (store s0)) \<and> set (tracked s0) \<inter> set (lost s0) = {} \<and>
     0 \<le> max_time_lost s0"

lemma marked:
  assumes "r < length (store s)" and "st = (store s)[r := (store s ! r)\<lparr>trk_state := x\<rparr>]"
  shows "st ! y = (if y = r then (store s ! r)\<lparr>trk_state := x\<rparr> else store s ! y)" "length st = length (store s)"
    "id_of st = id_of (store s)"
  using assms by (auto simp: nth_list_update id_of_def fun_eq_iff)

lemma updating_lose:
  assumes up: "updating s0 input pending s" and run: "lose r s = (Inr u, s')"
    and r: "r \<in> pending" and ok: "base_ok s0"
  shows "updating s0 input (pending - {r}) s' \<and> claimed s' = claimed s \<and> length (store s') = length (store s)"
proof -
  note u = updatingD [OF up]
  have state: "trk_state (store s ! r) = Tracked" and rt: "r \<in> set (tracked s0)" using u r by auto
  then have rb: "r < length (store s0)" using ok by (simp add: base_ok_def)
  then have len: "r < length (store s)" using u by linarith
  define st where "st = (store s)[r := (store s ! r)\<lparr>trk_state := Lost\<rparr>]"
  note at = marked [OF len st_def]
  have s': "s' = s\<lparr>store := st, newly_lost := newly_lost s @ [r]\<rparr>"
    using run state by (simp add: lose_def mark_def change_def run_simps st_def)
  have eq: "claimed s' = claimed s" "store s' = st" by (simp_all add: s' claimed_def)
  have out: "r \<notin> claimed s" "r \<notin> set (newly_lost s)" "r \<notin> set (newly_removed s)" using u r state by auto
  have "updating s0 input (pending - {r}) s'"
    unfolding updating_def eq at(2,3)
  proof (intro conjI)
    show "\<forall>x\<in>claimed s. fresh (frame s') input (st ! x) \<and> x < length (store s) \<and>
        (x \<in> set (tracked s0 @ lost s0) \<or> length (store s0) \<le> x \<and> next_id s0 \<le> id_of (store s) x \<and> id_of (store s) x < next_id s')"
      using u out by (auto simp: s' at(1))
    show "\<forall>d. length (store s0) \<le> d \<and> d < length (store s) \<longrightarrow> trk_observed (st ! d) \<and> trk_observation (st ! d) \<in> set input"
      using u rb by (auto simp: at(1))
  qed (use u r rt out in \<open>auto simp: s' at(1)\<close>)
  then show ?thesis using eq at(2) by simp
qed

lemma updating_discard:
  assumes up: "updating s0 input pending s" and run: "discard r s = (Inr u, s')"
    and r: "r \<in> pending \<or> r \<in> set (lost s0) \<and> r \<notin> claimed s" and ok: "base_ok s0"
  shows "updating s0 input (pending - {r}) s' \<and> claimed s' = claimed s \<and> length (store s') = length (store s)"
proof -
  note u = updatingD [OF up]
  have rt: "r \<in> set (tracked s0 @ lost s0)" using u r by auto
  then have rb: "r < length (store s0)" using ok unfolding base_ok_def by blast
  then have len: "r < length (store s)" using u by linarith
  define st where "st = (store s)[r := (store s ! r)\<lparr>trk_state := Removed\<rparr>]"
  note at = marked [OF len st_def]
  have s': "s' = s\<lparr>store := st, newly_removed := newly_removed s @ [r]\<rparr>"
    using run by (simp add: discard_def mark_def change_def run_simps st_def)
  have eq: "claimed s' = claimed s" "store s' = st" by (simp_all add: s' claimed_def)
  have out: "r \<notin> claimed s" "r \<notin> set (newly_lost s)" using u r ok unfolding base_ok_def by auto
  have "updating s0 input (pending - {r}) s'"
    unfolding updating_def eq at(2,3)
  proof (intro conjI)
    show "\<forall>x\<in>claimed s. fresh (frame s') input (st ! x) \<and> x < length (store s) \<and>
        (x \<in> set (tracked s0 @ lost s0) \<or> length (store s0) \<le> x \<and> next_id s0 \<le> id_of (store s) x \<and> id_of (store s) x < next_id s')"
      using u out by (auto simp: s' at(1))
    show "\<forall>d. length (store s0) \<le> d \<and> d < length (store s) \<longrightarrow> trk_observed (st ! d) \<and> trk_observation (st ! d) \<in> set input"
      using u rb by (auto simp: at(1))
  qed (use u rt out in \<open>auto simp: s' at(1)\<close>)
  then show ?thesis using eq at(2) by simp
qed

lemma updating_expire:
  assumes up: "updating s0 input pending s" and run: "expire r s = (Inr u, s')" and r: "r \<in> set (lost s0)" and ok: "base_ok s0"
  shows "updating s0 input (pending - {r}) s' \<and> claimed s' = claimed s \<and> length (store s') = length (store s)"
proof (cases "frame s - seen_frame (store s ! r) > max_time_lost s")
  case True
  have "0 \<le> max_time_lost s" using updatingD [OF up] ok by (simp add: base_ok_def)
  with True have "seen_frame (store s ! r) \<noteq> frame s" by linarith
  then have "r \<notin> claimed s" using updatingD [OF up] by (auto simp: fresh_def)
  moreover have "discard r s = (Inr u, s')" using run True by (simp add: expire_def run_simps)
  ultimately show ?thesis using updating_discard [OF up _ _ ok] r by blast
next
  case False
  then have "s' = s" using run by (simp add: expire_def run_simps)
  moreover have "r \<notin> pending" using updatingD [OF up] r ok by (auto simp: base_ok_def)
  ultimately show ?thesis using up by simp
qed

lemma updating_start:
  assumes up: "updating s0 input pending s" and run: "start_track d s = (Inr u, s')"
    and d: "length (store s0) \<le> d" "d < length (store s)" "d \<notin> claimed s" and ok: "base_ok s0"
  shows "updating s0 input pending s' \<and> claimed s' \<subseteq> insert d (claimed s) \<and> length (store s') = length (store s)"
proof (cases "trk_score (store s ! d) < new_track_threshold (bt_config s)")
  case True
  then show ?thesis using run up by (auto simp: start_track_def run_simps)
next
  case False
  note u = updatingD [OF up]
  define st where "st = (store s)[d := activate_track (frame s) (next_id s) (store s ! d)]"
  have s': "s' = s\<lparr>store := st, next_id := next_id s + 1, now_activated := now_activated s @ [d]\<rparr>"
    using run False by (simp add: start_track_def change_def run_simps st_def)
  have at: "st ! x = (if x = d then activate_track (frame s) (next_id s) (store s ! d) else store s ! x)" for x
    using d by (simp add: st_def nth_list_update)
  have ids: "id_of st x = (if x = d then next_id s else id_of (store s) x)" for x
    by (simp add: id_of_def at activate_track_def)
  have len: "length st = length (store s)" by (simp add: st_def)
  have eq: "claimed s' = insert d (claimed s)" "store s' = st" by (auto simp: s' claimed_def)
  have far: "r \<noteq> d" if "r \<in> set (tracked s0 @ lost s0)" for r using that ok d(1) unfolding base_ok_def by (metis linorder_not_le)
  have out: "d \<notin> set (tracked s0)" "d \<notin> set (lost s0)" using far by auto
  then have nl: "d \<notin> set (newly_lost s)" using u by blast
  have nr: "d \<notin> set (newly_removed s)" using u far by blast
  have old: "id_of (store s) x < next_id s" if "x \<in> claimed s" "length (store s0) \<le> x" for x
  proof -
    have "x \<notin> set (tracked s0 @ lost s0)" using ok that(2) unfolding base_ok_def by (metis linorder_not_le)
    then show ?thesis using u that(1) by blast
  qed
  have fr: "fresh (frame s') input (st ! d)" using u d by (auto simp: fresh_def at activate_track_def filtered_def s')
  have "updating s0 input pending s'"
    unfolding updating_def eq len
  proof (intro conjI)
    show "\<forall>x\<in>insert d (claimed s). fresh (frame s') input (st ! x) \<and> x < length (store s) \<and>
        (x \<in> set (tracked s0 @ lost s0) \<or> length (store s0) \<le> x \<and> next_id s0 \<le> id_of st x \<and> id_of st x < next_id s')"
      using u fr d by (auto simp: s' at ids)
    show "\<forall>x. length (store s0) \<le> x \<and> x < length (store s) \<longrightarrow> trk_observed (st ! x) \<and> trk_observation (st ! x) \<in> set input"
      using u by (auto simp: at activate_track_def filtered_def)
    show "inj_on (id_of st) {r \<in> insert d (claimed s). length (store s0) \<le> r}"
    proof -
      let ?C = "{r \<in> claimed s. length (store s0) \<le> r}"
      have "inj_on (id_of (store s)) ?C" using u by blast
      then have "inj_on (id_of st) ?C" using d(3) by (auto simp: inj_on_def ids)
      moreover have "id_of st d \<notin> id_of st ` ?C" 
      proof
        assume "id_of st d \<in> id_of st ` ?C"
        then obtain x where "x \<in> claimed s" "length (store s0) \<le> x" "id_of st x = id_of st d" by auto
        then show False using old [of x] d(3) by (auto simp: ids split: if_splits)
      qed
      moreover have "{r \<in> insert d (claimed s). length (store s0) \<le> r} = insert d ?C" using d(1) by blast
      ultimately show ?thesis using d(3) by (simp add: inj_on_insert)
    qed
    show "\<forall>r < length (store s0). id_of st r = id_of (store s0) r" using u d by (auto simp: ids)
    show "\<forall>r \<in> pending. trk_state (st ! r) = Tracked" using u out by (auto simp: at)
    show "pending \<inter> insert d (claimed s) = {}" using u out by auto
    show "\<forall>r \<in> set (lost s0). trk_state (st ! r) = Lost \<or> r \<in> insert d (claimed s) \<or> r \<in> set (newly_removed s')"
      using u out by (auto simp: at s')
    show "\<forall>r \<in> set (newly_lost s'). trk_state (st ! r) = Lost" using u nl by (auto simp: at s')
    show "\<forall>r \<in> set (newly_removed s'). trk_state (st ! r) = Removed \<and> r \<in> set (tracked s0 @ lost s0)"
      using u nr by (auto simp: at s')
  qed (use u in \<open>auto simp: s'\<close>)
  then show ?thesis using eq len by simp
qed

text \<open>Prediction changes what the filter holds, nothing the update asks for.\<close>

lemma updating_predict:
  assumes up: "updating s0 input pending s" and run: "change r predict_track s = (Inr u, s')"
  shows "updating s0 input pending s' \<and> claimed s' = claimed s \<and> length (store s') = length (store s) \<and>
    newly_lost s' = newly_lost s \<and> newly_removed s' = newly_removed s"
proof -
  note u = updatingD [OF up]
  define st where "st = (store s)[r := predict_track (store s ! r)]"
  have s': "s' = s\<lparr>store := st\<rparr>" using run by (simp add: change_def run_simps st_def)
  have "trk_id (predict_track t) = trk_id t \<and> trk_state (predict_track t) = trk_state t \<and>
      seen_frame (predict_track t) = seen_frame t \<and> trk_observed (predict_track t) = trk_observed t \<and>
      trk_observation (predict_track t) = trk_observation t" for t
    by (simp add: predict_track_def filtered_def Let_def)
  then have at: "trk_state (st ! x) = trk_state (store s ! x)" "seen_frame (st ! x) = seen_frame (store s ! x)"
    "trk_observed (st ! x) = trk_observed (store s ! x)" "trk_observation (st ! x) = trk_observation (store s ! x)"
    "trk_id (st ! x) = trk_id (store s ! x)" for x
    by (cases "r < length (store s)"; cases "x = r"; simp add: st_def list_update_beyond)+
  then have ids: "id_of st = id_of (store s)" by (simp add: id_of_def fun_eq_iff)
  have len: "length st = length (store s)" by (simp add: st_def)
  have fr: "fresh f i (st ! x) = fresh f i (store s ! x)" for f i x by (simp add: fresh_def at)
  have eq: "claimed s' = claimed s" "store s' = st" by (auto simp: s' claimed_def)
  have keep: "tracked s' = tracked s" "lost s' = lost s" "frame s' = frame s" "max_time_lost s' = max_time_lost s"
    "next_id s' = next_id s" "newly_lost s' = newly_lost s" "newly_removed s' = newly_removed s"
    by (simp_all add: s')
  have "updating s0 input pending s'"
    unfolding updating_def eq len ids fr at keep by (rule u)
  then show ?thesis using eq len keep by simp
qed

section \<open>The phases\<close>

lemma split_detections_spec:
  assumes "split_detections c input s = (Inr (high, low), s')"
  shows "\<exists>ds. s' = s\<lparr>store := store s @ map new_strack ds\<rparr> \<and> set ds \<subseteq> set input \<and>
    (\<forall>x \<in> set (high @ low). length (store s) \<le> x \<and> x < length (store s')) \<and> distinct high"
  using assms
proof (induction input arbitrary: s high low)
  case Nil
  then show ?case by (auto simp: ret_def intro!: exI [of _ "[]"])
next
  case (Cons d input)
  define s1 where "s1 = s\<lparr>store := store s @ [new_strack d]\<rparr>"
  have create: "create d s = (Inr (length (store s)), s1)" by (simp add: create_def run_simps s1_def)
  have deeper: ?case if run: "split_detections c input s1 = (Inr (high', low'), s')"
    and hl: "high = length (store s) # high' \<and> low = low' \<or> high = high' \<and> low = length (store s) # low'" for high' low'
  proof -
    obtain ds where ds: "s' = s1\<lparr>store := store s1 @ map new_strack ds\<rparr>" "set ds \<subseteq> set input"
      "\<forall>x \<in> set (high' @ low'). length (store s1) \<le> x \<and> x < length (store s')" "distinct high'"
      using Cons.IH [OF run] by blast
    have len: "length (store s1) = Suc (length (store s))" "length (store s) < length (store s')" by (simp_all add: ds(1) s1_def)
    then have old: "\<forall>x \<in> set (high' @ low'). length (store s) \<le> x \<and> x < length (store s')" "length (store s) \<notin> set high'"
      using ds(3) by (fastforce, metis Suc_n_not_le_n Un_iff set_append)
    have "s' = s\<lparr>store := store s @ map new_strack (d # ds)\<rparr>" "set (d # ds) \<subseteq> set (d # input)"
      using ds(1,2) by (auto simp: s1_def)
    moreover have "distinct high" using hl old(2) ds(4) by auto
    moreover have "\<forall>x \<in> set (high @ low). length (store s) \<le> x \<and> x < length (store s')" using hl old(1) len(2) by auto
    ultimately show ?thesis by blast
  qed
  consider "detection_score d > track_threshold c"
    | "\<not> detection_score d > track_threshold c" "detection_score d > low_threshold c \<and> detection_score d < track_threshold c"
    | "\<not> detection_score d > track_threshold c" "\<not> (detection_score d > low_threshold c \<and> detection_score d < track_threshold c)"
    by blast
  then show ?case
  proof cases
    case 1
    then obtain high' where "split_detections c input s1 = (Inr (high', low), s')" "high = length (store s) # high'"
      using Cons.prems create by (auto simp: andThen_def ret_def split: prod.splits sum.splits)
    then show ?thesis using deeper by blast
  next
    case 2
    then obtain low' where "split_detections c input s1 = (Inr (high, low'), s')" "low = length (store s) # low'"
      using Cons.prems create by (auto simp: andThen_def ret_def split: prod.splits sum.splits)
    then show ?thesis using deeper by blast
  next
    case 3
    then have "split_detections c input s = (Inr (high, low), s')" using Cons.prems by (simp split: if_splits)
    then show ?thesis using Cons.IH by fastforce
  qed
qed

lemma claim_phase:
  assumes "forM (\<lambda>(i, j). f (rows ! i) (cols ! j)) ms s = (Inr u, s')"
    and f: "\<And>r d s u s'. f r d s = (Inr u, s') \<Longrightarrow> r < length (store s) \<Longrightarrow> claims r d s s'"
    and "updating s0 input pending s" and "set ms \<subseteq> {..<length rows} \<times> {..<length cols}"
    and rows: "set rows \<subseteq> set (tracked s0 @ lost s0)" and ok: "base_ok s0"
    and "set cols \<subseteq> {length (store s0)..<length (store s)}"
    and "set rows \<inter> set (newly_lost s @ newly_removed s) = {}"
  shows "updating s0 input (pending - nth rows ` fst ` set ms) s' \<and> claimed s' = claimed s \<union> nth rows ` fst ` set ms \<and>
    length (store s') = length (store s) \<and> newly_lost s' = newly_lost s \<and> newly_removed s' = newly_removed s"
  using assms(1,3,4,7,8)
proof (induction ms arbitrary: pending s)
  case Nil
  then show ?case by (simp add: ret_def)
next
  case (Cons m ms)
  obtain i j where m: "m = (i, j)" by (cases m)
  then have ij: "i < length rows" "j < length cols" using Cons.prems(3) by auto
  obtain t where t: "f (rows ! i) (cols ! j) s = (Inr (), t)" "forM (\<lambda>(i, j). f (rows ! i) (cols ! j)) ms t = (Inr u, s')"
    using Cons.prems(1) by (auto simp: m andThen_Inr_iff)
  have r: "rows ! i \<in> set rows" "cols ! j \<in> set cols" using ij by simp_all
  then have rb: "rows ! i \<in> set (tracked s0 @ lost s0)" using rows by blast
  then have "rows ! i < length (store s0)" using ok unfolding base_ok_def by blast
  moreover from this have "rows ! i < length (store s)" using updatingD [OF Cons.prems(2)] by linarith
  moreover have "rows ! i \<notin> set (newly_lost s)" "rows ! i \<notin> set (newly_removed s)"
    "length (store s0) \<le> cols ! j" "cols ! j < length (store s)" using Cons.prems(4,5) r by auto
  ultimately have cl: "claims (rows ! i) (cols ! j) s t" and up: "updating s0 input (pending - {rows ! i}) t"
    using f [OF t(1)] updating_claims [OF Cons.prems(2) f [OF t(1)] rb] by simp_all
  have eq: "claimed t = insert (rows ! i) (claimed s)" "length (store t) = length (store s)"
    "newly_lost t = newly_lost s" "newly_removed t = newly_removed s"
    using cl unfolding claims_def by auto
  have "set ms \<subseteq> {..<length rows} \<times> {..<length cols}" using Cons.prems(3) by simp
  moreover have "pending - {rows ! i} - nth rows ` fst ` set ms = pending - nth rows ` fst ` set (m # ms)" by (auto simp: m)
  moreover have "insert (rows ! i) (claimed s) \<union> nth rows ` fst ` set ms = claimed s \<union> nth rows ` fst ` set (m # ms)" by (auto simp: m)
  ultimately show ?case using Cons.IH [OF t(2) up] Cons.prems(4,5) by (simp add: eq)
qed

lemma lose_phase:
  assumes "forM lose rs s = (Inr u, s')" and "updating s0 input pending s" and "set rs \<subseteq> pending" "distinct rs" and "base_ok s0"
  shows "updating s0 input (pending - set rs) s' \<and> claimed s' = claimed s \<and> length (store s') = length (store s)"
  using assms
proof (induction rs arbitrary: pending s)
  case Nil
  then show ?case by (simp add: ret_def)
next
  case (Cons r rs)
  obtain t where t: "lose r s = (Inr (), t)" "forM lose rs t = (Inr u, s')"
    using Cons.prems(1) by (auto simp: andThen_Inr_iff)
  have "r \<in> pending" using Cons.prems(3) by simp
  note step = updating_lose [OF Cons.prems(2) t(1) this Cons.prems(5)]
  have "set rs \<subseteq> pending - {r}" using Cons.prems(3,4) by auto
  moreover have "pending - {r} - set rs = pending - set (r # rs)" by auto
  ultimately show ?case using Cons.IH [OF t(2) step [THEN conjunct1]] step Cons.prems(4,5) by simp
qed

lemma discard_phase:
  assumes "forM discard rs s = (Inr u, s')" and "updating s0 input pending s" and "set rs \<subseteq> pending" "distinct rs" and "base_ok s0"
  shows "updating s0 input (pending - set rs) s' \<and> claimed s' = claimed s \<and> length (store s') = length (store s)"
  using assms
proof (induction rs arbitrary: pending s)
  case Nil
  then show ?case by (simp add: ret_def)
next
  case (Cons r rs)
  obtain t where t: "discard r s = (Inr (), t)" "forM discard rs t = (Inr u, s')"
    using Cons.prems(1) by (auto simp: andThen_Inr_iff)
  have "r \<in> pending" using Cons.prems(3) by simp
  note step = updating_discard [OF Cons.prems(2) t(1) disjI1 [OF this] Cons.prems(5)]
  have "set rs \<subseteq> pending - {r}" using Cons.prems(3,4) by auto
  moreover have "pending - {r} - set rs = pending - set (r # rs)" by auto
  ultimately show ?case using Cons.IH [OF t(2) step [THEN conjunct1]] step Cons.prems(4,5) by simp
qed

lemma expire_phase:
  assumes "forM expire rs s = (Inr u, s')" and "updating s0 input {} s" and "set rs \<subseteq> set (lost s0)" and "base_ok s0"
  shows "updating s0 input {} s'"
  using assms
proof (induction rs arbitrary: s)
  case Nil
  then show ?case by (simp add: ret_def)
next
  case (Cons r rs)
  obtain t where t: "expire r s = (Inr (), t)" "forM expire rs t = (Inr u, s')"
    using Cons.prems(1) by (auto simp: andThen_Inr_iff)
  have "r \<in> set (lost s0)" using Cons.prems(3) by simp
  then have "updating s0 input {} t" using updating_expire [OF Cons.prems(2) t(1) _ Cons.prems(4)] by simp
  then show ?case using Cons.IH [OF t(2)] Cons.prems(3,4) by simp
qed

lemma start_phase:
  assumes "forM start_track ds s = (Inr u, s')" and "updating s0 input pending s"
    and "set ds \<subseteq> {length (store s0)..<length (store s)}" "set ds \<inter> claimed s = {}" "distinct ds" and "base_ok s0"
  shows "updating s0 input pending s'"
  using assms
proof (induction ds arbitrary: s)
  case Nil
  then show ?case by (simp add: ret_def)
next
  case (Cons d ds)
  obtain t where t: "start_track d s = (Inr (), t)" "forM start_track ds t = (Inr u, s')"
    using Cons.prems(1) by (auto simp: andThen_Inr_iff)
  have step: "updating s0 input pending t \<and> claimed t \<subseteq> insert d (claimed s) \<and> length (store t) = length (store s)"
    using updating_start [OF Cons.prems(2) t(1) _ _ _ Cons.prems(6)] Cons.prems(3,4) by auto
  show ?case by (rule Cons.IH [OF t(2)]) (use step Cons.prems in auto)
qed

lemma predict_phase:
  assumes "forM (\<lambda>t. change t predict_track) rs s = (Inr u, s')" and "updating s0 input pending s"
  shows "updating s0 input pending s' \<and> claimed s' = claimed s \<and> length (store s') = length (store s) \<and>
    newly_lost s' = newly_lost s \<and> newly_removed s' = newly_removed s"
  using assms
proof (induction rs arbitrary: s)
  case Nil
  then show ?case by (simp add: ret_def)
next
  case (Cons r rs)
  obtain t where t: "change r predict_track s = (Inr (), t)" "forM (\<lambda>t. change t predict_track) rs t = (Inr u, s')"
    using Cons.prems(1) by (auto simp: andThen_Inr_iff)
  note step = updating_predict [OF Cons.prems(2) t(1)]
  show ?case using Cons.IH [OF t(2) step [THEN conjunct1]] step by simp
qed

section \<open>The lists after an update\<close>

lemma subtract_iff: "r \<in> set (subtract_tracks st a b) \<longleftrightarrow> r \<in> set a \<and> id_of st r \<notin> id_of st ` set b"
  by (simp add: subtract_tracks_def)

lemma subtract_distinct: "distinct (map (id_of st) a) \<Longrightarrow> distinct (map (id_of st) (subtract_tracks st a b))"
  by (simp add: subtract_tracks_def distinct_map_filter')

lemma relisted:
  assumes up: "updating s0 input {} s" and ok: "tracker_ok s0" and s': "s' = relist s"
  shows "set (tracked s') \<subseteq> claimed s \<and> distinct (map (id_of (store s)) (tracked s' @ lost s')) \<and>
    (\<forall>r \<in> set (lost s'). r \<in> set (tracked s0 @ lost s0) \<and> trk_state (store s ! r) = Lost)"
proof -
  note u = updatingD [OF up]
  let ?id = "id_of (store s)" and ?old = "set (tracked s0 @ lost s0)"
  define tr0 where "tr0 = filter (\<lambda>t. trk_state (store s ! t) = Tracked) (tracked s)"
  define tr where "tr = joint_tracks (store s) (joint_tracks (store s) tr0 (now_activated s)) (refound s)"
  define lo1 where "lo1 = subtract_tracks (store s) (lost s) tr"
  define lo where "lo = subtract_tracks (store s) (lo1 @ newly_lost s) (newly_removed s)"
  obtain a b where ab: "remove_duplicates (store s) tr lo = (a, b)" by (metis prod.exhaust)
  have lists: "tracked s' = a" "lost s' = b"
    unfolding s' relist_def Let_def tr0_def [symmetric] tr_def [symmetric] lo1_def [symmetric] lo_def [symmetric] ab by simp_all
  have ids: "?id r = id_of (store s0) r" if "r \<in> ?old" for r
    using u tracker_ok_old [OF ok that] by simp
  have old_id: "?id r < next_id s0" if "r \<in> ?old" for r using ids [OF that] tracker_ok_old [OF ok that] by simp
  have inj: "r = x" if "r \<in> ?old" "x \<in> ?old" "?id r = ?id x" for r x
    using ok that ids unfolding tracker_ok_def distinct_map inj_on_def by metis
  have refs: "distinct (tracked s0)" "distinct (lost s0)" "set (tracked s0) \<inter> set (lost s0) = {}"
    using ok unfolding tracker_ok_def distinct_map by auto
  have dist: "distinct (map ?id xs)" if "distinct xs" "set xs \<subseteq> ?old" for xs
    unfolding distinct_map using that inj by (auto intro!: inj_onI)
  have tr0: "set tr0 \<subseteq> claimed s" using u by (fastforce simp: tr0_def)
  then have tr: "set tr \<subseteq> claimed s"
    using joint_subset [of "store s"] unfolding tr_def claimed_def by blast
  have tr_ids: "?id ` claimed s \<subseteq> ?id ` set tr" by (auto simp: tr_def joint_ids claimed_def)
  have "distinct tr0" "set tr0 \<subseteq> ?old" using u refs by (auto simp: tr0_def)
  then have tr_dist: "distinct (map ?id tr)" unfolding tr_def by (intro joint_distinct dist)
  have lo1: "r \<in> set (lost s0)" "r \<notin> claimed s" "?id r \<notin> ?id ` set tr" if "r \<in> set lo1" for r
    using that tr_ids u by (auto simp: lo1_def subtract_iff)
  have "distinct (lo1 @ newly_lost s)" "set (lo1 @ newly_lost s) \<subseteq> ?old"
    using u refs lo1(1) by (auto simp: lo1_def subtract_tracks_def)
  then have lo_dist: "distinct (map ?id lo)" unfolding lo_def by (intro subtract_distinct dist)
  have lo: "r \<in> ?old \<and> trk_state (store s ! r) = Lost" if "r \<in> set lo" for r
  proof -
    have r: "r \<in> set lo1 \<or> r \<in> set (newly_lost s)" "r \<notin> set (newly_removed s)" using that by (auto simp: lo_def subtract_iff)
    then show ?thesis using lo1 [of r] u by auto
  qed
  have apart: "?id r \<notin> ?id ` set tr" if "r \<in> set lo" for r
  proof -
    have "r \<in> set lo1 \<or> r \<in> set (newly_lost s)" using that by (auto simp: lo_def subtract_iff)
    then show ?thesis
    proof
      assume nl: "r \<in> set (newly_lost s)"
      have "?id x \<noteq> ?id r" if x: "x \<in> claimed s" for x
      proof
        assume eq: "?id x = ?id r"
        have "r \<in> ?old" using nl u by auto
        then have "x \<in> ?old" using u x old_id [of r] eq by force
        then have "x = r" using inj eq \<open>r \<in> ?old\<close> by blast
        then show False using u x nl by (auto simp: fresh_def)
      qed
      then show ?thesis using tr by force
    qed (rule lo1(3))
  qed
  note sub = remove_duplicates_sub [OF ab]
  have "?id ` set a \<inter> ?id ` set b = {}" 
  proof -
    have "?id ` set a \<subseteq> ?id ` set tr" using sub(1) by blast
    moreover have "?id ` set b \<inter> ?id ` set tr = {}" using sub(2) apart by blast
    ultimately show ?thesis by blast
  qed
  then have "distinct (map ?id (a @ b))" using sub(3) [OF tr_dist] sub(4) [OF lo_dist] by simp
  moreover have "set a \<subseteq> claimed s" using sub(1) tr by blast
  moreover have "\<forall>r \<in> set b. r \<in> ?old \<and> trk_state (store s ! r) = Lost" using sub(2) lo by blast
  ultimately show ?thesis unfolding lists by blast
qed

section \<open>A whole update\<close>

lemma associate_returns:
  "associate tr de fuse th s = (Inr a, s') \<Longrightarrow> s' = s \<and> matching (length tr) (length de) a"
  by (auto simp: associate_def run_simps intro: linear_assignment_matching)

definition starting :: "tracker \<Rightarrow> update_state" where
  "starting s = tracker.extend s (update_state.fields [] [] [] [])"

lemma starting_fields [simp]:
  "store (starting s) = store s" "tracked (starting s) = tracked s" "lost (starting s) = lost s" "frame (starting s) = frame s"
  "max_time_lost (starting s) = max_time_lost s" "next_id (starting s) = next_id s" "claimed (starting s) = {}"
  "newly_lost (starting s) = []" "newly_removed (starting s) = []" "bt_config (starting s) = bt_config s"
  by (simp_all add: starting_def tracker.defs update_state.defs claimed_def)

lemma update_steps_phases:
  assumes "update_steps input s = (Inr out, s')"
  obtains high low s1 s2 first s2a s3 second s3a s4 s5 unc s5a s6 s7 s8 s9 unconfirmed pool remaining where
    "split_detections (bt_config s) input (s\<lparr>frame := frame s + 1\<rparr>) = (Inr (high, low), s1)"
    "unconfirmed = filter (\<lambda>t. \<not> activated (store s1 ! t)) (tracked s1)"
    "pool = joint_tracks (store s1) (filter (\<lambda>t. activated (store s1 ! t)) (tracked s1)) (lost s1)"
    "forM (\<lambda>t. change t predict_track) pool s1 = (Inr (), s2)"
    "associate pool high (\<not> mot20 (bt_config s)) (match_threshold (bt_config s)) s2 = (Inr first, s2a)"
    "match_all pool high (matches first) s2a = (Inr (), s3)"
    "remaining = filter (\<lambda>t. trk_state (store s3 ! t) = Tracked) (map (nth pool) (unmatched_rows first))"
    "associate remaining low False (second_match_threshold (bt_config s)) s3 = (Inr second, s3a)"
    "match_all remaining low (matches second) s3a = (Inr (), s4)"
    "forM lose (map (nth remaining) (unmatched_rows second)) s4 = (Inr (), s5)"
    "associate unconfirmed (map (nth high) (unmatched_cols first)) (\<not> mot20 (bt_config s)) (unconfirmed_match_threshold (bt_config s)) s5 = (Inr unc, s5a)"
    "forM (\<lambda>(i, j). confirm_pair (unconfirmed ! i) (map (nth high) (unmatched_cols first) ! j)) (matches unc) s5a = (Inr (), s6)"
    "forM discard (map (nth unconfirmed) (unmatched_rows unc)) s6 = (Inr (), s7)"
    "forM start_track (map (nth (map (nth high) (unmatched_cols first))) (unmatched_cols unc)) s7 = (Inr (), s8)"
    "forM expire (lost s8) s8 = (Inr (), s9)" "s' = relist s9"
    "out = map (\<lambda>t. result_of (store s' ! t)) (filter (\<lambda>t. activated (store s' ! t)) (tracked s'))"
proof -
  show thesis
    using assms unfolding update_steps_def Let_def
    apply (clarsimp simp: andThen_Inr_iff get_state_def modify_def ret_def simp del: map_map filter_map)
    by (rule that) (assumption | rule refl | simp)+
qed

lemma matching_rows:
  assumes "matching (length xs) n a" and "distinct xs"
  defines "M \<equiv> nth xs ` fst ` set (matches a)"
  shows "M \<union> set (map (nth xs) (unmatched_rows a)) = set xs" "M \<inter> set (map (nth xs) (unmatched_rows a)) = {}"
    "distinct (map (nth xs) (unmatched_rows a))" "set (matches a) \<subseteq> {..<length xs} \<times> {..<n}"
proof -
  have rows: "unmatched_rows a = filter (\<lambda>i. i \<notin> fst ` set (matches a)) [0..<length xs]"
    and pairs: "set (matches a) \<subseteq> {..<length xs} \<times> {..<n}" using assms(1) by (auto simp: matching_def)
  have below: "fst ` set (matches a) \<subseteq> {..<length xs}" using pairs by auto
  have "set xs = nth xs ` {..<length xs}" by (auto simp: in_set_conv_nth)
  also have "{..<length xs} = fst ` set (matches a) \<union> set (unmatched_rows a)" using below by (auto simp: rows)
  finally show "M \<union> set (map (nth xs) (unmatched_rows a)) = set xs" by (simp add: M_def image_Un)
  have inj: "inj_on (nth xs) {..<length xs}" using assms(2) by (simp add: inj_on_nth)
  have "fst ` set (matches a) \<inter> set (unmatched_rows a) = {}" by (auto simp: rows)
  then show "M \<inter> set (map (nth xs) (unmatched_rows a)) = {}"
    unfolding M_def set_map using inj_on_image_Int [OF inj below, of "set (unmatched_rows a)"] by (auto simp: rows)
  show "distinct (map (nth xs) (unmatched_rows a))"
    using assms(2) by (auto simp: distinct_map rows intro: inj_on_subset [OF inj])
  show "set (matches a) \<subseteq> {..<length xs} \<times> {..<n}" by (rule pairs)
qed

lemma matching_cols:
  assumes "matching m (length ys) a" and "distinct ys"
  shows "set (map (nth ys) (unmatched_cols a)) \<subseteq> set ys" "distinct (map (nth ys) (unmatched_cols a))"
proof -
  have cols: "unmatched_cols a = filter (\<lambda>j. j \<notin> snd ` set (matches a)) [0..<length ys]" using assms(1) by (simp add: matching_def)
  show "set (map (nth ys) (unmatched_cols a)) \<subseteq> set ys" by (auto simp: cols)
  have "inj_on (nth ys) {..<length ys}" using assms(2) by (simp add: inj_on_nth)
  then show "distinct (map (nth ys) (unmatched_cols a))" by (auto simp: distinct_map cols intro: inj_on_subset)
qed

lemma updating_begins:
  assumes "tracker_ok s0" and "set ds \<subseteq> set input"
    and "s1 = (starting s0)\<lparr>frame := frame s0 + 1, store := store s0 @ map new_strack ds\<rparr>"
  shows "updating s0 input (set (tracked s0)) s1 \<and> claimed s1 = {} \<and> newly_lost s1 = [] \<and> newly_removed s1 = []"
proof -
  have eq: "store s1 = store s0 @ map new_strack ds" "tracked s1 = tracked s0" "lost s1 = lost s0" "frame s1 = frame s0 + 1"
    "max_time_lost s1 = max_time_lost s0" "next_id s1 = next_id s0" "claimed s1 = {}" "newly_lost s1 = []" "newly_removed s1 = []"
    by (simp_all add: assms(3) claimed_def)
      (simp_all add: starting_def tracker.defs update_state.defs claimed_def)
  have old: "store s1 ! r = store s0 ! r" if "r \<in> set (tracked s0 @ lost s0)" for r
    using tracker_ok_old [OF assms(1) that] by (simp add: eq nth_append)
  have new: "trk_observed (store s1 ! d) \<and> trk_observation (store s1 ! d) \<in> set input"
    if "length (store s0) \<le> d" "d < length (store s1)" for d
  proof -
    have "d - length (store s0) < length ds" using that by (simp add: eq)
    then show ?thesis using that assms(2) nth_mem by (fastforce simp: eq nth_append new_strack_def)
  qed
  have st: "trk_state (store s0 ! r) = Tracked" if "r \<in> set (tracked s0)" for r using assms(1) that unfolding tracker_ok_def by blast
  have sl: "trk_state (store s0 ! r) = Lost" if "r \<in> set (lost s0)" for r using assms(1) that unfolding tracker_ok_def by blast
  show ?thesis
    unfolding updating_def
  proof (intro conjI)
    show "\<forall>d. length (store s0) \<le> d \<and> d < length (store s1) \<longrightarrow> trk_observed (store s1 ! d) \<and> trk_observation (store s1 ! d) \<in> set input"
      using new by blast
    show "\<forall>r \<in> set (tracked s0). trk_state (store s1 ! r) = Tracked" using st old by simp
    show "\<forall>r \<in> set (lost s0). trk_state (store s1 ! r) = Lost \<or> r \<in> claimed s1 \<or> r \<in> set (newly_removed s1)" using sl old by simp
  qed (simp_all add: eq id_of_def nth_append)
qed

lemma update_accounts:
  assumes run: "update_steps input (starting s0) = (Inr out, s')" and ok: "tracker_ok s0"
  shows "\<exists>s. updating s0 input {} s \<and> s' = relist s \<and>
    out = map (\<lambda>t. result_of (store s' ! t)) (filter (\<lambda>t. activated (store s' ! t)) (tracked s'))"
proof -
  let ?T = "set (tracked s0)" and ?base = "length (store s0)"
  have base: "base_ok s0" using ok tracker_ok_old [OF ok] unfolding base_ok_def tracker_ok_def by auto
  have refs: "distinct (tracked s0)" "distinct (lost s0)" "?T \<inter> set (lost s0) = {}"
    using ok unfolding tracker_ok_def distinct_map by auto
  obtain high low s1 s2 first s2a s3 second s3a s4 s5 unc s5a s6 s7 s8 s9 unconfirmed pool remaining where
    split: "split_detections (bt_config s0) input ((starting s0)\<lparr>frame := frame s0 + 1\<rparr>) = (Inr (high, low), s1)"
    and unconf: "unconfirmed = filter (\<lambda>t. \<not> activated (store s1 ! t)) (tracked s1)"
    and pool: "pool = joint_tracks (store s1) (filter (\<lambda>t. activated (store s1 ! t)) (tracked s1)) (lost s1)"
    and pred: "forM (\<lambda>t. change t predict_track) pool s1 = (Inr (), s2)"
    and a1: "associate pool high (\<not> mot20 (bt_config s0)) (match_threshold (bt_config s0)) s2 = (Inr first, s2a)"
    and m1: "match_all pool high (matches first) s2a = (Inr (), s3)"
    and remaining: "remaining = filter (\<lambda>t. trk_state (store s3 ! t) = Tracked) (map (nth pool) (unmatched_rows first))"
    and a2: "associate remaining low False (second_match_threshold (bt_config s0)) s3 = (Inr second, s3a)"
    and m2: "match_all remaining low (matches second) s3a = (Inr (), s4)"
    and l2: "forM lose (map (nth remaining) (unmatched_rows second)) s4 = (Inr (), s5)"
    and a3: "associate unconfirmed (map (nth high) (unmatched_cols first)) (\<not> mot20 (bt_config s0)) (unconfirmed_match_threshold (bt_config s0)) s5 = (Inr unc, s5a)"
    and m3: "forM (\<lambda>(i, j). confirm_pair (unconfirmed ! i) (map (nth high) (unmatched_cols first) ! j)) (matches unc) s5a = (Inr (), s6)"
    and d3: "forM discard (map (nth unconfirmed) (unmatched_rows unc)) s6 = (Inr (), s7)"
    and births: "forM start_track (map (nth (map (nth high) (unmatched_cols first))) (unmatched_cols unc)) s7 = (Inr (), s8)"
    and exp: "forM expire (lost s8) s8 = (Inr (), s9)" and s': "s' = relist s9"
    and out: "out = map (\<lambda>t. result_of (store s' ! t)) (filter (\<lambda>t. activated (store s' ! t)) (tracked s'))"
    by (rule update_steps_phases [OF run]) simp
  obtain ds where ds: "s1 = (starting s0)\<lparr>frame := frame s0 + 1, store := store s0 @ map new_strack ds\<rparr>" "set ds \<subseteq> set input"
    and dets: "\<forall>x \<in> set (high @ low). ?base \<le> x \<and> x < length (store s1)" "distinct high"
    using split_detections_spec [OF split] by auto
  have up1: "updating s0 input ?T s1" and c1: "claimed s1 = {}" "newly_lost s1 = []" "newly_removed s1 = []" using updating_begins [OF ok ds(2,1)] by auto
  have lists1: "tracked s1 = tracked s0" "lost s1 = lost s0" using updatingD [OF up1] by simp_all
  have up2: "updating s0 input ?T s2" and c2: "claimed s2 = {}" and len2: "length (store s2) = length (store s1)"
    and empty2: "newly_lost s2 = []" "newly_removed s2 = []"
    using predict_phase [OF pred up1] c1 by auto
  define confirmed where "confirmed = filter (\<lambda>t. activated (store s1 ! t)) (tracked s0)"
  have ids: "id_of (store s1) r = id_of (store s0) r" if "r \<in> set (tracked s0 @ lost s0)" for r
    using updatingD [OF up1] tracker_ok_old [OF ok that] by simp
  have "distinct (map (id_of (store s0)) (confirmed @ lost s0))"
    using ok unfolding tracker_ok_def confirmed_def distinct_map by (auto simp: inj_on_def)
  moreover have "map (id_of (store s1)) (confirmed @ lost s0) = map (id_of (store s0)) (confirmed @ lost s0)"
    using ids by (auto simp: confirmed_def)
  ultimately have "distinct (map (id_of (store s1)) (confirmed @ lost s0))" by (simp only:)
  then have pool': "pool = confirmed @ lost s0"
    unfolding pool lists1 confirmed_def [symmetric] by (rule joint_append)
  have dpool: "distinct pool" and pool_sub: "set pool \<subseteq> set (tracked s0 @ lost s0)"
    using refs by (auto simp: pool' confirmed_def)
  have conf_sub: "set confirmed \<subseteq> ?T" and unconf_eq: "set unconfirmed = ?T - set confirmed"
    by (auto simp: confirmed_def unconf lists1)
  \<comment> \<open>first association\<close>
  have "s2a = s2" "matching (length pool) (length high) first" using associate_returns [OF a1] by simp_all
  note rows1 = matching_rows [OF this(2) dpool] and cols1 = matching_cols [OF this(2) dets(2)]
  define P1 where "P1 = nth pool ` fst ` set (matches first)"
  have step1: "updating s0 input (?T - P1) s3 \<and> claimed s3 = P1 \<and> length (store s3) = length (store s1) \<and>
      newly_lost s3 = [] \<and> newly_removed s3 = []"
    using claim_phase [OF m1 [unfolded match_all_def \<open>s2a = s2\<close>] match_pair_claims up2 rows1(4) pool_sub base] dets(1)
    by (auto simp: P1_def c2 len2 empty2 subset_iff)
  note u3 = updatingD [OF step1 [THEN conjunct1]]
  define rest where "rest = map (nth pool) (unmatched_rows first)"
  have rem_sub: "set remaining \<subseteq> set rest" and drem: "distinct remaining"
    using rows1(3) by (simp_all add: remaining rest_def)
  have tracked3: "trk_state (store s3 ! r) = Tracked" if "r \<in> ?T - P1" for r using u3 that by blast
  have lost3: "trk_state (store s3 ! r) = Lost" if "r \<in> set (lost s0)" "r \<notin> P1" for r using u3 step1 that by auto
  have rest: "P1 \<union> set rest = set pool" "P1 \<inter> set rest = {}" using rows1(1,2) by (simp_all add: P1_def rest_def)
  have rem: "set remaining \<subseteq> ?T - P1"
  proof
    fix r assume r: "r \<in> set remaining"
    then have "r \<in> set rest" "trk_state (store s3 ! r) = Tracked" by (auto simp: remaining rest_def)
    then show "r \<in> ?T - P1" using rest lost3 [of r] conf_sub pool' by fastforce
  qed
  have conf: "set confirmed \<subseteq> P1 \<union> set remaining"
  proof
    fix r assume "r \<in> set confirmed"
    then have r: "r \<in> ?T" "r \<in> P1 \<or> r \<in> set rest" using conf_sub rest(1) pool' by auto
    then show "r \<in> P1 \<union> set remaining" using tracked3 [of r] by (auto simp: remaining rest_def)
  qed
  \<comment> \<open>second association\<close>
  have "s3a = s3" "matching (length remaining) (length low) second" using associate_returns [OF a2] by simp_all
  note rows2 = matching_rows [OF this(2) drem]
  define P2 where "P2 = nth remaining ` fst ` set (matches second)"
  define N2 where "N2 = set (map (nth remaining) (unmatched_rows second))"
  have rem_sub: "set remaining \<subseteq> set (tracked s0 @ lost s0)" using rem by auto
  have step2: "updating s0 input (?T - P1 - P2) s4 \<and> claimed s4 = P1 \<union> P2 \<and> length (store s4) = length (store s1)"
    using claim_phase [OF m2 [unfolded match_all_def \<open>s3a = s3\<close>] match_pair_claims step1 [THEN conjunct1] rows2(4) rem_sub base] dets(1) step1
    by (auto simp: P2_def subset_iff)
  have PN: "P2 \<union> N2 = set remaining" "P2 \<inter> N2 = {}" using rows2(1,2) by (simp_all add: P2_def N2_def)
  have "N2 \<subseteq> ?T - P1 - P2" using PN rem by blast
  from lose_phase [OF l2 step2 [THEN conjunct1] this [unfolded N2_def] rows2(3) base]
  have step3: "updating s0 input (?T - P1 - P2 - N2) s5 \<and> claimed s5 = P1 \<union> P2 \<and> length (store s5) = length (store s1)"
    using step2 by (simp add: N2_def)
  have P1_out: "P1 \<inter> set unconfirmed = {}" using rest(1) pool' unconf_eq refs(3) by auto
  have rem_out: "set remaining \<inter> set unconfirmed = {}"
    using rem_sub rem PN rest pool' unconf_eq refs(3) \<open>set remaining \<subseteq> set rest\<close> by auto
  have left: "?T - P1 - P2 - N2 = set unconfirmed"
    using conf PN(1) P1_out rem_out unconf_eq by blast
  \<comment> \<open>unconfirmed tracks\<close>
  define rh where "rh = map (nth high) (unmatched_cols first)"
  have rh: "set rh \<subseteq> set high" "distinct rh" using cols1 by (simp_all add: rh_def)
  have up5: "updating s0 input (set unconfirmed) s5" using step3 left by simp
  note u5 = updatingD [OF up5]
  have dunc: "distinct unconfirmed" using refs by (simp add: unconf lists1)
  have "s5a = s5" "matching (length unconfirmed) (length rh) unc" using associate_returns [OF a3] by (simp_all add: rh_def)
  note rows3 = matching_rows [OF this(2) dunc] and cols3 = matching_cols [OF this(2) rh(2)]
  have unc_sub: "set unconfirmed \<subseteq> set (tracked s0 @ lost s0)" using unconf_eq by auto
  have rh_range: "set rh \<subseteq> {?base..<length (store s5)}" using rh(1) dets(1) step3 by auto
  have unc_new: "set unconfirmed \<inter> set (newly_lost s5 @ newly_removed s5) = {}" using u5 by force
  define P3 where "P3 = nth unconfirmed ` fst ` set (matches unc)"
  have step6: "updating s0 input (set unconfirmed - P3) s6 \<and> claimed s6 = P1 \<union> P2 \<union> P3 \<and> length (store s6) = length (store s1)"
    using claim_phase [OF m3 [unfolded \<open>s5a = s5\<close>, folded rh_def] confirm_pair_claims up5 rows3(4) unc_sub base rh_range unc_new] step3
    by (simp add: P3_def)
  define N3 where "N3 = set (map (nth unconfirmed) (unmatched_rows unc))"
  have PN3: "P3 \<union> N3 = set unconfirmed" "P3 \<inter> N3 = {}" using rows3(1,2) by (simp_all add: P3_def N3_def)
  have "N3 \<subseteq> set unconfirmed - P3" using PN3 by blast
  note dropped = discard_phase [OF d3 step6 [THEN conjunct1] this [unfolded N3_def] rows3(3) base, folded N3_def]
  have gone: "set unconfirmed - P3 - N3 = {}" using PN3 by blast
  have step7: "updating s0 input {} s7" "claimed s7 = P1 \<union> P2 \<union> P3" "length (store s7) = length (store s1)"
    using dropped [unfolded gone] step6 by simp_all
  \<comment> \<open>new tracks and expired ones\<close>
  have births_range: "set (map (nth rh) (unmatched_cols unc)) \<subseteq> {?base..<length (store s7)}"
    using cols3(1) rh_range step3 step7(3) by auto
  have "claimed s7 \<subseteq> set (tracked s0 @ lost s0)"
    using rest(1) pool_sub PN(1) rem_sub PN3(1) unc_sub unfolding step7(2) by blast
  then have "claimed s7 \<subseteq> {..<?base}" using base unfolding base_ok_def by auto
  then have births_new: "set (map (nth rh) (unmatched_cols unc)) \<inter> claimed s7 = {}" using births_range by force
  have up8: "updating s0 input {} s8"
    by (rule start_phase [OF births [folded rh_def] step7(1) births_range births_new cols3(2) base])
  then have "set (lost s8) \<subseteq> set (lost s0)" using updatingD [OF up8] by simp
  from expire_phase [OF exp up8 this base] have "updating s0 input {} s9" .
  then show ?thesis using s' out by blast
qed

end
