(* ===== verification/Tracks.thy ===== *)
theory Tracks
  imports Tracking
begin

text \<open>
  The tracker's promises to the attendance pipeline, over every history of a tracker: a run starts
  with a new tracker and goes on by updates that return and by resets (an update that throws ends
  the pipeline).
\<close>

section \<open>Histories\<close>

inductive tracker_run :: "bytetrack_config \<Rightarrow> tracker \<Rightarrow> bool" for c where
  start: "tracker_run c (make_tracker c)"
| update: "tracker_run c s \<Longrightarrow> tracker_update input s = (Inr out, s') \<Longrightarrow> tracker_run c s'"
| reset: "tracker_run c s \<Longrightarrow> tracker_run c (reset_tracker s)"

inductive_cases tracker_runE: "tracker_run c s"

definition patient :: "bytetrack_config \<Rightarrow> bool" where
  "patient c \<longleftrightarrow> 0 \<le> max_time_lost (make_tracker c)"

lemma tracker_update_steps:
  assumes "tracker_update input s = (r, s')"
  obtains u where "update_steps input (starting s) = (r, u)" "store s' = store u" "tracked s' = tracked u" "lost s' = lost u"
    "frame s' = frame u" "max_time_lost s' = max_time_lost u" "next_id s' = next_id u" "removed s' = removed u" "bt_config s' = bt_config u"
proof -
  obtain x u where "update_steps input (starting s) = (x, u)" by (cases "update_steps input (starting s)")
  then show thesis using assms that by (auto simp: tracker_update_def starting_def tracker.defs)
qed

lemma relist_fields [simp]:
  "store (relist s) = store s" "frame (relist s) = frame s" "max_time_lost (relist s) = max_time_lost s"
  "next_id (relist s) = next_id s" "bt_config (relist s) = bt_config s"
  by (simp_all add: relist_def Let_def split: prod.split)

text \<open>One update that returns, from a tracker in order.\<close>

lemma update_spec:
  assumes run: "tracker_update input s = (Inr out, s')" and ok: "tracker_ok s"
  shows "tracker_ok s' \<and> frame s' = frame s + 1 \<and> next_id s \<le> next_id s' \<and>
    (\<forall>r \<in> set (tracked s'). fresh (frame s') input (store s' ! r) \<and>
       (r \<in> set (tracked s @ lost s) \<and> id_of (store s') r = id_of (store s) r \<or> next_id s \<le> id_of (store s') r)) \<and>
    out = map (\<lambda>t. result_of (store s' ! t)) (filter (\<lambda>t. activated (store s' ! t)) (tracked s'))"
proof -
  obtain v where v: "update_steps input (starting s) = (Inr out, v)" and eq: "store s' = store v" "tracked s' = tracked v"
    "lost s' = lost v" "frame s' = frame v" "max_time_lost s' = max_time_lost v" "next_id s' = next_id v"
    by (rule tracker_update_steps [OF run])
  obtain w where up: "updating s input {} w" and vw: "v = relist w"
    and out: "out = map (\<lambda>t. result_of (store v ! t)) (filter (\<lambda>t. activated (store v ! t)) (tracked v))"
    using update_accounts [OF v ok] by blast
  note u = updatingD [OF up]
  note lists = relisted [OF up ok vw]
  have claimed: "fresh (frame w) input (store w ! r)" "r < length (store w)" "id_of (store w) r < next_id w"
    "r \<in> set (tracked s @ lost s) \<and> id_of (store w) r = id_of (store s) r \<or> next_id s \<le> id_of (store w) r"
    if "r \<in> set (tracked v)" for r
  proof -
    have c: "r \<in> claimed w" using lists that by blast
    then show "fresh (frame w) input (store w ! r)" "r < length (store w)" using u by blast+
    have "r \<in> set (tracked s @ lost s) \<or> next_id s \<le> id_of (store w) r \<and> id_of (store w) r < next_id w" using u c by blast
    moreover have "id_of (store w) r = id_of (store s) r" "id_of (store w) r < next_id w" if "r \<in> set (tracked s @ lost s)"
      using tracker_ok_old [OF ok that] u by auto
    ultimately show "id_of (store w) r < next_id w"
      "r \<in> set (tracked s @ lost s) \<and> id_of (store w) r = id_of (store s) r \<or> next_id s \<le> id_of (store w) r" by blast+
  qed
  have gone: "r < length (store w)" "id_of (store w) r < next_id w" "trk_state (store w ! r) = Lost" if "r \<in> set (lost v)" for r
  proof -
    have r: "r \<in> set (tracked s @ lost s)" "trk_state (store w ! r) = Lost" using lists that by blast+
    show "trk_state (store w ! r) = Lost" by (rule r(2))
    show "r < length (store w)" "id_of (store w) r < next_id w" using tracker_ok_old [OF ok r(1)] u by auto
  qed
  have "distinct (map (id_of (store w)) (tracked v @ lost v))" using lists by blast
  moreover have "0 \<le> max_time_lost w" using u ok unfolding tracker_ok_def by simp
  moreover have "trk_state (store w ! r) = Tracked" if "r \<in> set (tracked v)" for r using claimed(1) [OF that] by (simp add: fresh_def)
  ultimately have "tracker_ok s'"
    unfolding tracker_ok_def eq using claimed(2,3) gone by (simp add: vw) (metis UnE)
  moreover have "frame s' = frame s + 1" "next_id s \<le> next_id s'" using u by (simp_all add: eq vw)
  ultimately show ?thesis using claimed(1,4) out by (simp add: eq vw)
qed

lemma tracker_reset_ok: "tracker_ok s \<Longrightarrow> tracker_ok (reset_tracker s)"
  by (simp add: tracker_ok_def reset_tracker_def)

lemma make_ok: "patient c \<Longrightarrow> tracker_ok (make_tracker c)"
  by (simp add: tracker_ok_def patient_def make_tracker_def)

lemma tracker_run_ok: "tracker_run c s \<Longrightarrow> patient c \<Longrightarrow> tracker_ok s"
  by (induction rule: tracker_run.induct) (auto simp: make_ok tracker_reset_ok dest: update_spec)

section \<open>How an update ends\<close>

text \<open>
  \<open>keeps I m\<close>: from a state satisfying \<open>I\<close>, \<open>m\<close> returns in one or throws the singular covariance;
  \<open>ends I m\<close>: it throws nothing else.
\<close>

definition singular :: error where
  "singular = RuntimeError ''ByteTrack Kalman projected covariance singular''"

definition keeps :: "('s \<Rightarrow> bool) \<Rightarrow> ('s, 'a) run \<Rightarrow> bool" where
  "keeps I m \<longleftrightarrow> (\<forall>s. I s \<longrightarrow> (case m s of (Inl e, t) \<Rightarrow> e = singular | (Inr x, t) \<Rightarrow> I t))"

definition ends :: "('s \<Rightarrow> bool) \<Rightarrow> ('s, 'a) run \<Rightarrow> bool" where
  "ends I m \<longleftrightarrow> (\<forall>s e t. I s \<longrightarrow> m s = (Inl e, t) \<longrightarrow> e = singular)"

lemma keeps_ends: "keeps I m \<Longrightarrow> ends I m"
  by (fastforce simp: keeps_def ends_def)

lemma keeps_andThen:
  "keeps I m \<Longrightarrow> (\<And>x s t. I s \<Longrightarrow> m s = (Inr x, t) \<Longrightarrow> keeps I (f x)) \<Longrightarrow> keeps I (andThen m f)"
  unfolding keeps_def andThen_def by (fastforce split: prod.splits sum.splits)

lemma ends_andThen:
  "keeps I m \<Longrightarrow> (\<And>x s t. I s \<Longrightarrow> m s = (Inr x, t) \<Longrightarrow> ends I (f x)) \<Longrightarrow> ends I (andThen m f)"
  unfolding keeps_def ends_def andThen_def by (fastforce split: prod.splits sum.splits)

lemma keeps_forM: "(\<And>x. x \<in> set xs \<Longrightarrow> keeps I (f x)) \<Longrightarrow> keeps I (forM f xs)"
proof (induction xs)
  case Nil
  then show ?case by (simp add: keeps_def ret_def)
next
  case (Cons x xs)
  then show ?case by (simp add: keeps_andThen)
qed

lemma keeps_basic:
  "keeps I get_state" "keeps I (ret x)" "(\<And>s. I s \<Longrightarrow> I (g s)) \<Longrightarrow> keeps I (modify g)"
  "(\<And>e. r = Inl e \<Longrightarrow> e = singular) \<Longrightarrow> keeps I (lift_result r)"
  by (auto simp: keeps_def run_simps split: sum.splits)

text \<open>The lists the update starts from are not touched until it relists.\<close>

definition holds_lists :: "nat list \<Rightarrow> nat list \<Rightarrow> bytetrack_config \<Rightarrow> update_state \<Rightarrow> bool" where
  "holds_lists tr lo c s \<longleftrightarrow> tracked s = tr \<and> lost s = lo \<and> bt_config s = c"

lemma keeps_change: "keeps (holds_lists tr lo c) (change r f)"
  unfolding change_def by (intro keeps_basic) (simp add: holds_lists_def)

lemma keeps_push:
  "keeps (holds_lists tr lo c) (modify (\<lambda>s. s\<lparr>now_activated := f s\<rparr>))"
  "keeps (holds_lists tr lo c) (modify (\<lambda>s. s\<lparr>refound := f s\<rparr>))"
  "keeps (holds_lists tr lo c) (modify (\<lambda>s. s\<lparr>newly_lost := f s\<rparr>))"
  "keeps (holds_lists tr lo c) (modify (\<lambda>s. s\<lparr>newly_removed := f s\<rparr>))"
  "keeps (holds_lists tr lo c) (modify (\<lambda>s. s\<lparr>store := g s\<rparr>))"
  "keeps (holds_lists tr lo c) (modify (\<lambda>s. s\<lparr>frame := h s\<rparr>))"
  "keeps (holds_lists tr lo c) (modify (\<lambda>s. s\<lparr>next_id := k s, now_activated := f s\<rparr>))"
  by (intro keeps_basic, simp add: holds_lists_def)+

lemma keeps_corrected: "keeps (holds_lists tr lo c) (corrected r d)"
  unfolding corrected_def
  by (intro keeps_andThen keeps_basic keeps_change) (auto simp: singular_def dest: update_error)

lemma keeps_update_track: "keeps (holds_lists tr lo c) (update_track r d)"
  unfolding update_track_def by (intro keeps_andThen keeps_basic keeps_change keeps_corrected)

lemma keeps_re_activate: "keeps (holds_lists tr lo c) (re_activate r d)"
  unfolding re_activate_def by (intro keeps_andThen keeps_basic keeps_change keeps_corrected)

lemma keeps_confirm_pair: "keeps (holds_lists tr lo c) (confirm_pair r d)"
  unfolding confirm_pair_def by (intro keeps_andThen keeps_update_track keeps_push)

lemma keeps_match_pair: "keeps (holds_lists tr lo c) (match_pair r d)"
  unfolding match_pair_def
  by (intro keeps_andThen keeps_basic) (simp add: keeps_andThen keeps_update_track keeps_re_activate keeps_push)

lemma keeps_match_all: "keeps (holds_lists tr lo c) (match_all rows cols ms)"
  unfolding match_all_def by (intro keeps_forM) (simp add: keeps_match_pair split: prod.split)

lemma keeps_lose: "keeps (holds_lists tr lo c) (lose r)"
  unfolding lose_def mark_def
  by (intro keeps_andThen keeps_basic) (simp add: keeps_andThen keeps_basic keeps_change keeps_push)

lemma keeps_discard: "keeps (holds_lists tr lo c) (discard r)"
  unfolding discard_def mark_def by (intro keeps_andThen keeps_change keeps_push)

lemma keeps_expire: "keeps (holds_lists tr lo c) (expire r)"
  unfolding expire_def by (intro keeps_andThen keeps_basic) (simp add: keeps_discard keeps_basic)

lemma keeps_start_track: "keeps (holds_lists tr lo c) (start_track d)"
  unfolding start_track_def
  by (intro keeps_andThen keeps_basic) (simp add: keeps_andThen keeps_basic keeps_change keeps_push)

lemma keeps_create: "keeps (holds_lists tr lo c) (create d)"
  unfolding create_def by (intro keeps_andThen keeps_basic keeps_push)

lemma keeps_split: "keeps (holds_lists tr lo c) (split_detections cf input)"
proof (induction input)
  case Nil
  then show ?case by (simp add: keeps_basic)
next
  case (Cons d input)
  then show ?case by (auto intro!: keeps_andThen keeps_create keeps_basic split: prod.split)
qed

text \<open>Costs and thresholds are binary32 values.\<close>

definition usable_thresholds :: "bytetrack_config \<Rightarrow> bool" where
  "usable_thresholds c \<longleftrightarrow> (\<forall>x \<in> {match_threshold c, second_match_threshold c, unconfirmed_match_threshold c}. sfinite x \<and> in_range x)"

lemma fl_round_in_range: "fl_round Binary32 q = Fin r \<Longrightarrow> \<bar>r\<bar> \<le> pow2 128"
  by (auto simp: fl_round_eq split: if_splits)

lemma fl_add_in_range: "fl_add Binary32 x y = Fin r \<Longrightarrow> \<bar>r\<bar> \<le> pow2 128"
  by (cases x; cases y) (auto simp: fl_round_in_range)

lemma cost_in_range: "x \<in> set (cost_matrix a b fuse) \<Longrightarrow> in_range x"
  by (auto simp: cost_matrix_def pair_cost_def in_range_def minus_single_def fl_add_in_range)

lemma length_cost_matrix: "length (cost_matrix a b fuse) = length a * length b"
  by (simp add: cost_matrix_def length_concat comp_def sum_list_triv)

lemma keeps_associate:
  assumes "length ts \<le> 23" and "sfinite th" and "in_range th"
  shows "keeps (holds_lists tr lo c) (associate ts ds fuse th)"
proof -
  have "linear_assignment (cost_matrix (to_items st ts) (to_items st ds) fuse) (length ts) (length ds) th \<noteq> Inl e" for st e
  proof
    assume "linear_assignment (cost_matrix (to_items st ts) (to_items st ds) fuse) (length ts) (length ds) th = Inl e"
    moreover from this have "e \<noteq> Diverges" using assignment_ends [OF assms(3,2)] assms(1) cost_in_range by metis
    ultimately show False
      by (auto simp: linear_assignment_def Let_def length_cost_matrix to_items_def split: if_splits option.splits)
  qed
  then show ?thesis unfolding associate_def by (intro keeps_andThen keeps_basic) auto
qed

lemma associate_rows: "associate ts ds fuse th s = (Inr a, t) \<Longrightarrow> length (unmatched_rows a) \<le> length ts"
proof -
  assume "associate ts ds fuse th s = (Inr a, t)"
  then have "unmatched_rows a = filter (\<lambda>i. i \<notin> fst ` set (matches a)) [0..<length ts]"
    using associate_returns unfolding matching_def by blast
  then show ?thesis using length_filter_le [of _ "[0..<length ts]"] by simp
qed

lemma length_joint: "length (joint_tracks st a b) \<le> length a + length b"
proof -
  have "length (new_under st ids b) \<le> length b" for ids
    by (induction st ids b rule: new_under.induct) auto
  then show ?thesis by (simp add: joint_tracks_def)
qed

lemma ends_relist: "ends I (andThen (modify relist) (\<lambda>_. andThen get_state (\<lambda>s. ret (f s))))"
  by (simp add: ends_def run_simps)

lemma ends_get:
  "(\<And>s. tracked s = tr \<Longrightarrow> lost s = lo \<Longrightarrow> bt_config s = c \<Longrightarrow> ends (holds_lists tr lo c) (f s)) \<Longrightarrow>
    ends (holds_lists tr lo c) (andThen get_state f)"
  by (simp add: ends_def run_simps holds_lists_def) blast

lemma ends_pair: "keeps I m \<Longrightarrow> (\<And>a b. ends I (f a b)) \<Longrightarrow> ends I (andThen m (\<lambda>(a, b). f a b))"
  by (intro ends_andThen) (auto split: prod.split)

lemma update_steps_end:
  assumes "length tr + length lo \<le> 23" and "usable_thresholds c"
  shows "ends (holds_lists tr lo c) (update_steps input)"
proof -
  have th: "sfinite (match_threshold c)" "in_range (match_threshold c)" "sfinite (second_match_threshold c)"
    "in_range (second_match_threshold c)" "sfinite (unconfirmed_match_threshold c)" "in_range (unconfirmed_match_threshold c)"
    using assms(2) by (auto simp: usable_thresholds_def)
  have filt: "length (filter P xs) \<le> 23" if "length xs \<le> 23" for P and xs :: "nat list"
    using that length_filter_le [of P xs] by linarith
  have pool: "length (joint_tracks st (filter P tr) lo) \<le> 23" for st P
    using assms(1) length_filter_le [of P tr] length_joint [of st "filter P tr" lo] by linarith
  have tr: "length tr \<le> 23" using assms(1) by simp
  show ?thesis
    unfolding update_steps_def Let_def
    apply (rule ends_andThen [OF keeps_push(6)])
    apply (rule ends_get, simp only:, rule ends_pair [OF keeps_split], rule ends_get, simp only:)
    apply (rule ends_andThen [OF keeps_forM], rule keeps_change)
    apply (rule ends_andThen [OF keeps_associate], rule pool, rule th, rule th)
    apply (rule ends_andThen [OF keeps_match_all], rule ends_get)
    apply (rule ends_andThen [OF keeps_associate], rule filt, simp, drule associate_rows, erule order_trans, rule pool, rule th, rule th)
    apply (rule ends_andThen [OF keeps_match_all], rule ends_andThen [OF keeps_forM], rule keeps_lose)
    apply (rule ends_andThen [OF keeps_associate], rule filt, rule tr, rule th, rule th)
    apply (rule ends_andThen [OF keeps_forM], simp add: keeps_confirm_pair split: prod.split)
    apply (rule ends_andThen [OF keeps_forM], rule keeps_discard)
    apply (rule ends_andThen [OF keeps_forM], rule keeps_start_track)
    apply (rule ends_get, simp only:, rule ends_andThen [OF keeps_forM], rule keeps_expire, rule ends_relist)
    done
qed

section \<open>A concrete history\<close>

definition usual_tracking :: bytetrack_config where
  "usual_tracking = \<lparr>track_threshold = single_lit (1 / 2), low_threshold = single_lit (1 / 10), new_track_threshold = single_lit (6 / 10),
     match_threshold = single_lit (8 / 10), second_match_threshold = single_lit (1 / 2),
     unconfirmed_match_threshold = single_lit (7 / 10), track_buffer = 30, frame_rate = 30, mot20 = False\<rparr>"

definition one_face :: face_detection where
  "one_face = empty_detection\<lparr>box_x1 := single_lit 10, box_y1 := single_lit 10, box_x2 := single_lit 60, box_y2 := single_lit 70,
     detection_score := single_lit (7 / 8)\<rparr>"

lemma usual_patient: "patient usual_tracking"
  by code_simp

lemma one_face_scores:
  "detection_score one_face > track_threshold usual_tracking" "\<not> new_track_threshold usual_tracking \<le> 0"
  "\<not> detection_score one_face < new_track_threshold usual_tracking"
  by code_simp+

lemma fresh_config: "bt_config (make_tracker usual_tracking) = usual_tracking"
  using one_face_scores(2) by (simp add: make_tracker_def)

lemma no_rows: "linear_assignment (cost_matrix [] xs f) 0 n th = Inr \<lparr>matches = [], unmatched_rows = [], unmatched_cols = [0..<n]\<rparr>"
  by (simp add: linear_assignment_def cost_matrix_def)

lemma first_steps:
  assumes "store u = []" "tracked u = []" "lost u = []" "frame u = 0" "bt_config u = usual_tracking" "now_activated u = []" "refound u = []" "newly_lost u = []" "newly_removed u = []"
  shows "\<exists>t u'. update_steps [one_face] u = (Inr [t], u')"
proof -
  have split: "split_detections usual_tracking [one_face] v = (Inr ([length (store v)], []), v\<lparr>store := store v @ [new_strack one_face]\<rparr>)" for v
    using one_face_scores(1) by (simp add: create_def run_simps)
  have ret: "andThen (ret x) f = f x" for x :: "'a" and f :: "'a \<Rightarrow> (update_state, 'b) run"
    by (simp add: run_simps fun_eq_iff)
  define t where "t = activate_track 1 (next_id u) (new_strack one_face)"
  have t: "trk_state t = Tracked" "activated t" by (simp_all add: t_def activate_track_def)
  have start: "start_track 0 (u\<lparr>frame := 1, store := [new_strack one_face]\<rparr>) =
      (Inr (), u\<lparr>frame := 1, store := [t], next_id := next_id u + 1, now_activated := [0]\<rparr>)"
    using one_face_scores(3) assms by (simp add: start_track_def change_def run_simps t_def new_strack_def)
  show ?thesis
    apply (simp add: update_steps_def start assms split andThen_def get_state_def modify_def joint_tracks_def match_all_def associate_def to_items_def no_rows lift_result_def ret_def Let_def del: split_detections.simps)
    by (simp add: start assms andThen_def get_state_def modify_def ret_def relist_def Let_def joint_tracks_def subtract_tracks_def remove_duplicates_def t id_of_def)
qed


lemma first_update:
  "\<exists>t s'. tracker_update [one_face] (make_tracker usual_tracking) = (Inr [t], s')"
proof -
  have "\<exists>t u'. update_steps [one_face] (starting (make_tracker usual_tracking)) = (Inr [t], u')"
    by (rule first_steps) (simp_all add: fresh_config, simp_all add: make_tracker_def starting_def tracker.defs update_state.defs)
  then show ?thesis by (auto simp: tracker_update_def starting_def)
qed

section \<open>Properties\<close>

text \<open>
  C17: What the tracker reports was seen in this very frame. In every history of a tracker, the tracks
  an update returns have distinct ids, are in the state \<open>Tracked\<close>, carry the current frame number,
  and each carries as its observation one of the detections this update was given.
\<close>

theorem track_reports_current:
  assumes "tracker_run c s" and "patient c" and "tracker_update input s = (Inr out, s')"
  shows "distinct (map result_id out) \<and>
    (\<forall>t \<in> set out. result_state t = Tracked \<and> result_frame t = frame s' \<and> has_observation t \<and> observation t \<in> set input)"
proof -
  have ok: "tracker_ok s" using tracker_run_ok assms(1,2) by blast
  note spec = update_spec [OF assms(3) ok]
  have "distinct (map (id_of (store s')) (tracked s'))" using spec unfolding tracker_ok_def by simp
  moreover have "map result_id out = map (id_of (store s')) (filter (\<lambda>t. activated (store s' ! t)) (tracked s'))"
    using spec by (simp add: result_of_def Let_def id_of_def comp_def)
  ultimately have "distinct (map result_id out)" by (simp add: distinct_map_filter')
  moreover have "result_state t = Tracked \<and> result_frame t = frame s' \<and> has_observation t \<and> observation t \<in> set input"
    if "t \<in> set out" for t
  proof -
    have "out = map (\<lambda>t. result_of (store s' ! t)) (filter (\<lambda>t. activated (store s' ! t)) (tracked s'))" using spec by blast
    with that obtain r where "r \<in> set (tracked s')" "t = result_of (store s' ! r)" by auto
    then show ?thesis using spec by (simp add: result_of_def Let_def fresh_def)
  qed
  ultimately show ?thesis by blast
qed

theorem track_reports_current_witness:
  "\<exists>t s'. tracker_update [one_face] (make_tracker usual_tracking) = (Inr [t], s') \<and> result_frame t = frame s' \<and> observation t = one_face"
proof -
  obtain t s' where run: "tracker_update [one_face] (make_tracker usual_tracking) = (Inr [t], s')" using first_update by blast
  show ?thesis using run track_reports_current [OF tracker_run.start usual_patient run] by auto
qed



text \<open>
  C19: An update of the tracker ends, and the only exception it can end with is a singular projected
  covariance: with up to 23 tracks tracked or lost and finite thresholds, neither loop of the
  assignment runs on, and no cost matrix has the wrong size.
\<close>

theorem tracker_update_ends:
  assumes "length (tracked s) + length (lost s) \<le> 23" and "usable_thresholds (bt_config s)"
  shows "case fst (tracker_update input s) of
      Inl e \<Rightarrow> e = RuntimeError ''ByteTrack Kalman projected covariance singular'' | Inr out \<Rightarrow> True"
proof (cases "fst (tracker_update input s)")
  case (Inl e)
  then obtain s' where run: "tracker_update input s = (Inl e, s')" by (cases "tracker_update input s") simp
  obtain u where "update_steps input (starting s) = (Inl e, u)" by (rule tracker_update_steps [OF run])
  moreover have "holds_lists (tracked s) (lost s) (bt_config s) (starting s)" by (simp add: holds_lists_def)
  ultimately have "e = singular" using update_steps_end [OF assms(1,2)] unfolding ends_def by blast
  then show ?thesis using Inl by (simp add: singular_def)
qed simp

theorem tracker_update_ends_witness:
  "usable_thresholds usual_tracking \<and>
   (case fst (tracker_update [one_face, one_face] (make_tracker usual_tracking)) of
      Inl e \<Rightarrow> e = RuntimeError ''ByteTrack Kalman projected covariance singular'' | Inr out \<Rightarrow> True)"
proof -
  have "length (tracked (make_tracker usual_tracking)) + length (lost (make_tracker usual_tracking)) \<le> 23" by (simp add: make_tracker_def)
  moreover have small: "in_range (single_lit q)" for q by (auto simp: in_range_def single_lit_def fl_round_in_range)
  have "sfinite (single_lit (8 / 10))" "sfinite (single_lit (1 / 2))" "sfinite (single_lit (7 / 10))" by code_simp+
  then have ok: "usable_thresholds usual_tracking" by (simp add: usable_thresholds_def usual_tracking_def small)
  ultimately show ?thesis using tracker_update_ends [of "make_tracker usual_tracking"] by (simp only: fresh_config simp_thms)
qed

end
