(* ===== verification/Sessions.thy ===== *)
theory Sessions
  imports Processor
begin

text \<open>
  The invariant of the attendance processor and what its events are worth: no event without the
  configured liveness votes and a sufficient match, none for an identity in its cooldown, none for
  a track rejected as an attack, and bounded work per track.
\<close>

section \<open>The invariant of one track\<close>

definition awaiting :: "phase \<Rightarrow> bool" where
  "awaiting ph \<longleftrightarrow> ph = WaitingQuality \<or> ph = CheckingPad"

definition config_ok :: "biometric_config \<Rightarrow> bool" where
  "config_ok c \<longleftrightarrow> validate_attendance_config c = Inr ()"

definition cleared :: "biometric_config \<Rightarrow> bio_state \<Rightarrow> bool" where
  "cleared c s \<longleftrightarrow> vote_real (votes s) \<ge> pad_bona_fide_votes_required c \<and>
     vote_spoof (votes s) < pad_attack_votes_required c"

definition bio_ok :: "biometric_config \<Rightarrow> nat \<Rightarrow> bio_state \<Rightarrow> bool" where
  "bio_ok c n s \<longleftrightarrow>
     vote_attempts (votes s) = vote_real (votes s) + vote_spoof (votes s) \<and>
     length (scores s) = vote_attempts (votes s) \<and>
     vote_attempts (votes s) \<le> pad_max_attempts c \<and>
     (awaiting (bio_phase s) \<longrightarrow> vote_attempts (votes s) < pad_max_attempts c \<and>
        vote_real (votes s) < pad_bona_fide_votes_required c \<and> vote_spoof (votes s) < pad_attack_votes_required c) \<and>
     (\<not> awaiting (bio_phase s) \<and> bio_phase s \<noteq> RejectedAttack \<longrightarrow> cleared c s) \<and>
     arc_extra s \<le> recognition_extra_attempts c \<and>
     seen s \<le> n \<and> last_pad s \<le> n \<and> last_arc s \<le> n"

lemma config_okD:
  assumes "config_ok c"
  shows "0 < pad_bona_fide_votes_required c" "0 < pad_attack_votes_required c" "0 < pad_max_attempts c"
    "0 < recognition_max_attempts c" "0 < event_cooldown c" "pad_bona_fide_votes_required c \<le> pad_max_attempts c"
    "pad_attack_votes_required c \<le> pad_max_attempts c" "0 < max_missing_runtime_frames c"
  using assms by (auto simp: config_ok_def validate_attendance_config_def split: if_splits)

lemma fresh_bio_ok: "config_ok c \<Longrightarrow> m \<le> n \<Longrightarrow> bio_ok c n (fresh_bio\<lparr>seen := m\<rparr>)"
  using config_okD by (simp add: bio_ok_def fresh_bio_def no_votes_def awaiting_def)

lemma fresh_bio_ok0: "config_ok c \<Longrightarrow> bio_ok c n fresh_bio"
  using config_okD by (simp add: bio_ok_def fresh_bio_def no_votes_def awaiting_def)

lemma bio_ok_mono: "bio_ok c n s \<Longrightarrow> n \<le> m \<Longrightarrow> bio_ok c m s"
  by (auto simp: bio_ok_def)

lemma bio_ok_seen: "bio_ok c n s \<Longrightarrow> bio_ok c n (s\<lparr>seen := n\<rparr>)"
  by (auto simp: bio_ok_def cleared_def)

lemma bio_ok_quality: "bio_ok c n s \<Longrightarrow> bio_ok c n (s\<lparr>best_quality := q\<rparr>)"
  by (auto simp: bio_ok_def cleared_def)

lemma bio_ok_retry:
  assumes "bio_ok c n s" and "bio_phase s = RecognitionDeferred" and "arc_extra s < recognition_extra_attempts c"
  shows "bio_ok c n (s\<lparr>arc_extra := arc_extra s + 1, bio_phase := Recognizing, embedding_sums := xs, arc_count := 0\<rparr>)"
  using assms by (auto simp: bio_ok_def cleared_def awaiting_def)

lemma schedule_state_ok:
  assumes "config_ok c" and "bio_ok c n s0" and "schedule_state c g n now t s0 = (s, q)"
  shows "bio_ok c n s \<and> (q \<longrightarrow> bio_phase s = CheckingPad)"
proof -
  define s1 where "s1 = s0\<lparr>seen := n\<rparr>"
  have ok1: "bio_ok c n s1" unfolding s1_def by (rule bio_ok_seen [OF assms(2)])
  define s2 where "s2 = (if (bio_phase s1 = Recognized \<or> bio_phase s1 = DuplicateIdentity) \<and>
      now - terminal s1 \<ge> ns_of_ms (event_cooldown c) then fresh_bio\<lparr>seen := n\<rparr> else s1)"
  have ok2: "bio_ok c n s2" unfolding s2_def using ok1 fresh_bio_ok [OF assms(1), of n n] by simp
  define s3 where "s3 = (if vote_attempts (votes s2) \<noteq> 0 \<and> now - evidence s2 > ns_of_ms (evidence_ttl c)
      then fresh_bio\<lparr>seen := seen s2\<rparr> else s2)"
  have "seen s2 \<le> n" using ok2 by (simp add: bio_ok_def)
  then have ok3: "bio_ok c n s3" unfolding s3_def using ok2 fresh_bio_ok [OF assms(1)] by simp
  have set3: "\<not> settled (bio_phase s3)" if "\<not> settled (bio_phase s2)"
    using that by (auto simp: s3_def fresh_bio_def settled_def)
  define s4 where "s4 = (if bio_phase s3 = RecognitionDeferred
      then s3\<lparr>arc_extra := arc_extra s3 + 1, bio_phase := Recognizing,
              embedding_sums := replicate embedding_size 0, arc_count := 0\<rparr> else s3)"
  note eq = assms(3) [unfolded schedule_state_def Let_def, folded s1_def, folded s2_def, folded s3_def, folded s4_def]
  have ok4: "bio_ok c n s4"
    if "\<not> (bio_phase s3 = RecognitionDeferred \<and> arc_extra s3 \<ge> recognition_extra_attempts c)"
    unfolding s4_def using ok3 that bio_ok_retry [OF ok3] by (simp add: not_le)
  have phase4: "awaiting (bio_phase s4) \<or> bio_phase s4 = Recognizing" if "\<not> settled (bio_phase s2)"
    using set3 [OF that] by (cases "bio_phase s3") (auto simp: s4_def settled_def awaiting_def)
  have check: "bio_ok c n (s4\<lparr>bio_phase := CheckingPad\<rparr>)" if "bio_ok c n s4" "awaiting (bio_phase s4)"
    using that by (auto simp: bio_ok_def cleared_def awaiting_def)
  show ?thesis
  proof (cases "settled (bio_phase s2)")
    case True
    then have "(s, q) = (s2, False)" using eq by simp
    then show ?thesis using ok2 by simp
  next
    case unsettled: False
    show ?thesis
    proof (cases "quality t c \<le> 0 \<or> g = 0 \<or> (bio_phase s3 = RecognitionDeferred \<and>
        (arc_extra s3 \<ge> recognition_extra_attempts c \<or> quality t c < best_quality s3 * retry_quality_gain c))")
      case True
      then have "(s, q) = (s3, False)" using eq unsettled by (simp split: if_splits)
      then show ?thesis using ok3 by simp
    next
      case go: False
      then have ok: "bio_ok c n s4" using ok4 by blast
      from go have no: "(quality t c \<le> 0 \<or> g = 0) = False" "(bio_phase s3 = RecognitionDeferred \<and>
        (arc_extra s3 \<ge> recognition_extra_attempts c \<or> quality t c < best_quality s3 * retry_quality_gain c)) = False"
        "settled (bio_phase s2) = False" using unsettled by blast+
      show ?thesis
      proof (cases "bio_phase s4 \<noteq> Recognizing \<and> (last_pad s4 = 0 \<or> n - last_pad s4 \<ge> pad_every_frames c)")
        case True
        then have "(s, q) = (s4\<lparr>bio_phase := CheckingPad\<rparr>, True)" using eq unfolding no if_False by simp
        then show ?thesis using check [OF ok] phase4 [OF unsettled] True by simp
      next
        case False
        then have "(s, q) = (s4, False)" using eq unfolding no if_False by (simp split: if_splits)
        then show ?thesis using ok by simp
      qed
    qed
  qed
qed

lemma decide_pad_ok:
  assumes "config_ok c" and "bio_phase s = CheckingPad" and "seen s \<le> n" "last_pad s \<le> n" "last_arc s \<le> n"
    and "vote_attempts (votes s) = vote_real (votes s) + vote_spoof (votes s)"
    and "length (scores s) = vote_attempts (votes s)" and "vote_attempts (votes s) \<le> pad_max_attempts c"
    and "arc_extra s \<le> recognition_extra_attempts c"
  shows "bio_ok c n (decide_pad c s)"
  using assms config_okD [OF assms(1)]
  by (auto simp: decide_pad_def bio_ok_def cleared_def awaiting_def)

lemma apply_pad_ok:
  assumes "config_ok c" and "bio_ok c n s" and "bio_phase s = CheckingPad" and "apply_pad c n now r s = (x, s')"
  shows "bio_ok c n s'"
proof (cases "live_decision r = InputRejected")
  case True
  then show ?thesis using assms(2-4)
    by (auto simp: apply_pad_def Let_def bio_ok_def cleared_def awaiting_def add_vote_def split: if_splits)
next
  case False
  show ?thesis
  proof (cases "live_score r")
    case None
    then show ?thesis using False assms(2-4) by (auto simp: apply_pad_def Let_def bio_ok_def cleared_def)
  next
    case (Some score)
    show ?thesis
    proof (cases "classify_score score (pad_live_threshold c)")
      case (Inl e)
      then show ?thesis using Some False assms(2-4) by (auto simp: apply_pad_def Let_def bio_ok_def cleared_def)
    next
      case (Inr d)
      then have d: "d = Live \<or> d = Spoof" by (auto simp: classify_score_def split: if_splits)
      have s': "s' = decide_pad c (s\<lparr>last_pad := n, evidence := if vote_attempts (votes s) = 0 then now else evidence s,
          votes := add_vote d (votes s), scores := scores s @ [score]\<rparr>)"
        using Inr Some False assms(4) by (auto simp: apply_pad_def Let_def)
      show ?thesis unfolding s'
        by (rule decide_pad_ok [OF assms(1)])
          (use assms(2,3) d in \<open>auto simp: bio_ok_def awaiting_def add_vote_def Let_def\<close>)
    qed
  qed
qed


section \<open>The invariant of the processor\<close>

definition proc_ok :: "processor \<Rightarrow> bool" where
  "proc_ok p \<longleftrightarrow> config_ok (proc_config p) \<and> matcher_ok (proc_gallery p) \<and>
     (\<forall>k s. bio_states p k = Some s \<longrightarrow> bio_ok (proc_config p) (tick p) s)"

lemma bio_at_ok: "proc_ok p \<Longrightarrow> bio_ok (proc_config p) (tick p) (bio_at k p)"
  by (auto simp: proc_ok_def bio_at_def fresh_bio_ok0 split: option.splits)

lemma put_bio_ok: "proc_ok p \<Longrightarrow> bio_ok (proc_config p) (tick p) s \<Longrightarrow> proc_ok (put_bio k s p)"
  by (simp add: proc_ok_def put_bio_def)

lemma put_bio_simps [simp]:
  "proc_config (put_bio k s p) = proc_config p" "proc_gallery (put_bio k s p) = proc_gallery p"
  "tick (put_bio k s p) = tick p" "emitted (put_bio k s p) = emitted p"
  "last_frame (put_bio k s p) = last_frame p" "last_time (put_bio k s p) = last_time p"
  "have_time (put_bio k s p) = have_time p"
  "bio_at j (put_bio k s p) = (if j = k then s else bio_at j p)"
  "bio_states (put_bio k s p) j = (if j = k then Some s else bio_states p j)"
  by (simp_all add: put_bio_def bio_at_def)

text \<open>What the stages leave alone.\<close>

definition same_frame :: "processor \<Rightarrow> processor \<Rightarrow> bool" where
  "same_frame p p' \<longleftrightarrow> proc_config p' = proc_config p \<and> proc_gallery p' = proc_gallery p \<and> tick p' = tick p \<and>
     last_frame p' = last_frame p \<and> last_time p' = last_time p \<and> have_time p' = have_time p"

lemma same_frame_refl [simp]: "same_frame p p"
  by (simp add: same_frame_def)

lemma same_frame_trans: "same_frame p q \<Longrightarrow> same_frame q r \<Longrightarrow> same_frame p r"
  by (simp add: same_frame_def)

lemma same_frame_put [simp]: "same_frame p (put_bio k s p)"
  by (simp add: same_frame_def)

lemma schedule_spec:
  assumes "proc_ok p" and "distinct (map result_id ts)" and "schedule now ts p = (p', queue)"
  shows "proc_ok p'" and "same_frame p p'" and "emitted p' = emitted p"
    and "distinct (map fst queue)" and "set (map fst queue) \<subseteq> result_id ` set ts"
    and "\<forall>k \<in> set (map fst queue). bio_phase (bio_at k p') = CheckingPad"
    and "\<forall>k. k \<notin> result_id ` set ts \<longrightarrow> bio_states p' k = bio_states p k"
    and "\<forall>t \<in> set ts. bio_states p' (result_id t) = Some (fst (schedule_state (proc_config p)
           (gallery_size (proc_gallery p)) (tick p) now t (bio_at (result_id t) p)))"
proof -
  have "proc_ok p' \<and> same_frame p p' \<and> emitted p' = emitted p \<and> distinct (map fst queue) \<and>
      set (map fst queue) \<subseteq> result_id ` set ts \<and> (\<forall>k \<in> set (map fst queue). bio_phase (bio_at k p') = CheckingPad) \<and>
      (\<forall>k. k \<notin> result_id ` set ts \<longrightarrow> bio_states p' k = bio_states p k) \<and>
      (\<forall>t \<in> set ts. bio_states p' (result_id t) = Some (fst (schedule_state (proc_config p)
           (gallery_size (proc_gallery p)) (tick p) now t (bio_at (result_id t) p))))"
    using assms
  proof (induction ts arbitrary: p queue)
    case (Cons t ts)
    obtain s q where s: "schedule_state (proc_config p) (gallery_size (proc_gallery p)) (tick p) now t
        (bio_at (result_id t) p) = (s, q)" by fastforce
    define p1 where "p1 = put_bio (result_id t) s p"
    obtain rest where rest: "schedule now ts p1 = (p', rest)"
      and queue: "queue = (if q then [(result_id t, observation t)] else []) @ rest"
      using Cons.prems(3) s by (auto simp: p1_def split: prod.splits)
    have "config_ok (proc_config p)" using Cons.prems(1) by (simp add: proc_ok_def)
    note sok = schedule_state_ok [OF this bio_at_ok [OF Cons.prems(1)] s]
    have p1: "proc_ok p1" unfolding p1_def using put_bio_ok [OF Cons.prems(1)] sok by blast
    have ts: "distinct (map result_id ts)" "result_id t \<notin> result_id ` set ts" using Cons.prems(2) by auto
    note IH = Cons.IH [OF p1 ts(1) rest]
    have "bio_at (result_id t) p' = s" "bio_states p' (result_id t) = Some s"
      using IH ts(2) by (auto simp: bio_at_def p1_def)
    moreover have "bio_at (result_id u) p1 = bio_at (result_id u) p" if "u \<in> set ts" for u
    proof -
      have "result_id u \<noteq> result_id t" using that ts(2) by (metis imageI)
      then show ?thesis by (simp add: p1_def)
    qed
    ultimately show ?case using IH ts sok s unfolding queue
      by (auto simp: p1_def same_frame_def)
  qed simp
  then show "proc_ok p'" and "same_frame p p'" and "emitted p' = emitted p"
    and "distinct (map fst queue)" and "set (map fst queue) \<subseteq> result_id ` set ts"
    and "\<forall>k \<in> set (map fst queue). bio_phase (bio_at k p') = CheckingPad"
    and "\<forall>k. k \<notin> result_id ` set ts \<longrightarrow> bio_states p' k = bio_states p k"
    and "\<forall>t \<in> set ts. bio_states p' (result_id t) = Some (fst (schedule_state (proc_config p)
           (gallery_size (proc_gallery p)) (tick p) now t (bio_at (result_id t) p)))" by blast+
qed

lemma pad_results_spec:
  assumes "proc_ok p" and "distinct (map fst rs)" and "\<forall>k \<in> set (map fst rs). bio_phase (bio_at k p) = CheckingPad"
    and "pad_results now rs p = (x, p')"
  shows "proc_ok p' \<and> same_frame p p' \<and> emitted p' = emitted p \<and>
    (\<forall>k. k \<notin> set (map fst rs) \<longrightarrow> bio_states p' k = bio_states p k)"
  using assms
proof (induction rs arbitrary: p)
  case (Cons kr rs)
  obtain k r where kr: "kr = (k, r)" by fastforce
  obtain y s where ys: "apply_pad (proc_config p) (tick p) now r (bio_at k p) = (y, s)" by fastforce
  define p1 where "p1 = put_bio k s p"
  have "config_ok (proc_config p)" using Cons.prems(1) by (simp add: proc_ok_def)
  from apply_pad_ok [OF this bio_at_ok [OF Cons.prems(1)] _ ys] Cons.prems(3)
  have "bio_ok (proc_config p) (tick p) s" by (simp add: kr)
  then have p1: "proc_ok p1" unfolding p1_def by (rule put_bio_ok [OF Cons.prems(1)])
  show ?case
  proof (cases y)
    case (Inl e)
    then have "p' = p1" using Cons.prems(4) ys by (simp add: kr run_simps on_bio_def p1_def)
    then show ?thesis using p1 by (auto simp: p1_def kr)
  next
    case (Inr u)
    then have run: "pad_results now rs p1 = (x, p')"
      using Cons.prems(4) ys by (simp add: kr run_simps on_bio_def p1_def)
    have "\<forall>j \<in> set (map fst rs). bio_phase (bio_at j p1) = CheckingPad"
      using Cons.prems(2,3) by (auto simp: p1_def kr)
    from Cons.IH [OF p1 _ this run] Cons.prems(2) show ?thesis
      by (auto simp: p1_def kr same_frame_def)
  qed
qed (simp add: ret_def)

lemma zip_keys: "length xs = length ys \<Longrightarrow> map fst (zip (map fst xs) ys) = map fst xs"
  by simp

lemma pad_stage_spec:
  assumes "proc_ok p" and "distinct (map fst queue)" and "\<forall>k \<in> set (map fst queue). bio_phase (bio_at k p) = CheckingPad"
    and "pad_stage ev frame now queue p = (x, p')"
  shows "proc_ok p' \<and> same_frame p p' \<and> emitted p' = emitted p \<and>
    (\<forall>k. k \<notin> set (map fst queue) \<longrightarrow> bio_states p' k = bio_states p k)"
proof (cases "queue = []")
  case True
  then show ?thesis using assms by (simp add: pad_stage_def ret_def)
next
  case False
  show ?thesis
  proof (cases "eval_pad ev frame (map snd queue)")
    case (Inl e)
    then show ?thesis using False assms by (auto simp: pad_stage_def run_simps)
  next
    case (Inr results)
    show ?thesis
    proof (cases "length results = length queue")
      case True
      then have run: "pad_results now (zip (map fst queue) results) p = (x, p')"
        using Inr False assms(4) by (simp add: pad_stage_def run_simps)
      have keys: "map fst (zip (map fst queue) results) = map fst queue" using True by simp
      from pad_results_spec [OF assms(1) _ _ run] show ?thesis using assms(2,3) unfolding keys by blast
    next
      case False
      then show ?thesis using Inr \<open>queue \<noteq> []\<close> assms by (auto simp: pad_stage_def run_simps)
    qed
  qed
qed


section \<open>Recognition and events\<close>

lemma recognition_queue_spec:
  assumes "proc_ok p" and "distinct (map result_id ts)" and "recognition_queue ts p = (p', queue)"
  shows "proc_ok p' \<and> same_frame p p' \<and> emitted p' = emitted p \<and> distinct (map fst queue) \<and>
    set (map fst queue) \<subseteq> result_id ` set ts \<and>
    (\<forall>k \<in> set (map fst queue). bio_phase (bio_at k p') = Recognizing) \<and>
    (\<forall>k. bio_phase (bio_at k p') = bio_phase (bio_at k p)) \<and>
    (\<forall>k. k \<notin> set (map fst queue) \<longrightarrow> bio_states p' k = bio_states p k)"
  using assms
proof (induction ts arbitrary: p queue)
  case (Cons t ts)
  have ts: "distinct (map result_id ts)" "result_id t \<notin> result_id ` set ts" using Cons.prems(2) by auto
  show ?case
  proof (cases "wants_recognition p t")
    case False
    then have "recognition_queue ts p = (p', queue)" using Cons.prems(3) by simp
    from Cons.IH [OF Cons.prems(1) ts(1) this] show ?thesis by auto
  next
    case True
    define s where "s = (bio_at (result_id t) p)\<lparr>best_quality :=
        std_max (best_quality (bio_at (result_id t) p)) (quality t (proc_config p))\<rparr>"
    define p1 where "p1 = put_bio (result_id t) s p"
    obtain rest where rest: "recognition_queue ts p1 = (p', rest)" and queue: "queue = (result_id t, observation t) # rest"
      using Cons.prems(3) True by (auto simp: p1_def s_def Let_def split: prod.splits)
    have phase: "bio_phase (bio_at (result_id t) p) = Recognizing"
      using True by (simp add: wants_recognition_def Let_def)
    have p1: "proc_ok p1" unfolding p1_def s_def
      by (intro put_bio_ok Cons.prems(1) bio_ok_quality bio_at_ok)
    note IH = Cons.IH [OF p1 ts(1) rest]
    have phases: "bio_phase (bio_at k p1) = bio_phase (bio_at k p)" for k by (simp add: p1_def s_def)
    have notin: "result_id t \<notin> set (map fst rest)" using IH ts(2) by blast
    have rest_ids: "set (map fst rest) \<subseteq> result_id ` set ts" using IH by blast
    have "same_frame p p1" "emitted p1 = emitted p" by (simp_all add: p1_def)
    moreover have "bio_states p1 k = bio_states p k" if "k \<noteq> result_id t" for k using that by (simp add: p1_def)
    ultimately show ?thesis unfolding queue
      using IH phases phase notin rest_ids same_frame_trans [of p p1 p'] by auto
  qed
qed simp

definition event_justified :: "processor \<Rightarrow> gpu_frame \<Rightarrow> attendance_event \<Rightarrow> bool" where
  "event_justified p frame e \<longleftrightarrow> (\<exists>s. bio_states p (event_track e) = Some s \<and>
     bio_phase s = Recognized \<and> cleared (proc_config p) s \<and> accepted (proc_config p) (bio_match s) \<and>
     event_identity e = match_identity (bio_match s) \<and> event_similarity e = best_similarity (bio_match s) \<and>
     event_margin e = match_margin (bio_match s) \<and> event_pad_median e = median (scores s) \<and>
     event_frame e = frame_id frame)"

lemma recognition_ok:
  assumes "bio_ok c n s" and "bio_phase s = Recognizing"
  shows "bio_ok c n (accumulate_embedding n e s)"
  using assms by (auto simp: accumulate_embedding_def bio_ok_def cleared_def awaiting_def)


lemma apply_recognition_spec:
  assumes "proc_ok p" and "bio_phase (bio_at k p) = Recognizing"
    and "apply_recognition utc frame now k e p = (x, p')"
  shows "proc_ok p'" and "same_frame p p'" and "\<forall>j. j \<noteq> k \<longrightarrow> bio_states p' j = bio_states p j"
    and "(\<exists>err. x = Inl err \<and> emitted p' = emitted p) \<or> (x = Inr [] \<and> emitted p' = emitted p) \<or>
      (\<exists>ev. x = Inr [ev] \<and> event_justified p' frame ev \<and> event_track ev = k \<and> event_utc_ms ev = utc \<and>
         emitted p (event_identity ev) = None \<and> emitted p' = (emitted p)(event_identity ev \<mapsto> now))"
proof -
  let ?c = "proc_config p"
  define s where "s = accumulate_embedding (tick p) e (bio_at k p)"
  have sok: "bio_ok ?c (tick p) s" unfolding s_def
    by (rule recognition_ok [OF bio_at_ok [OF assms(1)] assms(2)])
  have phase: "bio_phase s = Recognizing" using assms(2) by (simp add: s_def accumulate_embedding_def)
  have clear: "cleared ?c s" using sok phase by (simp add: bio_ok_def awaiting_def)
  have mok: "bio_ok ?c (tick p) (s\<lparr>bio_match := m\<rparr>)" for m using sok by (auto simp: bio_ok_def cleared_def)
  have settle: "bio_ok ?c (tick p) (s\<lparr>bio_match := m, terminal := now, bio_phase := ph\<rparr>)"
    if "ph = Recognized \<or> ph = DuplicateIdentity" for m ph
    using sok clear that by (auto simp: bio_ok_def cleared_def awaiting_def)
  have spent: "bio_ok ?c (tick p) (exhausted ?c (s\<lparr>bio_match := m\<rparr>))" for m
    using sok clear by (auto simp: exhausted_def bio_ok_def cleared_def awaiting_def)
  note run = assms(3) [unfolded apply_recognition_def Let_def, folded s_def]
  have "proc_ok p' \<and> same_frame p p' \<and> (\<forall>j. j \<noteq> k \<longrightarrow> bio_states p' j = bio_states p j) \<and>
     ((\<exists>err. x = Inl err \<and> emitted p' = emitted p) \<or> (x = Inr [] \<and> emitted p' = emitted p) \<or>
      (\<exists>ev. x = Inr [ev] \<and> event_justified p' frame ev \<and> event_track ev = k \<and> event_utc_ms ev = utc \<and>
         emitted p (event_identity ev) = None \<and> emitted p' = (emitted p)(event_identity ev \<mapsto> now)))"
  proof (cases "match_gallery (proc_gallery p) (mean_embedding s)")
    case (Inl err)
    with run have "x = Inl err" "p' = put_bio k s p" by auto
    then show ?thesis using put_bio_ok [OF assms(1) sok] by simp
  next
    case (Inr m)
    show ?thesis
    proof (cases "accepted ?c m")
      case False
      with run Inr have "x = Inr []" "p' = put_bio k (exhausted ?c (s\<lparr>bio_match := m\<rparr>)) p" by auto
      then show ?thesis using put_bio_ok [OF assms(1) spent] by simp
    next
      case acc: True
      show ?thesis
      proof (cases "emitted p (match_identity m) = None")
        case False
        with run Inr acc have "x = Inr []"
          "p' = put_bio k (s\<lparr>bio_match := m, terminal := now, bio_phase := DuplicateIdentity\<rparr>) p" by auto
        then show ?thesis using put_bio_ok [OF assms(1) settle] by simp
      next
        case True
        let ?s = "s\<lparr>bio_match := m, terminal := now, bio_phase := Recognized\<rparr>"
        let ?ev = "new_event utc frame k (s\<lparr>bio_match := m\<rparr>)"
        from run Inr acc True have x: "x = Inr [?ev]" and p': "p' = put_bio k ?s (p\<lparr>emitted := (emitted p)(match_identity m \<mapsto> now)\<rparr>)"
          by auto
        have "proc_ok (p\<lparr>emitted := (emitted p)(match_identity m \<mapsto> now)\<rparr>)" using assms(1) by (simp add: proc_ok_def)
        then have "proc_ok p'" unfolding p' by (rule put_bio_ok) (use settle in simp)
        moreover have "event_justified p' frame ?ev"
          using clear acc by (simp add: event_justified_def p' new_event_def cleared_def)
        ultimately show ?thesis using x True
          by (simp add: p' new_event_def same_frame_def)
      qed
    qed
  qed
  then show "proc_ok p'" and "same_frame p p'" and "\<forall>j. j \<noteq> k \<longrightarrow> bio_states p' j = bio_states p j"
    and "(\<exists>err. x = Inl err \<and> emitted p' = emitted p) \<or> (x = Inr [] \<and> emitted p' = emitted p) \<or>
      (\<exists>ev. x = Inr [ev] \<and> event_justified p' frame ev \<and> event_track ev = k \<and> event_utc_ms ev = utc \<and>
         emitted p (event_identity ev) = None \<and> emitted p' = (emitted p)(event_identity ev \<mapsto> now))" by blast+
qed


text \<open>How the map of cooldowns grows along a frame.\<close>

definition emitted_grows :: "int \<Rightarrow> processor \<Rightarrow> processor \<Rightarrow> bool" where
  "emitted_grows now p p' \<longleftrightarrow> (\<forall>k t. emitted p k = Some t \<longrightarrow> emitted p' k = Some t) \<and>
     (\<forall>k t. emitted p' k = Some t \<longrightarrow> emitted p k = Some t \<or> t = now)"

lemma emitted_grows_same: "emitted p' = emitted p \<Longrightarrow> emitted_grows now p p'"
  by (simp add: emitted_grows_def)

lemma emitted_grows_trans: "emitted_grows now p q \<Longrightarrow> emitted_grows now q r \<Longrightarrow> emitted_grows now p r"
  unfolding emitted_grows_def by blast

definition events_ok :: "int \<Rightarrow> gpu_frame \<Rightarrow> nat set \<Rightarrow> processor \<Rightarrow> processor \<Rightarrow> attendance_event list \<Rightarrow> bool" where
  "events_ok now frame keys p p' evs \<longleftrightarrow> distinct (map event_identity evs) \<and> distinct (map event_track evs) \<and>
     (\<forall>ev \<in> set evs. event_justified p' frame ev \<and> event_track ev \<in> keys \<and>
        emitted p (event_identity ev) = None \<and> emitted p' (event_identity ev) = Some now)"

lemma event_justified_other:
  "event_justified p frame ev \<Longrightarrow> same_frame p p' \<Longrightarrow> bio_states p' (event_track ev) = bio_states p (event_track ev)
    \<Longrightarrow> event_justified p' frame ev"
  by (simp add: event_justified_def same_frame_def)

lemma recognition_results_spec:
  assumes "proc_ok p" and "distinct (map fst rs)" and "\<forall>k \<in> set (map fst rs). bio_phase (bio_at k p) = Recognizing"
    and "recognition_results utc frame now i rs p = (x, p')"
  shows "proc_ok p' \<and> same_frame p p' \<and> emitted_grows now p p' \<and>
    (\<forall>k. k \<notin> set (map fst rs) \<longrightarrow> bio_states p' k = bio_states p k) \<and>
    (\<forall>evs. x = Inr evs \<longrightarrow> events_ok now frame (set (map fst rs)) p p' evs)"
  using assms
proof (induction rs arbitrary: p i x)
  case (Cons kr rs)
  obtain k r where kr: "kr = (k, r)" by fastforce
  obtain y p1 where y: "apply_recognition (utc i) frame now k (face_embedding r) p = (y, p1)" by fastforce
  have "bio_phase (bio_at k p) = Recognizing" using Cons.prems(3) kr by simp
  note first = apply_recognition_spec [OF Cons.prems(1) this y]
  have grow1: "emitted_grows now p p1" using first(4) by (auto simp: emitted_grows_def split: if_splits)
  have k: "k \<notin> set (map fst rs)" and dist: "distinct (map fst rs)" using Cons.prems(2) by (simp_all add: kr)
  show ?case
  proof (cases y)
    case (Inl err)
    then have "x = Inl err" "p' = p1" using Cons.prems(4) y by (simp_all add: kr andThen_def)
    then show ?thesis using first(1-3) grow1 by (simp add: kr)
  next
    case (Inr evs1)
    obtain z where z: "recognition_results utc frame now (i + 1) rs p1 = (z, p')"
      and x: "x = (case z of Inl err \<Rightarrow> Inl err | Inr evs2 \<Rightarrow> Inr (evs1 @ evs2))"
      using Cons.prems(4) y Inr by (auto simp: kr andThen_def ret_def split: sum.splits prod.splits)
    have "\<forall>j \<in> set (map fst rs). bio_phase (bio_at j p1) = Recognizing"
    proof
      fix j assume j: "j \<in> set (map fst rs)"
      then have "j \<noteq> k" using k by blast
      then have "bio_at j p1 = bio_at j p" using first(3) by (simp add: bio_at_def)
      moreover have "bio_phase (bio_at j p) = Recognizing" using Cons.prems(3) j by (auto simp: kr)
      ultimately show "bio_phase (bio_at j p1) = Recognizing" by simp
    qed
    note rest = Cons.IH [OF first(1) dist this z]
    have frame: "same_frame p p'" "emitted_grows now p p'"
      using first(2) grow1 rest same_frame_trans emitted_grows_trans by blast+
    have others: "bio_states p' j = bio_states p j" if "j \<notin> set (map fst (kr # rs))" for j
      using that rest first(3) by (simp add: kr)
    have "events_ok now frame (set (map fst (kr # rs))) p p' evs" if evs: "x = Inr evs" for evs
    proof -
      obtain evs2 where evs2: "z = Inr evs2" "evs = evs1 @ evs2" using x evs by (cases z) auto
      have rest_ok: "events_ok now frame (set (map fst rs)) p1 p' evs2" using rest evs2(1) by blast
      have unset: "emitted p j = None" if "emitted p1 j = None" for j
        using grow1 that by (cases "emitted p j") (auto simp: emitted_grows_def)
      consider (none) "evs1 = []" | (one) ev where "evs1 = [ev]" "event_justified p1 frame ev" "event_track ev = k"
          "emitted p (event_identity ev) = None" "emitted p1 = (emitted p)(event_identity ev \<mapsto> now)"
        using first(4) Inr by auto
      then show ?thesis
      proof cases
        case none
        then show ?thesis using rest_ok unset by (auto simp: events_ok_def evs2(2))
      next
        case (one ev)
        have "bio_states p' (event_track ev) = bio_states p1 (event_track ev)" using rest k one(3) by auto
        then have "event_justified p' frame ev" using event_justified_other [OF one(2), of p'] rest by blast
        moreover have "emitted p' (event_identity ev) = Some now"
          using rest one(5) by (simp add: emitted_grows_def)
        moreover have "event_identity ev \<notin> event_identity ` set evs2"
          using rest_ok one(5) by (auto simp: events_ok_def)
        moreover have "event_track ev \<notin> event_track ` set evs2"
          using rest_ok one(3) k by (auto simp: events_ok_def)
        ultimately show ?thesis using rest_ok unset one
          by (auto simp: events_ok_def evs2(2) kr)
      qed
    qed
    with frame others rest show ?thesis by blast
  qed
qed (auto simp: ret_def events_ok_def emitted_grows_def)

lemma recognition_stage_spec:
  assumes "proc_ok p" and "distinct (map result_id ts)"
    and "recognition_stage ev utc frame now ts p = (x, p')"
  shows "proc_ok p' \<and> same_frame p p' \<and> emitted_grows now p p' \<and>
    (\<forall>k. bio_phase (bio_at k p) \<noteq> Recognizing \<longrightarrow> bio_states p' k = bio_states p k) \<and>
    (\<forall>evs. x = Inr evs \<longrightarrow> events_ok now frame (result_id ` set ts) p p' evs)"
proof -
  obtain q queue where q: "recognition_queue ts p = (q, queue)" by fastforce
  note pre = recognition_queue_spec [OF assms(1,2) q]
  have keys: "set (map fst queue) \<subseteq> result_id ` set ts" using pre by blast
  have skip: "bio_states q k = bio_states p k" "k \<notin> set (map fst queue)" if "bio_phase (bio_at k p) \<noteq> Recognizing" for k
    using pre that by metis+
  have base: "proc_ok q \<and> same_frame p q \<and> emitted_grows now p q \<and>
      (\<forall>k. bio_phase (bio_at k p) \<noteq> Recognizing \<longrightarrow> bio_states q k = bio_states p k)"
    using pre skip(1) emitted_grows_same by blast
  note run = assms(3) [unfolded recognition_stage_def q prod.case Let_def]
  show ?thesis
  proof (cases "queue = []")
    case True
    with run have "x = Inr []" "p' = q" by (auto simp: ret_def)
    then show ?thesis using base by (simp add: events_ok_def)
  next
    case False
    show ?thesis
    proof (cases "eval_recognize ev frame (map snd queue)")
      case (Inl e)
      with run False have "x = Inl e" "p' = q" by (auto simp: run_simps)
      then show ?thesis using base by simp
    next
      case (Inr results)
      show ?thesis
      proof (cases "length results = length queue")
        case len: False
        with run False Inr have "\<exists>e. x = Inl e" "p' = q" by (auto simp: run_simps)
        then show ?thesis using base by auto
      next
        case True
        let ?rs = "zip (map fst queue) results"
        have rs: "map fst ?rs = map fst queue" using True by simp
        from run False Inr True have res: "recognition_results utc frame now 0 ?rs q = (x, p')" by (simp add: run_simps)
        have "proc_ok q" using base by blast
        note post = recognition_results_spec [OF this _ _ res, unfolded rs]
        have post: "proc_ok p' \<and> same_frame q p' \<and> emitted_grows now q p' \<and>
            (\<forall>k. k \<notin> set (map fst queue) \<longrightarrow> bio_states p' k = bio_states q k) \<and>
            (\<forall>evs. x = Inr evs \<longrightarrow> events_ok now frame (set (map fst queue)) q p' evs)"
          by (rule post) (use pre in blast)+
        have "events_ok now frame (result_id ` set ts) p p' evs" if "x = Inr evs" for evs
          using post that keys pre unfolding events_ok_def by auto
        then show ?thesis
          using post base skip same_frame_trans emitted_grows_trans by metis
      qed
    qed
  qed
qed


section \<open>A whole frame\<close>

definition opened :: "tracking_frame \<Rightarrow> int \<Rightarrow> processor \<Rightarrow> processor" where
  "opened f now p = prune now (p\<lparr>last_time := now, have_time := True,
     last_frame := frame_id (track_gpu_frame f), tick := tick p + 1\<rparr>)"

lemma opened_simps [simp]:
  "proc_config (opened f now p) = proc_config p" "proc_gallery (opened f now p) = proc_gallery p"
  "tick (opened f now p) = tick p + 1" "last_time (opened f now p) = now" "have_time (opened f now p)"
  "last_frame (opened f now p) = frame_id (track_gpu_frame f)"
  by (simp_all add: opened_def prune_def)

lemma opened_states:
  "bio_states (opened f now p) k = Some s \<longleftrightarrow> bio_states p k = Some s \<and>
     tick p + 1 - seen s \<le> max_missing_runtime_frames (proc_config p)"
  by (auto simp: opened_def prune_def split: option.splits)

lemma opened_emitted:
  "emitted (opened f now p) k = Some t \<longleftrightarrow> emitted p k = Some t \<and> now - t < ns_of_ms (event_cooldown (proc_config p))"
  by (auto simp: opened_def prune_def split: option.splits)

lemma opened_ok: "proc_ok p \<Longrightarrow> proc_ok (opened f now p)"
  unfolding proc_ok_def by (auto simp: opened_states intro: bio_ok_mono [of _ "tick p"])

text \<open>The frame is rejected and nothing changes, or the stages run in their order.\<close>

lemma process_scheduled:
  assumes "frame_rejected f now p = None"
    and "schedule now (frame_tracks f) (opened f now p) = (q, queue)"
  shows "process ev utc f now p = andThen (pad_stage ev (track_gpu_frame f) now queue) (\<lambda>_.
     andThen (recognition_stage ev utc (track_gpu_frame f) now (frame_tracks f)) (\<lambda>events. andThen get_state (\<lambda>p.
       ret \<lparr>bio_gpu_frame = track_gpu_frame f, bio_tracks = map (snapshot_of p) (frame_tracks f),
            attendance_events = events\<rparr>))) q"
proof -
  have opens: "begin_frame f now p = (Inr (), opened f now p)" by (simp add: begin_frame_def assms(1) opened_def)
  have sched: "(\<lambda>p. let (p', queue) = schedule now (frame_tracks f) p in (Inr queue, p')) (opened f now p) = (Inr queue, q)"
    by (simp add: assms(2))
  show ?thesis
    unfolding process_def andThen_returned [of "begin_frame f now", OF opens]
    by (rule andThen_returned) (rule sched)
qed

lemma process_run:
  assumes "frame_rejected f now p = None"
    and "schedule now (frame_tracks f) (opened f now p) = (q, queue)"
    and "process ev utc f now p = (x, p')"
  shows "(\<exists>e. pad_stage ev (track_gpu_frame f) now queue q = (Inl e, p') \<and> x = Inl e) \<or>
    (\<exists>r evs. pad_stage ev (track_gpu_frame f) now queue q = (Inr (), r) \<and>
       recognition_stage ev utc (track_gpu_frame f) now (frame_tracks f) r = (evs, p') \<and>
       (\<forall>out. x = Inr out \<longrightarrow> evs = Inr (attendance_events out)))"
proof -
  let ?pad = "pad_stage ev (track_gpu_frame f) now queue"
  let ?rec = "recognition_stage ev utc (track_gpu_frame f) now (frame_tracks f)"
  note process = process_scheduled [OF assms(1,2)]
  obtain y r where y: "?pad q = (y, r)" by fastforce
  obtain z p2 where z: "?rec r = (z, p2)" by fastforce
  show ?thesis
  proof (cases y)
    case (Inl e)
    with y have "?pad q = (Inl e, r)" by simp
    from assms(3) [unfolded process andThen_thrown [of ?pad, OF this]] this show ?thesis by simp
  next
    case (Inr u)
    with y have pad: "?pad q = (Inr (), r)" by simp
    show ?thesis
    proof (cases z)
      case (Inl e)
      with z have "?rec r = (Inl e, p2)" by simp
      from assms(3) [unfolded process andThen_returned [of ?pad, OF pad] andThen_thrown [of ?rec, OF this]] this pad
      show ?thesis by auto
    next
      case (Inr evs)
      with z have "?rec r = (Inr evs, p2)" by simp
      from assms(3) [unfolded process andThen_returned [of ?pad, OF pad] andThen_returned [of ?rec, OF this]] this pad
      show ?thesis by (auto simp: get_state_def ret_def andThen_def)
    qed
  qed
qed

lemma process_rejected:
  assumes "frame_rejected f now p = Some e"
  shows "process ev utc f now p = (Inl e, p)"
  by (simp add: process_def begin_frame_def andThen_def assms)

lemma rejected_ids: "frame_rejected f now p = None \<Longrightarrow> distinct (map result_id (frame_tracks f))"
  by (simp add: frame_rejected_def split: if_splits)

text \<open>One frame, whatever its outcome.\<close>

definition frame_effect :: "int \<Rightarrow> processor \<Rightarrow> processor \<Rightarrow> bool" where
  "frame_effect now p p' \<longleftrightarrow> proc_ok p' \<and> same_frame p p' \<and> emitted_grows now p p'"

lemma process_effect:
  assumes "proc_ok p" and "frame_rejected f now p = None" and "process ev utc f now p = (x, p')"
  shows "frame_effect now (opened f now p) p' \<and>
    (\<forall>out. x = Inr out \<longrightarrow> events_ok now (track_gpu_frame f) (result_id ` set (frame_tracks f))
       (opened f now p) p' (attendance_events out))"
proof -
  note ids = rejected_ids [OF assms(2)]
  obtain q queue where q: "schedule now (frame_tracks f) (opened f now p) = (q, queue)" by fastforce
  note sched = schedule_spec [OF opened_ok [OF assms(1)] ids q]
  from process_run [OF assms(2) q assms(3)] show ?thesis
  proof (elim disjE exE conjE)
    fix e assume "pad_stage ev (track_gpu_frame f) now queue q = (Inl e, p')" and x: "x = Inl e"
    note pad = pad_stage_spec [OF sched(1,4,6) this(1)]
    have "emitted p' = emitted (opened f now p)" using pad sched(3) by simp
    moreover have "same_frame (opened f now p) p'" using pad sched(2) same_frame_trans by blast
    ultimately show ?thesis using pad x emitted_grows_same by (simp add: frame_effect_def)
  next
    fix r evs
    assume pad: "pad_stage ev (track_gpu_frame f) now queue q = (Inr (), r)"
      and rec: "recognition_stage ev utc (track_gpu_frame f) now (frame_tracks f) r = (evs, p')"
      and out: "\<forall>out. x = Inr out \<longrightarrow> evs = Inr (attendance_events out)"
    note pad' = pad_stage_spec [OF sched(1,4,6) pad]
    have "proc_ok r" using pad' by blast
    note rec' = recognition_stage_spec [OF this ids rec]
    have em: "emitted r = emitted (opened f now p)" using pad' sched(3) by simp
    have "same_frame (opened f now p) p'" using rec' pad' sched(2) same_frame_trans by blast
    moreover have "emitted_grows now (opened f now p) p'" using rec' em by (simp add: emitted_grows_def)
    moreover have "events_ok now (track_gpu_frame f) (result_id ` set (frame_tracks f))
       (opened f now p) p' es" if "evs = Inr es" for es
      using rec' em that by (simp add: events_ok_def)
    ultimately show ?thesis using rec' out by (auto simp: frame_effect_def)
  qed
qed

section \<open>Sessions\<close>

text \<open>
  Everything the runtime does with its processor: frames that return, frames that throw half way,
  galleries that are accepted or refused, resets. The history lists the identity and the time of
  every event a caller received.
\<close>

inductive session :: "biometric_config \<Rightarrow> processor \<Rightarrow> (string \<times> int) list \<Rightarrow> bool" for c where
  started: "new_processor c = Inr p \<Longrightarrow> session c p []"
| frame: "session c p h \<Longrightarrow> process ev utc f now p = (Inr out, p') \<Longrightarrow>
    session c p' (h @ map (\<lambda>e. (event_identity e, now)) (attendance_events out))"
| thrown: "session c p h \<Longrightarrow> process ev utc f now p = (Inl e, p') \<Longrightarrow> session c p' h"
| gallery: "session c p h \<Longrightarrow> set_gallery ts p = (r, p') \<Longrightarrow> session c p' h"
| resetting: "session c p h \<Longrightarrow> session c (reset_processor p) h"

lemma empty_matcher_ok: "matcher_ok empty_matcher"
  by (simp add: matcher_ok_def empty_matcher_def)

lemma new_processor_ok:
  assumes "new_processor c = Inr p"
  shows "proc_ok p" "proc_config p = c" "emitted p = Map.empty" "\<not> have_time p" "bio_states p = Map.empty"
  using assms by (auto simp: new_processor_def proc_ok_def config_ok_def empty_matcher_ok)

lemma reset_ok: "proc_ok p \<Longrightarrow> proc_ok (reset_processor p)"
  by (simp add: proc_ok_def reset_processor_def)

lemma set_gallery_cases:
  assumes "set_gallery ts p = (r, p')"
  obtains "p' = p" | g where "replace_templates ts (proc_gallery p) = (Inr (), g)"
    "p' = reset_processor (p\<lparr>proc_gallery := g\<rparr>)"
  using assms by (auto simp: set_gallery_def split: prod.splits sum.splits)

lemma set_gallery_ok:
  assumes "proc_ok p" and "set_gallery ts p = (r, p')"
  shows "proc_ok p' \<and> proc_config p' = proc_config p \<and> emitted p' = emitted p \<and>
    last_time p' = last_time p \<and> have_time p' = have_time p"
  using assms(2)
proof (cases rule: set_gallery_cases)
  case (2 g)
  have "matcher_ok g" by (rule replace_templates_ok [OF 2(1)])
  then have "proc_ok (p\<lparr>proc_gallery := g\<rparr>)" using assms(1) by (simp add: proc_ok_def)
  then show ?thesis using reset_ok 2(2) by (simp add: reset_processor_def)
qed (use assms(1) in simp)

lemma process_step:
  assumes "proc_ok p" and "process ev utc f now p = (x, p')"
  shows "(p' = p \<and> (\<exists>e. x = Inl e)) \<or> (frame_rejected f now p = None \<and> frame_effect now (opened f now p) p')"
proof (cases "frame_rejected f now p")
  case None
  then show ?thesis using process_effect [OF assms(1) None assms(2)] by blast
next
  case (Some e)
  then show ?thesis using assms(2) process_rejected [OF Some] by auto
qed

lemma session_ok:
  assumes "session c p h"
  shows "proc_ok p \<and> proc_config p = c"
  using assms
proof induction
  case (frame p h ev utc f now out p')
  then show ?case using process_step [of p ev utc f now "Inr out" p'] by (auto simp: frame_effect_def same_frame_def)
next
  case (thrown p h ev utc f now e p')
  then show ?case using process_step [of p ev utc f now "Inl e" p'] by (auto simp: frame_effect_def same_frame_def)
next
  case (gallery p h ts r p')
  then show ?case using set_gallery_ok by metis
qed (use new_processor_ok reset_ok in \<open>force simp: reset_processor_def\<close>)+

section \<open>Cooldown\<close>

definition apart :: "int \<Rightarrow> string \<times> int \<Rightarrow> string \<times> int \<Rightarrow> bool" where
  "apart d a b \<longleftrightarrow> (fst a = fst b \<longrightarrow> snd b - snd a \<ge> d)"

definition cooling :: "processor \<Rightarrow> string \<times> int \<Rightarrow> bool" where
  "cooling p a \<longleftrightarrow> have_time p \<and> snd a \<le> last_time p \<and>
     (emitted p (fst a) = None \<longrightarrow> last_time p - snd a \<ge> ns_of_ms (event_cooldown (proc_config p))) \<and>
     (\<forall>t. emitted p (fst a) = Some t \<longrightarrow> snd a \<le> t)"

definition cooldowns :: "processor \<Rightarrow> (string \<times> int) list \<Rightarrow> bool" where
  "cooldowns p h \<longleftrightarrow> sorted_wrt (apart (ns_of_ms (event_cooldown (proc_config p)))) h \<and>
     (\<forall>a \<in> set h. cooling p a) \<and> (\<forall>k t. emitted p k = Some t \<longrightarrow> have_time p \<and> t \<le> last_time p)"

lemma cooling_opened:
  assumes "cooling p a" and "frame_rejected f now p = None"
  shows "cooling (opened f now p) a"
proof -
  have now: "last_time p \<le> now" using assms by (auto simp: frame_rejected_def cooling_def split: if_splits)
  have "now - snd a \<ge> ns_of_ms (event_cooldown (proc_config p))" if "emitted (opened f now p) (fst a) = None"
  proof (cases "emitted p (fst a)")
    case None
    then show ?thesis using assms(1) now by (simp add: cooling_def)
  next
    case (Some t)
    then have "now - t \<ge> ns_of_ms (event_cooldown (proc_config p))" "snd a \<le> t"
      using that opened_emitted [of f now p "fst a" t] assms(1) by (auto simp: cooling_def)
    then show ?thesis by linarith
  qed
  then show ?thesis using assms(1) now by (auto simp: cooling_def opened_emitted)
qed

lemma cooling_grows:
  assumes "cooling p a" and "same_frame p p'" and "emitted_grows (last_time p) p p'"
  shows "cooling p' a"
proof -
  have none: "emitted p (fst a) = None" if "emitted p' (fst a) = None"
    using assms(3) that by (cases "emitted p (fst a)") (auto simp: emitted_grows_def)
  have some: "snd a \<le> t" if "emitted p' (fst a) = Some t" for t
    using assms(1,3) that unfolding emitted_grows_def cooling_def by blast
  show ?thesis using assms(1,2) none some by (auto simp: cooling_def same_frame_def)
qed

lemma emitted_past:
  assumes "frame_rejected f now p = None" and "frame_effect now (opened f now p) p'"
    and "\<forall>k t. emitted p k = Some t \<longrightarrow> have_time p \<and> t \<le> last_time p" and "emitted p' k = Some t"
  shows "have_time p' \<and> t \<le> last_time p'"
proof -
  have frame: "have_time p'" "last_time p' = now" using assms(2) by (auto simp: frame_effect_def same_frame_def)
  have "emitted (opened f now p) k = Some t \<or> t = now"
    using assms(2,4) unfolding frame_effect_def emitted_grows_def by blast
  then have "t \<le> now"
  proof
    assume "emitted (opened f now p) k = Some t"
    then have "have_time p \<and> t \<le> last_time p" using assms(3) opened_emitted by blast
    then show ?thesis using assms(1) by (auto simp: frame_rejected_def split: if_splits)
  qed simp
  then show ?thesis using frame by simp
qed

lemma cooldowns_frame:
  assumes "cooldowns p h" and "frame_rejected f now p = None" and "frame_effect now (opened f now p) p'"
  shows "cooldowns p' h"
proof -
  have eff: "same_frame (opened f now p) p'" "emitted_grows (last_time (opened f now p)) (opened f now p) p'"
    using assms(3) by (simp_all add: frame_effect_def)
  have "cooling p' a" if "a \<in> set h" for a
    using assms(1) that by (intro cooling_grows [OF cooling_opened [OF _ assms(2)] eff]) (simp add: cooldowns_def)
  moreover have "have_time p' \<and> t \<le> last_time p'" if "emitted p' k = Some t" for k t
    using emitted_past [OF assms(2,3) _ that] assms(1) by (simp add: cooldowns_def)
  moreover have "proc_config p' = proc_config p" using eff(1) by (simp add: same_frame_def)
  ultimately show ?thesis using assms(1) unfolding cooldowns_def by auto
qed

lemma cooldowns_events:
  assumes "cooldowns p h" and "frame_rejected f now p = None" and "frame_effect now (opened f now p) p'"
    and "events_ok now frame keys (opened f now p) p' evs"
  shows "cooldowns p' (h @ map (\<lambda>e. (event_identity e, now)) evs)"
proof -
  let ?d = "ns_of_ms (event_cooldown (proc_config p))"
  have old: "cooldowns p' h" by (rule cooldowns_frame [OF assms(1-3)])
  have frame: "proc_config p' = proc_config p" "last_time p' = now" "have_time p'"
    using assms(3) by (auto simp: frame_effect_def same_frame_def)
  have new: "emitted (opened f now p) (event_identity e) = None" "emitted p' (event_identity e) = Some now"
    if "e \<in> set evs" for e
    using assms(4) that by (auto simp: events_ok_def)
  have "apart ?d a (event_identity e, now)" if "a \<in> set h" "e \<in> set evs" for a e
  proof -
    have "cooling (opened f now p) a" using assms(1) that(1) by (intro cooling_opened [OF _ assms(2)]) (simp add: cooldowns_def)
    then show ?thesis using new(1) [OF that(2)] by (auto simp: cooling_def apart_def)
  qed
  moreover have "sorted_wrt (apart ?d) (map (\<lambda>e. (event_identity e, now)) evs)"
    using assms(4) by (auto simp: events_ok_def apart_def sorted_wrt_map distinct_map inj_on_def sorted_wrt_iff_nth_less
        distinct_conv_nth)
  moreover have "cooling p' (event_identity e, now)" if "e \<in> set evs" for e
    using new(2) [OF that] frame by (simp add: cooling_def)
  ultimately show ?thesis using old frame by (auto simp: cooldowns_def sorted_wrt_append)
qed

lemma session_cooldowns:
  assumes "session c p h"
  shows "cooldowns p h"
  using assms
proof induction
  case (frame p h ev utc f now out p')
  have ok: "proc_ok p" using session_ok [OF frame.hyps(1)] by blast
  have none: "frame_rejected f now p = None"
    using frame.hyps(2) process_rejected [of f now p] by (cases "frame_rejected f now p") auto
  show ?case using process_effect [OF ok none frame.hyps(2)] cooldowns_events [OF frame.IH none] by blast
next
  case (thrown p h ev utc f now e p')
  have ok: "proc_ok p" using session_ok [OF thrown.hyps(1)] by blast
  show ?case using process_step [OF ok thrown.hyps(2)] cooldowns_frame thrown.IH by blast
next
  case (gallery p h ts r p')
  have ok: "proc_ok p" using session_ok [OF gallery.hyps(1)] by blast
  show ?case using gallery.IH set_gallery_ok [OF ok gallery.hyps(2)] by (auto simp: cooldowns_def cooling_def)
qed (auto simp: cooldowns_def cooling_def new_processor_ok reset_processor_def)

end
