(* ===== verification/SampleFace.thy ===== *)
theory SampleFace
  imports Processor
begin

text \<open>
  A face on which the attendance processor is exercised. Its alignment is evaluated, landmark by
  landmark and column by column, in the binary64 arithmetic of the source, so that the witnesses of
  the session properties run on a track that really passes the quality gate.
\<close>

section \<open>A face that passes the quality gate\<close>

definition sample_face :: face_detection where
  "sample_face = \<lparr>box_x1 = single_lit (- 64), box_y1 = single_lit (- 64), box_x2 = single_lit 64, box_y2 = single_lit 64,
     detection_score = single_lit (3 / 4), landmarks = [\<lparr>point_x = - 1, point_y = 0\<rparr>, \<lparr>point_x = 1, point_y = 0\<rparr>,
       \<lparr>point_x = 0, point_y = 0\<rparr>, \<lparr>point_x = 0, point_y = 0\<rparr>, \<lparr>point_x = 0, point_y = 0\<rparr>]\<rparr>"

definition sample_config :: biometric_config where
  "sample_config = default_biometric_config\<lparr>recognition_similarity_threshold := single_lit (1 / 2),
     allow_uncalibrated_thresholds := True, pad_bona_fide_votes_required := 1, pad_attack_votes_required := 1,
     pad_max_attempts := 1, max_alignment_rmse := single_lit 32\<rparr>"

definition sample_track :: track_result where
  "sample_track = \<lparr>result_id = 1, result_x1 = 0, result_y1 = 0, result_x2 = 0, result_y2 = 0, result_score = 0,
     result_state = Tracked, result_start_frame = 0, result_frame = 0, result_tracklet_len = 0,
     has_observation = True, observation = sample_face\<rparr>"

lemma sample_step0: "accumulate_landmark (Inr ([[0, 0, 0, 0], [0, 0, 0, 0], [0, 0, 0, 0], [0, 0, 0, 0]], [0, 0, 0, 0]))
    (\<lparr>point_x = - 1, point_y = 0\<rparr>, template_point (382946 / 10000) (516963 / 10000)) =
  Inr ([[1, 0, double_lit (- 1), 0], [0, 1, 0, double_lit (- 1)], [double_lit (- 1), 0, 1, 0], [0, double_lit (- 1), 0, 1]], [double_lit (- 2509675 / 65536), double_lit (- 13551875 / 262144), double_lit (2509675 / 65536), double_lit (13551875 / 262144)])"
  unfolding accumulate_landmark_def prod.case bind_result_simps Let_def accumulate_row_outer
  by code_simp

lemma sample_step1: "accumulate_landmark (Inr ([[1, 0, double_lit (- 1), 0], [0, 1, 0, double_lit (- 1)], [double_lit (- 1), 0, 1, 0], [0, double_lit (- 1), 0, 1]], [double_lit (- 2509675 / 65536), double_lit (- 13551875 / 262144), double_lit (2509675 / 65536), double_lit (13551875 / 262144)]))
    (\<lparr>point_x = 1, point_y = 0\<rparr>, template_point (735318 / 10000) (515014 / 10000)) =
  Inr ([[double_lit 2, 0, 0, 0], [0, double_lit 2, 0, 0], [0, 0, double_lit 2, 0], [0, 0, 0, double_lit 2]], [double_lit (2309305 / 65536), double_lit (- 12773 / 65536), double_lit (7328655 / 65536), double_lit (13526329 / 131072)])"
  unfolding accumulate_landmark_def prod.case bind_result_simps Let_def accumulate_row_outer
  by code_simp

lemma sample_step2: "accumulate_landmark (Inr ([[double_lit 2, 0, 0, 0], [0, double_lit 2, 0, 0], [0, 0, double_lit 2, 0], [0, 0, 0, double_lit 2]], [double_lit (2309305 / 65536), double_lit (- 12773 / 65536), double_lit (7328655 / 65536), double_lit (13526329 / 131072)]))
    (\<lparr>point_x = 0, point_y = 0\<rparr>, template_point (560252 / 10000) (717366 / 10000)) =
  Inr ([[double_lit 2, 0, 0, 0], [0, double_lit 2, 0, 0], [0, 0, double_lit 3, 0], [0, 0, 0, double_lit 3]], [double_lit (2309305 / 65536), double_lit (- 12773 / 65536), double_lit (22000645 / 131072), double_lit (22928989 / 131072)])"
  unfolding accumulate_landmark_def prod.case bind_result_simps Let_def accumulate_row_outer
  by code_simp

lemma sample_step3: "accumulate_landmark (Inr ([[double_lit 2, 0, 0, 0], [0, double_lit 2, 0, 0], [0, 0, double_lit 3, 0], [0, 0, 0, double_lit 3]], [double_lit (2309305 / 65536), double_lit (- 12773 / 65536), double_lit (22000645 / 131072), double_lit (22928989 / 131072)]))
    (\<lparr>point_x = 0, point_y = 0\<rparr>, template_point (415493 / 10000) (923655 / 10000)) =
  Inr ([[double_lit 2, 0, 0, 0], [0, double_lit 2, 0, 0], [0, 0, double_lit 4, 0], [0, 0, 0, double_lit 4]], [double_lit (2309305 / 65536), double_lit (- 12773 / 65536), double_lit (27446595 / 131072), double_lit (273715 / 1024)])"
  unfolding accumulate_landmark_def prod.case bind_result_simps Let_def accumulate_row_outer
  by code_simp

lemma sample_step4: "accumulate_landmark (Inr ([[double_lit 2, 0, 0, 0], [0, double_lit 2, 0, 0], [0, 0, double_lit 4, 0], [0, 0, 0, double_lit 4]], [double_lit (2309305 / 65536), double_lit (- 12773 / 65536), double_lit (27446595 / 131072), double_lit (273715 / 1024)]))
    (\<lparr>point_x = 0, point_y = 0\<rparr>, template_point (707299 / 10000) (922041 / 10000)) =
  Inr ([[double_lit 2, 0, 0, 0], [0, double_lit 2, 0, 0], [0, 0, double_lit 5, 0], [0, 0, 0, double_lit 5]], [double_lit (2309305 / 65536), double_lit (- 12773 / 65536), double_lit (4589663 / 16384), double_lit (92033 / 256)])"
  unfolding accumulate_landmark_def prod.case bind_result_simps Let_def accumulate_row_outer
  by code_simp

lemma sample_columns:
  "foldl (\<lambda>r col. bind_result r (solve_column col)) (Inr ([[double_lit 2, 0, 0, 0], [0, double_lit 2, 0, 0], [0, 0, double_lit 5, 0], [0, 0, 0, double_lit 5]], [double_lit (2309305 / 65536), double_lit (- 12773 / 65536), double_lit (4589663 / 16384), double_lit (92033 / 256)])) [0..<4] =
   Inr ([[1, 0, 0, 0], [0, 1, 0, 0], [0, 0, 1, 0], [0, 0, 0, 1]], [double_lit (2309305 / 131072), double_lit (- 12773 / 131072),
     double_lit (7884980993864499 / 140737488355328), double_lit (2529783840977715 / 35184372088832)])"
  by code_simp

text \<open>The fit, and the residual of its five landmarks.\<close>

definition fit_a :: double where "fit_a = double_lit (2309305 / 131072)"
definition fit_b :: double where "fit_b = double_lit (- 12773 / 131072)"
definition fit_tx :: double where "fit_tx = double_lit (7884980993864499 / 140737488355328)"
definition fit_ty :: double where "fit_ty = double_lit (2529783840977715 / 35184372088832)"

lemma sample_residual:
  "to_single (dsqrt (fit_error fit_a fit_b fit_tx fit_ty (zip (landmarks sample_face) arcface_template) / double_lit 5))
   = single_lit (5348249 / 262144)"
  by code_simp

lemma sample_scale: "\<not> fit_a * fit_a + fit_b * fit_b < double_lit (1 / 10 ^ 12)"
  by code_simp

lemma sample_normal_equations:
  "foldl accumulate_landmark (Inr (replicate 4 (replicate 4 0), replicate 4 0)) (zip (landmarks sample_face) arcface_template) =
   Inr ([[double_lit 2, 0, 0, 0], [0, double_lit 2, 0, 0], [0, 0, double_lit 5, 0], [0, 0, 0, double_lit 5]],
     [double_lit (2309305 / 65536), double_lit (- 12773 / 65536), double_lit (4589663 / 16384), double_lit (92033 / 256)])"
proof -
  have rep: "replicate 4 x = [x, x, x, x]" for x :: 'a by (simp add: numeral_nat)
  show ?thesis
    by (simp only: sample_face_def face_detection.simps arcface_template_def zip_Cons_Cons zip_Nil foldl_Cons foldl_Nil rep
        sample_step0 sample_step1 sample_step2 sample_step3 sample_step4)
qed

lemma sample_transform: "\<exists>a. estimate_arcface_transform sample_face 112 112 = Inr a \<and> rmse a = single_lit (5348249 / 262144)"
proof -
  have "solve4 [[double_lit 2, 0, 0, 0], [0, double_lit 2, 0, 0], [0, 0, double_lit 5, 0], [0, 0, 0, double_lit 5]]
     [double_lit (2309305 / 65536), double_lit (- 12773 / 65536), double_lit (4589663 / 16384), double_lit (92033 / 256)]
     = Inr [fit_a, fit_b, fit_tx, fit_ty]"
    unfolding solve4_def sample_columns bind_result_simps prod.case fit_a_def fit_b_def fit_tx_def fit_ty_def ..
  note solved = this
  have nth4: "[a, b, c, d] ! 0 = a" "[a, b, c, d] ! 1 = b" "[a, b, c, d] ! 2 = c" "[a, b, c, d] ! 3 = d" for a b c d :: double
    by (simp_all add: numeral_nat)
  show ?thesis
    unfolding estimate_arcface_transform_def fit_transform_def Let_def sample_normal_equations bind_result_simps prod.case
      solved nth4 using sample_scale sample_residual by simp
qed

lemma sample_box:
  "sfinite (detection_score sample_face)" "\<not> detection_score sample_face > 1"
  "\<not> detection_score sample_face < min_detection_score sample_config"
  "sfinite (box_x2 sample_face - box_x1 sample_face)" "sfinite (box_y2 sample_face - box_y1 sample_face)"
  "\<not> box_x2 sample_face - box_x1 sample_face < min_face_width sample_config"
  "\<not> box_y2 sample_face - box_y1 sample_face < min_face_height sample_config"
  "\<not> list_ex (landmark_outside sample_face (box_x2 sample_face - box_x1 sample_face)
     (box_y2 sample_face - box_y1 sample_face)) (landmarks sample_face)"
  "\<not> shypot (point_x (landmarks sample_face ! 1) - point_x (landmarks sample_face ! 0))
     (point_y (landmarks sample_face ! 1) - point_y (landmarks sample_face ! 0)) < 1"
  by code_simp+

lemma sample_gate:
  "sfinite (single_lit (5348249 / 262144))" "\<not> single_lit (5348249 / 262144) > max_alignment_rmse sample_config"
  "\<not> std_min (box_x2 sample_face - box_x1 sample_face) (box_y2 sample_face - box_y1 sample_face) /
     (1 + single_lit (5348249 / 262144)) \<le> 0"
  by code_simp+

lemma sample_quality: "\<not> quality sample_track sample_config \<le> 0"
proof -
  obtain a where a: "estimate_arcface_transform sample_face 112 112 = Inr a" "rmse a = single_lit (5348249 / 262144)"
    using sample_transform by blast
  have track: "has_observation sample_track" "observation sample_track = sample_face"
    by (simp_all add: sample_track_def)
  show ?thesis
    unfolding quality_def Let_def track a sum.case by (simp only: sample_box sample_gate a track if_False if_True simp_thms)
qed

end
