(* ===== verification/Attendance.thy ===== *)
theory Attendance
  imports Sessions SampleFace
begin

text \<open>
  What a whole session of the attendance processor guarantees, whatever the evaluators answer and
  whichever of its frames throw. The witnesses run on \<open>SampleFace\<close>: a track that passes the
  quality gate, is voted alive, is recognised, and comes back after the cooldown.
\<close>

section \<open>An attack stays rejected\<close>

lemma schedule_state_attack:
  "bio_phase s0 = RejectedAttack \<Longrightarrow> schedule_state c g n now t s0 = (s0\<lparr>seen := n\<rparr>, False)"
  by (simp add: schedule_state_def settled_def)

lemma process_attack:
  assumes "proc_ok p" and "frame_rejected f now p = None" and "process ev utc f now p = (x, p')"
    and "bio_states (opened f now p) k = Some s" and "bio_phase s = RejectedAttack"
  shows "(\<exists>s'. bio_states p' k = Some s' \<and> bio_phase s' = RejectedAttack) \<and>
    (\<forall>out. x = Inr out \<longrightarrow> k \<notin> event_track ` set (attendance_events out))"
proof -
  let ?p = "opened f now p"
  note ids = rejected_ids [OF assms(2)]
  obtain q queue where q: "schedule now (frame_tracks f) ?p = (q, queue)" by fastforce
  note sched = schedule_spec [OF opened_ok [OF assms(1)] ids q]
  have at: "bio_at k ?p = s" using assms(4) by (simp add: bio_at_def)
  have qs: "\<exists>s'. bio_states q k = Some s' \<and> bio_phase s' = RejectedAttack"
  proof (cases "k \<in> result_id ` set (frame_tracks f)")
    case True
    then obtain t where "t \<in> set (frame_tracks f)" "k = result_id t" by blast
    then show ?thesis using sched(8) at assms(5) by (auto simp: schedule_state_attack)
  next
    case False
    then show ?thesis using sched(7) assms(4,5) by simp
  qed
  then have "bio_phase (bio_at k q) = RejectedAttack" by (auto simp: bio_at_def)
  then have notin: "k \<notin> set (map fst queue)" using sched(6) by (metis phase.distinct(15))
  have kept: "\<exists>s'. bio_states p' k = Some s' \<and> bio_phase s' = RejectedAttack"
    using process_run [OF assms(2) q assms(3)]
  proof (elim disjE exE conjE)
    fix e assume "pad_stage ev (track_gpu_frame f) now queue q = (Inl e, p')"
    note pad = pad_stage_spec [OF sched(1,4,6) this]
    then have "bio_states p' k = bio_states q k" using notin by blast
    then show ?thesis using qs by simp
  next
    fix r evs
    assume pad: "pad_stage ev (track_gpu_frame f) now queue q = (Inr (), r)"
      and rec: "recognition_stage ev utc (track_gpu_frame f) now (frame_tracks f) r = (evs, p')"
    note pad' = pad_stage_spec [OF sched(1,4,6) pad]
    have "bio_states r k = bio_states q k" using pad' notin by blast
    moreover from this have "bio_phase (bio_at k r) \<noteq> Recognizing" using qs by (auto simp: bio_at_def)
    moreover have "proc_ok r" using pad' by blast
    ultimately show ?thesis using recognition_stage_spec [OF _ ids rec] qs by metis
  qed
  moreover have "k \<notin> event_track ` set (attendance_events out)" if "x = Inr out" for out
  proof
    assume "k \<in> event_track ` set (attendance_events out)"
    then obtain e where "e \<in> set (attendance_events out)" "event_track e = k" by blast
    moreover have "events_ok now (track_gpu_frame f) (result_id ` set (frame_tracks f)) ?p p' (attendance_events out)"
      using process_effect [OF assms(1,2,3)] that by blast
    ultimately have "\<exists>s. bio_states p' k = Some s \<and> bio_phase s = Recognized"
      by (auto simp: events_ok_def event_justified_def)
    then show False using kept by auto
  qed
  ultimately show ?thesis by blast
qed

section \<open>A visit of the sample face\<close>

definition sample_frame :: "nat \<Rightarrow> tracking_frame" where
  "sample_frame n = \<lparr>track_gpu_frame = \<lparr>frame_texture = True, frame_id = n, callback_entry_ns = 0,
     frame_timestamp_ns = 0, frame_source_ns = 0, frame_width = 640, frame_height = 480, frame_format = 103\<rparr>,
     frame_detections = [sample_face], frame_tracks = [sample_track]\<rparr>"

definition sample_alignment :: transform where
  "sample_alignment = \<lparr>src_to_dst = [], dst_to_src = [], rmse = 0\<rparr>"

definition sample_evaluators :: "single \<Rightarrow> evaluators" where
  "sample_evaluators score = \<lparr>
     eval_pad = (\<lambda>frame obs. Inr (map (\<lambda>_. \<lparr>live_score = Some score, live_decision = Live,
       out_of_bounds_ratio = 0, live_transform = sample_alignment\<rparr>) obs)),
     eval_recognize = (\<lambda>frame obs. Inr (map (\<lambda>_. \<lparr>face_embedding = [1, 0], raw_embedding_norm = 1,
       face_transform = sample_alignment\<rparr>) obs))\<rparr>"

definition sample_processor :: processor where
  "sample_processor = \<lparr>proc_config = sample_config, proc_gallery = sample_matcher, bio_states = Map.empty,
     emitted = Map.empty, tick = 0, last_frame = 0, last_time = 0, have_time = False\<rparr>"

lemma sample_session: "session sample_config sample_processor []"
proof -
  have "validate_attendance_config sample_config = Inr ()" by code_simp
  then have "new_processor sample_config = Inr (sample_processor\<lparr>proc_gallery := empty_matcher\<rparr>)"
    by (simp add: new_processor_def sample_processor_def)
  note start = session.started [OF this]
  show ?thesis
    by (rule session.gallery [OF start, of sample_faces "Inr ()"])
      (simp add: set_gallery_def sample_processor_def sample_matcher_run reset_processor_def)
qed

lemma sample_ids [simp]:
  "frame_tracks (sample_frame n) = [sample_track]" "result_id sample_track = 1"
  "frame_id (track_gpu_frame (sample_frame n)) = n" "observation sample_track = sample_face"
  by (simp_all add: sample_frame_def sample_track_def)

lemma sample_matcher_size [simp]: "gallery_size sample_matcher = 2"
  by (simp add: gallery_size_def sample_matcher_def)

text \<open>The track comes fresh to the liveness batch when it is new or its event has cooled down.\<close>

definition returning :: "int \<Rightarrow> bio_state \<Rightarrow> bool" where
  "returning now s \<longleftrightarrow> s = fresh_bio \<or> (bio_phase s = Recognized \<and> now - terminal s \<ge> 30000000000)"

lemma sample_schedule:
  assumes "returning now s"
  shows "schedule_state sample_config 2 n now sample_track s = (fresh_bio\<lparr>seen := n, bio_phase := CheckingPad\<rparr>, True)"
  using assms sample_quality
  by (auto simp: schedule_state_def returning_def settled_def fresh_bio_def no_votes_def ns_of_ms_def
      sample_config_def default_biometric_config_def)

lemma sample_classify:
  "classify_score 1 (pad_live_threshold sample_config) = Inr Live"
  "classify_score 0 (pad_live_threshold sample_config) = Inr Spoof"
  by code_simp+

definition voted :: "nat \<Rightarrow> int \<Rightarrow> liveness_decision \<Rightarrow> single \<Rightarrow> bio_state" where
  "voted n now d score = fresh_bio\<lparr>seen := n, last_pad := n, evidence := now, votes := add_vote d no_votes,
     scores := [score], bio_phase := if d = Live then Recognizing else RejectedAttack\<rparr>"

lemma sample_votes:
  "decide_pad sample_config (fresh_bio\<lparr>seen := n, bio_phase := CheckingPad, last_pad := n, evidence := now,
     votes := add_vote d no_votes, scores := [score]\<rparr>) = voted n now d score" if "d = Live \<or> d = Spoof"
  using that by (auto simp: decide_pad_def voted_def add_vote_def no_votes_def sample_config_def default_biometric_config_def)

lemma sample_pad:
  assumes "(score = 1 \<and> d = Live) \<or> (score = 0 \<and> d = Spoof)" and "proc_config p = sample_config"
    and "bio_at 1 p = fresh_bio\<lparr>seen := tick p, bio_phase := CheckingPad\<rparr>"
  shows "pad_stage (sample_evaluators score) frame now [(1, sample_face)] p = (Inr (), put_bio 1 (voted (tick p) now d score) p)"
proof -
  have "apply_pad sample_config (tick p) now \<lparr>live_score = Some score, live_decision = Live,
       out_of_bounds_ratio = 0, live_transform = sample_alignment\<rparr> (bio_at 1 p) = (Inr (), voted (tick p) now d score)"
    using assms(1) sample_classify sample_votes unfolding assms(3)
    by (auto simp: apply_pad_def fresh_bio_def no_votes_def)
  then show ?thesis
    by (simp add: pad_stage_def sample_evaluators_def run_simps on_bio_def assms(2))
qed

lemma sample_mean:
  "mean_embedding (accumulate_embedding n [1, 0] (s\<lparr>best_quality := q\<rparr>)) = [1, 0]" if "s = voted k now Live 1"
proof -
  have "embedding_sums s = 0 # 0 # replicate 510 0" "arc_count s = 0"
    unfolding that by (simp_all add: voted_def fresh_bio_def embedding_size_def numeral_nat)
  moreover have "to_single ((0 + to_double 1) / double_of_nat 1) = 1" "to_single ((0 + to_double 0) / double_of_nat 1) = 0"
    by code_simp+
  ultimately show ?thesis by (simp add: mean_embedding_def accumulate_embedding_def)
qed

lemma sample_accepted: "accepted sample_config sample_match"
  by code_simp

lemma sample_recognition:
  assumes "bio_at 1 p = voted n now0 Live 1" and "proc_config p = sample_config" and "proc_gallery p = sample_matcher"
    and "emitted p ''b'' = None" and "recognition_stage (sample_evaluators score) utc frame now [sample_track] p = (x, p')"
  shows "\<exists>e. x = Inr [e] \<and> event_identity e = ''b'' \<and> emitted p' ''b'' = Some now \<and>
    (\<exists>s. bio_states p' 1 = Some s \<and> bio_phase s = Recognized \<and> terminal s = now)"
proof -
  have last: "bio_phase (voted n now0 Live 1) = Recognizing" "last_arc (voted n now0 Live 1) = 0"
    by (simp_all add: voted_def fresh_bio_def)
  define q where "q = (voted n now0 Live 1)\<lparr>best_quality := std_max (best_quality (voted n now0 Live 1)) (quality sample_track sample_config)\<rparr>"
  have "recognition_queue [sample_track] p = (put_bio 1 q p, [(1, sample_face)])"
    using assms(1,2) last sample_quality by (simp add: wants_recognition_def Let_def q_def)
  then have run: "recognition_results utc frame now 0 [(1, \<lparr>face_embedding = [1, 0], raw_embedding_norm = 1,
       face_transform = sample_alignment\<rparr>)] (put_bio 1 q p) = (x, p')"
    using assms(5) by (simp add: recognition_stage_def sample_evaluators_def run_simps)
  have mean: "mean_embedding (accumulate_embedding (tick p) [1, 0] q) = [1, 0]"
    unfolding q_def by (rule sample_mean) (rule refl)
  have "apply_recognition (utc 0) frame now 1 [1, 0] (put_bio 1 q p) =
     (Inr [new_event (utc 0) frame 1 (accumulate_embedding (tick p) [1, 0] q\<lparr>bio_match := sample_match\<rparr>)],
      put_bio 1 (accumulate_embedding (tick p) [1, 0] q\<lparr>bio_match := sample_match, terminal := now, bio_phase := Recognized\<rparr>)
        (put_bio 1 q p\<lparr>emitted := (emitted p)(''b'' \<mapsto> now)\<rparr>))"
    using assms(2-4) sample_accepted
    by (simp add: apply_recognition_def mean sample_match_run) (simp add: sample_match_def Let_def)
  then show ?thesis using run by (auto simp: run_simps new_event_def sample_match_def)
qed

lemma sample_visit:
  assumes "proc_config p = sample_config" and "proc_gallery p = sample_matcher"
    and "frame_rejected (sample_frame n) now p = None"
    and "returning now (bio_at 1 p)" and "\<forall>t. emitted p ''b'' = Some t \<longrightarrow> now - t \<ge> 30000000000"
    and "process (sample_evaluators 1) utc (sample_frame n) now p = (x, p')"
  shows "\<exists>out e. x = Inr out \<and> attendance_events out = [e] \<and> event_identity e = ''b'' \<and> emitted p' ''b'' = Some now \<and>
    (\<exists>s. bio_states p' 1 = Some s \<and> bio_phase s = Recognized \<and> terminal s = now)"
proof -
  let ?p = "opened (sample_frame n) now p"
  have returns: "returning now (bio_at 1 ?p)"
  proof (cases "bio_states ?p 1")
    case None
    then show ?thesis by (simp add: bio_at_def returning_def)
  next
    case (Some s)
    then have "bio_states p 1 = Some s" by (simp add: opened_states)
    with Some assms(4) show ?thesis by (simp add: bio_at_def)
  qed
  define q where "q = put_bio 1 (fresh_bio\<lparr>seen := tick ?p, bio_phase := CheckingPad\<rparr>) ?p"
  have sched: "schedule now (frame_tracks (sample_frame n)) ?p = (q, [(1, sample_face)])"
    using sample_schedule [OF returns, of "tick ?p"] by (simp add: assms(1,2) q_def)
  define r where "r = put_bio 1 (voted (tick ?p) now Live 1) q"
  have pad: "pad_stage (sample_evaluators 1) (track_gpu_frame (sample_frame n)) now [(1, sample_face)] q = (Inr (), r)"
    using sample_pad [of 1 Live q "track_gpu_frame (sample_frame n)" now] by (simp add: q_def r_def assms(1))
  have none: "emitted r ''b'' = None"
  proof -
    have "event_cooldown sample_config = 30000" by (simp add: sample_config_def default_biometric_config_def)
    then have "emitted ?p ''b'' \<noteq> Some t" for t
      using assms(5) opened_emitted [of "sample_frame n" now p "''b''" t] by (auto simp: assms(1) ns_of_ms_def)
    then have "emitted ?p ''b'' = None" by (cases "emitted ?p ''b''") auto
    then show ?thesis by (simp add: r_def q_def)
  qed
  obtain z p2 where z: "recognition_stage (sample_evaluators 1) utc (track_gpu_frame (sample_frame n)) now [sample_track] r = (z, p2)"
    by fastforce
  have "\<exists>e. z = Inr [e] \<and> event_identity e = ''b'' \<and> emitted p2 ''b'' = Some now \<and>
    (\<exists>s. bio_states p2 1 = Some s \<and> bio_phase s = Recognized \<and> terminal s = now)"
    by (rule sample_recognition [OF _ _ _ none z]) (simp_all add: r_def q_def assms(1,2))
  then obtain e where e: "z = Inr [e]" "event_identity e = ''b''" "emitted p2 ''b'' = Some now"
    "\<exists>s. bio_states p2 1 = Some s \<and> bio_phase s = Recognized \<and> terminal s = now" by blast
  have "x = Inr \<lparr>bio_gpu_frame = track_gpu_frame (sample_frame n), bio_tracks = map (snapshot_of p2) [sample_track],
      attendance_events = [e]\<rparr> \<and> p' = p2"
    using assms(6) [unfolded process_scheduled [OF assms(3) sched]] pad z e(1)
    by (auto simp: andThen_def get_state_def ret_def)
  then show ?thesis using e by auto
qed

lemma sample_attack:
  assumes "process (sample_evaluators 0) utc (sample_frame 1) 0 sample_processor = (x, p')"
  shows "\<exists>s out. x = Inr out \<and> bio_states p' 1 = Some s \<and> bio_phase s = RejectedAttack \<and> seen s = 1 \<and> tick p' = 1"
proof -
  let ?p = "opened (sample_frame 1) 0 sample_processor"
  have none: "frame_rejected (sample_frame 1) 0 sample_processor = None"
    by (simp add: frame_rejected_def sample_processor_def)
  have at: "bio_at 1 ?p = fresh_bio" "tick ?p = 1" by (simp_all add: bio_at_def opened_def prune_def sample_processor_def)
  define q where "q = put_bio 1 (fresh_bio\<lparr>seen := 1, bio_phase := CheckingPad\<rparr>) ?p"
  have "returning 0 (bio_at 1 ?p)" unfolding at by (simp add: returning_def)
  from sample_schedule [OF this, of "tick ?p"]
  have sched: "schedule 0 (frame_tracks (sample_frame 1)) ?p = (q, [(1, sample_face)])"
    by (simp add: q_def sample_processor_def opened_def prune_def)
  define r where "r = put_bio 1 (voted 1 0 Spoof 0) q"
  have pad: "pad_stage (sample_evaluators 0) (track_gpu_frame (sample_frame 1)) 0 [(1, sample_face)] q = (Inr (), r)"
    using sample_pad [of 0 Spoof q "track_gpu_frame (sample_frame 1)" 0] at
    by (simp add: q_def r_def sample_processor_def)
  have "recognition_stage (sample_evaluators 0) utc (track_gpu_frame (sample_frame 1)) 0 [sample_track] r = (Inr [], r)"
    by (simp add: recognition_stage_def wants_recognition_def r_def voted_def ret_def)
  then have "p' = r \<and> (\<exists>out. x = Inr out)"
    using assms [unfolded process_scheduled [OF none sched]] pad
    by (auto simp: andThen_def get_state_def ret_def)
  then show ?thesis by (auto simp: r_def q_def voted_def fresh_bio_def sample_processor_def)
qed

section \<open>Properties\<close>

text \<open>
  C13: in every session, whatever the evaluators answered and whichever frames threw, a track counts
  its liveness votes exactly, never more of them than the configuration allows, and stands in a
  phase past the liveness check only with the required live votes and too few attack votes.
\<close>

theorem liveness_before_recognition:
  assumes "session c p h" and "bio_states p k = Some s"
  shows "vote_attempts (votes s) = vote_real (votes s) + vote_spoof (votes s) \<and>
    length (scores s) = vote_attempts (votes s) \<and> vote_attempts (votes s) \<le> pad_max_attempts c \<and>
    (bio_phase s \<in> {Recognizing, Recognized, DuplicateIdentity, UnknownIdentity, RecognitionDeferred} \<longrightarrow>
       vote_real (votes s) \<ge> pad_bona_fide_votes_required c \<and> vote_spoof (votes s) < pad_attack_votes_required c)"
proof -
  have "bio_ok c (tick p) s" using session_ok [OF assms(1)] assms(2) by (auto simp: proc_ok_def)
  then show ?thesis by (auto simp: bio_ok_def cleared_def awaiting_def)
qed

text \<open>
  C10: every event a caller receives is earned. The track it names ends the frame recognised, with
  the required live votes and too few attack votes; the match is valid, reaches the similarity
  threshold and the margin, and the event carries the identity, similarity, margin and median
  score of that track, and the identifier of the frame.
\<close>

theorem events_are_earned:
  assumes "session c p h" and "process ev utc f now p = (Inr out, p')" and "e \<in> set (attendance_events out)"
  shows "\<exists>s. bio_states p' (event_track e) = Some s \<and> bio_phase s = Recognized \<and>
    vote_real (votes s) \<ge> pad_bona_fide_votes_required c \<and> vote_spoof (votes s) < pad_attack_votes_required c \<and>
    match_valid (bio_match s) \<and> best_similarity (bio_match s) \<ge> recognition_similarity_threshold c \<and>
    match_margin (bio_match s) \<ge> recognition_min_margin c \<and>
    event_identity e = match_identity (bio_match s) \<and> event_similarity e = best_similarity (bio_match s) \<and>
    event_margin e = match_margin (bio_match s) \<and> event_pad_median e = median (scores s) \<and>
    event_frame e = frame_id (track_gpu_frame f)"
proof -
  have ok: "proc_ok p" "proc_config p = c" using session_ok [OF assms(1)] by auto
  have none: "frame_rejected f now p = None"
    using assms(2) process_rejected [of f now p] by (cases "frame_rejected f now p") auto
  note effect = process_effect [OF ok(1) none assms(2)]
  have "event_justified p' (track_gpu_frame f) e" using effect assms(3) by (auto simp: events_ok_def)
  moreover have "proc_config p' = c" using effect ok(2) by (simp add: frame_effect_def same_frame_def)
  ultimately show ?thesis by (auto simp: event_justified_def cleared_def accepted_def)
qed

text \<open>
  C11: over a whole session, galleries and resets included, two events of one identity are at least
  the configured cooldown apart.
\<close>

theorem cooldown_between_events:
  assumes "session c p h" and "i < j" and "j < length h" and "fst (h ! i) = fst (h ! j)"
  shows "snd (h ! j) - snd (h ! i) \<ge> ns_of_ms (event_cooldown c)"
proof -
  have "cooldowns p h" "proc_config p = c" using session_cooldowns session_ok assms(1) by blast+
  then have "sorted_wrt (apart (ns_of_ms (event_cooldown c))) h" by (simp add: cooldowns_def)
  then show ?thesis using assms(2-4) by (auto simp: sorted_wrt_iff_nth_less apart_def)
qed


section \<open>Witnesses\<close>

text \<open>Two visits of the sample face, the second 30 seconds later.\<close>

lemma sample_first_visit:
  obtains out e p1 where "process (sample_evaluators 1) (\<lambda>_. 0) (sample_frame 1) 0 sample_processor = (Inr out, p1)"
    and "attendance_events out = [e]" and "event_identity e = ''b''" and "emitted p1 ''b'' = Some 0"
    and "\<exists>s. bio_states p1 1 = Some s \<and> bio_phase s = Recognized \<and> terminal s = 0"
proof -
  obtain x p1 where run: "process (sample_evaluators 1) (\<lambda>_. 0) (sample_frame 1) 0 sample_processor = (x, p1)" by fastforce
  have "frame_rejected (sample_frame 1) 0 sample_processor = None"
    by (simp add: frame_rejected_def sample_processor_def)
  from sample_visit [OF _ _ this _ _ run] run show thesis
    by (auto simp: sample_processor_def returning_def bio_at_def intro: that)
qed

theorem events_are_earned_witness:
  "\<exists>out p1 e s. attendance_events out = [e] \<and> bio_states p1 (event_track e) = Some s \<and>
     process (sample_evaluators 1) (\<lambda>_. 0) (sample_frame 1) 0 sample_processor = (Inr out, p1) \<and>
     vote_real (votes s) \<ge> 1 \<and> match_identity (bio_match s) = ''b''"
proof (rule sample_first_visit)
  fix out e p1
  assume run: "process (sample_evaluators 1) (\<lambda>_. 0) (sample_frame 1) 0 sample_processor = (Inr out, p1)"
    and e: "attendance_events out = [e]" "event_identity e = ''b''"
  have "e \<in> set (attendance_events out)" using e by simp
  from events_are_earned [OF sample_session run this]
  have "\<exists>s. bio_states p1 (event_track e) = Some s \<and> vote_real (votes s) \<ge> 1 \<and> match_identity (bio_match s) = ''b''"
    using e(2) by (auto simp: sample_config_def default_biometric_config_def)
  then show ?thesis using run e by blast
qed

theorem liveness_before_recognition_witness:
  "\<exists>p1 s. session sample_config p1 [(''b'', 0)] \<and> bio_states p1 1 = Some s \<and> bio_phase s = Recognized \<and>
     vote_real (votes s) \<ge> 1 \<and> vote_attempts (votes s) \<le> 1"
proof (rule sample_first_visit)
  fix out e p1
  assume run: "process (sample_evaluators 1) (\<lambda>_. 0) (sample_frame 1) 0 sample_processor = (Inr out, p1)"
    and e: "attendance_events out = [e]" "event_identity e = ''b''"
    and "\<exists>s. bio_states p1 1 = Some s \<and> bio_phase s = Recognized \<and> terminal s = 0"
  then obtain s where s: "bio_states p1 1 = Some s" "bio_phase s = Recognized" by blast
  have session: "session sample_config p1 [(''b'', 0)]"
    using session.frame [OF sample_session run] e by simp
  from liveness_before_recognition [OF this s(1)] show ?thesis
    using session s by (auto simp: sample_config_def default_biometric_config_def)
qed

theorem cooldown_between_events_witness:
  "\<exists>p2. session sample_config p2 [(''b'', 0), (''b'', 30000000000)] \<and>
     (30000000000 :: int) - 0 \<ge> ns_of_ms (event_cooldown sample_config)"
proof (rule sample_first_visit)
  fix out e p1
  assume run: "process (sample_evaluators 1) (\<lambda>_. 0) (sample_frame 1) 0 sample_processor = (Inr out, p1)"
    and e: "attendance_events out = [e]" "event_identity e = ''b''" "emitted p1 ''b'' = Some 0"
    and s: "\<exists>s. bio_states p1 1 = Some s \<and> bio_phase s = Recognized \<and> terminal s = 0"
  have session: "session sample_config p1 [(''b'', 0)]"
    using session.frame [OF sample_session run] e by simp
  have none: "frame_rejected (sample_frame 1) 0 sample_processor = None"
    by (simp add: frame_rejected_def sample_processor_def)
  have "proc_ok sample_processor" using session_ok [OF sample_session] by blast
  from process_effect [OF this none run] have p1: "proc_config p1 = sample_config" "proc_gallery p1 = sample_matcher"
    "last_frame p1 = 1" "last_time p1 = 0"
    by (auto simp: frame_effect_def same_frame_def) (simp_all add: sample_processor_def)
  obtain x p2 where run2: "process (sample_evaluators 1) (\<lambda>_. 0) (sample_frame 2) 30000000000 p1 = (x, p2)" by fastforce
  have none2: "frame_rejected (sample_frame 2) 30000000000 p1 = None" by (simp add: frame_rejected_def p1)
  have "returning 30000000000 (bio_at 1 p1)" using s by (auto simp: returning_def bio_at_def)
  from sample_visit [OF p1(1,2) none2 this _ run2] e(3) obtain out2 e2
    where "x = Inr out2" "attendance_events out2 = [e2]" "event_identity e2 = ''b''" by auto
  then have two: "session sample_config p2 [(''b'', 0), (''b'', 30000000000)]"
    using session.frame [OF session, of "sample_evaluators 1" "\<lambda>_. 0" "sample_frame 2" 30000000000 out2 p2] run2 by simp
  from cooldown_between_events [OF two, of 0 1] two show ?thesis by auto
qed


end
