(* ===== verification/Runtime.thy ===== *)
theory Runtime
  imports Camera Scrfd Tracks Attendance
begin

text \<open>
  The vision runtimes: \<^verbatim>\<open>src/vision_runtime/pipeline/face_tracking_runtime.cpp\<close> (camera, detector,
  tracker) and \<^verbatim>\<open>biometric_attendance_runtime.cpp\<close> (tracking and the attendance processor). The
  evaluators enter as what they answer in a frame, as in the processor. Camera steps come between
  the calls; a wait is the moment its camera wakes up.
\<close>

section \<open>Tracking\<close>

record tracking_config =
  tc_camera :: camera_config
  tc_scrfd :: scrfd_config
  tc_bytetrack :: bytetrack_config

definition validate_tracking_config :: "tracking_config \<Rightarrow> unit result" where
  "validate_tracking_config c =
     (if scrfd_path (tc_scrfd c) = [] then Inl (InvalidArgument ''FaceTrackingConfig.scrfd.model_path belum diisi'')
      else if score_threshold (tc_scrfd c) > low_threshold (tc_bytetrack c)
      then Inl (InvalidArgument ''SCRFD score_threshold terlalu tinggi untuk ByteTrack'')
      else if low_threshold (tc_bytetrack c) \<ge> track_threshold (tc_bytetrack c)
      then Inl (InvalidArgument ''ByteTrack low_threshold harus < track_threshold'')
      else if track_threshold (tc_bytetrack c) \<ge> new_track_threshold (tc_bytetrack c)
      then Inl (InvalidArgument ''ByteTrack track_threshold harus < new_track_threshold'')
      else Inr ())"

text \<open>The machine: files, model files and devices.\<close>

record vision_world =
  file_exists :: "string \<Rightarrow> bool"
  load_model :: "string \<Rightarrow> learning_model result"
  camera_drv :: camera_driver
  detector_dev :: scrfd_device
  device_low_light :: int

record tracking_runtime =
  tr_config :: tracking_config
  tr_model :: learning_model
  tr_camera :: camera
  tr_detector :: scrfd_runtime
  tr_tracker :: tracker
  tr_last_frame :: nat
  tr_started :: bool

definition new_detector :: "vision_world \<Rightarrow> scrfd_config \<Rightarrow> learning_model result" where
  "new_detector w c =
     bind_result (validate_scrfd_config (file_exists w) c) (\<lambda>_.
     bind_result (load_model w (scrfd_path c)) (\<lambda>m.
     bind_result (load_scrfd m) (\<lambda>_. Inr m)))"

definition new_tracking_runtime :: "vision_world \<Rightarrow> tracking_config \<Rightarrow> tracking_runtime result" where
  "new_tracking_runtime w c =
     bind_result (validate_tracking_config c) (\<lambda>_.
     bind_result (new_detector w (tc_scrfd c)) (\<lambda>m.
       Inr \<lparr>tr_config = c, tr_model = m, tr_camera = new_camera (device_low_light w), tr_detector = unloaded_scrfd,
            tr_tracker = make_tracker (tc_bytetrack c), tr_last_frame = 0, tr_started = False\<rparr>))"

text \<open>A call on a member, inside a call on its owner.\<close>

definition on_member :: "('s \<Rightarrow> 'm) \<Rightarrow> ('m \<Rightarrow> 's \<Rightarrow> 's) \<Rightarrow> ('m, 'a) run \<Rightarrow> ('s, 'a) run" where
  "on_member get put m s = (case m (get s) of (r, t) \<Rightarrow> (r, put t s))"

abbreviation "on_camera \<equiv> on_member tr_camera (\<lambda>t. tr_camera_update (\<lambda>_. t))"
abbreviation "on_detector \<equiv> on_member tr_detector (\<lambda>t. tr_detector_update (\<lambda>_. t))"
abbreviation "on_tracker \<equiv> on_member tr_tracker (\<lambda>t. tr_tracker_update (\<lambda>_. t))"

definition tracking_process :: "vision_world \<Rightarrow> gpu_frame \<Rightarrow> (tracking_runtime, tracking_frame) run" where
  "tracking_process w f =
     andThen get_state (\<lambda>s.
     andThen (on_detector (detect (detector_dev w) (tc_scrfd (tr_config s)) (tr_model s) f)) (\<lambda>ds.
     andThen (on_tracker (tracker_update ds)) (\<lambda>ts.
       ret \<lparr>track_gpu_frame = f, frame_detections = ds, frame_tracks = ts\<rparr>)))"

definition tracking_start :: "vision_world \<Rightarrow> (tracking_runtime, unit) run" where
  "tracking_start w =
     andThen get_state (\<lambda>s.
       if tr_started s then ret ()
       else andThen (on_camera (camera_start (camera_drv w) (tc_camera (tr_config s)))) (\<lambda>_.
            modify (\<lambda>s. s\<lparr>tr_last_frame := 0, tr_tracker := reset_tracker (tr_tracker s), tr_started := True\<rparr>)))"

definition tracking_stop :: "vision_world \<Rightarrow> tracking_runtime \<Rightarrow> tracking_runtime" where
  "tracking_stop w s =
     (if \<not> tr_started s then s
      else s\<lparr>tr_camera := camera_stop (camera_drv w) (tr_camera s), tr_started := False, tr_last_frame := 0\<rparr>)"

definition tracking_wait :: "vision_world \<Rightarrow> (tracking_runtime, tracking_frame option) run" where
  "tracking_wait w =
     andThen get_state (\<lambda>s.
       if \<not> tr_started s then throw (LogicError ''FaceTrackingRuntime::start() harus dipanggil dahulu'')
       else andThen (lift_result (wait_for_frame (tr_last_frame s) (tr_camera s))) (\<lambda>got. case got of
              None \<Rightarrow> ret None
            | Some f \<Rightarrow>
                andThen (modify (\<lambda>s. s\<lparr>tr_last_frame := frame_id f\<rparr>)) (\<lambda>_.
                andThen (tracking_process w f) (\<lambda>out. ret (Some out)))))"

definition tracking_reset :: "tracking_runtime \<Rightarrow> tracking_runtime" where
  "tracking_reset s = s\<lparr>tr_tracker := reset_tracker (tr_tracker s)\<rparr>"

section \<open>Attendance\<close>

record vision_config =
  vc_tracking :: tracking_config
  vc_pad :: model_config
  vc_arcface :: model_config
  vc_bio :: biometric_config

record attendance_runtime =
  ar_tracking :: tracking_runtime
  ar_processor :: processor
  ar_started :: bool

definition new_liveness :: "vision_world \<Rightarrow> vision_config \<Rightarrow> unit result" where
  "new_liveness w c =
     bind_result (validate_liveness_config (file_exists w) (vc_pad c) (pad_live_threshold (vc_bio c))) (\<lambda>_.
     bind_result (load_model w (config_path (vc_pad c))) load_liveness)"

definition new_recognizer :: "vision_world \<Rightarrow> vision_config \<Rightarrow> unit result" where
  "new_recognizer w c =
     bind_result (validate_arcface_config (file_exists w) (vc_arcface c)) (\<lambda>_.
     bind_result (load_model w (config_path (vc_arcface c))) load_arcface)"

definition new_attendance_runtime :: "vision_world \<Rightarrow> vision_config \<Rightarrow> attendance_runtime result" where
  "new_attendance_runtime w c =
     bind_result (validate_attendance_config (vc_bio c)) (\<lambda>_.
     bind_result (new_tracking_runtime w (vc_tracking c)) (\<lambda>tracking.
     bind_result (new_liveness w c) (\<lambda>_.
     bind_result (new_recognizer w c) (\<lambda>_.
     bind_result (new_processor (vc_bio c)) (\<lambda>p.
       Inr \<lparr>ar_tracking = tracking, ar_processor = p, ar_started = False\<rparr>)))))"

abbreviation "on_tracking \<equiv> on_member ar_tracking (\<lambda>t. ar_tracking_update (\<lambda>_. t))"
abbreviation "on_processor \<equiv> on_member ar_processor (\<lambda>t. ar_processor_update (\<lambda>_. t))"

definition runtime_start :: "vision_world \<Rightarrow> (attendance_runtime, unit) run" where
  "runtime_start w =
     andThen get_state (\<lambda>s.
       if ar_started s then ret ()
       else andThen (modify (\<lambda>s. s\<lparr>ar_processor := reset_processor (ar_processor s)\<rparr>)) (\<lambda>_.
            andThen (on_tracking (tracking_start w)) (\<lambda>_.
            modify (\<lambda>s. s\<lparr>ar_started := True\<rparr>))))"

definition runtime_stop :: "vision_world \<Rightarrow> attendance_runtime \<Rightarrow> attendance_runtime" where
  "runtime_stop w s =
     (if \<not> ar_started s then s else s\<lparr>ar_tracking := tracking_stop w (ar_tracking s), ar_started := False\<rparr>)"

definition runtime_wait :: "vision_world \<Rightarrow> evaluators \<Rightarrow> (nat \<Rightarrow> int) \<Rightarrow> int \<Rightarrow> (attendance_runtime, biometric_frame option) run" where
  "runtime_wait w ev utc now =
     andThen get_state (\<lambda>s.
       if \<not> ar_started s then throw (LogicError ''Runtime not started'')
       else andThen (on_tracking (tracking_wait w)) (\<lambda>got. case got of
              None \<Rightarrow> ret None
            | Some f \<Rightarrow> andThen (on_processor (process ev utc f now)) (\<lambda>out. ret (Some out))))"

definition runtime_set_gallery :: "face_template list \<Rightarrow> (attendance_runtime, unit) run" where
  "runtime_set_gallery ts = on_processor (set_gallery ts)"

definition reset_session :: "attendance_runtime \<Rightarrow> attendance_runtime" where
  "reset_session s = s\<lparr>ar_processor := reset_processor (ar_processor s), ar_tracking := tracking_reset (ar_tracking s)\<rparr>"

section \<open>Histories\<close>

text \<open>
  Everything that can happen to a runtime that has not thrown from a wait: an exception of
  \<open>wait_for_frame\<close> ends the application's loop. The clock of the processor is monotonic.
\<close>

inductive runtime_run :: "vision_world \<Rightarrow> vision_config \<Rightarrow> attendance_runtime \<Rightarrow> bool" for w c where
  made: "new_attendance_runtime w c = Inr s \<Longrightarrow> runtime_run w c s"
| started: "runtime_run w c s \<Longrightarrow> runtime_start w s = (r, t) \<Longrightarrow> runtime_run w c t"
| stopped: "runtime_run w c s \<Longrightarrow> runtime_run w c (runtime_stop w s)"
| waited: "runtime_run w c s \<Longrightarrow> (have_time (ar_processor s) \<Longrightarrow> last_time (ar_processor s) \<le> now) \<Longrightarrow>
    runtime_wait w ev utc now s = (Inr out, t) \<Longrightarrow> runtime_run w c t"
| gallery: "runtime_run w c s \<Longrightarrow> runtime_set_gallery ts s = (r, t) \<Longrightarrow> runtime_run w c t"
| cleared: "runtime_run w c s \<Longrightarrow> runtime_run w c (reset_session s)"
| arrived: "runtime_run w c s \<Longrightarrow>
    runtime_run w c (s\<lparr>ar_tracking := (ar_tracking s)\<lparr>tr_camera := on_frame_arrived a (tr_camera (ar_tracking s))\<rparr>\<rparr>)"
| wound: "runtime_run w c s \<Longrightarrow> cam_looping (tr_camera (ar_tracking s)) \<Longrightarrow> cam_stopping (tr_camera (ar_tracking s)) \<Longrightarrow>
    runtime_run w c (s\<lparr>ar_tracking := (ar_tracking s)\<lparr>tr_camera := wind_down (camera_drv w) (tr_camera (ar_tracking s))\<rparr>\<rparr>)"

text \<open>The frame counters of camera, tracking and processor stay in step.\<close>

definition runtime_ok :: "vision_config \<Rightarrow> attendance_runtime \<Rightarrow> bool" where
  "runtime_ok c s \<longleftrightarrow>
     camera_ok (tr_camera (ar_tracking s)) \<and> tracker_ok (tr_tracker (ar_tracking s)) \<and>
     tr_config (ar_tracking s) = vc_tracking c \<and> ar_started s = tr_started (ar_tracking s) \<and>
     (ar_started s \<longrightarrow> last_frame (ar_processor s) \<le> tr_last_frame (ar_tracking s) \<and>
        tr_last_frame (ar_tracking s) \<le> current_frame_id (tr_camera (ar_tracking s)))"

lemma on_member_cases:
  assumes "on_member get put m s = (r, t)"
  obtains u where "m (get s) = (r, u)" "t = put u s"
  using assms by (cases "m (get s)") (auto simp: on_member_def)

lemma start_counter:
  assumes "camera_start drv c s = (r, t)" and "\<not> cam_thread s"
  shows "current_frame_id t = 0"
  using assms(1)
proof (cases rule: start_cases)
  case 1
  with assms(2) show ?thesis by simp
next
  case (2 u)
  then show ?thesis by (simp add: same_frames_def)
next
  case (3 e u)
  then show ?thesis using wind_down_frames(3) [of drv "u\<lparr>cam_error := Some e\<rparr>"] by (simp add: same_frames_def)
qed

text \<open>What tracking delivers: the camera's latest frame, detections and tracks made from it.\<close>

lemma tracking_wait_cases:
  assumes "tracking_wait w s = (Inr got, t)"
  obtains "got = None" "t = s"
  | f ds ts d tr where "tr_started s" "wait_for_frame (tr_last_frame s) (tr_camera s) = Inr (Some f)"
      "detect (detector_dev w) (tc_scrfd (tr_config s)) (tr_model s) f (tr_detector s) = (Inr ds, d)"
      "tracker_update ds (tr_tracker s) = (Inr ts, tr)"
      "got = Some \<lparr>track_gpu_frame = f, frame_detections = ds, frame_tracks = ts\<rparr>"
      "t = s\<lparr>tr_last_frame := frame_id f, tr_detector := d, tr_tracker := tr\<rparr>"
proof -
  from assms obtain fo where st: "tr_started s" and fo: "wait_for_frame (tr_last_frame s) (tr_camera s) = Inr fo"
    and rest: "(case fo of None \<Rightarrow> ret None
      | Some f \<Rightarrow> andThen (modify (\<lambda>s. s\<lparr>tr_last_frame := frame_id f\<rparr>)) (\<lambda>_.
                 andThen (tracking_process w f) (\<lambda>out. ret (Some out)))) s = (Inr got, t)"
    by (auto simp: tracking_wait_def andThen_Inr_iff get_state_def lift_result_def throw_def split: if_splits)
  show thesis
  proof (cases fo)
    case None
    with rest have "got = None" "t = s" by (simp_all add: ret_def)
    then show thesis by (rule that(1))
  next
    case (Some f)
    define s1 where "s1 = s\<lparr>tr_last_frame := frame_id f\<rparr>"
    from rest Some obtain out where out: "got = Some out" "tracking_process w f s1 = (Inr out, t)"
      by (auto simp: andThen_Inr_iff modify_def ret_def s1_def)
    then obtain ds s2 ts where ds: "on_detector (detect (detector_dev w) (tc_scrfd (tr_config s1)) (tr_model s1) f) s1 = (Inr ds, s2)"
      and ts: "on_tracker (tracker_update ds) s2 = (Inr ts, t)"
      and o: "out = \<lparr>track_gpu_frame = f, frame_detections = ds, frame_tracks = ts\<rparr>"
      by (auto simp: tracking_process_def andThen_Inr_iff get_state_def ret_def)
    from ds obtain d where d: "detect (detector_dev w) (tc_scrfd (tr_config s)) (tr_model s) f (tr_detector s) = (Inr ds, d)"
      "s2 = s1\<lparr>tr_detector := d\<rparr>"
      by (rule on_member_cases) (simp add: s1_def)
    from ts obtain tr where tr: "tracker_update ds (tr_tracker s) = (Inr ts, tr)" "t = s2\<lparr>tr_tracker := tr\<rparr>"
      by (rule on_member_cases) (simp add: d(2) s1_def)
    show thesis
      by (rule that(2) [OF st _ d(1) tr(1)]) (use fo Some out(1) o tr(2) d(2) s1_def in simp_all)
  qed
qed

lemma process_last_frame:
  assumes "process ev utc f now p = (Inr out, p')" and "proc_ok p"
  shows "last_frame p' = frame_id (track_gpu_frame f)"
  using process_step [OF assms(2,1)] by (auto simp: frame_effect_def same_frame_def)

lemma set_gallery_last_frame: "set_gallery ts p = (r, p') \<Longrightarrow> last_frame p' \<le> last_frame p"
  by (auto simp: set_gallery_def reset_processor_def split: sum.splits prod.splits)

lemma runtime_start_cases:
  assumes "runtime_start w s = (r, t)"
  obtains "ar_started s" "t = s"
  | "\<not> ar_started s" "tr_started (ar_tracking s)" "t = s\<lparr>ar_processor := reset_processor (ar_processor s), ar_started := True\<rparr>"
  | cam where "\<not> ar_started s" "\<not> tr_started (ar_tracking s)"
      "camera_start (camera_drv w) (tc_camera (tr_config (ar_tracking s))) (tr_camera (ar_tracking s)) = (Inr (), cam)"
      "t = s\<lparr>ar_processor := reset_processor (ar_processor s),
         ar_tracking := (ar_tracking s)\<lparr>tr_camera := cam, tr_last_frame := 0,
           tr_tracker := reset_tracker (tr_tracker (ar_tracking s)), tr_started := True\<rparr>, ar_started := True\<rparr>"
  | e cam where "\<not> ar_started s" "\<not> tr_started (ar_tracking s)"
      "camera_start (camera_drv w) (tc_camera (tr_config (ar_tracking s))) (tr_camera (ar_tracking s)) = (Inl e, cam)"
      "t = s\<lparr>ar_processor := reset_processor (ar_processor s), ar_tracking := (ar_tracking s)\<lparr>tr_camera := cam\<rparr>\<rparr>"
proof (cases "ar_started s")
  case True
  with assms have "t = s" by (simp add: runtime_start_def run_simps)
  with True show thesis by (rule that(1))
next
  case False
  show thesis
  proof (cases "tr_started (ar_tracking s)")
    case True
    with assms False have "t = s\<lparr>ar_processor := reset_processor (ar_processor s), ar_started := True\<rparr>"
      by (auto simp: runtime_start_def run_simps on_member_def tracking_start_def)
    with False True show thesis by (rule that(2))
  next
    case st: False
    obtain x cam where cam:
      "camera_start (camera_drv w) (tc_camera (tr_config (ar_tracking s))) (tr_camera (ar_tracking s)) = (x, cam)" by fastforce
    show thesis
    proof (cases x)
      case (Inl e)
      with cam assms False st have "t = s\<lparr>ar_processor := reset_processor (ar_processor s), ar_tracking := (ar_tracking s)\<lparr>tr_camera := cam\<rparr>\<rparr>"
        by (auto simp: runtime_start_def run_simps on_member_def tracking_start_def)
      with False st cam Inl show thesis using that(4) by blast
    next
      case (Inr u)
      with cam assms False st have t: "t = s\<lparr>ar_processor := reset_processor (ar_processor s),
         ar_tracking := (ar_tracking s)\<lparr>tr_camera := cam, tr_last_frame := 0,
           tr_tracker := reset_tracker (tr_tracker (ar_tracking s)), tr_started := True\<rparr>, ar_started := True\<rparr>"
        by (auto simp: runtime_start_def run_simps on_member_def tracking_start_def)
      from t False st cam Inr show thesis using that(3) by (metis (full_types) old.unit.exhaust)
    qed
  qed
qed

lemma runtime_wait_cases:
  assumes "runtime_wait w ev utc now s = (Inr out, t)"
  obtains "out = None" "t = s" "ar_started s"
  | f u r p where "ar_started s" "tracking_wait w (ar_tracking s) = (Inr (Some f), u)"
      "process ev utc f now (ar_processor s) = (Inr r, p)" "out = Some r" "t = s\<lparr>ar_tracking := u, ar_processor := p\<rparr>"
proof -
  from assms obtain got s1 where st: "ar_started s" and got: "on_tracking (tracking_wait w) s = (Inr got, s1)"
    and rest: "(case got of None \<Rightarrow> ret None | Some f \<Rightarrow> andThen (on_processor (process ev utc f now)) (\<lambda>out. ret (Some out))) s1 = (Inr out, t)"
    by (auto simp: runtime_wait_def andThen_Inr_iff get_state_def throw_def split: if_splits)
  from got obtain u where u: "tracking_wait w (ar_tracking s) = (Inr got, u)" "s1 = s\<lparr>ar_tracking := u\<rparr>"
    by (rule on_member_cases) simp
  show thesis
  proof (cases got)
    case None
    with u(1) have "u = ar_tracking s" by (cases rule: tracking_wait_cases) simp_all
    with u(2) None rest have "out = None" "t = s" by (simp_all add: ret_def)
    then show thesis using st by (rule that(1))
  next
    case (Some f)
    with rest obtain r where r: "on_processor (process ev utc f now) s1 = (Inr r, t)" "out = Some r"
      by (auto simp: andThen_Inr_iff ret_def)
    from r(1) obtain p where "process ev utc f now (ar_processor s) = (Inr r, p)" "t = s1\<lparr>ar_processor := p\<rparr>"
      by (rule on_member_cases) (simp add: u(2))
    then show thesis using that(2) [OF st _ _ r(2)] u Some by simp
  qed
qed

text \<open>The processor of a runtime lives a session, so what sessions guarantee holds in the runtime.\<close>

lemma runtime_session: "runtime_run w c s \<Longrightarrow> \<exists>h. session (vc_bio c) (ar_processor s) h"
proof (induction rule: runtime_run.induct)
  case (made s)
  then show ?case by (auto simp: new_attendance_runtime_def intro!: exI [of _ "[]"] session.started)
next
  case (started s r t)
  from started.hyps(2) show ?case
    by (cases rule: runtime_start_cases) (use started.IH in \<open>auto intro: session.resetting\<close>)
next
  case (waited s now ev utc out t)
  from waited.hyps(3) show ?case
  proof (cases rule: runtime_wait_cases)
    case 1
    then show ?thesis using waited.IH by simp
  next
    case (2 f u r p)
    obtain h where "session (vc_bio c) (ar_processor s) h" using waited.IH by blast
    from session.frame [OF this 2(3)] show ?thesis using 2(5) by auto
  qed
next
  case (gallery s ts r t)
  from gallery.hyps(2) [unfolded runtime_set_gallery_def]
  obtain p where "set_gallery ts (ar_processor s) = (r, p)" "t = s\<lparr>ar_processor := p\<rparr>"
    by (rule on_member_cases)
  then show ?case using gallery.IH session.gallery by fastforce
qed (auto simp: runtime_stop_def reset_session_def intro: session.resetting)

lemma detector_keeps: "new_tracking_runtime w c = Inr s \<Longrightarrow> tr_config s = c \<and> \<not> tr_started s \<and>
    tr_camera s = new_camera (device_low_light w) \<and> tr_tracker s = make_tracker (tc_bytetrack c)"
  by (auto simp: new_tracking_runtime_def)

lemma runtime_run_ok:
  assumes "runtime_run w c s" and "patient (tc_bytetrack (vc_tracking c))"
  shows "runtime_ok c s"
  using assms(1)
proof (induction rule: runtime_run.induct)
  case (made s)
  then show ?case
    using detector_keeps new_camera_ok make_ok [OF assms(2)] by (auto simp: new_attendance_runtime_def runtime_ok_def)
next
  case (started s r t)
  note ok = started.IH [unfolded runtime_ok_def]
  from started.hyps(2) show ?case
  proof (cases rule: runtime_start_cases)
    case 1
    then show ?thesis using started.IH by simp
  next
    case 2
    then show ?thesis using ok by simp
  next
    case (3 cam)
    have "camera_ok cam" using start_ok [OF 3(3)] ok by blast
    then show ?thesis using 3 ok by (simp add: runtime_ok_def tracker_reset_ok reset_processor_def)
  next
    case (4 e cam)
    have "camera_ok cam" using start_ok [OF 4(3)] ok by blast
    then show ?thesis using 4 ok by (simp add: runtime_ok_def)
  qed
next
  case (stopped s)
  then show ?case using stop_ok by (simp add: runtime_ok_def runtime_stop_def tracking_stop_def)
next
  case (waited s now ev utc out t)
  note ok = waited.IH [unfolded runtime_ok_def]
  from waited.hyps(3) show ?case
  proof (cases rule: runtime_wait_cases)
    case 1
    then show ?thesis using waited.IH by simp
  next
    case (2 f u r p)
    have p: "last_frame p = frame_id (track_gpu_frame f)"
      using process_last_frame [OF 2(3)] runtime_session [OF waited.hyps(1)] session_ok by blast
    from 2(2) show ?thesis
    proof (cases rule: tracking_wait_cases)
      case wf: (2 g ds ts d tr)
      have "frame_id g = current_frame_id (tr_camera (ar_tracking s))"
        using newer_frame [OF wf(2)] ok 2(1) by blast
      moreover have "tracker_ok tr" using update_spec [OF wf(4)] ok by blast
      ultimately show ?thesis using ok 2 p wf by (simp add: runtime_ok_def)
    qed simp
  qed
next
  case (gallery s ts r t)
  from gallery.hyps(2) [unfolded runtime_set_gallery_def]
  obtain p where "set_gallery ts (ar_processor s) = (r, p)" "t = s\<lparr>ar_processor := p\<rparr>"
    by (rule on_member_cases)
  moreover from this have "last_frame p \<le> last_frame (ar_processor s)" by (blast dest: set_gallery_last_frame)
  ultimately show ?case using gallery.IH by (auto simp: runtime_ok_def)
next
  case (cleared s)
  then show ?case by (simp add: runtime_ok_def reset_session_def tracking_reset_def reset_processor_def tracker_reset_ok)
next
  case (arrived s a)
  then show ?case
    using arrival_ok arrival_counter [of "tr_camera (ar_tracking s)" a] by (auto simp: runtime_ok_def intro: order_trans)
next
  case (wound s)
  then show ?case using wind_down_ok wind_down_frames(3) by (simp add: runtime_ok_def)
qed

text \<open>What a wait delivers: each track once, showing a face of this very frame inside the image.\<close>

lemma tracking_delivers:
  assumes "tracking_wait w s = (Inr (Some f), t)" and "tracker_ok (tr_tracker s)"
  shows "distinct (map result_id (frame_tracks f))" and "tracker_ok (tr_tracker t)"
    and "k \<in> set (frame_tracks f) \<Longrightarrow> has_observation k \<and> observation k \<in> set (frame_detections f) \<and>
      inside (frame_width (track_gpu_frame f)) (frame_height (track_gpu_frame f)) (observation k)"
proof -
  from assms(1) have "distinct (map result_id (frame_tracks f)) \<and> tracker_ok (tr_tracker t) \<and>
    (\<forall>k \<in> set (frame_tracks f). has_observation k \<and> observation k \<in> set (frame_detections f) \<and>
      inside (frame_width (track_gpu_frame f)) (frame_height (track_gpu_frame f)) (observation k))"
  proof (cases rule: tracking_wait_cases)
    case (2 g ds ts d tr)
    note spec = update_spec [OF 2(4) assms(2)]
    have tr: "tracker_ok tr" using spec by blast
    then have "distinct (map (id_of (store tr)) (tracked tr))" by (simp add: tracker_ok_def)
    moreover have "map result_id ts = map (id_of (store tr)) (filter (\<lambda>r. activated (store tr ! r)) (tracked tr))"
      using spec by (simp add: result_of_def Let_def id_of_def comp_def)
    ultimately have ids: "distinct (map result_id ts)" by (simp add: distinct_map_filter')
    have obs: "has_observation k \<and> observation k \<in> set ds" if "k \<in> set ts" for k
    proof -
      from spec that obtain r where "r \<in> set (tracked tr)" "k = result_of (store tr ! r)" by auto
      then show ?thesis using spec by (simp add: result_of_def Let_def fresh_def)
    qed
    have "inside (frame_width g) (frame_height g) e" if "e \<in> set ds" for e
      using detect_sound [OF 2(3) that] by blast
    then show ?thesis using 2 tr ids obs by auto
  qed simp
  then show "distinct (map result_id (frame_tracks f))" and "tracker_ok (tr_tracker t)"
    and "k \<in> set (frame_tracks f) \<Longrightarrow> has_observation k \<and> observation k \<in> set (frame_detections f) \<and>
      inside (frame_width (track_gpu_frame f)) (frame_height (track_gpu_frame f)) (observation k)"
    by blast+
qed

text \<open>
  C28: the attendance processor never refuses a frame the tracking pipeline delivers. In every history
  of a runtime, the frame a wait obtains is newer than every frame since the last reset and carries
  each track once, so neither check at the head of \<open>AttendanceProcessor::process\<close> can fire; and every
  track shows a face of this very frame that lies inside the camera image.
\<close>

theorem runtime_frames_accepted:
  assumes "runtime_run w c s" and "patient (tc_bytetrack (vc_tracking c))"
    and "have_time (ar_processor s) \<Longrightarrow> last_time (ar_processor s) \<le> now"
    and "ar_started s" and "tracking_wait w (ar_tracking s) = (Inr (Some f), t)"
  shows "frame_rejected f now (ar_processor s) = None \<and>
    (\<forall>k \<in> set (frame_tracks f). has_observation k \<and> observation k \<in> set (frame_detections f) \<and>
       inside (frame_width (track_gpu_frame f)) (frame_height (track_gpu_frame f)) (observation k))"
proof -
  note ok = runtime_run_ok [OF assms(1,2), unfolded runtime_ok_def]
  have "tracker_ok (tr_tracker (ar_tracking s))" using ok by blast
  note made = tracking_delivers [OF assms(5) this]
  from assms(5) show ?thesis
  proof (cases rule: tracking_wait_cases)
    case (2 g ds ts d tr)
    have "last_frame (ar_processor s) < frame_id g"
      using newer_frame [OF 2(2)] ok assms(4) by (meson le_less_trans)
    then show ?thesis using made 2(5) assms(3) by (auto simp: frame_rejected_def)
  qed simp
qed

section \<open>A first frame\<close>

text \<open>A machine with the sample camera, models of the right shape, and a detector that sees no face.\<close>

definition tensor_feature :: "int list \<Rightarrow> feature" where
  "tensor_feature shape = \<lparr>feature_tensor = True, feature_shape = shape\<rparr>"

definition sample_scrfd :: learning_model where
  "sample_scrfd = \<lparr>model_inputs = [tensor_feature [1, 3, 640, 640]], model_outputs = replicate 9 (tensor_feature [])\<rparr>"

definition sample_models :: "string \<Rightarrow> learning_model result" where
  "sample_models path = Inr
     (if path = ''a'' then \<lparr>model_inputs = [tensor_feature [1, 3, 112, 112]], model_outputs = [tensor_feature [1, 512]]\<rparr>
      else if path = ''p'' then \<lparr>model_inputs = [tensor_feature [1, 3, 80, 80]], model_outputs = [tensor_feature [1]]\<rparr>
      else sample_scrfd)"

definition blank_view :: "nat \<Rightarrow> output_value result" where
  "blank_view i = Inr (FloatTensor \<lparr>view_shape = blob_shape (blank_outputs ! i), view_elements = blob_data (blank_outputs ! i),
     view_delivered = length (blob_data (blank_outputs ! i))\<rparr>)"

definition sample_detector :: scrfd_device where
  "sample_detector = \<lparr>make_preprocessor = (\<lambda>_. Inr (1280, 720)), make_session = Inr (), make_binding = Inr (),
     dispatch_preprocess = (\<lambda>_. Inr ()), bind_input = Inr (), evaluate_session = (\<lambda>_ _. Inr blank_view)\<rparr>"

definition sample_world :: vision_world where
  "sample_world = \<lparr>file_exists = (\<lambda>_. True), load_model = sample_models, camera_drv = sample_driver,
     detector_dev = sample_detector, device_low_light = 1\<rparr>"

definition sample_vision :: vision_config where
  "sample_vision = \<lparr>vc_tracking = \<lparr>tc_camera = default_camera_config,
       tc_scrfd = default_scrfd_config\<lparr>scrfd_path := ''s'', score_threshold := single_lit (1 / 10)\<rparr>, tc_bytetrack = usual_tracking\<rparr>,
     vc_pad = \<lparr>config_path = ''p'', config_width = 80, config_height = 80\<rparr>,
     vc_arcface = \<lparr>config_path = ''a'', config_width = 112, config_height = 112\<rparr>, vc_bio = sample_config\<rparr>"

definition first_arrival :: arrival where
  "first_arrival = \<lparr>entered_ns = 5, acquired = Inr True, system_time_ns = Inr None, video_part = Inr True,
     surface_part = Inr True, texture_desc = Inr (1280, 720, dxgi_nv12), stamped_ns = 7\<rparr>"

definition first_frame :: gpu_frame where
  "first_frame = \<lparr>frame_texture = True, frame_id = 1, callback_entry_ns = 5, frame_timestamp_ns = 7, frame_source_ns = 0,
     frame_width = 1280, frame_height = 720, frame_format = dxgi_nv12\<rparr>"

lemma silent_level:
  assumes "level_scores l = Some (blank_blob n 1)" "level_bbox l = Some (blank_blob n 4)" "level_kps l = Some (blank_blob n 10)"
    "level_anchors l = n" "0 < score_threshold c"
  shows "decode_level c l = Inr []"
  using assms by (simp add: decode_level_def level_data_def blank_blob_def Let_def filter_empty_conv)

lemma blank_decode:
  assumes "scrfd_width c = 640" "scrfd_height c = 640" "0 < score_threshold c"
  shows "\<exists>levels. organize_outputs c blank_outputs = Inr levels \<and> decode c t levels f = Inr []"
proof -
  let ?l = "\<lambda>s n. \<lparr>level_stride = s, level_anchors = n, level_scores = Some (blank_blob n 1),
     level_bbox = Some (blank_blob n 4), level_kps = Some (blank_blob n 10)\<rparr>"
  have "organize_outputs c blank_outputs = Inr [?l 8 12800, ?l 16 3200, ?l 32 800]"
    using assms(1,2)
    by (simp add: organize_outputs_def blank_outputs_def place_blob_def stride_for_anchor_count_def strides_def
        anchor_count_def empty_level_def take_level_def complete_level_def)
  moreover have "decode_level c (?l s n) = Inr []" for s n
    by (rule silent_level) (simp_all add: assms(3))
  then have "decode c t [?l 8 12800, ?l 16 3200, ?l 32 800] f = Inr []"
    by (simp add: decode_def nms_def sort_by_score_def)
  ultimately show ?thesis by blast
qed

lemma blank_read: "mapM (read_output blank_view) [0..<9] = Inr blank_outputs"
proof -
  have "read_output blank_view i = Inr (blank_outputs ! i)" for i
    by (simp add: read_output_def blank_view_def copy_tensor_data_def)
  moreover have "length blank_outputs = 9" by (simp add: blank_outputs_def)
  ultimately show ?thesis
    unfolding mapM_Inr_iff list_all2_conv_all_nth by simp
qed

lemma first_detection:
  "\<exists>d. detect sample_detector (tc_scrfd (vc_tracking sample_vision)) sample_scrfd first_frame unloaded_scrfd = (Inr [], d)"
proof -
  let ?c = "tc_scrfd (vc_tracking sample_vision)"
  have pos: "0 < score_threshold ?c" by (simp add: sample_vision_def default_scrfd_config_def) code_simp
  have size: "scrfd_width ?c = 640" "scrfd_height ?c = 640" by (simp_all add: sample_vision_def default_scrfd_config_def)
  have outs: "length (model_outputs sample_scrfd) = 9" by (simp add: sample_scrfd_def)
  obtain levels where levels: "organize_outputs ?c blank_outputs = Inr levels"
    "decode ?c (letterbox_for ?c (1280, 720)) levels first_frame = Inr []"
    using blank_decode [OF size pos] by blast
  have frame: "validate_gpu_frame first_frame = Inr ()" "frame_format first_frame = dxgi_nv12"
    "frame_width first_frame = 1280" "frame_height first_frame = 720"
    by (simp_all add: validate_gpu_frame_def first_frame_def frame_valid_def dxgi_unknown_def dxgi_nv12_def)
  have dev: "make_session sample_detector = Inr ()" "make_binding sample_detector = Inr ()" "bind_input sample_detector = Inr ()"
    by (simp_all add: sample_detector_def)
  have prep: "create_preprocessing sample_detector ?c first_frame = Inr (letterbox_for ?c (1280, 720))"
    using frame size by (simp add: create_preprocessing_def check_source_def sample_detector_def)
  have copied: "preprocess_frame sample_detector (letterbox_for ?c (1280, 720)) first_frame = Inr ()"
    using frame by (simp add: preprocess_frame_def letterbox_for_def Let_def sample_detector_def)
  have init: "initialize_scrfd sample_detector ?c first_frame unloaded_scrfd = (Inr (), \<lparr>sc_letterbox = Some (letterbox_for ?c (1280, 720)),
      sc_session = True, sc_binding = True, sc_bound = True\<rparr>)"
    using prep copied
    by (simp add: initialize_scrfd_def run_simps whole_stage_def stage_def unloaded_scrfd_def dev)
  have none: "sc_letterbox unloaded_scrfd = None" by (simp add: unloaded_scrfd_def)
  have eval: "evaluate_session sample_detector b f = Inr blank_view" for b f by (simp add: sample_detector_def)
  show ?thesis
    using frame init levels blank_read none
    by (simp add: detect_def run_simps evaluate_outputs_def outs eval stage_def current_letterbox_def)
qed

lemma idle_steps:
  assumes "tracked u = []" "lost u = []" "now_activated u = []" "refound u = []" "newly_lost u = []" "newly_removed u = []"
  shows "\<exists>u'. update_steps [] u = (Inr [], u')"
  apply (simp add: update_steps_def assms andThen_def get_state_def modify_def joint_tracks_def match_all_def associate_def
      to_items_def no_rows lift_result_def ret_def Let_def)
  by (simp add: assms andThen_def get_state_def modify_def ret_def relist_def Let_def joint_tracks_def subtract_tracks_def
      remove_duplicates_def)

lemma idle_update:
  assumes "tracked s = []" "lost s = []"
  shows "\<exists>u. tracker_update [] s = (Inr [], u)"
proof -
  have "\<exists>u. update_steps [] (starting s) = (Inr [], u)"
    by (rule idle_steps) (simp_all add: assms starting_def tracker.defs update_state.defs)
  then show ?thesis by (auto simp: tracker_update_def starting_def)
qed

lemma sample_checks:
  "validate_attendance_config sample_config = Inr ()"
  "validate_tracking_config (vc_tracking sample_vision) = Inr ()"
  "validate_scrfd_config (\<lambda>_. True) (tc_scrfd (vc_tracking sample_vision)) = Inr ()"
  "validate_liveness_config (\<lambda>_. True) (vc_pad sample_vision) (pad_live_threshold sample_config) = Inr ()"
  "validate_arcface_config (\<lambda>_. True) (vc_arcface sample_vision) = Inr ()"
  "load_scrfd sample_scrfd = Inr ()"
  "bind_result (sample_models ''p'') load_liveness = Inr ()"
  "bind_result (sample_models ''a'') load_arcface = Inr ()"
  by code_simp+

lemma sample_runtime:
  "\<exists>p. new_attendance_runtime sample_world sample_vision = Inr \<lparr>ar_tracking = \<lparr>tr_config = vc_tracking sample_vision,
     tr_model = sample_scrfd, tr_camera = new_camera 1, tr_detector = unloaded_scrfd, tr_tracker = make_tracker usual_tracking,
     tr_last_frame = 0, tr_started = False\<rparr>, ar_processor = p, ar_started = False\<rparr> \<and> \<not> have_time p"
proof -
  obtain p where p: "new_processor sample_config = Inr p" "\<not> have_time p"
    using sample_checks(1) by (simp add: new_processor_def)
  have c: "vc_bio sample_vision = sample_config" "config_path (vc_pad sample_vision) = ''p''"
    "config_path (vc_arcface sample_vision) = ''a''" "scrfd_path (tc_scrfd (vc_tracking sample_vision)) = ''s''"
    "tc_bytetrack (vc_tracking sample_vision) = usual_tracking"
    by (simp_all add: sample_vision_def)
  have w: "file_exists sample_world = (\<lambda>_. True)" "load_model sample_world = sample_models" "device_low_light sample_world = 1"
    by (simp_all add: sample_world_def)
  have m: "sample_models ''s'' = Inr sample_scrfd" by (simp add: sample_models_def)
  have "new_tracking_runtime sample_world (vc_tracking sample_vision) = Inr \<lparr>tr_config = vc_tracking sample_vision,
     tr_model = sample_scrfd, tr_camera = new_camera 1, tr_detector = unloaded_scrfd, tr_tracker = make_tracker usual_tracking,
     tr_last_frame = 0, tr_started = False\<rparr>"
    by (simp add: new_tracking_runtime_def new_detector_def sample_checks c w m)
  moreover have "new_liveness sample_world sample_vision = Inr ()" "new_recognizer sample_world sample_vision = Inr ()"
    using sample_checks by (simp_all add: new_liveness_def new_recognizer_def c w del: bind_result_Inr_iff)
  ultimately have "new_attendance_runtime sample_world sample_vision = Inr \<lparr>ar_tracking = \<lparr>tr_config = vc_tracking sample_vision,
     tr_model = sample_scrfd, tr_camera = new_camera 1, tr_detector = unloaded_scrfd, tr_tracker = make_tracker usual_tracking,
     tr_last_frame = 0, tr_started = False\<rparr>, ar_processor = p, ar_started = False\<rparr>"
    using sample_checks(1) p(1) by (simp add: new_attendance_runtime_def c)
  with p(2) show ?thesis by blast
qed

theorem runtime_frames_accepted_witness:
  "\<exists>s f t. runtime_run sample_world sample_vision s \<and> tracking_wait sample_world (ar_tracking s) = (Inr (Some f), t) \<and>
     track_gpu_frame f = first_frame \<and> frame_rejected f 9 (ar_processor s) = None"
proof -
  obtain p where made: "runtime_run sample_world sample_vision \<lparr>ar_tracking = \<lparr>tr_config = vc_tracking sample_vision,
     tr_model = sample_scrfd, tr_camera = new_camera 1, tr_detector = unloaded_scrfd, tr_tracker = make_tracker usual_tracking,
     tr_last_frame = 0, tr_started = False\<rparr>, ar_processor = p, ar_started = False\<rparr>" and time: "\<not> have_time p"
    using sample_runtime runtime_run.made by blast
  obtain cam where cam: "camera_start sample_driver default_camera_config (new_camera 1) = (Inr (), cam)" "cam_running cam"
    "current_frame_id cam = 0" "cam_error cam = None" "texture_metadata cam = None"
    using sample_started by blast
  define t1 where "t1 = \<lparr>tr_config = vc_tracking sample_vision, tr_model = sample_scrfd, tr_camera = cam, tr_detector = unloaded_scrfd,
     tr_tracker = reset_tracker (make_tracker usual_tracking), tr_last_frame = 0, tr_started = True\<rparr>"
  have parts: "tc_camera (vc_tracking sample_vision) = default_camera_config" "camera_drv sample_world = sample_driver"
    "detector_dev sample_world = sample_detector"
    by (simp_all add: sample_vision_def sample_world_def)
  have run1: "runtime_run sample_world sample_vision \<lparr>ar_tracking = t1, ar_processor = reset_processor p, ar_started = True\<rparr>"
    by (rule runtime_run.started [OF made, of "Inr ()"])
      (simp add: runtime_start_def run_simps on_member_def tracking_start_def parts cam t1_def)
  define t2 where "t2 = t1\<lparr>tr_camera := on_frame_arrived first_arrival cam\<rparr>"
  define s where "s = \<lparr>ar_tracking = t2, ar_processor = reset_processor p, ar_started = True\<rparr>"
  have run2: "runtime_run sample_world sample_vision s"
    using runtime_run.arrived [OF run1, of first_arrival] by (simp add: s_def t2_def t1_def)
  have "wait_for_frame 0 (on_frame_arrived first_arrival cam) = Inr (Some first_frame)"
    using cam by (simp add: wait_for_frame_def frame_ready_def on_frame_arrived_def received_def publish_frame_def
        first_arrival_def first_frame_def frame_valid_def)
  moreover obtain d where "detect sample_detector (tc_scrfd (vc_tracking sample_vision)) sample_scrfd first_frame unloaded_scrfd = (Inr [], d)"
    using first_detection by blast
  moreover obtain tr where "tracker_update [] (reset_tracker (make_tracker usual_tracking)) = (Inr [], tr)"
    using idle_update [of "reset_tracker (make_tracker usual_tracking)"] by (auto simp: reset_tracker_def)
  ultimately obtain u where wait: "tracking_wait sample_world t2 =
      (Inr (Some \<lparr>track_gpu_frame = first_frame, frame_detections = [], frame_tracks = []\<rparr>), u)"
    by (simp add: tracking_wait_def tracking_process_def run_simps on_member_def t2_def t1_def parts)
  have patient: "patient (tc_bytetrack (vc_tracking sample_vision))" using usual_patient by (simp add: sample_vision_def)
  have "frame_rejected \<lparr>track_gpu_frame = first_frame, frame_detections = [], frame_tracks = []\<rparr> 9 (ar_processor s) = None"
    by (rule runtime_frames_accepted [OF run2 patient, THEN conjunct1])
      (use time wait in \<open>simp_all add: s_def reset_processor_def\<close>)
  then show ?thesis using run2 wait by (fastforce simp: s_def)
qed

end
