(* ===== verification/Coordinator.thy ===== *)
theory Coordinator
  imports DeviceChannel Runtime
begin

text \<open>
  The attendance coordinator, \<^verbatim>\<open>src/edge_app/app/attendance_coordinator.cpp\<close>: events of a frame are turned
  into records and staged in memory, then committed one by one to the outbox; a gallery is installed
  only between frames.
\<close>

section \<open>State and operations\<close>

record coordinator =
  co_device :: string
  co_model_hash :: string
  co_version :: string
  co_template_count :: nat
  co_pending :: "attendance_record list"

definition new_coordinator :: "string \<Rightarrow> string \<Rightarrow> coordinator" where
  "new_coordinator device hash =
     \<lparr>co_device = device, co_model_hash = hash, co_version = [], co_template_count = 0, co_pending = []\<rparr>"

definition observation_of :: "attendance_event \<Rightarrow> attendance_observation" where
  "observation_of e = \<lparr>occurred_at_utc_ms = event_utc_ms e, camera_frame_id = event_frame e, track_id = event_track e,
     identity_id = event_identity e, similarity = event_similarity e, similarity_margin = event_margin e,
     pad_median_p_real = event_pad_median e, pad_median_margin_p_real = 0\<rparr>"

text \<open>\<open>rng\<close>: the random bytes of the i-th envelope.\<close>

definition stage_records :: "json_api \<Rightarrow> (nat \<Rightarrow> u8 list option) \<Rightarrow> string \<Rightarrow> string \<Rightarrow> attendance_event list \<Rightarrow>
    attendance_record list result" where
  "stage_records api rng device ver events =
     mapM (\<lambda>(i, e). envelope api (observation_of e) device ver (rng i)) (List.enumerate 0 events)"

definition stage_events :: "json_api \<Rightarrow> (nat \<Rightarrow> u8 list option) \<Rightarrow> attendance_event list \<Rightarrow> (coordinator, unit) run" where
  "stage_events api rng events =
     andThen get_state (\<lambda>co.
       if co_pending co \<noteq> [] then throw (LogicError ''Persist pending attendance before accepting another frame'')
       else andThen (lift_result (stage_records api rng (co_device co) (co_version co) events)) (\<lambda>rs.
            modify (\<lambda>co. co\<lparr>co_pending := rs\<rparr>)))"

definition commit_next :: "(coordinator \<times> connection, attendance_record option) run" where
  "commit_next =
     andThen get_state (\<lambda>(co, _).
       case co_pending co of
         [] \<Rightarrow> ret None
       | r # rs \<Rightarrow>
           andThen (on_db (ensure_enqueued r)) (\<lambda>_.
           andThen (modify (\<lambda>(co, c). (co\<lparr>co_pending := rs\<rparr>, c))) (\<lambda>_. ret (Some r))))"

definition record_event :: "json_api \<Rightarrow> (nat \<Rightarrow> u8 list option) \<Rightarrow> attendance_event \<Rightarrow>
    (coordinator \<times> connection, attendance_record) run" where
  "record_event api rng e =
     andThen (on_member fst (\<lambda>co (_, c). (co, c)) (stage_events api rng [e])) (\<lambda>_.
     andThen commit_next (\<lambda>r. ret (the r)))"

text \<open>\<open>refresh_gallery\<close> calls back into the vision runtime to install the templates.\<close>

definition to_face_template :: "gallery_template \<Rightarrow> face_template" where
  "to_face_template t = \<lparr>face_identity = template_identity t, face_vector = template_embedding t\<rparr>"

definition refresh_gallery :: "(face_template list \<Rightarrow> ('r, unit) run) \<Rightarrow> ((coordinator \<times> 'r) \<times> connection, unit) run" where
  "refresh_gallery install =
     andThen get_state (\<lambda>((co, _), _).
       if co_pending co \<noteq> [] then throw (LogicError ''Persist pending attendance before reloading gallery'')
       else andThen (on_db load_gallery) (\<lambda>snapshot.
         if version snapshot \<noteq> [] \<and> model_sha256 snapshot \<noteq> co_model_hash co
         then throw (RuntimeError ''Gallery model differs from the active ArcFace model'')
         else andThen (on_member (snd \<circ> fst) (\<lambda>r ((co, _), c). ((co, r), c)) (install (map to_face_template (templates snapshot)))) (\<lambda>_.
           modify (\<lambda>((co, r), c). ((co\<lparr>co_version := version snapshot, co_template_count := length (templates snapshot)\<rparr>, r), c)))))"

section \<open>Committing\<close>

lemma commit_next_cases:
  assumes "commit_next (co, c) = (x, (co', c'))"
  obtains "co_pending co = []" "x = Inr None" "co' = co" "c' = c"
  | r rs e where "co_pending co = r # rs" "ensure_enqueued r c = (Inl e, c')" "x = Inl e" "co' = co"
  | r rs where "co_pending co = r # rs" "ensure_enqueued r c = (Inr (), c')" "x = Inr (Some r)"
      "co' = co\<lparr>co_pending := rs\<rparr>"
proof (cases "co_pending co")
  case Nil
  with assms have "x = Inr None" "co' = co" "c' = c" by (simp_all add: commit_next_def run_simps)
  with Nil show thesis by (rule that(1))
next
  case (Cons r rs)
  obtain q d where q: "ensure_enqueued r c = (q, d)" by fastforce
  show thesis
  proof (cases q)
    case (Inl e)
    with assms Cons q have "x = Inl e" "co' = co" "c' = d" by (simp_all add: commit_next_def run_simps on_db_def)
    with Cons q Inl show thesis using that(2) by blast
  next
    case (Inr u)
    with assms Cons q have "x = Inr (Some r)" "co' = co\<lparr>co_pending := rs\<rparr>" "c' = d"
      by (simp_all add: commit_next_def run_simps on_db_def)
    with Cons q Inr show thesis using that(3) by (metis (full_types) old.unit.exhaust)
  qed
qed

text \<open>What is durably in the database, whether it waits for delivery or is retained.\<close>

definition durable :: "tables \<Rightarrow> string \<rightharpoonup> string" where
  "durable t k = (case pending t k of Some p \<Rightarrow> Some p | None \<Rightarrow> retained t k)"

lemma spec_ensure_durable:
  assumes "tables_ok t" and "spec_ensure_enqueued r t = Inr (x, t')"
  shows "durable t (record_id r) \<in> {None, Some (payload r)}" and "durable t' = (durable t)(record_id r \<mapsto> payload r)"
    and "pending t k = Some p \<Longrightarrow> pending t' k = Some p" and "retained t' = retained t" and "tables_ok t'"
proof -
  consider row where "find_outbox (record_id r) t = Some row" "row_payload row = payload r" "t' = t"
    | row where "find_outbox (record_id r) t = None" "find_dead (record_id r) t = Some row"
        "dead_payload row = payload r" "t' = t"
    | "find_outbox (record_id r) t = None" "find_dead (record_id r) t = None"
        "t' = t\<lparr>outbox := outbox t @ [fresh_row r]\<rparr>"
    using assms(2) by (auto simp: spec_ensure_enqueued_def split: option.splits if_splits)
  then have "durable t (record_id r) \<in> {None, Some (payload r)} \<and> durable t' = (durable t)(record_id r \<mapsto> payload r) \<and>
    (\<forall>k p. pending t k = Some p \<longrightarrow> pending t' k = Some p) \<and> retained t' = retained t"
  proof cases
    case 1
    then show ?thesis by (auto simp: durable_def pending_def fun_eq_iff)
  next
    case 2
    then show ?thesis by (auto simp: durable_def pending_def retained_def fun_eq_iff split: option.splits)
  next
    case 3
    have p: "pending t' = (pending t)(record_id r \<mapsto> payload r)"
      using 3 by (auto simp: fun_eq_iff pending_def find_outbox_def split: option.splits)
    have "retained t' = retained t" using 3 by (simp add: fun_eq_iff retained_def find_dead_def)
    moreover have "pending t (record_id r) = None" "retained t (record_id r) = None"
      using 3 by (simp_all add: pending_def retained_def)
    ultimately show ?thesis using p by (auto simp: durable_def fun_eq_iff split: option.splits)
  qed
  then show "durable t (record_id r) \<in> {None, Some (payload r)}" "durable t' = (durable t)(record_id r \<mapsto> payload r)"
    "pending t k = Some p \<Longrightarrow> pending t' k = Some p" "retained t' = retained t"
    by blast+
  show "tables_ok t'" using spec_ensure_ok(1) assms by blast
qed

lemma ensure_effect:
  assumes "quiescent c" "tables_ok (stored c)" "ensure_enqueued r c = (q, c')"
  shows "quiescent c'" and "tables_ok (stored c')" and "retained (stored c') = retained (stored c)"
    and "pending (stored c) k = Some p \<Longrightarrow> pending (stored c') k = Some p"
    and "stored c' = stored c \<or> (durable (stored c) (record_id r) \<in> {None, Some (payload r)} \<and>
          durable (stored c') = (durable (stored c))(record_id r \<mapsto> payload r))"
    and "q = Inr () \<Longrightarrow> durable (stored c) (record_id r) \<in> {None, Some (payload r)} \<and>
          durable (stored c') = (durable (stored c))(record_id r \<mapsto> payload r)"
proof -
  have q: "quiescent c'" using ensure_op.quiescent_after [OF assms(1,3)] .
  consider "stored c' = stored c" "\<exists>e. q = Inl e" | "spec_ensure_enqueued r (stored c) = Inr ((), stored c')"
  proof (cases q)
    case (Inl e)
    with assms(3) ensure_op.fails [OF assms(1), of r e c'] that show thesis by auto
  next
    case (Inr u)
    with assms(3) ensure_op.commits [OF assms(1), of r u c'] that(2) show thesis by simp
  qed
  then have "tables_ok (stored c') \<and> retained (stored c') = retained (stored c) \<and>
    (\<forall>k p. pending (stored c) k = Some p \<longrightarrow> pending (stored c') k = Some p) \<and>
    (stored c' = stored c \<and> (\<exists>e. q = Inl e) \<or> (durable (stored c) (record_id r) \<in> {None, Some (payload r)} \<and>
          durable (stored c') = (durable (stored c))(record_id r \<mapsto> payload r)))"
  proof cases
    case 2
    note e = spec_ensure_durable [OF assms(2) 2]
    show ?thesis using e by blast
  qed (use assms(2) in simp)
  then show "tables_ok (stored c')" "retained (stored c') = retained (stored c)"
    "pending (stored c) k = Some p \<Longrightarrow> pending (stored c') k = Some p"
    "stored c' = stored c \<or> (durable (stored c) (record_id r) \<in> {None, Some (payload r)} \<and>
          durable (stored c') = (durable (stored c))(record_id r \<mapsto> payload r))"
    "q = Inr () \<Longrightarrow> durable (stored c) (record_id r) \<in> {None, Some (payload r)} \<and>
          durable (stored c') = (durable (stored c))(record_id r \<mapsto> payload r)"
    by blast+
  show "quiescent c'" by (rule q)
qed

section \<open>Refinement of a log\<close>

text \<open>
  The abstract view of coordinator and database: a queue of events in memory, and a log that maps an
  event id to its payload for ever. Committing moves the head of the queue into the log, unless the
  log has another payload under its id.
\<close>

type_synonym event_log = "(string \<times> string) list \<times> (string \<rightharpoonup> string)"

definition log_view :: "coordinator \<times> connection \<Rightarrow> event_log" where
  "log_view w = (map (\<lambda>r. (record_id r, payload r)) (co_pending (fst w)), durable (stored (snd w)))"

definition log_commit :: "event_log \<Rightarrow> event_log option" where
  "log_commit l =
     (case fst l of
        [] \<Rightarrow> Some l
      | (k, p) # queue \<Rightarrow> if snd l k \<noteq> None \<and> snd l k \<noteq> Some p then None else Some (queue, (snd l)(k \<mapsto> p)))"

text \<open>
  C29: \<open>commit_next\<close> implements the abstract log. When it returns, the abstract queue and log have made
  exactly one commit, however the rows are laid out over the outbox and the retained events. When
  it throws, the queue is as before, and the log is as before or already has the entry that a
  repeated call would add.
\<close>

theorem commit_refines_log:
  assumes "quiescent c" and "tables_ok (stored c)" and "commit_next (co, c) = (x, w)"
  shows "case x of
      Inr r \<Rightarrow> log_commit (log_view (co, c)) = Some (log_view w)
    | Inl e \<Rightarrow> fst (log_view w) = fst (log_view (co, c)) \<and>
        (snd (log_view w) = snd (log_view (co, c)) \<or>
         log_commit (log_view (co, c)) = Some (tl (fst (log_view (co, c))), snd (log_view w)))"
proof -
  obtain co' c' where w: "w = (co', c')" by fastforce
  from assms(3) [unfolded w] show ?thesis
  proof (cases rule: commit_next_cases)
    case 1
    then show ?thesis by (simp add: w log_view_def log_commit_def)
  next
    case (2 r rs e)
    from ensure_effect(5) [OF assms(1,2) 2(2)] show ?thesis
      using 2 by (auto simp: w log_view_def log_commit_def)
  next
    case (3 r rs)
    from ensure_effect(6) [OF assms(1,2) 3(2)] show ?thesis
      using 3 by (auto simp: w log_view_def log_commit_def)
  qed
qed

theorem commit_refines_log_witness:
  "log_commit ([(''e2'', ''P2'')], durable sample_tables) =
     Some ([], durable (stored (snd (snd (commit_next ((new_coordinator ''d1'' ''h'')\<lparr>co_pending := [second_record]\<rparr>, sample_connection))))))"
proof -
  let ?co = "(new_coordinator ''d1'' ''h'')\<lparr>co_pending := [second_record]\<rparr>"
  obtain x w where run: "commit_next (?co, sample_connection) = (x, w)" by (cases "commit_next (?co, sample_connection)")
  have "fst (ensure_enqueued second_record sample_connection) = Inr ()" by code_simp
  then obtain c' where "ensure_enqueued second_record sample_connection = (Inr (), c')"
    by (metis prod.collapse)
  with run have x: "x = Inr (Some second_record)" "co_pending (fst w) = []"
    by (auto simp: commit_next_def run_simps on_db_def)
  show ?thesis
    using commit_refines_log [OF sample_quiescent sample_ok run] x run
    by (simp add: log_view_def second_record_def sample_connection_def)
qed

section \<open>The client and its worker\<close>

text \<open>\<open>moves_from t D m\<close>: from the tables \<open>t\<close>, \<open>m\<close> moves events, delivering those of \<open>D\<close> only.\<close>

definition moves_from :: "tables \<Rightarrow> string set \<Rightarrow> ('s \<times> connection, 'a) run \<Rightarrow> bool" where
  "moves_from t D m \<longleftrightarrow> (\<forall>s c r s' c'. quiescent c \<and> stored c = t \<and> tables_ok t \<and> m (s, c) = (r, (s', c'))
     \<longrightarrow> quiescent c' \<and> moved D t (stored c'))"

definition no_access :: "('s \<times> connection, 'a) run \<Rightarrow> bool" where
  "no_access m \<longleftrightarrow> (\<forall>s c. snd (snd (m (s, c))) = c)"

lemma no_access_basic:
  "no_access (lift_result x)" "no_access (ret y)" "no_access get_state" "no_access (on_service f)"
  by (simp_all add: no_access_def run_simps on_service_def)

lemma no_access_if: "no_access m \<Longrightarrow> no_access n \<Longrightarrow> no_access (if b then m else n)"
  by simp

lemma no_access_bind: "no_access m \<Longrightarrow> (\<And>x. no_access (f x)) \<Longrightarrow> no_access (andThen m f)"
  unfolding no_access_def andThen_def by (auto split: prod.splits sum.splits) (metis snd_conv)+

lemma moves_after:
  assumes "no_access m" and "\<And>x. moves_from t D (f x)"
  shows "moves_from t D (andThen m f)"
  unfolding moves_from_def
proof (intro allI impI)
  fix s c r s' c'
  assume a: "quiescent c \<and> stored c = t \<and> tables_ok t \<and> andThen m f (s, c) = (r, (s', c'))"
  obtain q s1 c1 where q: "m (s, c) = (q, (s1, c1))" by (metis surj_pair)
  then have c1: "c1 = c" using assms(1) unfolding no_access_def by (metis snd_conv)
  show "quiescent c' \<and> moved D t (stored c')"
  proof (cases q)
    case (Inl e)
    with a q c1 have "c' = c" by (simp add: andThen_def)
    with a show ?thesis by auto
  next
    case (Inr x)
    with a q c1 have "f x (s1, c) = (r, (s', c'))" by (simp add: andThen_def)
    with a assms(2) show ?thesis unfolding moves_from_def by blast
  qed
qed

lemma moves_then:
  assumes "moves_from t D m" and "\<And>x. conserving_run (f x) {}"
  shows "moves_from t D (andThen m f)"
  unfolding moves_from_def
proof (intro allI impI)
  fix s c r s' c'
  assume a: "quiescent c \<and> stored c = t \<and> tables_ok t \<and> andThen m f (s, c) = (r, (s', c'))"
  obtain q s1 c1 where q: "m (s, c) = (q, (s1, c1))" by (metis surj_pair)
  with a assms(1) have first: "quiescent c1" "moved D t (stored c1)" unfolding moves_from_def by blast+
  show "quiescent c' \<and> moved D t (stored c')"
  proof (cases q)
    case (Inl e)
    with a q first show ?thesis by (simp add: andThen_def)
  next
    case (Inr x)
    with a q have "f x (s1, c1) = (r, (s', c'))" by (simp add: andThen_def)
    with assms(2) first have "quiescent c' \<and> moved {} (stored c1) (stored c')"
      unfolding conserving_run_def by (blast intro: moved_ok)
    with first moved_trans moved_mono show ?thesis by blast
  qed
qed

lemma moves_from_if: "moves_from t D m \<Longrightarrow> moves_from t D n \<Longrightarrow> moves_from t D (if b then m else n)"
  by simp

lemma moves_from_idle: "no_access m \<Longrightarrow> moves_from t D m"
  unfolding moves_from_def no_access_def by (metis moved_refl snd_conv)

lemma moves_from_delivery:
  "moves_from (stored c) (delivered_by api env device (batch_rows now c)) (on_db (attendance_step api env device now))"
  unfolding moves_from_def
proof (intro allI impI)
  fix s d r s' d'
  assume a: "quiescent d \<and> stored d = stored c \<and> tables_ok (stored c) \<and> on_db (attendance_step api env device now) (s, d) = (r, (s', d'))"
  then have "attendance_step api env device now d = (r, d')" by (auto simp: on_db_run)
  from attendance_step_moved [OF _ _ this] a
  show "quiescent d' \<and> moved (delivered_by api env device (batch_rows now c)) (stored c) (stored d')"
    by (simp add: batch_rows_def)
qed

text \<open>A turn of the worker delivers only events that the server accepted from the batch it was sent.\<close>

lemma worker_turn_moved:
  assumes "quiescent c" and "tables_ok (stored c)"
    and "worker_turn api base64 device hash credential env elapsed genv now (sv, c) = (status, (sv', c'))"
  shows "quiescent c' \<and> moved (delivered_by api env device (batch_rows now c)) (stored c) (stored c')"
proof -
  let ?D = "delivered_by api env device (batch_rows now c)"
  let ?run = "andThen (lift_result credential) (\<lambda>token. andThen (service_set_token token) (\<lambda>_.
     service_step api base64 device hash env elapsed genv now))"
  obtain r where r: "?run (sv, c) = (r, (sv', c'))"
    using assms(3) by (auto simp: worker_turn_def split: prod.splits sum.splits)
  have token: "no_access (service_set_token token)" for token
    unfolding service_set_token_def by (auto intro!: no_access_bind no_access_basic no_access_if split: prod.split)
  have tail: "conserving_run (if delivered = AuthenticationBlocked then on_service (\<lambda>s. s\<lparr>svc_blocked := True\<rparr>)
           else andThen (on_gallery (gallery_step api base64 hash genv (now + elapsed))) (\<lambda>polled.
             if polled = AuthenticationBlocked then on_service (\<lambda>s. s\<lparr>svc_blocked := True\<rparr>) else ret ())) {}" for delivered
    by (intro conserving_rules conserving_gallery_step)
  have "moves_from (stored c) ?D (service_step api base64 device hash env elapsed genv now)"
    unfolding service_step_def
    by (rule moves_after [OF no_access_basic(4)], rule moves_after [OF no_access_basic(3)])
      (auto intro!: moves_from_if moves_from_idle no_access_basic moves_after [OF no_access_basic(4)]
        moves_then [OF moves_from_delivery] tail split: prod.split)
  then have "moves_from (stored c) ?D ?run"
    by (intro moves_after no_access_basic token)
  with assms(1,2) r show ?thesis unfolding moves_from_def by blast
qed

text \<open>
  Everything the owner thread and the worker threads do with coordinator, service and database, in any
  order: \<open>S\<close> collects the records that were ever staged, \<open>A\<close> the ids the server acknowledged.
\<close>

inductive client_run :: "coordinator \<Rightarrow> service \<Rightarrow> connection \<Rightarrow> attendance_record set \<Rightarrow> string set \<Rightarrow> bool" where
  opened: "co_pending co = [] \<Longrightarrow> quiescent c \<Longrightarrow> tables_ok (stored c) \<Longrightarrow> client_run co sv c {} {}"
| staged: "client_run co sv c S A \<Longrightarrow> stage_events api rng events co = (x, co') \<Longrightarrow>
    client_run co' sv c (S \<union> set (co_pending co')) A"
| committed: "client_run co sv c S A \<Longrightarrow> commit_next (co, c) = (x, (co', c')) \<Longrightarrow> client_run co' sv c' S A"
| refreshed: "client_run co sv c S A \<Longrightarrow> refresh_gallery runtime_set_gallery ((co, rt), c) = (x, ((co', rt'), c')) \<Longrightarrow>
    client_run co' sv c' S A"
| worked: "client_run co sv c S A \<Longrightarrow>
    worker_turn api base64 device hash credential env elapsed genv now (sv, c) = (status, (sv', c')) \<Longrightarrow>
    client_run co sv' c' S (A \<union> delivered_by api env device (batch_rows now c))"
| requested: "client_run co sv c S A \<Longrightarrow> client_run co (request_gallery_refresh b sv) c S A"
| taken: "client_run co sv c S A \<Longrightarrow> client_run co (sv\<lparr>svc_gallery := snd (take_dirty (svc_gallery sv))\<rparr>) c S A"
| reported: "client_run co sv c S A \<Longrightarrow> channel_turn hash token credential sent st now (l, c) = (y, (l', c')) \<Longrightarrow>
    client_run co sv c' S A"

definition safe_event :: "coordinator \<Rightarrow> connection \<Rightarrow> string set \<Rightarrow> attendance_record \<Rightarrow> bool" where
  "safe_event co c A r \<longleftrightarrow> r \<in> set (co_pending co) \<or> pending (stored c) (record_id r) = Some (payload r) \<or>
     retained (stored c) (record_id r) = Some (payload r) \<or> record_id r \<in> A"

lemma safe_moved:
  assumes "safe_event co c A r" and "moved D (stored c) (stored c')" and "tables_ok (stored c)"
  shows "safe_event co c' (A \<union> D) r"
  using assms moved_event [OF assms(2)] moved_retained [OF assms(2,3)] unfolding safe_event_def by blast

text \<open>Reading the gallery leaves the database alone.\<close>

lemma query_stored: "query f c = (x, c') \<Longrightarrow> quiescent c \<Longrightarrow> stored c' = stored c \<and> quiescent c'"
  by (auto simp: query_def statement_def consume_def quiescent_def split: outcome.splits)

lemma load_gallery_stored:
  assumes "load_gallery c = (x, c')" and "quiescent c"
  shows "stored c' = stored c \<and> quiescent c'"
proof -
  obtain q c1 where q: "query gallery_state c = (q, c1)" by (cases "query gallery_state c")
  note first = query_stored [OF q assms(2)]
  obtain q2 c2 where q2: "query (\<lambda>t. sort_key tmpl_id (gallery_templates t)) c1 = (q2, c2)"
    by (cases "query (\<lambda>t. sort_key tmpl_id (gallery_templates t)) c1")
  have second: "stored c2 = stored c1 \<and> quiescent c2" using query_stored [OF q2] first by blast
  have "c' = c1 \<or> c' = c2"
    using assms(1) q q2
    by (auto simp: load_gallery_def andThen_def ret_def throw_def split: sum.splits option.splits prod.splits if_splits)
  then show ?thesis using first second by auto
qed

lemma refresh_effect:
  assumes "refresh_gallery install ((co, rt), c) = (x, ((co', rt'), c'))" and "quiescent c"
  shows "co_pending co' = co_pending co" "quiescent c'" "stored c' = stored c"
proof -
  obtain q c1 where q: "load_gallery c = (q, c1)" by (cases "load_gallery c")
  note load = load_gallery_stored [OF q assms(2)]
  have "co_pending co' = co_pending co \<and> (c' = c \<or> c' = c1)"
    using assms(1) q
    by (auto simp: refresh_gallery_def andThen_def get_state_def throw_def on_db_def on_member_def modify_def
        split: sum.splits prod.splits if_splits)
  then show "co_pending co' = co_pending co" "quiescent c'" "stored c' = stored c" using load assms(2) by auto
qed

lemma client_run_ok:
  "client_run co sv c S A \<Longrightarrow> quiescent c \<and> tables_ok (stored c) \<and> set (co_pending co) \<subseteq> S \<and> (\<forall>r \<in> S. safe_event co c A r)"
proof (induction rule: client_run.induct)
  case (staged co sv c S A api rng events x co')
  then have "co' = co \<or> co_pending co = []" by (auto simp: stage_events_def run_simps split: if_splits prod.splits sum.splits)
  then show ?case using staged.IH by (auto simp: safe_event_def)
next
  case (committed co sv c S A x co' c')
  from committed.hyps(2) show ?case
  proof (cases rule: commit_next_cases)
    case (2 r rs e)
    note e = ensure_effect [OF _ _ 2(2)]
    show ?thesis using committed.IH 2 e by (auto simp: safe_event_def)
  next
    case (3 r rs)
    note e = ensure_effect [OF _ _ 3(2)]
    have "durable (stored c') (record_id r) = Some (payload r)" using e(6) committed.IH by simp
    then have "pending (stored c') (record_id r) = Some (payload r) \<or> retained (stored c') (record_id r) = Some (payload r)"
      by (auto simp: durable_def split: option.splits)
    then show ?thesis using committed.IH 3 e(1-4) by (auto simp: safe_event_def)
  qed (use committed.IH in simp)
next
  case (refreshed co sv c S A rt x co' rt' c')
  then show ?case using refresh_effect [OF refreshed.hyps(2)] by (simp add: safe_event_def)
next
  case (worked co sv c S A api base64 device hash credential env elapsed genv now status sv' c')
  then show ?case using worker_turn_moved [OF _ _ worked.hyps(2)] safe_moved moved_ok by blast
next
  case (reported co sv c S A hash token credential sent st now l y l' c')
  have "conserving_run (channel_turn hash token credential sent st now) {}" by (rule conserving_channel_turn)
  with reported have "quiescent c' \<and> moved {} (stored c) (stored c')" unfolding conserving_run_def by blast
  then show ?case using reported.IH safe_moved [of co c A _ "{}" c'] moved_ok by auto
qed simp_all


definition sample_event :: attendance_event where
  "sample_event = \<lparr>event_utc_ms = 1709210096007, event_frame = 12, event_track = 3, event_identity = ''staff-7'',
     event_similarity = Sgl (Fin (1 / 2)), event_margin = Sgl (Fin (1 / 4)), event_pad_median = Sgl (Fin (3 / 4)), event_pad_margin = 0\<rparr>"


end
