(* ===== verification/ModelHash.thy ===== *)
theory ModelHash
  imports Domain
begin

text \<open>
  \<^verbatim>\<open>src/edge_app/security/model_hash.cpp\<close>: the SHA-256 of a file, read in blocks of 64 KiB and written
  in lower-case hexadecimal. The hash functions of CNG are a parameter; a file is what its stream
  delivers, and whether the stream then stands at its end or has failed.
\<close>

section \<open>The digest of a file\<close>

record 'h hash_api =
  hash_create :: "'h result"
  hash_data :: "'h \<Rightarrow> string \<Rightarrow> 'h result"
  hash_finish :: "'h \<Rightarrow> u8 list result"

type_synonym file_stream = "string \<Rightarrow> (string \<times> bool) option"

fun blocks :: "string \<Rightarrow> string list" where
  "blocks s = (if s = [] then [] else take 65536 s # blocks (drop 65536 s))"

declare blocks.simps [simp del]

fun hash_blocks :: "'h hash_api \<Rightarrow> 'h \<Rightarrow> string list \<Rightarrow> 'h result" where
  "hash_blocks api h [] = Inr h"
| "hash_blocks api h (b # bs) = bind_result (hash_data api h b) (\<lambda>h. hash_blocks api h bs)"

definition hex_digits :: "char list" where
  "hex_digits = ''0123456789abcdef''"

definition hex_text :: "u8 list \<Rightarrow> string" where
  "hex_text d = concat (map (\<lambda>b. [hex_digits ! (unat b div 16), hex_digits ! (unat b mod 16)]) d)"

definition sha256_file :: "'h hash_api \<Rightarrow> file_stream \<Rightarrow> string \<Rightarrow> string result" where
  "sha256_file api stream path =
     bind_result (hash_create api) (\<lambda>h.
     case stream path of
       None \<Rightarrow> Inl (RuntimeError ''Cannot read model for hash'')
     | Some (bytes, clean) \<Rightarrow>
         bind_result (hash_blocks api h (blocks bytes)) (\<lambda>h.
         if \<not> clean then Inl (RuntimeError ''Model read failure'')
         else bind_result (hash_finish api h) (\<lambda>d. Inr (hex_text d))))"

section \<open>Laws\<close>

lemma concat_blocks: "concat (blocks s) = s"
proof (induction s rule: blocks.induct)
  case (1 s)
  show ?case
  proof (cases "s = []")
    case False
    then have "concat (blocks s) = take 65536 s @ concat (blocks (drop 65536 s))"
      by (subst blocks.simps) simp
    with 1 [OF False] show ?thesis by simp
  qed (simp add: blocks.simps)
qed

text \<open>The block size does not matter to a hash that can be fed in pieces.\<close>

lemma hash_blocks_concat:
  assumes "\<And>h. hash_data api h [] = Inr h"
    and "\<And>h a b. bind_result (hash_data api h a) (\<lambda>h. hash_data api h b) = hash_data api h (a @ b)"
  shows "hash_blocks api h bs = hash_data api h (concat bs)"
proof (induction bs arbitrary: h)
  case Nil
  show ?case by (simp add: assms(1))
next
  case (Cons b bs)
  show ?case by (simp add: assms(2) [symmetric] Cons.IH)
qed

lemma hex_digit_in: "n < 16 \<Longrightarrow> hex_digits ! n \<in> set hex_digits"
  by (rule nth_mem) (simp add: hex_digits_def)

lemma byte_halves: "unat (b :: u8) div 16 < 16" "unat (b :: u8) mod 16 < 16"
proof -
  have "unat b < 2 ^ 8" using unsigned_less [of b] by simp
  then show "unat b div 16 < 16" "unat b mod 16 < 16" by (simp_all add: less_mult_imp_div_less)
qed

lemma hex_text_form: "length (hex_text d) = 2 * length d" "only_from hex_digits (hex_text d)"
  by (induction d) (auto simp: hex_text_def only_from_iff hex_digit_in byte_halves)

lemma hex_digits_inject: "i < 16 \<Longrightarrow> j < 16 \<Longrightarrow> hex_digits ! i = hex_digits ! j \<Longrightarrow> i = j"
  by (rule nth_eq_iff_index_eq [THEN iffD1]) (auto simp: hex_digits_def)

lemma hex_text_inject: "hex_text a = hex_text b \<Longrightarrow> a = b"
proof (induction a arbitrary: b)
  case Nil
  then show ?case by (cases b) (simp_all add: hex_text_def)
next
  case (Cons x a)
  then obtain y c where b: "b = y # c" by (cases b) (simp_all add: hex_text_def)
  with Cons.prems have "unat x div 16 = unat y div 16" "unat x mod 16 = unat y mod 16" "hex_text a = hex_text c"
    by (auto simp: hex_text_def intro!: hex_digits_inject byte_halves)
  then have "unat x = unat y" by (metis div_mult_mod_eq)
  then have "x = y" by (rule unsigned_word_eqI)
  with b Cons.IH \<open>hex_text a = hex_text c\<close> show ?case by simp
qed

lemma sha256_file_cases:
  assumes "sha256_file api stream p = Inr s"
  obtains bytes d where "stream p = Some (bytes, True)" "s = hex_text d"
  using assms by (auto simp: sha256_file_def split: option.splits if_splits)

end
