(* ===== verification/AppConfig.thy ===== *)
theory AppConfig
  imports Runtime ModelHash Wire
begin

text \<open>
  \<^verbatim>\<open>src/edge_app/app/application_config.cpp\<close>: reading the configuration, and the checks that tie a
  deployment to its calibration report and to the recognition model. Files are a \<open>file_world\<close>; the path
  grammar of \<open>std::filesystem\<close> on Windows enters as \<open>resolve\<close> (a name relative to the directory of
  the configuration) and \<open>same_name\<close> (normalised names compared without case).
\<close>

section \<open>Documents\<close>

record file_world =
  file_stream_of :: file_stream
  file_size_of :: "string \<Rightarrow> nat result"
  regular_file :: "string \<Rightarrow> bool"

record path_rules =
  resolve :: "string \<Rightarrow> string \<Rightarrow> string"
  same_name :: "string \<Rightarrow> string \<Rightarrow> bool"

definition read_document :: "file_world \<Rightarrow> string \<Rightarrow> string result" where
  "read_document w path =
     (case file_stream_of w path of
        None \<Rightarrow> Inl (RuntimeError ''Cannot read input file'')
      | Some (bytes, _) \<Rightarrow>
          bind_result (file_size_of w path) (\<lambda>n.
            if n > 32 * 1024 * 1024 then Inl (RuntimeError ''Input exceeds 32 MiB'') else Inr bytes))"

section \<open>Configuration\<close>

record application_config =
  cfg_device :: string
  cfg_base_url :: string
  cfg_database :: string
  cfg_credential :: string
  cfg_vision :: vision_config
  cfg_loopback :: bool
  cfg_deployment :: bool
  cfg_report :: string
  cfg_report_sha256 :: string
  cfg_model_sha256 :: string

definition default_bytetrack_config :: bytetrack_config where
  "default_bytetrack_config = \<lparr>track_threshold = single_lit (50 / 100), low_threshold = single_lit (10 / 100),
     new_track_threshold = single_lit (60 / 100), match_threshold = single_lit (80 / 100),
     second_match_threshold = single_lit (50 / 100), unconfirmed_match_threshold = single_lit (70 / 100),
     track_buffer = 30, frame_rate = 30, mot20 = False\<rparr>"

fun is_string :: "json option \<Rightarrow> bool" where
  "is_string (Some (JString _)) = True"
| "is_string _ = False"

fun is_number :: "json option \<Rightarrow> bool" where
  "is_number (Some (JNumber _)) = True"
| "is_number _ = False"

fun is_boolean :: "json option \<Rightarrow> bool" where
  "is_boolean (Some (JBool _)) = True"
| "is_boolean _ = False"

text \<open>The members whose type is checked before anything is read, and what a deployment must give.\<close>

definition check_types :: "json_object \<Rightarrow> unit result" where
  "check_types json =
     (if list_ex (\<lambda>k. has_key json k \<and> \<not> is_string (map_of json k)) [''mode'', ''calibration_id'']
      then Inl (InvalidArgument ''mode and calibration_id must be JSON strings'')
      else if list_ex (\<lambda>k. has_key json k \<and> \<not> is_boolean (map_of json k)) [''allow_uncalibrated_thresholds'', ''allow_loopback_http'']
      then Inl (InvalidArgument ''Configuration flags must be JSON booleans, not strings or numbers'')
      else Inr ())"

definition check_deployment :: "json_object \<Rightarrow> unit result" where
  "check_deployment json =
     bind_result (get_named_boolean_or json ''allow_uncalibrated_thresholds'' False) (\<lambda>uncalibrated.
     bind_result (if uncalibrated then Inr True else get_named_boolean_or json ''allow_loopback_http'' False) (\<lambda>forbidden.
       if forbidden then Inl (InvalidArgument ''Deployment forbids uncalibrated thresholds and plain loopback HTTP'')
       else if list_ex (\<lambda>k. \<not> is_number (map_of json k)) [''recognition_threshold'', ''recognition_min_margin'']
       then Inl (InvalidArgument ''Deployment requires calibrated numeric recognition_threshold and recognition_min_margin'')
       else Inr ()))"

definition deployment_mode :: "json_object \<Rightarrow> bool result" where
  "deployment_mode json =
     bind_result (get_named_string_or json ''mode'' ''development'') (\<lambda>mode.
       if mode \<noteq> ''development'' \<and> mode \<noteq> ''deployment''
       then Inl (InvalidArgument ''mode must be development or deployment'')
       else Inr (mode = ''deployment''))"

text \<open>The vision part, in the order the members are read.\<close>

definition load_vision :: "(string \<Rightarrow> string) \<Rightarrow> json_object \<Rightarrow> vision_config result" where
  "load_vision path json =
     bind_result (get_named_string json ''scrfd_model'') (\<lambda>scrfd.
     bind_result (get_named_string json ''arcface_model'') (\<lambda>arcface.
     bind_result (get_named_string json ''pad_model'') (\<lambda>pad.
     bind_result (get_named_number json ''recognition_threshold'') (\<lambda>threshold.
     bind_result (get_named_number_or json ''recognition_min_margin'' 0) (\<lambda>margin.
     bind_result (get_named_string_or json ''calibration_id'' []) (\<lambda>calibration.
     bind_result (get_named_boolean_or json ''allow_uncalibrated_thresholds'' False) (\<lambda>uncalibrated.
       let bio = default_biometric_config\<lparr>recognition_similarity_threshold := to_single threshold,
                   recognition_min_margin := to_single margin, calibration_id := calibration,
                   allow_uncalibrated_thresholds := uncalibrated\<rparr>
       in bind_result (validate_attendance_config bio) (\<lambda>_.
            Inr \<lparr>vc_tracking = \<lparr>tc_camera = default_camera_config,
                    tc_scrfd = default_scrfd_config\<lparr>scrfd_path := path scrfd, score_threshold := single_lit (1 / 10)\<rparr>,
                    tc_bytetrack = default_bytetrack_config\<rparr>,
                  vc_pad = \<lparr>config_path = path pad, config_width = 80, config_height = 80\<rparr>,
                  vc_arcface = \<lparr>config_path = path arcface, config_width = 112, config_height = 112\<rparr>,
                  vc_bio = bio\<rparr>))))))))"

definition load_evidence :: "(string \<Rightarrow> string) \<Rightarrow> json_object \<Rightarrow> application_config \<Rightarrow> application_config result" where
  "load_evidence path json c =
     (if list_ex (\<lambda>k. \<not> is_string (map_of json k) \<or> get_named_string json k = Inr [])
           [''calibration_report'', ''calibration_report_sha256'', ''calibration_model_sha256'']
      then Inl (InvalidArgument ''Deployment requires a calibration report, report SHA-256 and calibrated model SHA-256'')
      else bind_result (get_named_string json ''calibration_report'') (\<lambda>report.
           bind_result (get_named_string json ''calibration_report_sha256'') (\<lambda>report_sha.
           bind_result (get_named_string json ''calibration_model_sha256'') (\<lambda>model_sha.
             Inr (c\<lparr>cfg_report := path report, cfg_report_sha256 := report_sha, cfg_model_sha256 := model_sha\<rparr>)))))"

definition config_of :: "path_rules \<Rightarrow> string \<Rightarrow> json_object \<Rightarrow> application_config result" where
  "config_of rules file json =
     bind_result (get_named_number json ''schema_version'') (\<lambda>schema.
     bind_result (require (schema = 1) (InvalidArgument ''Unsupported config schema'')) (\<lambda>_.
     bind_result (check_types json) (\<lambda>_.
     bind_result (deployment_mode json) (\<lambda>deployment.
     bind_result (if deployment then check_deployment json else Inr ()) (\<lambda>_.
     bind_result (get_named_string json ''device_id'') (\<lambda>device.
     bind_result (get_named_string json ''base_url'') (\<lambda>url.
     bind_result (require (\<not> (device = [] \<or> length device > 256 \<or> contains_any line_breaks_and_nul device))
                          (InvalidArgument ''Invalid device ID'')) (\<lambda>_.
     bind_result (load_vision (resolve rules file) json) (\<lambda>vision.
     bind_result (get_named_string json ''database'') (\<lambda>database.
     bind_result (get_named_string json ''credential_file'') (\<lambda>credential.
       let db = resolve rules file database; cred = resolve rules file credential
       in if same_name rules db cred then Inl (InvalidArgument ''Database and credential must use different files'')
          else bind_result (get_named_boolean_or json ''allow_loopback_http'' False) (\<lambda>loopback.
            let c = \<lparr>cfg_device = device, cfg_base_url = url, cfg_database = db, cfg_credential = cred, cfg_vision = vision,
                     cfg_loopback = loopback, cfg_deployment = deployment, cfg_report = [], cfg_report_sha256 = [],
                     cfg_model_sha256 = []\<rparr>
            in if deployment then load_evidence (resolve rules file) json c else Inr c))))))))))))"

definition load_config :: "json_api \<Rightarrow> path_rules \<Rightarrow> file_world \<Rightarrow> string \<Rightarrow> application_config result" where
  "load_config api rules w file =
     bind_result (read_document w file) (\<lambda>text.
     bind_result (parse_object api text) (\<lambda>json. config_of rules file json))"

section \<open>Evidence\<close>

definition digest_form :: "string \<Rightarrow> bool" where
  "digest_form s \<longleftrightarrow> length s = 64 \<and> only_from hex_digits s"

definition verify_deployment_evidence :: "'h hash_api \<Rightarrow> file_world \<Rightarrow> application_config \<Rightarrow> string \<Rightarrow> unit result" where
  "verify_deployment_evidence h w c model_hash =
     (if \<not> cfg_deployment c then Inr ()
      else if allow_uncalibrated_thresholds (vc_bio (cfg_vision c)) \<or> cfg_loopback c \<or> calibration_id (vc_bio (cfg_vision c)) = []
      then Inl (InvalidArgument ''Invalid deployment configuration'')
      else if \<not> digest_form (cfg_report_sha256 c) \<or> \<not> digest_form (cfg_model_sha256 c) \<or> cfg_model_sha256 c \<noteq> model_hash
      then Inl (InvalidArgument ''Calibration evidence requires valid hashes matching the active ArcFace model'')
      else if \<not> regular_file w (cfg_report c)
      then Inl (InvalidArgument ''Calibration report is missing or empty'')
      else bind_result (file_size_of w (cfg_report c)) (\<lambda>n.
        if n = 0 then Inl (InvalidArgument ''Calibration report is missing or empty'')
        else bind_result (sha256_file h (file_stream_of w) (cfg_report c)) (\<lambda>d.
          if d \<noteq> cfg_report_sha256 c then Inl (InvalidArgument ''Calibration report SHA-256 mismatch'')
          else Inr ())))"

definition pad_model_sha256 :: string where
  "pad_model_sha256 = ''87a9ac1dbb16a61eec212957e5095e62a8769c1e188af9b0198f253302c4afdb''"

definition verify_model_files :: "'h hash_api \<Rightarrow> file_world \<Rightarrow> application_config \<Rightarrow> string result" where
  "verify_model_files h w c =
     (let v = cfg_vision c
      in bind_result (validate_attendance_config (vc_bio v)) (\<lambda>_.
         bind_result (require (list_all (regular_file w)
             [scrfd_path (tc_scrfd (vc_tracking v)), config_path (vc_arcface v), config_path (vc_pad v)])
             (RuntimeError ''Configured model does not exist'')) (\<lambda>_.
         bind_result (sha256_file h (file_stream_of w) (config_path (vc_arcface v))) (\<lambda>hash.
         bind_result (sha256_file h (file_stream_of w) (config_path (vc_pad v))) (\<lambda>pad.
           if pad \<noteq> pad_model_sha256
           then Inl (RuntimeError ''PAD model does not match the selected preprocessing/model contract'')
           else bind_result (verify_deployment_evidence h w c hash) (\<lambda>_. Inr hash))))))"

section \<open>Calibrated deployments\<close>

lemma load_vision_read:
  assumes "load_vision path json = Inr v" and "map_of json ''recognition_min_margin'' = Some (JNumber margin)"
  obtains threshold where "map_of json ''recognition_threshold'' = Some (JNumber threshold)"
    "recognition_similarity_threshold (vc_bio v) = to_single threshold"
    "recognition_min_margin (vc_bio v) = to_single margin"
    "get_named_boolean_or json ''allow_uncalibrated_thresholds'' False = Inr (allow_uncalibrated_thresholds (vc_bio v))"
    "validate_attendance_config (vc_bio v) = Inr ()"
  using assms
  by (auto simp: load_vision_def Let_def get_named_number_def get_named_number_or_def has_key_def
      split: option.splits json.splits)

lemma config_of_deployment:
  assumes "config_of rules file json = Inr c" and "cfg_deployment c"
  shows "check_deployment json = Inr ()" and "load_vision (resolve rules file) json = Inr (cfg_vision c)"
    and "get_named_boolean_or json ''allow_loopback_http'' False = Inr (cfg_loopback c)"
    and "\<not> same_name rules (cfg_database c) (cfg_credential c)"
  using assms by (auto simp: config_of_def Let_def load_evidence_def split: if_splits)

lemma check_deployment_numbers:
  assumes "check_deployment json = Inr ()"
  obtains x y where "map_of json ''recognition_threshold'' = Some (JNumber x)" "map_of json ''recognition_min_margin'' = Some (JNumber y)"
    "get_named_boolean_or json ''allow_uncalibrated_thresholds'' False = Inr False"
    "get_named_boolean_or json ''allow_loopback_http'' False = Inr False"
proof -
  have number: "\<exists>x. v = Some (JNumber x)" if "is_number v" for v using that by (cases v rule: is_number.cases) simp_all
  from assms have "is_number (map_of json ''recognition_threshold'')" "is_number (map_of json ''recognition_min_margin'')"
    "get_named_boolean_or json ''allow_uncalibrated_thresholds'' False = Inr False"
    "get_named_boolean_or json ''allow_loopback_http'' False = Inr False"
    by (auto simp: check_deployment_def split: if_splits)
  with number show thesis using that by metis
qed

lemma verified_models:
  assumes "verify_model_files h w c = Inr hash"
  shows "sha256_file h (file_stream_of w) (config_path (vc_arcface (cfg_vision c))) = Inr hash"
    and "sha256_file h (file_stream_of w) (config_path (vc_pad (cfg_vision c))) = Inr pad_model_sha256"
    and "verify_deployment_evidence h w c hash = Inr ()"
  using assms by (auto simp: verify_model_files_def Let_def split: if_splits)

text \<open>
  C33: a configuration that was loaded as a deployment and whose model files were verified runs on the
  calibrated numbers: both thresholds are the ones written in the file, the recognition threshold is
  in its range, no uncalibrated override and no plain HTTP is enabled, the recognition model in
  use has the digest the calibration names, and the report on disk has the digest that was declared.
\<close>

theorem deployment_is_calibrated:
  assumes "load_config api rules w file = Inr c" and "verify_model_files h w2 c = Inr hash" and "cfg_deployment c"
  shows "\<exists>doc json x y. read_document w file = Inr doc \<and> json_parse api doc = Some json \<and>
      map_of json ''recognition_threshold'' = Some (JNumber x) \<and>
      map_of json ''recognition_min_margin'' = Some (JNumber y) \<and>
      recognition_similarity_threshold (vc_bio (cfg_vision c)) = to_single x \<and> - 1 < to_single x \<and> to_single x \<le> 1 \<and>
      recognition_min_margin (vc_bio (cfg_vision c)) = to_single y \<and>
      \<not> allow_uncalibrated_thresholds (vc_bio (cfg_vision c)) \<and> \<not> cfg_loopback c \<and>
      calibration_id (vc_bio (cfg_vision c)) \<noteq> [] \<and>
      cfg_model_sha256 c = hash \<and>
      sha256_file h (file_stream_of w2) (config_path (vc_arcface (cfg_vision c))) = Inr hash \<and>
      sha256_file h (file_stream_of w2) (cfg_report c) = Inr (cfg_report_sha256 c) \<and>
      \<not> same_name rules (cfg_database c) (cfg_credential c)"
proof -
  obtain doc json where json: "read_document w file = Inr doc" "json_parse api doc = Some json"
    "config_of rules file json = Inr c"
    using assms(1) by (auto simp: load_config_def parse_object_def split: option.splits)
  note d = config_of_deployment [OF json(3) assms(3)]
  obtain x y where n: "map_of json ''recognition_threshold'' = Some (JNumber x)" "map_of json ''recognition_min_margin'' = Some (JNumber y)"
    "get_named_boolean_or json ''allow_uncalibrated_thresholds'' False = Inr False"
    "get_named_boolean_or json ''allow_loopback_http'' False = Inr False"
    using check_deployment_numbers [OF d(1)] by blast
  obtain t where v: "map_of json ''recognition_threshold'' = Some (JNumber t)"
    "recognition_similarity_threshold (vc_bio (cfg_vision c)) = to_single t"
    "recognition_min_margin (vc_bio (cfg_vision c)) = to_single y"
    "get_named_boolean_or json ''allow_uncalibrated_thresholds'' False = Inr (allow_uncalibrated_thresholds (vc_bio (cfg_vision c)))"
    "validate_attendance_config (vc_bio (cfg_vision c)) = Inr ()"
    using load_vision_read [OF d(2) n(2)] by blast
  have "sfinite (to_single t)" "\<not> to_single t \<le> - 1" "\<not> to_single t > 1"
    using v(2,5) by (auto simp: validate_attendance_config_def split: if_splits)
  then have range: "- 1 < to_single t" "to_single t \<le> 1" by (cases "sval (to_single t)"; auto simp: float_simps fl_not_le fl_not_less)+
  have evidence: "calibration_id (vc_bio (cfg_vision c)) \<noteq> []" "cfg_model_sha256 c = hash"
    "sha256_file h (file_stream_of w2) (cfg_report c) = Inr (cfg_report_sha256 c)"
    using verified_models(3) [OF assms(2)] assms(3) by (auto simp: verify_deployment_evidence_def split: if_splits)
  show ?thesis
    using json(1,2) n d(3,4) v range evidence verified_models(1) [OF assms(2)]
    by (intro exI [of _ doc] exI [of _ json] exI [of _ x] exI [of _ y]) auto
qed

section \<open>A calibrated deployment\<close>

definition pad_digest :: "u8 list" where
  "pad_digest = [135, 169, 172, 29, 187, 22, 166, 30, 236, 33, 41, 87, 229, 9, 94, 98, 168, 118, 156, 30, 24, 138, 249, 176, 25, 143, 37, 51, 2, 196, 175, 219]"

definition append_hash :: "string hash_api" where
  "append_hash = \<lparr>hash_create = Inr [], hash_data = (\<lambda>h b. Inr (h @ b)),
     hash_finish = (\<lambda>h. Inr (if h = ''pad model'' then pad_digest else replicate 32 0))\<rparr>"

definition deployed_json :: json_object where
  "deployed_json = [(''schema_version'', JNumber 1), (''mode'', JString ''deployment''), (''device_id'', JString ''d1''),
     (''base_url'', JString ''https://server''), (''scrfd_model'', JString ''s''), (''arcface_model'', JString ''a''),
     (''pad_model'', JString ''p''), (''recognition_threshold'', JNumber (Dbl (Fin (1 / 2)))),
     (''recognition_min_margin'', JNumber 0), (''calibration_id'', JString ''c1''), (''database'', JString ''db''),
     (''credential_file'', JString ''cred''), (''calibration_report'', JString ''r''),
     (''calibration_report_sha256'', JString (replicate 64 (CHR ''0''))),
     (''calibration_model_sha256'', JString (replicate 64 (CHR ''0'')))]"

definition deployed_world :: file_world where
  "deployed_world = \<lparr>file_stream_of = (\<lambda>p. Some (if p = ''p'' then ''pad model'' else ''x'', True)),
     file_size_of = (\<lambda>_. Inr 1), regular_file = (\<lambda>_. True)\<rparr>"

definition plain_paths :: path_rules where
  "plain_paths = \<lparr>resolve = (\<lambda>_ name. name), same_name = (\<lambda>a b. a = b)\<rparr>"

definition constant_api :: json_api where
  "constant_api = \<lparr>json_parse = (\<lambda>_. Some deployed_json), json_stringify = (\<lambda>_. [])\<rparr>"

theorem deployment_is_calibrated_witness:
  "\<exists>c. load_config constant_api plain_paths deployed_world ''config'' = Inr c \<and>
     recognition_similarity_threshold (vc_bio (cfg_vision c)) = to_single (Dbl (Fin (1 / 2))) \<and>
     cfg_model_sha256 c = replicate 64 (CHR ''0'') \<and> \<not> cfg_loopback c"
proof -
  have document: "read_document deployed_world ''config'' = Inr ''x''" by (simp add: read_document_def deployed_world_def)
  have j: "json_parse constant_api t = Some deployed_json" for t by (simp add: constant_api_def)
  have load: "load_config constant_api plain_paths deployed_world ''config'' = config_of plain_paths ''config'' deployed_json"
    using document j by (simp add: load_config_def parse_object_def)
  have "is_ok (config_of plain_paths ''config'' deployed_json)" by code_simp
  then obtain c where c: "config_of plain_paths ''config'' deployed_json = Inr c" by (auto simp: is_ok_iff)
  have "(case config_of plain_paths ''config'' deployed_json of Inl _ \<Rightarrow> False | Inr c \<Rightarrow> cfg_deployment c \<and>
      \<not> allow_uncalibrated_thresholds (vc_bio (cfg_vision c)) \<and> \<not> cfg_loopback c \<and> calibration_id (vc_bio (cfg_vision c)) = ''c1'' \<and>
      cfg_report c = ''r'' \<and> cfg_report_sha256 c = replicate 64 (CHR ''0'') \<and> cfg_model_sha256 c = replicate 64 (CHR ''0'') \<and>
      config_path (vc_arcface (cfg_vision c)) = ''a'' \<and> config_path (vc_pad (cfg_vision c)) = ''p'' \<and>
      validate_attendance_config (vc_bio (cfg_vision c)) = Inr ())"
    by code_simp
  with c have v: "cfg_deployment c" "\<not> allow_uncalibrated_thresholds (vc_bio (cfg_vision c))" "\<not> cfg_loopback c"
    "calibration_id (vc_bio (cfg_vision c)) = ''c1''" "cfg_report c = ''r''" "cfg_report_sha256 c = replicate 64 (CHR ''0'')"
    "cfg_model_sha256 c = replicate 64 (CHR ''0'')" "config_path (vc_arcface (cfg_vision c)) = ''a''"
    "config_path (vc_pad (cfg_vision c)) = ''p''" "validate_attendance_config (vc_bio (cfg_vision c)) = Inr ()"
    by simp_all
  have pad: "hex_text pad_digest = pad_model_sha256" "hex_text (replicate 32 0) = replicate 64 (CHR ''0'')"
    "digest_form (replicate 64 (CHR ''0''))" by code_simp+
  have sha: "sha256_file append_hash (file_stream_of deployed_world) p =
      Inr (if p = ''p'' then pad_model_sha256 else replicate 64 (CHR ''0''))" for p
    using pad by (auto simp: sha256_file_def append_hash_def deployed_world_def blocks.simps)
  have files: "regular_file deployed_world p" "file_size_of deployed_world p = Inr 1" for p by (simp_all add: deployed_world_def)
  have "verify_model_files append_hash deployed_world c = Inr (replicate 64 (CHR ''0''))"
    using v sha files pad(3) by (simp add: verify_model_files_def verify_deployment_evidence_def Let_def del: replicate.simps)
  from deployment_is_calibrated [OF load [unfolded c] this v(1)] j load c
  have "recognition_similarity_threshold (vc_bio (cfg_vision c)) = to_single (Dbl (Fin (1 / 2)))"
    by (auto simp: deployed_json_def)
  with load c v(3,7) show ?thesis by auto
qed

end
