(* ===== verification/HttpClient.thy ===== *)
theory HttpClient
  imports Sync
begin

text \<open>
  \<^verbatim>\<open>src/edge_app/sync/http_client.cpp\<close>: which base URLs are accepted, what a request carries, and how
  much of an answer is read. \<open>Uri\<close> and the HTTP stack of WinRT are parameters: every asynchronous
  operation is the value it yields, or the exception of its deadline or failure.
\<close>

section \<open>The client\<close>

record uri =
  uri_scheme :: string
  uri_host :: string
  uri_user :: string
  uri_password :: string
  uri_query :: string
  uri_fragment :: string

type_synonym uri_parser = "string \<Rightarrow> uri option"

record http_client =
  hc_base :: string
  hc_token :: string
  hc_timeout :: int

definition parse_uri :: "uri_parser \<Rightarrow> string \<Rightarrow> uri result" where
  "parse_uri uris s = (case uris s of None \<Rightarrow> Inl HResultError | Some u \<Rightarrow> Inr u)"

definition loopback_host :: "string \<Rightarrow> bool" where
  "loopback_host host \<longleftrightarrow> host = ''127.0.0.1'' \<or> host = ''localhost'' \<or> host = ''[::1]''"

definition drop_slashes :: "string \<Rightarrow> string" where
  "drop_slashes s = rev (dropWhile (\<lambda>c. c = CHR ''/'') (rev s))"

definition http_transport :: "uri_parser \<Rightarrow> string \<Rightarrow> bool \<Rightarrow> int \<Rightarrow> http_client result" where
  "http_transport uris base loopback timeout =
     bind_result (parse_uri uris base) (\<lambda>u.
       if uri_scheme u \<noteq> ''https'' \<and> \<not> (loopback \<and> uri_scheme u = ''http'' \<and> loopback_host (uri_host u))
       then Inl (InvalidArgument ''HTTPS required; plain HTTP allowed only for explicit loopback tests'')
       else if uri_user u \<noteq> [] \<or> uri_password u \<noteq> [] \<or> uri_query u \<noteq> [] \<or> uri_fragment u \<noteq> [] \<or> timeout \<le> 0
       then Inl (InvalidArgument ''Invalid HTTP base URL/deadline'')
       else Inr \<lparr>hc_base = drop_slashes base, hc_token = [], hc_timeout = timeout\<rparr>)"

definition set_http_token :: "string \<Rightarrow> (http_client, unit) run" where
  "set_http_token t = andThen (lift_result (validate_token t)) (\<lambda>_. modify (\<lambda>c. c\<lparr>hc_token := t\<rparr>))"

section \<open>Requests\<close>

record http_request =
  rq_method :: string
  rq_url :: string
  rq_authorization :: string
  rq_if_none_match :: "string option"
  rq_content :: "string option"

definition prepare_request :: "uri_parser \<Rightarrow> http_client \<Rightarrow> string \<Rightarrow> string \<Rightarrow> string \<Rightarrow> string \<Rightarrow> http_request result" where
  "prepare_request uris c method path body tag =
     (if hc_token c = [] then Inl (RuntimeError ''Device credential unavailable'')
      else if path \<noteq> ''/attendance-events/batch'' \<and> path \<noteq> ''/gallery'' then Inl (InvalidArgument ''Unknown API path'')
      else bind_result (parse_uri uris (hc_base c @ path)) (\<lambda>_.
        Inr \<lparr>rq_method = (if method = ''POST'' then ''POST'' else ''GET''), rq_url = hc_base c @ path,
             rq_authorization = ''Bearer '' @ hc_token c, rq_if_none_match = (if tag = [] then None else Some tag),
             rq_content = (if method = ''POST'' then Some body else None)\<rparr>))"

section \<open>Answers\<close>

text \<open>The reads of the body stream, one result each; an empty buffer is its end.\<close>

record raw_answer =
  raw_status :: int
  raw_etag :: "string option"
  raw_retry_after :: "string option"
  raw_content :: "string result list result option"

definition body_limit :: "string \<Rightarrow> nat" where
  "body_limit path = (if path = ''/gallery'' then 32 * 1024 * 1024 else 1024 * 1024)"

fun read_body :: "nat \<Rightarrow> string \<Rightarrow> string result list \<Rightarrow> string result" where
  "read_body limit body [] = Inr body"
| "read_body limit body (Inl e # reads) = Inl e"
| "read_body limit body (Inr buffer # reads) =
     (if buffer = [] then Inr body
      else if length body + length buffer > limit then Inl (RuntimeError ''HTTP response exceeds limit'')
      else read_body limit (body @ buffer) reads)"

definition header_or_empty :: "string option \<Rightarrow> string" where
  "header_or_empty h = (case h of None \<Rightarrow> [] | Some v \<Rightarrow> v)"

definition read_answer :: "string \<Rightarrow> raw_answer \<Rightarrow> http_response result" where
  "read_answer path a =
     (let out = \<lparr>http_status = raw_status a, http_body = [], http_etag = header_or_empty (raw_etag a),
                 http_retry_after = header_or_empty (raw_retry_after a)\<rparr>
      in if raw_status a < 200 \<or> raw_status a \<ge> 300 then Inr out
         else case raw_content a of
                None \<Rightarrow> Inr out
              | Some stream \<Rightarrow>
                  bind_result stream (\<lambda>reads.
                  bind_result (read_body (body_limit path) [] reads) (\<lambda>body. Inr (out\<lparr>http_body := body\<rparr>))))"

definition http_request :: "uri_parser \<Rightarrow> (http_request \<Rightarrow> raw_answer result) \<Rightarrow> http_client \<Rightarrow>
    string \<Rightarrow> string \<Rightarrow> string \<Rightarrow> string \<Rightarrow> http_response result" where
  "http_request uris send c method path body tag =
     bind_result (prepare_request uris c method path body tag) (\<lambda>rq.
     bind_result (send rq) (\<lambda>a. read_answer path a))"

section \<open>Laws\<close>

lemma read_body_bounded:
  "read_body limit body reads = Inr r \<Longrightarrow> length body \<le> limit \<Longrightarrow> length r \<le> limit"
  by (induction limit body reads rule: read_body.induct) (auto split: if_splits)

text \<open>A read that stays within the limit returns everything up to the first empty buffer.\<close>

lemma read_body_all:
  assumes "list_all (\<lambda>b. b \<noteq> []) buffers" and "length body + length (concat buffers) \<le> limit"
  shows "read_body limit body (map Inr buffers @ Inr [] # reads) = Inr (body @ concat buffers)"
  using assms by (induction buffers arbitrary: body) auto

lemma transport_cases:
  assumes "http_transport uris base loopback timeout = Inr c"
  obtains u where "uris base = Some u" "uri_scheme u = ''https'' \<or> (loopback \<and> uri_scheme u = ''http'' \<and> loopback_host (uri_host u))"
    "uri_user u = []" "uri_password u = []" "uri_query u = []" "uri_fragment u = []" "0 < timeout"
    "c = \<lparr>hc_base = drop_slashes base, hc_token = [], hc_timeout = timeout\<rparr>"
  using assms by (auto simp: http_transport_def parse_uri_def split: option.splits if_splits)

lemma set_token_cases:
  assumes "set_http_token t c = (Inr u, c')"
  shows "validate_token t = Inr ()" and "c' = c\<lparr>hc_token := t\<rparr>"
  using assms by (auto simp: set_http_token_def andThen_Inr_iff lift_result_def modify_def)

lemma failed_answer_has_no_body:
  "read_answer path a = Inr r \<Longrightarrow> raw_status a < 200 \<or> raw_status a \<ge> 300 \<Longrightarrow>
     http_body r = [] \<and> http_status r = raw_status a \<and> http_retry_after r = header_or_empty (raw_retry_after a)"
  by (auto simp: read_answer_def Let_def split: if_splits)

text \<open>
  C34: the credential goes only where it was configured to go. A request of a client that was accepted
  is for one of the two endpoints below the base URL, the base URL is HTTPS (or plain HTTP to this
  machine when that was allowed explicitly) and carries no credentials, query or fragment; the request
  carries the token that was set. The body of the answer is at most 32 MiB for the gallery and 1 MiB
  otherwise, and a failing status has its headers but no body.
\<close>

theorem requests_confined:
  assumes "http_transport uris base loopback timeout = Inr c" and "set_http_token t c = (Inr (), c')"
    and "http_request uris send c' method path body tag = Inr r"
  shows "\<exists>u rq a. uris base = Some u \<and>
      (uri_scheme u = ''https'' \<or> (loopback \<and> uri_scheme u = ''http'' \<and> loopback_host (uri_host u))) \<and>
      uri_user u = [] \<and> uri_password u = [] \<and> uri_query u = [] \<and> uri_fragment u = [] \<and>
      rq_url rq \<in> {drop_slashes base @ ''/attendance-events/batch'', drop_slashes base @ ''/gallery''} \<and>
      rq_authorization rq = ''Bearer '' @ t \<and> (rq_content rq \<noteq> None \<longleftrightarrow> method = ''POST'') \<and>
      send rq = Inr a \<and> http_status r = raw_status a \<and>
      length (http_body r) \<le> (if path = ''/gallery'' then 33554432 else 1048576) \<and>
      (raw_status a < 200 \<or> raw_status a \<ge> 300 \<longrightarrow> http_body r = [])"
proof -
  obtain u where u: "uris base = Some u" "uri_scheme u = ''https'' \<or> (loopback \<and> uri_scheme u = ''http'' \<and> loopback_host (uri_host u))"
    "uri_user u = []" "uri_password u = []" "uri_query u = []" "uri_fragment u = []" "0 < timeout"
    "c = \<lparr>hc_base = drop_slashes base, hc_token = [], hc_timeout = timeout\<rparr>"
    by (rule transport_cases [OF assms(1)])
  from set_token_cases(2) [OF assms(2)] u(8) have c': "hc_base c' = drop_slashes base" "hc_token c' = t" by simp_all
  obtain rq a where rq: "prepare_request uris c' method path body tag = Inr rq" "send rq = Inr a" "read_answer path a = Inr r"
    using assms(3) by (auto simp: http_request_def)
  have parts: "rq_url rq \<in> {drop_slashes base @ ''/attendance-events/batch'', drop_slashes base @ ''/gallery''}"
    "rq_authorization rq = ''Bearer '' @ t" "rq_content rq \<noteq> None \<longleftrightarrow> method = ''POST''"
    using rq(1) c' by (auto simp: prepare_request_def split: if_splits)
  have "http_status r = raw_status a" "length (http_body r) \<le> body_limit path"
    "raw_status a < 200 \<or> raw_status a \<ge> 300 \<longrightarrow> http_body r = []"
    using rq(3) read_body_bounded [of "body_limit path" "[]"]
    by (auto simp: read_answer_def Let_def split: if_splits option.splits)
  then show ?thesis using u parts rq(2) unfolding body_limit_def by (intro exI [of _ u] exI [of _ rq] exI [of _ a]) auto
qed

definition sample_uri :: uri_parser where
  "sample_uri s = Some \<lparr>uri_scheme = ''https'', uri_host = ''h'', uri_user = [], uri_password = [], uri_query = [], uri_fragment = []\<rparr>"

definition sample_send :: "http_request \<Rightarrow> raw_answer result" where
  "sample_send rq = Inr \<lparr>raw_status = 200, raw_etag = None, raw_retry_after = None, raw_content = Some (Inr [Inr ''ok'', Inr []])\<rparr>"

theorem requests_confined_witness:
  "\<exists>c c' r. http_transport sample_uri ''https://h/'' False 10000 = Inr c \<and> set_http_token ''token'' c = (Inr (), c') \<and>
     http_request sample_uri sample_send c' ''GET'' ''/gallery'' [] [] = Inr r \<and> http_body r = ''ok'' \<and>
     length (http_body r) \<le> 33554432"
proof -
  define c where "c = \<lparr>hc_base = ''https://h'', hc_token = [], hc_timeout = 10000\<rparr>"
  define r where "r = \<lparr>http_status = 200, http_body = ''ok'', http_etag = [], http_retry_after = []\<rparr>"
  have made: "http_transport sample_uri ''https://h/'' False 10000 = Inr c"
    by (simp add: http_transport_def parse_uri_def sample_uri_def c_def drop_slashes_def)
  have "validate_token ''token'' = Inr ()" by code_simp
  then have token: "set_http_token ''token'' c = (Inr (), c\<lparr>hc_token := ''token''\<rparr>)"
    by (simp add: set_http_token_def run_simps del: validate_token_iff)
  have req: "http_request sample_uri sample_send (c\<lparr>hc_token := ''token''\<rparr>) ''GET'' ''/gallery'' [] [] = Inr r"
    by (simp add: http_request_def prepare_request_def parse_uri_def sample_uri_def sample_send_def read_answer_def
        body_limit_def header_or_empty_def r_def c_def)
  from requests_confined [OF made token req] have "length (http_body r) \<le> 33554432" by auto
  with made token req show ?thesis by (auto simp: r_def)
qed

end
