(* ===== verification/Application.thy ===== *)
theory Application
  imports Coordinator AppConfig HttpClient
begin

text \<open>
  The composition root, \<^verbatim>\<open>src/edge_app/app/edge_application.cpp\<close>: the owner thread that starts the
  vision runtime, commits what it stages, installs galleries, and never takes a frame while an event
  of an earlier one is uncommitted. One definition is one pass of the loop of \<open>run\<close>; what the worker,
  the channel and the camera do happens between passes.
\<close>

section \<open>State\<close>

datatype app_line =
    Described string nat nat
  | DevelopmentNotice
  | DeploymentNotice
  | CaptureStarted
  | Committed string
  | PersistenceRecovered
  | PersistenceBlocked int nat
  | GalleryApplied nat
  | GalleryInstallFailed
  | StatusLine string string

record application =
  app_online :: bool
  app_coordinator :: coordinator
  app_runtime :: attendance_runtime
  app_service :: service
  app_channel :: channel_state
  app_wakes :: nat
  app_log :: "app_line list"
  app_status_due :: int
  app_persist_due :: int
  app_gallery_retry_due :: int
  app_blocked :: bool
  app_gallery_reload :: bool

type_synonym 'a app_run = "(application \<times> connection, 'a) run"

definition update_app :: "(application \<Rightarrow> application) \<Rightarrow> unit app_run" where
  "update_app f = modify (\<lambda>(a, c). (f a, c))"

definition say :: "app_line \<Rightarrow> unit app_run" where
  "say line = update_app (\<lambda>a. a\<lparr>app_log := app_log a @ [line]\<rparr>)"

text \<open>\<open>if (channel) channel->...\<close> and \<open>if (worker) worker->wake()\<close>.\<close>

definition tell_channel :: "(channel_state \<Rightarrow> channel_state) \<Rightarrow> unit app_run" where
  "tell_channel f = update_app (\<lambda>a. if app_online a then a\<lparr>app_channel := f (app_channel a)\<rparr> else a)"

definition wake_worker :: "unit app_run" where
  "wake_worker = update_app (\<lambda>a. if app_online a then a\<lparr>app_wakes := app_wakes a + 1\<rparr> else a)"

definition on_coordinator :: "(coordinator \<times> connection, 'a) run \<Rightarrow> 'a app_run" where
  "on_coordinator = on_member (\<lambda>(a, c). (app_coordinator a, c)) (\<lambda>(co, d) (a, c). (a\<lparr>app_coordinator := co\<rparr>, d))"

definition on_gallery_install :: "((coordinator \<times> attendance_runtime) \<times> connection, 'a) run \<Rightarrow> 'a app_run" where
  "on_gallery_install = on_member (\<lambda>(a, c). ((app_coordinator a, app_runtime a), c))
     (\<lambda>((co, rt), d) (a, c). (a\<lparr>app_coordinator := co, app_runtime := rt\<rparr>, d))"

definition on_runtime :: "(attendance_runtime, 'a) run \<Rightarrow> 'a app_run" where
  "on_runtime = on_member (\<lambda>(a, c). app_runtime a) (\<lambda>rt (a, c). (a\<lparr>app_runtime := rt\<rparr>, c))"

text \<open>Handlers. The end of the process and a loop that does not end are not caught.\<close>

definition catch_storage :: "('s, 'a) run \<Rightarrow> (int \<Rightarrow> ('s, 'a) run) \<Rightarrow> ('s, 'a) run" where
  "catch_storage m h s = (case m s of (Inl (StorageError code), t) \<Rightarrow> h code t | r \<Rightarrow> r)"

definition catch_all :: "('s, 'a) run \<Rightarrow> ('s, 'a) run \<Rightarrow> ('s, 'a) run" where
  "catch_all m h s = (case m s of
       (Inl e, t) \<Rightarrow> if e = NullHandle \<or> e = Diverges then (Inl e, t) else h t
     | r \<Rightarrow> r)"

section \<open>One pass of the loop\<close>

text \<open>What a pass sees of the outside: its clock readings, the models' answers, random bytes, the worker's status.\<close>

record moment =
  at_check :: int
  at_failure :: int
  at_frame :: int
  at_status :: int
  vision_answers :: evaluators
  vision_utc :: "nat \<Rightarrow> int"
  vision_time :: int
  random_bytes :: "nat \<Rightarrow> u8 list option"
  worker_status :: string

fun commit_loop :: "nat \<Rightarrow> unit app_run" where
  "commit_loop 0 = throw Diverges"
| "commit_loop (Suc n) =
     andThen (on_coordinator commit_next) (\<lambda>r.
       case r of
         None \<Rightarrow> ret ()
       | Some r \<Rightarrow> andThen (say (Committed (record_id r))) (\<lambda>_. andThen wake_worker (\<lambda>_. commit_loop n)))"

definition commit_all :: "unit app_run" where
  "commit_all = andThen get_state (\<lambda>(a, _). commit_loop (Suc (length (co_pending (app_coordinator a)))))"

definition persist_pass :: "moment \<Rightarrow> unit app_run" where
  "persist_pass m =
     andThen get_state (\<lambda>(a, _).
       if at_check m < app_persist_due a then ret ()
       else catch_storage
         (andThen commit_all (\<lambda>_.
          andThen (if app_blocked a then say PersistenceRecovered else ret ()) (\<lambda>_.
          andThen (update_app (\<lambda>a. a\<lparr>app_blocked := False\<rparr>)) (\<lambda>_.
            tell_channel (report_runtime_state (if app_gallery_reload a then ''gallery_error'' else ''running''))))))
         (\<lambda>code.
          andThen (update_app (\<lambda>a. a\<lparr>app_blocked := True\<rparr>)) (\<lambda>_.
          andThen (tell_channel (report_runtime_state ''persistence_blocked'')) (\<lambda>_.
          andThen get_state (\<lambda>(a, _).
          andThen (say (PersistenceBlocked code (length (co_pending (app_coordinator a))))) (\<lambda>_.
            update_app (\<lambda>a. a\<lparr>app_persist_due := at_failure m + 1000000000\<rparr>)))))))"

definition poll_dirty :: "unit app_run" where
  "poll_dirty = update_app (\<lambda>a.
     if \<not> app_online a then a
     else let (d, g) = take_dirty (svc_gallery (app_service a));
              a = a\<lparr>app_service := (app_service a)\<lparr>svc_gallery := g\<rparr>\<rparr>
          in if d then a\<lparr>app_gallery_reload := True\<rparr> else a)"

definition reload_pass :: "moment \<Rightarrow> unit app_run" where
  "reload_pass m =
     andThen get_state (\<lambda>(a, _).
       if app_gallery_reload a \<and> at_check m \<ge> app_gallery_retry_due a
       then catch_all
         (andThen (on_gallery_install (refresh_gallery runtime_set_gallery)) (\<lambda>_.
          andThen (update_app (\<lambda>a. a\<lparr>app_gallery_reload := False\<rparr>)) (\<lambda>_.
          andThen get_state (\<lambda>(a, _).
          andThen (tell_channel (gallery_installed (co_version (app_coordinator a)) (co_template_count (app_coordinator a)))) (\<lambda>_.
          andThen (tell_channel (report_runtime_state ''running'')) (\<lambda>_.
            say (GalleryApplied (co_template_count (app_coordinator a)))))))))
         (andThen (tell_channel (report_runtime_state ''gallery_error'')) (\<lambda>_.
          andThen (update_app (\<lambda>a. a\<lparr>app_gallery_retry_due := at_failure m + 5000000000\<rparr>)) (\<lambda>_.
            say GalleryInstallFailed)))
       else ret ())"

definition frame_pass :: "json_api \<Rightarrow> vision_world \<Rightarrow> moment \<Rightarrow> unit app_run" where
  "frame_pass api w m =
     andThen (on_runtime (runtime_wait w (vision_answers m) (vision_utc m) (vision_time m))) (\<lambda>got.
       case got of
         None \<Rightarrow> ret ()
       | Some f \<Rightarrow>
           andThen (tell_channel (frame_processed (at_frame m))) (\<lambda>_.
             on_coordinator (on_member fst (\<lambda>co (_, c). (co, c)) (stage_events api (random_bytes m) (attendance_events f)))))"

definition status_pass :: "moment \<Rightarrow> unit app_run" where
  "status_pass m = update_app (\<lambda>a.
     if at_status m \<ge> app_status_due a
     then a\<lparr>app_log := app_log a @ [if app_online a then StatusLine (worker_status m) (ch_channel (app_channel a))
                                     else StatusLine ''offline'' ''offline''],
            app_status_due := at_status m + 10000000000\<rparr>
     else a)"

definition app_pass :: "json_api \<Rightarrow> vision_world \<Rightarrow> moment \<Rightarrow> unit app_run" where
  "app_pass api w m =
     andThen get_state (\<lambda>(a, _).
       if co_pending (app_coordinator a) \<noteq> [] then persist_pass m
       else andThen poll_dirty (\<lambda>_. andThen (reload_pass m) (\<lambda>_. andThen (frame_pass api w m) (\<lambda>_. status_pass m))))"

section \<open>Start and end\<close>

definition make_transport :: "uri_parser \<Rightarrow> application_config \<Rightarrow> bool result" where
  "make_transport uris c =
     (if cfg_base_url c = [] then Inr False
      else bind_result (http_transport uris (cfg_base_url c) (cfg_loopback c) 10000) (\<lambda>_. Inr True))"

definition describe :: "string \<Rightarrow> string \<Rightarrow> application_config \<Rightarrow> (connection, app_line list) run" where
  "describe sqlite hash c =
     andThen load_gallery (\<lambda>snapshot.
       if version snapshot \<noteq> [] \<and> model_sha256 snapshot \<noteq> hash
       then throw (RuntimeError ''Persisted gallery uses a different ArcFace model; import a compatible snapshot'')
       else andThen pending_count (\<lambda>waiting.
         ret ([Described sqlite waiting (length (templates snapshot))] @
              (if allow_uncalibrated_thresholds (vc_bio (cfg_vision c)) then [DevelopmentNotice] else []) @
              (if cfg_deployment c then [DeploymentNotice] else []))))"

text \<open>The constructor of the application up to its coordinator; the database is opened by then.\<close>

definition application_start :: "uri_parser \<Rightarrow> vision_world \<Rightarrow> string \<Rightarrow> string \<Rightarrow> application_config \<Rightarrow> int \<Rightarrow>
    (connection, application) run" where
  "application_start uris w sqlite hash c now =
     andThen (lift_result (make_transport uris c)) (\<lambda>online.
     andThen (describe sqlite hash c) (\<lambda>lines.
     andThen (lift_result (new_attendance_runtime w (cfg_vision c))) (\<lambda>rt conn.
       case refresh_gallery runtime_set_gallery ((new_coordinator (cfg_device c) hash, rt), conn) of
         (Inl e, (_, conn)) \<Rightarrow> (Inl e, conn)
       | (Inr _, ((co, rt), conn)) \<Rightarrow>
           (case runtime_start w rt of
              (Inl e, _) \<Rightarrow> (Inl e, conn)
            | (Inr _, rt) \<Rightarrow>
                (Inr \<lparr>app_online = online, app_coordinator = co, app_runtime = rt, app_service = new_service,
                      app_channel = report_runtime_state ''running'' (gallery_installed (co_version co) (co_template_count co) new_channel),
                      app_wakes = 0, app_log = lines @ [CaptureStarted], app_status_due = now, app_persist_due = now,
                      app_gallery_retry_due = now, app_blocked = False, app_gallery_reload = False\<rparr>, conn)))))"

definition application_finish :: "vision_world \<Rightarrow> unit app_run" where
  "application_finish w =
     andThen (update_app (\<lambda>a. a\<lparr>app_runtime := runtime_stop w (app_runtime a)\<rparr>)) (\<lambda>_.
     andThen get_state (\<lambda>(a, _).
       if co_pending (app_coordinator a) \<noteq> []
       then throw (RuntimeError ''PERSISTENCE_INCOMPLETE: stopping with uncommitted attendance in memory'')
       else ret ()))"

definition import_gallery :: "json_api \<Rightarrow> (string \<Rightarrow> u8 list option) \<Rightarrow> file_world \<Rightarrow> string \<Rightarrow> string \<Rightarrow> unit db" where
  "import_gallery api base64 w hash document =
     andThen (lift_result (bind_result (read_document w document) (\<lambda>t. parse_gallery_file api base64 t hash))) replace_gallery"

section \<open>What every pass keeps\<close>

definition kept_event :: "connection \<Rightarrow> string set \<Rightarrow> string \<Rightarrow> string \<Rightarrow> bool" where
  "kept_event c A k p \<longleftrightarrow> pending (stored c) k = Some p \<or> retained (stored c) k = Some p \<or> k \<in> A"

definition app_ok :: "application \<Rightarrow> connection \<Rightarrow> attendance_record set \<Rightarrow> string set \<Rightarrow> bool" where
  "app_ok a c S A \<longleftrightarrow> quiescent c \<and> tables_ok (stored c) \<and> set (co_pending (app_coordinator a)) \<subseteq> S \<and>
     (\<forall>r \<in> S. r \<in> set (co_pending (app_coordinator a)) \<or> kept_event c A (record_id r) (payload r)) \<and>
     (\<forall>k. Committed k \<in> set (app_log a) \<longrightarrow> (\<exists>r \<in> S. record_id r = k \<and> kept_event c A k (payload r)))"

lemma kept_moved:
  "kept_event c A k p \<Longrightarrow> moved D (stored c) (stored c') \<Longrightarrow> tables_ok (stored c) \<Longrightarrow> kept_event c' (A \<union> D) k p"
  using moved_event moved_retained unfolding kept_event_def by blast

lemma app_ok_moved:
  assumes "app_ok a c S A" and "quiescent c'" and "moved D (stored c) (stored c')"
  shows "app_ok a c' S (A \<union> D)"
proof -
  have t: "tables_ok (stored c)" using assms(1) by (simp add: app_ok_def)
  have "tables_ok (stored c')" using moved_ok [OF assms(3)] t by blast
  with assms(1,2) t kept_moved [OF _ assms(3) t] show ?thesis unfolding app_ok_def by blast
qed

text \<open>A step that keeps everything without staging.\<close>

definition fine :: "application \<times> connection \<Rightarrow> attendance_record set \<Rightarrow> string set \<Rightarrow> bool" where
  "fine w S A \<longleftrightarrow> app_ok (fst w) (snd w) S A"

definition quiet :: "'a app_run \<Rightarrow> bool" where
  "quiet m \<longleftrightarrow> (\<forall>w S A. fine w S A \<longrightarrow> fine (snd (m w)) S A)"

lemma quietD: "quiet m \<Longrightarrow> app_ok a c S A \<Longrightarrow> m (a, c) = (x, (a', c')) \<Longrightarrow> app_ok a' c' S A"
  unfolding quiet_def fine_def by (metis fst_conv snd_conv)

lemma quietI:
  assumes "\<And>a c x a' c' S A. app_ok a c S A \<Longrightarrow> m (a, c) = (x, (a', c')) \<Longrightarrow> app_ok a' c' S A"
  shows "quiet m"
  unfolding quiet_def fine_def using assms by (metis prod.collapse)

named_theorems quiet_rules \<open>compositional rules for quiet\<close>

lemma quiet_bind [quiet_rules]: "quiet m \<Longrightarrow> (\<And>x. quiet (f x)) \<Longrightarrow> quiet (andThen m f)"
  unfolding quiet_def andThen_def by (fastforce split: prod.split sum.split)

lemma quiet_basic [quiet_rules]: "quiet (ret y)" "quiet (throw e)" "quiet get_state" "quiet (lift_result z)"
  by (simp_all add: quiet_def run_simps)

lemma quiet_if [quiet_rules]: "quiet m \<Longrightarrow> quiet n \<Longrightarrow> quiet (if b then m else n)"
  by simp

lemma quiet_pair [quiet_rules]: "(\<And>x y. quiet (f x y)) \<Longrightarrow> quiet (case p of (x, y) \<Rightarrow> f x y)"
  by (cases p) simp

lemma quiet_update:
  assumes "\<And>a. app_coordinator (f a) = app_coordinator a"
    and "\<And>a k. Committed k \<in> set (app_log (f a)) \<Longrightarrow> Committed k \<in> set (app_log a)"
  shows "quiet (update_app f)"
  by (rule quietI) (use assms in \<open>auto simp: app_ok_def update_app_def modify_def\<close>)

lemma quiet_say [quiet_rules]: "(\<And>k. line \<noteq> Committed k) \<Longrightarrow> quiet (say line)"
  unfolding say_def by (rule quiet_update) auto

lemma quiet_tell [quiet_rules]: "quiet (tell_channel f)"
  unfolding tell_channel_def by (rule quiet_update) (auto split: if_splits)

lemma quiet_wake [quiet_rules]: "quiet wake_worker"
  unfolding wake_worker_def by (rule quiet_update) (auto split: if_splits)

lemma quiet_catch_storage [quiet_rules]: "quiet m \<Longrightarrow> (\<And>code. quiet (h code)) \<Longrightarrow> quiet (catch_storage m h)"
  unfolding quiet_def catch_storage_def by (fastforce split: prod.split sum.split error.split)

lemma quiet_catch_all [quiet_rules]: "quiet m \<Longrightarrow> quiet h \<Longrightarrow> quiet (catch_all m h)"
  unfolding quiet_def catch_all_def by (fastforce split: prod.split sum.split)

lemma on_coordinator_run:
  "on_coordinator m (a, c) = (x, (a', c')) \<longleftrightarrow> (\<exists>co. m (app_coordinator a, c) = (x, (co, c')) \<and> a' = a\<lparr>app_coordinator := co\<rparr>)"
  by (cases "m (app_coordinator a, c)") (auto simp: on_coordinator_def on_member_def)

text \<open>A commit that returns makes the event durable; one that throws loses nothing.\<close>

lemma commit_step:
  assumes "app_ok a c S A" and "on_coordinator commit_next (a, c) = (x, (a', c'))"
  shows "app_ok a' c' S A" and "x = Inr (Some r) \<Longrightarrow> r \<in> S \<and> kept_event c' A (record_id r) (payload r)"
proof -
  obtain co where co: "commit_next (app_coordinator a, c) = (x, (co, c'))" "a' = a\<lparr>app_coordinator := co\<rparr>"
    using assms(2) by (auto simp: on_coordinator_run)
  have ok: "quiescent c" "tables_ok (stored c)" using assms(1) by (simp_all add: app_ok_def)
  from co(1) have "app_ok a' c' S A \<and> (\<forall>r. x = Inr (Some r) \<longrightarrow> r \<in> S \<and> kept_event c' A (record_id r) (payload r))"
  proof (cases rule: commit_next_cases)
    case 1
    then show ?thesis using assms(1) co(2) by simp
  next
    case (2 r rs e)
    note e = ensure_effect [OF ok 2(2)]
    have "kept_event c A k p \<Longrightarrow> kept_event c' A k p" for k p using e(2,3,4) by (auto simp: kept_event_def)
    then show ?thesis using assms(1) co(2) 2 e(1,2) unfolding app_ok_def by auto blast+
  next
    case (3 r rs)
    note e = ensure_effect [OF ok 3(2)]
    have keep: "kept_event c A k p \<Longrightarrow> kept_event c' A k p" for k p using e(2,3,4) by (auto simp: kept_event_def)
    have "durable (stored c') (record_id r) = Some (payload r)" using e(6) by simp
    then have new: "kept_event c' A (record_id r) (payload r)"
      by (auto simp: durable_def kept_event_def split: option.splits)
    have "set (co_pending (app_coordinator a)) = insert r (set rs)" using 3(1) by simp
    with keep new assms(1) co(2) 3 e(1,2) show ?thesis unfolding app_ok_def by auto blast+
  qed
  then show "app_ok a' c' S A" "x = Inr (Some r) \<Longrightarrow> r \<in> S \<and> kept_event c' A (record_id r) (payload r)" by blast+
qed

lemma andThen_modify: "andThen (modify f) g w = g () (f w)"
  by (simp add: andThen_def modify_def)

lemma quiet_commit_loop: "quiet (commit_loop n)"
proof (induction n)
  case 0
  show ?case by (simp add: quiet_rules)
next
  case (Suc n)
  show ?case
  proof (rule quietI)
    fix a c x a' c' S A
    assume ok: "app_ok a c S A" and run: "commit_loop (Suc n) (a, c) = (x, (a', c'))"
    obtain y a1 c1 where first: "on_coordinator commit_next (a, c) = (y, (a1, c1))" by (metis surj_pair)
    note step = commit_step [OF ok first]
    show "app_ok a' c' S A"
    proof (cases "\<exists>r. y = Inr (Some r)")
      case False
      then show ?thesis using run first step(1) by (auto simp: andThen_def ret_def split: sum.splits option.splits)
    next
      case True
      then obtain r where y: "y = Inr (Some r)" by blast
      have "app_ok (a1\<lparr>app_log := app_log a1 @ [Committed (record_id r)]\<rparr>) c1 S A"
        using step(1) step(2) [OF y] by (auto simp: app_ok_def)
      moreover have "andThen wake_worker (\<lambda>_. commit_loop n)
          (a1\<lparr>app_log := app_log a1 @ [Committed (record_id r)]\<rparr>, c1) = (x, (a', c'))"
        using run first y by (simp add: andThen_def [of "on_coordinator _"] andThen_modify say_def update_app_def)
      moreover have "quiet (andThen wake_worker (\<lambda>_. commit_loop n))" by (intro quiet_rules Suc.IH)
      ultimately show ?thesis using quietD by blast
    qed
  qed
qed

lemma quiet_persist: "quiet (persist_pass m)"
  unfolding persist_pass_def commit_all_def
  by (auto intro!: quiet_rules quiet_commit_loop quiet_update)

lemma quiet_poll: "quiet poll_dirty"
  unfolding poll_dirty_def by (rule quiet_update) (auto simp: take_dirty_def Let_def split: if_splits)

lemma quiet_refresh: "quiet (on_gallery_install (refresh_gallery install))"
proof (rule quietI)
  fix a c x a' c' S A
  assume ok: "app_ok a c S A" and run: "on_gallery_install (refresh_gallery install) (a, c) = (x, (a', c'))"
  obtain co rt where r: "refresh_gallery install ((app_coordinator a, app_runtime a), c) = (x, ((co, rt), c'))"
    and a': "a' = a\<lparr>app_coordinator := co, app_runtime := rt\<rparr>"
    using run by (cases "refresh_gallery install ((app_coordinator a, app_runtime a), c)")
      (auto simp: on_gallery_install_def on_member_def)
  from ok have "quiescent c" by (simp add: app_ok_def)
  from refresh_effect [OF r this] ok a' show "app_ok a' c' S A" by (simp add: app_ok_def kept_event_def)
qed

lemma quiet_reload: "quiet (reload_pass m)"
  unfolding reload_pass_def by (auto intro!: quiet_rules quiet_refresh quiet_update)

lemma quiet_status: "quiet (status_pass m)"
  unfolding status_pass_def by (rule quiet_update) (auto split: if_splits)

lemma staged_events:
  assumes "stage_events api rng events co = (x, co')"
  shows "co' = co \<or> co_pending co = []"
  using assms by (auto simp: stage_events_def run_simps split: if_splits prod.splits sum.splits)

lemma frame_stages:
  assumes "app_ok a c S A" and "frame_pass api w m (a, c) = (x, (a', c'))"
  shows "app_ok a' c' (S \<union> set (co_pending (app_coordinator a'))) A"
proof -
  let ?wait = "on_runtime (runtime_wait w (vision_answers m) (vision_utc m) (vision_time m))"
  obtain y rt where y: "runtime_wait w (vision_answers m) (vision_utc m) (vision_time m) (app_runtime a) = (y, rt)"
    by (metis surj_pair)
  then have wait: "?wait (a, c) = (y, (a\<lparr>app_runtime := rt\<rparr>, c))" by (simp add: on_runtime_def on_member_def)
  have same: "app_ok (a\<lparr>app_runtime := rt\<rparr>) c S A" using assms(1) by (simp add: app_ok_def)
  have self: "app_ok b d (S \<union> set (co_pending (app_coordinator b))) A" if "app_ok b d S A" for b d
    using that by (auto simp: app_ok_def Un_absorb2)
  consider (none) "a' = a\<lparr>app_runtime := rt\<rparr>" "c' = c"
    | (frame) f where "y = Inr (Some f)"
    using assms(2) wait by (cases y) (auto simp: frame_pass_def andThen_def ret_def split: option.splits)
  then show ?thesis
  proof cases
    case none
    then show ?thesis using self [OF same] by simp
  next
    case (frame f)
    define b where "b = (if app_online a then a\<lparr>app_runtime := rt, app_channel := frame_processed (at_frame m) (app_channel a)\<rparr>
      else a\<lparr>app_runtime := rt\<rparr>)"
    have b: "app_coordinator b = app_coordinator a" "app_ok b c S A" using assms(1) by (auto simp: b_def app_ok_def)
    obtain z co where z: "stage_events api (random_bytes m) (attendance_events f) (app_coordinator a) = (z, co)" by (metis surj_pair)
    have "a' = b\<lparr>app_coordinator := co\<rparr>" "c' = c"
      using assms(2) wait frame z b(1)
      by (auto simp: frame_pass_def andThen_def tell_channel_def update_app_def modify_def on_coordinator_def on_member_def b_def
          split: if_splits)
    moreover from staged_events [OF z] have "app_ok (b\<lparr>app_coordinator := co\<rparr>) c (S \<union> set (co_pending co)) A"
    proof
      assume "co = app_coordinator a"
      then show ?thesis using self [OF b(2)] b(1) by (simp add: app_ok_def)
    next
      assume "co_pending (app_coordinator a) = []"
      then show ?thesis using b by (fastforce simp: app_ok_def)
    qed
    ultimately show ?thesis by simp
  qed
qed

text \<open>A pass stages new events only when all earlier ones are committed, and loses none.\<close>

lemma pass_ok:
  assumes "app_ok a c S A" and "app_pass api w m (a, c) = (x, (a', c'))"
  shows "app_ok a' c' (S \<union> set (co_pending (app_coordinator a'))) A"
proof (cases "co_pending (app_coordinator a) = []")
  case False
  then have "persist_pass m (a, c) = (x, (a', c'))" using assms(2) by (simp add: app_pass_def run_simps)
  from quietD [OF quiet_persist assms(1) this] show ?thesis by (simp add: app_ok_def Un_absorb2)
next
  case True
  let ?first = "andThen poll_dirty (\<lambda>_. reload_pass m)"
  obtain y a1 c1 where y: "?first (a, c) = (y, (a1, c1))" by (metis surj_pair)
  have "quiet ?first" by (intro quiet_rules quiet_poll quiet_reload)
  from quietD [OF this assms(1) y] have ok1: "app_ok a1 c1 S A" .
  have run: "andThen ?first (\<lambda>_. andThen (frame_pass api w m) (\<lambda>_. status_pass m)) (a, c) = (x, (a', c'))"
    using assms(2) True by (auto simp: app_pass_def andThen_def get_state_def split: prod.splits sum.splits)
  show ?thesis
  proof (cases y)
    case (Inl e)
    with run y have "a' = a1" "c' = c1" by (auto simp: andThen_def)
    with ok1 show ?thesis by (simp add: app_ok_def Un_absorb2)
  next
    case (Inr u)
    obtain z a2 c2 where z: "frame_pass api w m (a1, c1) = (z, (a2, c2))" by (metis surj_pair)
    have ok2: "app_ok a2 c2 (S \<union> set (co_pending (app_coordinator a2))) A" by (rule frame_stages [OF ok1 z])
    show ?thesis
    proof (cases z)
      case (Inl e)
      with run y Inr z have "a' = a2" "c' = c2" by (auto simp: andThen_def)
      with ok2 show ?thesis by simp
    next
      case (Inr v)
      with run y \<open>y = Inr u\<close> z have last: "status_pass m (a2, c2) = (x, (a', c'))" by (auto simp: andThen_def)
      then have "app_coordinator a' = app_coordinator a2" by (auto simp: status_pass_def update_app_def modify_def)
      with quietD [OF quiet_status ok2 last] show ?thesis by simp
    qed
  qed
qed

section \<open>Histories\<close>

text \<open>
  The client from its start: passes of the owner thread, and between them turns of the sync worker,
  notifications, turns of the channel and its own state, and the camera; \<open>framed\<close> lets the models find
  any events in a frame, \<open>failing\<close> lets SQLite fail from now on in any way. \<open>S\<close> collects the records ever
  staged, \<open>A\<close> the ids the server has acknowledged out of a batch that was sent.
\<close>

inductive app_history :: "json_api \<Rightarrow> vision_world \<Rightarrow> application \<Rightarrow> connection \<Rightarrow> attendance_record set \<Rightarrow> string set \<Rightarrow> bool"
  for api w where
  begun: "application_start uris w sqlite hash cfg now conn = (Inr a, c) \<Longrightarrow> quiescent conn \<Longrightarrow> tables_ok (stored conn) \<Longrightarrow>
    app_history api w a c {} {}"
| passed: "app_history api w a c S A \<Longrightarrow> app_pass api w m (a, c) = (x, (a', c')) \<Longrightarrow>
    app_history api w a' c' (S \<union> set (co_pending (app_coordinator a'))) A"
| worked: "app_history api w a c S A \<Longrightarrow> app_online a \<Longrightarrow>
    worker_turn api base64 device hash credential env elapsed genv now (app_service a, c) = (status, (sv, c')) \<Longrightarrow>
    app_history api w (a\<lparr>app_service := sv\<rparr>) c' S (A \<union> delivered_by api env device (batch_rows now c))"
| notified: "app_history api w a c S A \<Longrightarrow>
    app_history api w (a\<lparr>app_service := request_gallery_refresh b (app_service a)\<rparr>) c S A"
| reported: "app_history api w a c S A \<Longrightarrow> channel_turn hash token credential sent (app_channel a) now (l, c) = (y, (l', c')) \<Longrightarrow>
    app_history api w a c' S A"
| linked: "app_history api w a c S A \<Longrightarrow>
    app_history api w (a\<lparr>app_channel := (app_channel a)\<lparr>ch_channel := v\<rparr>\<rparr>) c S A"
| filmed: "app_history api w a c S A \<Longrightarrow> app_history api w (a\<lparr>app_runtime := rt\<rparr>) c S A"
| framed: "app_history api w a c S A \<Longrightarrow> stage_events api rng events (app_coordinator a) = (x, co) \<Longrightarrow>
    app_history api w (a\<lparr>app_coordinator := co\<rparr>) c (S \<union> set (co_pending co)) A"
| failing: "app_history api w a c S A \<Longrightarrow> app_history api w a (c\<lparr>outcomes := os\<rparr>) S A"

lemma started_ok:
  assumes "application_start uris w sqlite hash cfg now conn = (Inr a, c)" and "quiescent conn" and "tables_ok (stored conn)"
  shows "app_ok a c {} {}"
proof -
  obtain lines c1 where d: "describe sqlite hash cfg conn = (Inr lines, c1)"
    using assms(1) by (auto simp: application_start_def andThen_Inr_iff lift_result_def)
  obtain snapshot c0 where g: "load_gallery conn = (Inr snapshot, c0)" "\<exists>n. pending_count c0 = (Inr n, c1)"
    "\<forall>k. Committed k \<notin> set lines"
    using d by (auto simp: describe_def andThen_Inr_iff ret_def throw_def split: if_splits)
  have c0: "stored c0 = stored conn" "quiescent c0" using load_gallery_stored [OF g(1) assms(2)] by auto
  have c1: "stored c1 = stored conn" "quiescent c1"
    using g(2) query_stored c0 unfolding pending_count_def by metis+
  obtain online rt where rt: "make_transport uris cfg = Inr online" "new_attendance_runtime w (cfg_vision cfg) = Inr rt"
    using assms(1) d by (auto simp: application_start_def andThen_Inr_iff lift_result_def)
  obtain q co rt' c2 where q: "refresh_gallery runtime_set_gallery ((new_coordinator (cfg_device cfg) hash, rt), c1) = (q, ((co, rt'), c2))"
    by (metis surj_pair)
  obtain y rt2 where y: "runtime_start w rt' = (y, rt2)" by (metis surj_pair)
  have a: "q = Inr ()" "c = c2" "app_coordinator a = co" "app_log a = lines @ [CaptureStarted]"
    using assms(1) d rt q y by (auto simp: application_start_def andThen_def lift_result_def split: sum.splits)
  note r = q [unfolded a(1)]
  from refresh_effect [OF r c1(2)] c1 a g(3) assms(3) show ?thesis by (auto simp: app_ok_def new_coordinator_def)
qed

lemma history_ok: "app_history api w a c S A \<Longrightarrow> app_ok a c S A"
proof (induction rule: app_history.induct)
  case (begun uris sqlite hash cfg now conn a c)
  then show ?case by (rule started_ok)
next
  case (passed a c S A m x a' c')
  then show ?case using pass_ok by blast
next
  case (worked a c S A base64 device hash credential env elapsed genv now status sv c')
  then have "quiescent c" "tables_ok (stored c)" by (simp_all add: app_ok_def)
  from worker_turn_moved [OF this worked.hyps(3)] app_ok_moved [OF worked.IH]
  have "app_ok a c' S (A \<union> delivered_by api env device (batch_rows now c))" by blast
  then show ?case by (simp add: app_ok_def)
next
  case (reported a c S A hash token credential sent now l y l' c')
  have "conserving_run (channel_turn hash token credential sent (app_channel a) now) {}" by (rule conserving_channel_turn)
  with reported have "quiescent c' \<and> moved {} (stored c) (stored c')" unfolding conserving_run_def app_ok_def by blast
  then show ?case using app_ok_moved [OF reported.IH, of c' "{}"] by simp
next
  case (framed a c S A rng events x co)
  from staged_events [OF framed.hyps(2)] framed.IH show ?case by (fastforce simp: app_ok_def)
next
  case (failing a c S A os)
  then show ?case by (auto simp: app_ok_def quiescent_def kept_event_def)
qed (simp_all add: app_ok_def)

text \<open>
  C32: what the client reports as committed is true, and what it ends with is complete. In every history
  of the client, whatever the server answers and whichever SQLite call fails, an event id printed as
  COMMITTED belongs to a staged event whose payload is in the outbox or retained, or which the server
  has acknowledged; and when the run ends normally this holds of every event that was ever staged.
\<close>

theorem committed_lines_are_true:
  assumes "app_history api w a c S A"
  shows "(Committed k \<in> set (app_log a) \<longrightarrow> (\<exists>r \<in> S. record_id r = k \<and> kept_event c A k (payload r))) \<and>
    (application_finish w (a, c) = (Inr (), (a', c')) \<longrightarrow> (\<forall>r \<in> S. kept_event c' A (record_id r) (payload r)))"
  using history_ok [OF assms]
  by (auto simp: app_ok_def application_finish_def andThen_Inr_iff update_app_def modify_def get_state_def throw_def ret_def
      split: if_splits)

section \<open>Recovery\<close>

text \<open>No stored event has another payload under the id of \<open>r\<close>.\<close>

definition accepts :: "tables \<Rightarrow> attendance_record \<Rightarrow> bool" where
  "accepts t r \<longleftrightarrow>
     (case find_outbox (record_id r) t of
        Some row \<Rightarrow> row_payload row = payload r \<and> row_occurred row = occurred_ms r
      | None \<Rightarrow> (case find_dead (record_id r) t of Some row \<Rightarrow> dead_payload row = payload r | None \<Rightarrow> True))"

lemma accepts_iff: "accepts t r \<longleftrightarrow> (\<exists>t'. spec_ensure_enqueued r t = Inr ((), t'))"
  by (auto simp: accepts_def spec_ensure_enqueued_def split: option.splits)

lemma accepts_after:
  assumes "spec_ensure_enqueued r t = Inr ((), t')" and "accepts t s" and "record_id s \<noteq> record_id r"
  shows "accepts t' s"
proof -
  have "t' = t \<or> t' = t\<lparr>outbox := outbox t @ [fresh_row r]\<rparr>"
    using assms(1) by (auto simp: spec_ensure_enqueued_def split: option.splits if_splits)
  then show ?thesis using assms(2,3)
    by (auto simp: accepts_def find_outbox_def find_dead_def split: option.splits)
qed

lemma ensure_succeeds:
  assumes "quiescent c" and "outcomes c = []" and "accepts (stored c) r"
  obtains c' where "ensure_enqueued r c = (Inr (), c')" "outcomes c' = []" "quiescent c'"
    "spec_ensure_enqueued r (stored c) = Inr ((), stored c')"
proof -
  obtain x c' where run: "ensure_enqueued r c = (x, c')" by (cases "ensure_enqueued r c")
  have "x = Inr () \<and> outcomes c' = []"
    using run assms
    by (auto simp: ensure_enqueued_def transaction_def execute_def query_def statement_def next_outcome_def consume_def
        commit_def andThen_def ret_def throw_def accepts_def insert_outbox_def quiescent_def
        split: option.splits if_splits)
  with run ensure_op.commits [OF assms(1)] show thesis using that by blast
qed

lemma commit_loop_recovers:
  assumes "quiescent c" and "tables_ok (stored c)" and "outcomes c = []" and "co_pending (app_coordinator a) = rs"
    and "distinct (map record_id rs)" and "\<forall>r \<in> set rs. accepts (stored c) r" and "length rs < n"
  shows "\<exists>a' c'. commit_loop n (a, c) = (Inr (), (a', c')) \<and> quiescent c' \<and> tables_ok (stored c') \<and> outcomes c' = [] \<and>
      co_pending (app_coordinator a') = [] \<and> app_log a' = app_log a @ map (\<lambda>r. Committed (record_id r)) rs \<and>
      app_runtime a' = app_runtime a \<and> (\<forall>r \<in> set rs. durable (stored c') (record_id r) = Some (payload r)) \<and>
      (\<forall>k. k \<notin> record_id ` set rs \<longrightarrow> durable (stored c') k = durable (stored c) k)"
  using assms
proof (induction rs arbitrary: a c n)
  case Nil
  then obtain k where "n = Suc k" by (cases n) simp_all
  with Nil have "commit_loop n (a, c) = (Inr (), (a, c))"
    by (simp add: andThen_def on_coordinator_def on_member_def commit_next_def get_state_def ret_def)
  with Nil show ?case by auto
next
  case (Cons r rs)
  then obtain k where n: "n = Suc k" by (cases n) simp_all
  obtain c1 where c1: "ensure_enqueued r c = (Inr (), c1)" "outcomes c1 = []" "quiescent c1"
    "spec_ensure_enqueued r (stored c) = Inr ((), stored c1)"
    using ensure_succeeds [OF Cons.prems(1,3), of r] Cons.prems(6) by auto
  note e = spec_ensure_durable [OF Cons.prems(2) c1(4)]
  define a1 where "a1 = a\<lparr>app_coordinator := (app_coordinator a)\<lparr>co_pending := rs\<rparr>, app_log := app_log a @ [Committed (record_id r)]\<rparr>"
  define a2 where "a2 = (if app_online a1 then a1\<lparr>app_wakes := app_wakes a1 + 1\<rparr> else a1)"
  have step: "commit_loop n (a, c) = commit_loop k (a2, c1)"
    using Cons.prems(4) c1(1) unfolding n a2_def a1_def
    by (simp add: andThen_def on_coordinator_def on_member_def commit_next_def get_state_def ret_def on_db_def modify_def
        say_def wake_worker_def update_app_def)
  have a2: "co_pending (app_coordinator a2) = rs" "app_log a2 = app_log a @ [Committed (record_id r)]"
    "app_runtime a2 = app_runtime a" by (simp_all add: a2_def a1_def)
  have rest: "distinct (map record_id rs)" "length rs < k" using Cons.prems(5,7) n by simp_all
  have fits: "\<forall>s \<in> set rs. accepts (stored c1) s"
  proof
    fix s assume s: "s \<in> set rs"
    then have "record_id s \<in> set (map record_id rs)" by simp
    then have "record_id s \<noteq> record_id r" using Cons.prems(5) by (metis distinct.simps(2) list.simps(9))
    with s Cons.prems(6) show "accepts (stored c1) s" using accepts_after [OF c1(4)] by simp
  qed
  obtain a' c' where ih: "commit_loop k (a2, c1) = (Inr (), (a', c'))" "quiescent c'" "tables_ok (stored c')" "outcomes c' = []"
    "co_pending (app_coordinator a') = []" "app_log a' = app_log a2 @ map (\<lambda>r. Committed (record_id r)) rs"
    "app_runtime a' = app_runtime a2" "\<forall>r \<in> set rs. durable (stored c') (record_id r) = Some (payload r)"
    "\<forall>k. k \<notin> record_id ` set rs \<longrightarrow> durable (stored c') k = durable (stored c1) k"
    using Cons.IH [OF c1(3) e(5) c1(2) a2(1) rest(1) fits rest(2)] by blast
  have "record_id r \<notin> record_id ` set rs" using Cons.prems(5) by auto
  then have "durable (stored c') (record_id r) = Some (payload r)" using ih(9) e(2) by simp
  moreover have "\<forall>k. k \<notin> record_id ` set (r # rs) \<longrightarrow> durable (stored c') k = durable (stored c) k"
    using ih(9) e(2) by simp
  ultimately show ?case using ih step a2 by (intro exI [of _ a'] exI [of _ c']) simp
qed

text \<open>A pass at the retry time whose commits succeed.\<close>

lemma due_pass:
  assumes "commit_loop (Suc (length (co_pending (app_coordinator a)))) (a, c) = (Inr (), (a1, c1))"
    and "co_pending (app_coordinator a) \<noteq> []" and "app_persist_due a \<le> at_check m"
  shows "\<exists>a'. app_pass api w m (a, c) = (Inr (), (a', c1)) \<and> app_coordinator a' = app_coordinator a1 \<and> \<not> app_blocked a' \<and>
    app_log a' = app_log a1 @ (if app_blocked a then [PersistenceRecovered] else []) \<and> app_runtime a' = app_runtime a1"
proof -
  have all: "commit_all (a, c) = (Inr (), (a1, c1))"
    using assms(1) by (simp add: commit_all_def andThen_def get_state_def del: commit_loop.simps)
  have "app_pass api w m (a, c) = persist_pass m (a, c)" using assms(2) by (simp add: app_pass_def andThen_def get_state_def)
  then show ?thesis
    using all assms(3)
    by (auto simp: persist_pass_def catch_storage_def andThen_def get_state_def say_def update_app_def tell_channel_def modify_def ret_def)
qed


section \<open>A run of the client\<close>

definition offline_config :: application_config where
  "offline_config = \<lparr>cfg_device = ''d1'', cfg_base_url = [], cfg_database = ''db'', cfg_credential = ''cred'',
     cfg_vision = sample_vision, cfg_loopback = False, cfg_deployment = False, cfg_report = [], cfg_report_sha256 = [],
     cfg_model_sha256 = []\<rparr>"

definition stocked_tables :: tables where
  "stocked_tables = sample_tables\<lparr>gallery_state := Some \<lparr>meta_version = ''v1'', meta_etag = ''t1'', meta_model_id = ''m'',
     meta_model_sha256 = ''h''\<rparr>\<rparr>"

definition stocked_connection :: connection where
  "stocked_connection = \<lparr>stored = stocked_tables, working = stocked_tables, outcomes = []\<rparr>"

definition stocked_snapshot :: gallery_snapshot where
  "stocked_snapshot = \<lparr>version = ''v1'', etag = ''t1'', model_id = ''m'', model_sha256 = ''h'', template_ids = [], templates = []\<rparr>"

definition stocked_coordinator :: coordinator where
  "stocked_coordinator = (new_coordinator ''d1'' ''h'')\<lparr>co_version := ''v1''\<rparr>"

definition sample_envelope_offline :: "attendance_record result" where
  "sample_envelope_offline = envelope one_object_api sample_observation ''d1'' ''v1'' (Some (replicate 16 0))"

definition first_moment :: moment where
  "first_moment = \<lparr>at_check = 5, at_failure = 6, at_frame = 7, at_status = 8, vision_answers = undefined,
     vision_utc = (\<lambda>_. 0), vision_time = 0, random_bytes = (\<lambda>_. None), worker_status = []\<rparr>"

lemma sample_queries:
  "load_gallery stocked_connection = (Inr stocked_snapshot, stocked_connection)"
  "pending_count stocked_connection = (Inr 1, stocked_connection)"
  by (simp_all add: load_gallery_def pending_count_def query_def statement_def next_outcome_def consume_def andThen_def ret_def
      stocked_connection_def stocked_tables_def stocked_snapshot_def sample_tables_def no_tables_def sort_key_def)

lemma stocked_ok: "quiescent stocked_connection" "tables_ok (stored stocked_connection)"
  using sample_ok by (simp_all add: quiescent_def stocked_connection_def stocked_tables_def tables_ok_def sample_connection_def)

lemma sample_application:
  "\<exists>a. application_start sample_uri sample_world ''3'' ''h'' offline_config 0 stocked_connection = (Inr a, stocked_connection) \<and>
     app_coordinator a = stocked_coordinator \<and> app_persist_due a = 0 \<and> \<not> app_blocked a"
proof -
  have transport: "make_transport sample_uri offline_config = Inr False" by (simp add: make_transport_def offline_config_def)
  obtain lines where lines: "describe ''3'' ''h'' offline_config stocked_connection = (Inr lines, stocked_connection)"
    by (simp add: describe_def andThen_def sample_queries stocked_snapshot_def ret_def)
  obtain p where rt: "new_attendance_runtime sample_world sample_vision = Inr \<lparr>ar_tracking = \<lparr>tr_config = vc_tracking sample_vision,
     tr_model = sample_scrfd, tr_camera = new_camera 1, tr_detector = unloaded_scrfd, tr_tracker = make_tracker usual_tracking,
     tr_last_frame = 0, tr_started = False\<rparr>, ar_processor = p, ar_started = False\<rparr>" (is "_ = Inr ?rt")
    using sample_runtime by blast
  obtain g where "replace_templates [] (proc_gallery p) = (Inr (), g)"
    by (simp add: replace_templates_def run_simps Let_def)
  then obtain q where install: "runtime_set_gallery [] ?rt = (Inr (), ?rt\<lparr>ar_processor := q\<rparr>)"
    by (simp add: runtime_set_gallery_def on_member_def set_gallery_def)
  let ?co = "new_coordinator ''d1'' ''h''"
  have refresh: "refresh_gallery runtime_set_gallery ((?co, ?rt), stocked_connection) =
      (Inr (), ((stocked_coordinator, ?rt\<lparr>ar_processor := q\<rparr>), stocked_connection))"
    using install
    by (simp add: refresh_gallery_def andThen_def get_state_def on_db_def on_member_def modify_def sample_queries
        new_coordinator_def stocked_snapshot_def stocked_coordinator_def)
  obtain cam where cam: "camera_start sample_driver default_camera_config (new_camera 1) = (Inr (), cam)"
    using sample_started by blast
  have "tc_camera (vc_tracking sample_vision) = default_camera_config" "camera_drv sample_world = sample_driver"
    by (simp_all add: sample_vision_def sample_world_def)
  then obtain rt2 where start: "runtime_start sample_world (?rt\<lparr>ar_processor := q\<rparr>) = (Inr (), rt2)"
    using cam by (simp add: runtime_start_def run_simps on_member_def tracking_start_def)
  have cfg: "cfg_vision offline_config = sample_vision" "cfg_device offline_config = ''d1''" by (simp_all add: offline_config_def)
  show ?thesis
    using transport lines rt refresh start cfg
    by (simp add: application_start_def andThen_def lift_result_def)
qed

text \<open>A staged event, ready to be committed.\<close>

lemma sample_staged:
  "\<exists>a r S. app_history one_object_api sample_world a stocked_connection S {} \<and> co_pending (app_coordinator a) = [r] \<and>
     app_persist_due a = 0 \<and> \<not> app_blocked a \<and> accepts stocked_tables r"
proof -
  obtain a where a: "application_start sample_uri sample_world ''3'' ''h'' offline_config 0 stocked_connection = (Inr a, stocked_connection)"
    "app_coordinator a = stocked_coordinator" "app_persist_due a = 0" "\<not> app_blocked a"
    using sample_application by blast
  have start: "app_history one_object_api sample_world a stocked_connection {} {}"
    by (rule app_history.begun [OF a(1) stocked_ok])
  have "(case sample_envelope_offline of Inl _ \<Rightarrow> False | Inr r \<Rightarrow> accepts stocked_tables r)" by code_simp
  then obtain r where r: "sample_envelope_offline = Inr r" "accepts stocked_tables r" by (auto split: sum.splits)
  have "observation_of sample_event = sample_observation"
    by (simp add: observation_of_def sample_event_def sample_observation_def zero_single_def)
  with r(1) have "stage_events one_object_api (\<lambda>_. Some (replicate 16 0)) [sample_event] (app_coordinator a) =
      (Inr (), (app_coordinator a)\<lparr>co_pending := [r]\<rparr>)"
    by (simp add: stage_events_def stage_records_def run_simps a(2) stocked_coordinator_def new_coordinator_def sample_envelope_offline_def)
  from app_history.framed [OF start this] a(3,4) r(2) show ?thesis by fastforce
qed


theorem committed_lines_are_true_witness:
  "\<exists>a c S k. app_history one_object_api sample_world a c S {} \<and> Committed k \<in> set (app_log a) \<and>
     (\<exists>r \<in> S. record_id r = k \<and> kept_event c {} k (payload r))"
proof -
  obtain a r S where a: "app_history one_object_api sample_world a stocked_connection S {}" "co_pending (app_coordinator a) = [r]"
    "app_persist_due a = 0" "accepts stocked_tables r"
    using sample_staged by blast
  let ?rs = "[r]"
  have c: "outcomes stocked_connection = []" "stored stocked_connection = stocked_tables" by (simp_all add: stocked_connection_def)
  obtain a1 c1 where loop: "commit_loop (Suc (length ?rs)) (a, stocked_connection) = (Inr (), (a1, c1))"
    "app_log a1 = app_log a @ map (\<lambda>r. Committed (record_id r)) ?rs"
    using commit_loop_recovers [OF stocked_ok c(1) a(2), of "Suc (length ?rs)"] a(4) c(2) by auto
  obtain a2 where pass: "app_pass one_object_api sample_world first_moment (a, stocked_connection) = (Inr (), (a2, c1))"
    "app_log a2 = app_log a1 @ (if app_blocked a then [PersistenceRecovered] else [])"
    using due_pass [of a stocked_connection a1 c1 first_moment one_object_api sample_world] loop(1) a(2,3)
    by (auto simp: first_moment_def simp del: commit_loop.simps)
  have after: "app_history one_object_api sample_world a2 c1 (S \<union> set (co_pending (app_coordinator a2))) {}"
    by (rule app_history.passed [OF a(1) pass(1)])
  have line: "Committed (record_id r) \<in> set (app_log a2)" using pass(2) loop(2) by simp
  note kept = mp [OF conjunct1 [OF committed_lines_are_true [OF after]] line]
  show ?thesis
    by (rule exI, rule exI, rule exI, rule exI, rule conjI [OF after conjI [OF line kept]])
qed

end
