(* ===== verification/LocalData.thy ===== *)
theory LocalData
  imports Prelude
begin

text \<open>
  \<^verbatim>\<open>src/edge_app/security/local_data.cpp\<close>: how a file for secrets or attendance data is prepared. A
  path is the native text of a normalised path, \<open>C:\data\edge.db\<close>; the file system maps a path to the
  attributes Win32 reports, and remembers which objects received the restricted access list. The
  answers of Win32 that are not about the file system enter as a \<open>win32\<close>.
\<close>

section \<open>Paths\<close>

definition separator :: char where
  "separator = CHR 0x5C"

definition file_name :: "string \<Rightarrow> string" where
  "file_name p = rev (takeWhile (\<lambda>c. c \<noteq> separator) (rev p))"

definition root_path :: "string \<Rightarrow> string" where
  "root_path p = take 3 p"

definition parent_path :: "string \<Rightarrow> string" where
  "parent_path p =
     (let dir = rev (dropWhile (\<lambda>c. c \<noteq> separator) (rev p))
      in if length dir \<le> 3 then dir else butlast dir)"

definition lower_ascii :: "char \<Rightarrow> char" where
  "lower_ascii c = (if 65 \<le> byte_of c \<and> byte_of c \<le> 90 then char_of (byte_of c + 32) else c)"

definition same_nocase :: "string \<Rightarrow> string \<Rightarrow> bool" where
  "same_nocase a b \<longleftrightarrow> map lower_ascii a = map lower_ascii b"

lemma parent_shorter:
  assumes "p \<noteq> root_path p"
  shows "length (parent_path p) < length p"
proof -
  define d where "d = dropWhile (\<lambda>c. c \<noteq> separator) (rev p)"
  have p: "3 < length p" using assms unfolding root_path_def by (metis not_less take_all)
  have "length d \<le> length p" unfolding d_def using length_dropWhile_le [of _ "rev p"] by simp
  moreover have "parent_path p = (if length d \<le> 3 then rev d else butlast (rev d))"
    by (simp add: parent_path_def d_def)
  ultimately show ?thesis using p by auto
qed

text \<open>The path and its parents up to the root, as \<open>reject_reparse\<close> walks them.\<close>

function path_chain :: "string \<Rightarrow> string list" where
  "path_chain p = (if p = [] then [] else p # (if p = root_path p then [] else path_chain (parent_path p)))"
  by pat_completeness auto

termination
  by (relation "measure length") (simp_all add: parent_shorter)

declare path_chain.simps [simp del]

section \<open>The file system\<close>

record file_info =
  fi_directory :: bool
  fi_reparse :: bool
  fi_links :: nat

record local_fs =
  fs_files :: "string \<Rightarrow> file_info option"
  fs_restricted :: "string set"

record win32 =
  normal_path :: "string \<Rightarrow> string"
  current_directory :: string
  environment_value :: "string \<Rightarrow> string option"
  peek_ok :: "string \<Rightarrow> bool"
  descriptor_ok :: bool
  make_parents_ok :: bool
  make_directory_ok :: bool
  create_file_ok :: bool
  open_for_acl_ok :: "string \<Rightarrow> bool"
  set_acl_ok :: "string \<Rightarrow> bool"

definition hardening_failed :: error where
  "hardening_failed = RuntimeError ''Local data permission hardening failed''"

definition reject_reparse :: "local_fs \<Rightarrow> string \<Rightarrow> unit result" where
  "reject_reparse fs path =
     require (\<not> list_ex (\<lambda>p. case fs_files fs p of None \<Rightarrow> False | Some i \<Rightarrow> fi_reparse i) (path_chain path))
             (InvalidArgument ''Local data paths must not use reparse points'')"

definition harden :: "win32 \<Rightarrow> string \<Rightarrow> bool \<Rightarrow> (local_fs, unit) run" where
  "harden w path directory =
     andThen get_state (\<lambda>fs.
       case fs_files fs path of
         None \<Rightarrow> throw hardening_failed
       | Some i \<Rightarrow>
           if \<not> open_for_acl_ok w path then throw hardening_failed
           else if fi_reparse i \<or> fi_directory i \<noteq> directory \<or> (\<not> directory \<and> fi_links i \<noteq> 1)
           then throw (InvalidArgument ''Local data must use ordinary directories and single-link files'')
           else if \<not> set_acl_ok w path then throw (RuntimeError ''Cannot restrict local data permissions'')
           else modify (\<lambda>fs. fs\<lparr>fs_restricted := insert path (fs_restricted fs)\<rparr>))"

text \<open>The checks on names alone.\<close>

definition private_variables :: "string list" where
  "private_variables = [''USERPROFILE'', ''LOCALAPPDATA'', ''APPDATA'', ''PROGRAMDATA'', ''WINDIR'']"

definition check_private_name :: "win32 \<Rightarrow> string \<Rightarrow> unit result" where
  "check_private_name w path =
     (let parent = parent_path path
      in if file_name path = [] \<or> CHR '':'' \<in> set (drop 2 path) \<or> take 2 path = [separator, separator] \<or>
            parent = root_path parent \<or> same_nocase parent (current_directory w)
         then Inl (InvalidArgument ''Use a dedicated local data directory, not a root or working directory'')
         else require (\<not> list_ex (\<lambda>v. case environment_value w v of None \<Rightarrow> False | Some d \<Rightarrow> same_nocase parent d) private_variables)
                (InvalidArgument ''Use an application subdirectory for private local data''))"

definition check_existing :: "win32 \<Rightarrow> local_fs \<Rightarrow> string \<Rightarrow> unit result" where
  "check_existing w fs path =
     (if \<not> peek_ok w path then Inl hardening_failed
      else case fs_files fs path of
             None \<Rightarrow> Inr ()
           | Some i \<Rightarrow> require (\<not> (fi_directory i \<or> fi_reparse i \<or> fi_links i \<noteq> 1))
                         (InvalidArgument ''Local data must use an ordinary single-link file''))"

definition new_directory :: file_info where
  "new_directory = \<lparr>fi_directory = True, fi_reparse = False, fi_links = 1\<rparr>"

definition new_file :: file_info where
  "new_file = \<lparr>fi_directory = False, fi_reparse = False, fi_links = 1\<rparr>"

definition add_missing :: "file_info \<Rightarrow> string \<Rightarrow> local_fs \<Rightarrow> local_fs" where
  "add_missing i p fs = (if fs_files fs p = None then fs\<lparr>fs_files := (fs_files fs)(p \<mapsto> i)\<rparr> else fs)"

definition create_directories :: "win32 \<Rightarrow> string \<Rightarrow> (local_fs, unit) run" where
  "create_directories w path =
     andThen get_state (\<lambda>fs.
       if \<not> make_parents_ok w \<or> list_ex (\<lambda>p. case fs_files fs p of None \<Rightarrow> False | Some i \<Rightarrow> \<not> fi_directory i) (path_chain path)
       then throw (RuntimeError ''create_directories'')
       else modify (\<lambda>fs. foldr (add_missing new_directory) (path_chain path) fs))"

definition prepare_private_file :: "win32 \<Rightarrow> string \<Rightarrow> (local_fs, unit) run" where
  "prepare_private_file w file =
     (let path = normal_path w file; parent = parent_path path
      in andThen (lift_result (check_private_name w path)) (\<lambda>_.
         andThen get_state (\<lambda>fs.
         andThen (lift_result (reject_reparse fs path)) (\<lambda>_.
         andThen (lift_result (check_existing w fs path)) (\<lambda>_.
         andThen (lift_result (require (descriptor_ok w) hardening_failed)) (\<lambda>_.
         andThen (create_directories w (parent_path parent)) (\<lambda>_.
         andThen (lift_result (require (make_directory_ok w) hardening_failed)) (\<lambda>_.
         andThen (modify (add_missing new_directory parent)) (\<lambda>_.
         andThen (harden w parent True) (\<lambda>_.
         andThen (lift_result (require (create_file_ok w) hardening_failed)) (\<lambda>_.
         andThen (modify (add_missing new_file path)) (\<lambda>_.
           harden w path False))))))))))))"

section \<open>Laws\<close>

text \<open>Existing objects keep their attributes; access lists change on named objects only.\<close>

definition only_restricts :: "string set \<Rightarrow> local_fs \<Rightarrow> local_fs \<Rightarrow> bool" where
  "only_restricts P fs fs' \<longleftrightarrow>
     (\<forall>p i. fs_files fs p = Some i \<longrightarrow> fs_files fs' p = Some i) \<and>
     fs_restricted fs \<subseteq> fs_restricted fs' \<and> fs_restricted fs' \<subseteq> fs_restricted fs \<union> P"

definition restricting :: "string set \<Rightarrow> (local_fs, 'a) run \<Rightarrow> bool" where
  "restricting P m \<longleftrightarrow> (\<forall>fs. only_restricts P fs (snd (m fs)))"

lemma only_restricts_refl [simp]: "only_restricts P fs fs"
  by (auto simp: only_restricts_def)

lemma only_restricts_trans: "only_restricts P a b \<Longrightarrow> only_restricts P b c \<Longrightarrow> only_restricts P a c"
  unfolding only_restricts_def by blast

lemma restricting_bind: "restricting P m \<Longrightarrow> (\<And>x. restricting P (f x)) \<Longrightarrow> restricting P (andThen m f)"
  unfolding restricting_def andThen_def
  by (fastforce split: prod.split sum.split intro: only_restricts_trans)

lemma restricting_basic: "restricting P (lift_result x)" "restricting P get_state" "restricting P (throw e)"
  by (simp_all add: restricting_def run_simps)

lemma add_missing_restricts [simp]: "only_restricts P fs (add_missing i p fs)"
  by (simp add: only_restricts_def add_missing_def)

lemma restricting_add: "restricting P (modify (add_missing i p))"
  by (simp add: restricting_def modify_def)

lemma restricting_directories: "restricting P (create_directories w path)"
proof -
  have "only_restricts P fs (foldr (add_missing new_directory) ps fs)" for ps fs
    by (induction ps) (auto intro: only_restricts_trans)
  then show ?thesis by (simp add: restricting_def create_directories_def run_simps)
qed

lemma restricting_harden: "path \<in> P \<Longrightarrow> restricting P (harden w path d)"
  by (auto simp: restricting_def harden_def run_simps only_restricts_def split: option.split)

lemma restricting_prepare:
  "restricting {normal_path w file, parent_path (normal_path w file)} (prepare_private_file w file)"
  unfolding prepare_private_file_def Let_def
  by (intro restricting_bind restricting_basic restricting_add restricting_directories restricting_harden) simp_all

lemma harden_done:
  assumes "harden w path d fs = (Inr u, fs')"
  obtains i where "fs_files fs path = Some i" "\<not> fi_reparse i" "fi_directory i = d" "d \<or> fi_links i = 1"
    "fs' = fs\<lparr>fs_restricted := insert path (fs_restricted fs)\<rparr>"
  using assms by (auto simp: harden_def run_simps split: option.splits if_splits)

lemma prepared:
  assumes "prepare_private_file w file fs = (Inr u, fs')"
  obtains fs1 fs2 fs3 where "check_private_name w (normal_path w file) = Inr ()" "reject_reparse fs (normal_path w file) = Inr ()"
    "check_existing w fs (normal_path w file) = Inr ()"
    "harden w (parent_path (normal_path w file)) True fs1 = (Inr (), fs2)"
    "fs3 = add_missing new_file (normal_path w file) fs2"
    "harden w (normal_path w file) False fs3 = (Inr (), fs')"
  using assms
  by (auto simp: prepare_private_file_def Let_def andThen_Inr_iff lift_result_def get_state_def modify_def)

lemma rejected_reparse:
  "p \<in> set (path_chain path) \<Longrightarrow> fs_files fs p = Some i \<Longrightarrow> fi_reparse i \<Longrightarrow> reject_reparse fs path \<noteq> Inr ()"
  by (force simp: reject_reparse_def list_ex_iff)

lemma rejected_existing:
  "fs_files fs path = Some i \<Longrightarrow> fi_directory i \<or> fi_reparse i \<or> fi_links i \<noteq> 1 \<Longrightarrow> check_existing w fs path \<noteq> Inr ()"
  by (auto simp: check_existing_def)

lemma refused_early:
  assumes "check_private_name w (normal_path w file) \<noteq> Inr () \<or> reject_reparse fs (normal_path w file) \<noteq> Inr () \<or>
     check_existing w fs (normal_path w file) \<noteq> Inr ()"
  shows "\<exists>e. prepare_private_file w file fs = (Inl e, fs)"
  using assms
  by (cases "check_private_name w (normal_path w file)"; cases "reject_reparse fs (normal_path w file)";
      cases "check_existing w fs (normal_path w file)")
    (simp_all add: prepare_private_file_def Let_def andThen_def lift_result_def get_state_def)


section \<open>A file with a second hard link, and a new one\<close>

definition sample_path :: string where
  "sample_path = ''C:'' @ [separator] @ ''data'' @ [separator] @ ''edge'' @ [separator] @ ''a.db''"

definition sample_win32 :: win32 where
  "sample_win32 = \<lparr>normal_path = (\<lambda>_. sample_path), current_directory = ''C:'' @ [separator], environment_value = (\<lambda>_. None),
     peek_ok = (\<lambda>_. True), descriptor_ok = True, make_parents_ok = True, make_directory_ok = True, create_file_ok = True,
     open_for_acl_ok = (\<lambda>_. True), set_acl_ok = (\<lambda>_. True)\<rparr>"

definition sample_fs :: "nat option \<Rightarrow> local_fs" where
  "sample_fs links = \<lparr>fs_files = (\<lambda>p. if p = sample_path then map_option (\<lambda>n. new_file\<lparr>fi_links := n\<rparr>) links
       else if p = ''C:'' @ [separator] then Some new_directory else None), fs_restricted = {}\<rparr>"


end
