(* ===== verification/Client.thy ===== *)
theory Client
  imports Application LocalData
begin

text \<open>
  The program \<^verbatim>\<open>src/tools/edge_client.cpp\<close>: its options, and the construction of the application out of
  verified models, hardened files and the migrated database.
\<close>

section \<open>Options\<close>

record client_options =
  opt_config :: string
  opt_import :: string
  opt_validate_only :: bool
  opt_require_deployment :: bool

definition default_options :: client_options where
  "default_options = \<lparr>opt_config = ''edge-config.local.json'', opt_import = [], opt_validate_only = False,
     opt_require_deployment = False\<rparr>"

datatype client_command = ShowHelp | ProvisionToken string | StartClient client_options

text \<open>Provisioning and help act as soon as they are met; the options after them are not looked at.\<close>

fun parse_arguments :: "client_options \<Rightarrow> string list \<Rightarrow> client_command result" where
  "parse_arguments opts [] = Inr (StartClient opts)"
| "parse_arguments opts (arg # rest) =
     (if arg = ''--config'' \<or> arg = ''--import-gallery'' \<or> arg = ''--provision-token'' then
        (case rest of
           [] \<Rightarrow> Inl (InvalidArgument ''Missing option value'')
         | v # rest \<Rightarrow>
             if arg = ''--config'' then parse_arguments (opts\<lparr>opt_config := v\<rparr>) rest
             else if arg = ''--import-gallery'' then parse_arguments (opts\<lparr>opt_import := v\<rparr>) rest
             else Inr (ProvisionToken v))
      else if arg = ''--validate-only'' then parse_arguments (opts\<lparr>opt_validate_only := True\<rparr>) rest
      else if arg = ''--require-deployment'' then parse_arguments (opts\<lparr>opt_require_deployment := True\<rparr>) rest
      else if arg = ''--help'' then Inr ShowHelp
      else Inl (InvalidArgument (''Unknown option: '' @ arg)))"

datatype client_mode = ImportMode string | ValidateMode | RunMode

definition client_mode_of :: "client_options \<Rightarrow> application_config \<Rightarrow> client_mode result" where
  "client_mode_of opts cfg =
     (if opt_require_deployment opts \<and> \<not> cfg_deployment cfg
      then Inl (InvalidArgument ''--require-deployment rejects development configuration'')
      else if opt_import opts \<noteq> [] then Inr (ImportMode (opt_import opts))
      else if opt_validate_only opts then Inr ValidateMode
      else Inr RunMode)"

section \<open>Construction\<close>

definition exists_in :: "win32 \<Rightarrow> local_fs \<Rightarrow> string \<Rightarrow> bool" where
  "exists_in w fs file \<longleftrightarrow> fs_files fs (normal_path w file) \<noteq> None"

definition harden_if_present :: "win32 \<Rightarrow> string \<Rightarrow> (local_fs, unit) run" where
  "harden_if_present w file =
     andThen get_state (\<lambda>fs. if exists_in w fs file then prepare_private_file w file else ret ())"

definition harden_database :: "win32 \<Rightarrow> string \<Rightarrow> (local_fs, unit) run" where
  "harden_database w file =
     andThen (prepare_private_file w file) (\<lambda>_.
       forM (\<lambda>suffix. harden_if_present w (file @ suffix)) [''-journal'', ''-wal'', ''-shm''])"

definition construct_application :: "'h hash_api \<Rightarrow> win32 \<Rightarrow> file_world \<Rightarrow> application_config \<Rightarrow>
    (local_fs \<times> connection, string) run" where
  "construct_application h w files c =
     andThen (lift_result (verify_model_files h files c)) (\<lambda>hash.
     andThen (on_member fst (\<lambda>fs (_, d). (fs, d)) (harden_database w (cfg_database c))) (\<lambda>_.
     andThen (on_member snd (\<lambda>d (fs, _). (fs, d)) open_database) (\<lambda>_.
     andThen (on_member fst (\<lambda>fs (_, d). (fs, d)) (harden_if_present w (cfg_credential c))) (\<lambda>_.
       ret hash))))"

definition validate_application :: "uri_parser \<Rightarrow> string \<Rightarrow> string \<Rightarrow> application_config \<Rightarrow> (connection, app_line list) run" where
  "validate_application uris sqlite hash c =
     andThen (lift_result (make_transport uris c)) (\<lambda>_. describe sqlite hash c)"

section \<open>Laws\<close>

text \<open>The database is opened only after the file it will use, and every side file, was hardened.\<close>

lemma restricted_grows: "restricting P m \<Longrightarrow> fs_restricted fs \<subseteq> fs_restricted (snd (m fs))"
  by (auto simp: restricting_def only_restricts_def)

lemma harden_if_present_grows: "\<exists>P. restricting P (harden_if_present w f)"
  unfolding harden_if_present_def
  by (rule exI [of _ "{normal_path w f, parent_path (normal_path w f)}"])
    (use restricting_prepare [of w f] in \<open>auto simp: restricting_def andThen_def get_state_def ret_def\<close>)

lemma forM_grows:
  assumes "\<And>x. x \<in> set xs \<Longrightarrow> \<exists>P. restricting P (f x)"
  shows "fs_restricted fs \<subseteq> fs_restricted (snd (forM f xs fs))"
  using assms
proof (induction xs arbitrary: fs)
  case Nil
  show ?case by (simp add: ret_def)
next
  case (Cons x xs)
  obtain r fs1 where first: "f x fs = (r, fs1)" by (metis surj_pair)
  obtain P where "restricting P (f x)" using Cons.prems by auto
  from restricted_grows [OF this, of fs] first have "fs_restricted fs \<subseteq> fs_restricted fs1" by simp
  moreover have "fs_restricted fs1 \<subseteq> fs_restricted (snd (forM f xs fs1))" using Cons by simp
  ultimately show ?case using first by (auto simp: andThen_def split: sum.split)
qed

lemma prepare_restricts:
  assumes "prepare_private_file w file fs = (Inr u, fs')"
  shows "normal_path w file \<in> fs_restricted fs'" and "parent_path (normal_path w file) \<in> fs_restricted fs'"
proof -
  obtain fs1 fs2 fs3 where p: "harden w (parent_path (normal_path w file)) True fs1 = (Inr (), fs2)"
    "fs3 = add_missing new_file (normal_path w file) fs2" "harden w (normal_path w file) False fs3 = (Inr (), fs')"
    using assms by (auto elim: prepared)
  obtain i j where "fs2 = fs1\<lparr>fs_restricted := insert (parent_path (normal_path w file)) (fs_restricted fs1)\<rparr>"
    "fs' = fs3\<lparr>fs_restricted := insert (normal_path w file) (fs_restricted fs3)\<rparr>"
    using p(1,3) by (auto elim!: harden_done)
  then show "normal_path w file \<in> fs_restricted fs'" and "parent_path (normal_path w file) \<in> fs_restricted fs'"
    using p(2) by (auto simp: add_missing_def)
qed

lemma constructed_database_restricted:
  assumes "construct_application h w files c (fs, d) = (Inr hash, (fs', d'))"
  shows "normal_path w (cfg_database c) \<in> fs_restricted fs'" and "verify_model_files h files c = Inr hash"
proof -
  obtain fs1 d1 where steps: "harden_database w (cfg_database c) fs = (Inr (), fs1)" "open_database d = (Inr (), d1)"
    "harden_if_present w (cfg_credential c) fs1 = (Inr (), fs')" "verify_model_files h files c = Inr hash"
    using assms by (auto simp: construct_application_def andThen_Inr_iff lift_result_def on_member_def ret_def split: prod.splits)
  obtain fs0 where p: "prepare_private_file w (cfg_database c) fs = (Inr (), fs0)"
    "forM (\<lambda>suffix. harden_if_present w (cfg_database c @ suffix)) [''-journal'', ''-wal'', ''-shm''] fs0 = (Inr (), fs1)"
    using steps(1) by (auto simp: harden_database_def andThen_Inr_iff simp del: forM.simps)
  have "fs_restricted fs0 \<subseteq> fs_restricted fs1"
    using forM_grows [of _ "\<lambda>suffix. harden_if_present w (cfg_database c @ suffix)"] harden_if_present_grows p(2) by (metis snd_conv)
  moreover have "fs_restricted fs1 \<subseteq> fs_restricted fs'"
    using harden_if_present_grows restricted_grows steps(3) by (metis snd_conv)
  ultimately show "normal_path w (cfg_database c) \<in> fs_restricted fs'" using prepare_restricts(1) [OF p(1)] by blast
  show "verify_model_files h files c = Inr hash" by (rule steps(4))
qed

text \<open>With \<open>--require-deployment\<close> a client of any mode has a deployment configuration.\<close>

lemma required_deployment: "client_mode_of opts cfg = Inr mode \<Longrightarrow> opt_require_deployment opts \<Longrightarrow> cfg_deployment cfg"
  by (auto simp: client_mode_of_def split: if_splits)

end
