(* ===== verification/SyncWorker.thy ===== *)
theory SyncWorker
  imports Service
begin

text \<open>
  The thread of the synchronisation worker (\<^verbatim>\<open>edge_app/sync/sync_worker.cpp\<close>): its loop, the wake flag
  under the mutex, the condition variable, and the destructor that asks it to stop.
\<close>

section \<open>State and steps\<close>

text \<open>
  \<open>Deciding\<close>: the predicate of the wait was false and the mutex is still held; \<open>Sleeping\<close>: the mutex is
  released. \<open>wk_notified\<close>: a notification has reached the sleeping thread.
\<close>

datatype worker_place = Starting | Looping | Turned | Deciding | Sleeping | Ended

record worker =
  wk_place :: worker_place
  wk_wake :: bool
  wk_stop :: bool
  wk_notified :: bool
  wk_status :: string
  wk_work :: "service \<times> connection"

definition new_worker :: "service \<times> connection \<Rightarrow> worker" where
  "new_worker w = \<lparr>wk_place = Starting, wk_wake = False, wk_stop = False, wk_notified = False, wk_status = ''starting'', wk_work = w\<rparr>"

definition start_thread :: "bool \<Rightarrow> worker \<Rightarrow> worker" where
  "start_thread apartment s =
     (if apartment then s\<lparr>wk_place := Looping\<rparr> else s\<lparr>wk_status := ''worker_initialization_failed'', wk_place := Ended\<rparr>)"

definition take_turn :: "(service \<times> connection \<Rightarrow> string \<times> (service \<times> connection)) \<Rightarrow> worker \<Rightarrow> worker" where
  "take_turn turn s =
     (if wk_stop s then s\<lparr>wk_place := Ended\<rparr>
      else case turn (wk_work s) of (message, w) \<Rightarrow> s\<lparr>wk_status := message, wk_work := w, wk_place := Turned\<rparr>)"

definition leave_wait :: "worker \<Rightarrow> worker" where
  "leave_wait s = s\<lparr>wk_wake := False, wk_notified := False, wk_place := Looping\<rparr>"

definition check_wait :: "worker \<Rightarrow> worker" where
  "check_wait s = (if wk_wake s \<or> wk_stop s then leave_wait s else s\<lparr>wk_notified := False, wk_place := Deciding\<rparr>)"

text \<open>The next step of the thread itself; \<open>None\<close>: it sleeps or has ended.\<close>

definition own_step :: "bool \<Rightarrow> (service \<times> connection \<Rightarrow> string \<times> (service \<times> connection)) \<Rightarrow> worker \<Rightarrow> worker option" where
  "own_step apartment turn s =
     (case wk_place s of
        Starting \<Rightarrow> Some (start_thread apartment s)
      | Looping \<Rightarrow> Some (take_turn turn s)
      | Turned \<Rightarrow> Some (check_wait s)
      | Deciding \<Rightarrow> Some (s\<lparr>wk_place := Sleeping\<rparr>)
      | Sleeping \<Rightarrow> if wk_notified s then Some (check_wait s) else None
      | Ended \<Rightarrow> None)"

fun own_steps :: "nat \<Rightarrow> bool \<Rightarrow> (service \<times> connection \<Rightarrow> string \<times> (service \<times> connection)) \<Rightarrow> worker \<Rightarrow> worker option" where
  "own_steps 0 apartment turn s = Some s"
| "own_steps (Suc n) apartment turn s = Option.bind (own_step apartment turn s) (own_steps n apartment turn)"

text \<open>One second has passed.\<close>

definition timed_out :: "worker \<Rightarrow> worker" where
  "timed_out s = (if wk_place s = Sleeping then leave_wait s else s)"

definition notify :: "worker \<Rightarrow> worker" where
  "notify s = (if wk_place s = Sleeping then s\<lparr>wk_notified := True\<rparr> else s)"

text \<open>\<open>wake()\<close> and the network callback hold the mutex, which the thread has while it decides.\<close>

definition wake :: "worker \<Rightarrow> worker option" where
  "wake s = (if wk_place s = Deciding then None else Some (notify (s\<lparr>wk_wake := True\<rparr>)))"

text \<open>The destructor: \<open>request_stop\<close> and \<open>notify_all\<close>, neither under the mutex.\<close>

definition request_stop :: "worker \<Rightarrow> worker" where
  "request_stop s = s\<lparr>wk_stop := True\<rparr>"

section \<open>Histories\<close>

text \<open>
  The flag \<open>d\<close> of a history: somebody has called \<open>wake()\<close> and no turn has begun since. A notification
  may also come for no reason. Other threads use the service and the database, but only the worker's
  own turns change its latch.
\<close>

inductive worker_run :: "bool \<Rightarrow> worker \<Rightarrow> bool" where
  begun: "\<not> svc_blocked (fst w) \<Longrightarrow> worker_run False (new_worker w)"
| stepped: "worker_run d s \<Longrightarrow>
    own_step apartment (worker_turn api base64 device hash credential env elapsed genv now) s = Some t \<Longrightarrow>
    worker_run (d \<and> wk_place s \<noteq> Looping) t"
| expired: "worker_run d s \<Longrightarrow> worker_run d (timed_out s)"
| notified: "worker_run d s \<Longrightarrow> worker_run d (notify s)"
| woken: "worker_run d s \<Longrightarrow> wake s = Some t \<Longrightarrow> worker_run True t"
| stopping: "worker_run d s \<Longrightarrow> worker_run d (request_stop s)"
| shared: "worker_run d s \<Longrightarrow> svc_blocked (fst w) = svc_blocked (fst (wk_work s)) \<Longrightarrow> worker_run d (s\<lparr>wk_work := w\<rparr>)"

definition status_ok :: "worker \<Rightarrow> bool" where
  "status_ok s \<longleftrightarrow> (wk_status s = ''authentication_blocked'' \<longrightarrow> svc_blocked (fst (wk_work s))) \<and>
     (wk_status s = ''running'' \<longrightarrow> \<not> svc_blocked (fst (wk_work s))) \<and>
     wk_status s \<in> {''starting'', ''worker_initialization_failed'', ''authentication_blocked'', ''running'',
       ''sync_error_or_credential_unavailable''}"

definition worker_ok :: "bool \<Rightarrow> worker \<Rightarrow> bool" where
  "worker_ok d s \<longleftrightarrow> status_ok s \<and>
     (d \<longrightarrow> (case wk_place s of Turned \<Rightarrow> wk_wake s | Deciding \<Rightarrow> False | Sleeping \<Rightarrow> wk_wake s \<and> wk_notified s | _ \<Rightarrow> True)) \<and>
     (wk_notified s \<longrightarrow> wk_place s = Sleeping) \<and>
     (wk_place s = Ended \<longrightarrow> wk_stop s \<or> wk_status s = ''worker_initialization_failed'')"

lemmas worker_defs = worker_ok_def own_step_def start_thread_def take_turn_def check_wait_def leave_wait_def timed_out_def
  notify_def wake_def request_stop_def

lemma turn_status:
  assumes "worker_turn api base64 device hash credential env elapsed genv now w = (x, v)"
  shows "status_ok (s\<lparr>wk_status := x, wk_work := v, wk_place := p\<rparr>)"
  using assms by (auto simp: worker_turn_def status_ok_def split: prod.splits sum.splits if_splits)

lemma status_same [simp]:
  "status_ok (s\<lparr>wk_place := p\<rparr>) = status_ok s" "status_ok (s\<lparr>wk_wake := b\<rparr>) = status_ok s"
  "status_ok (s\<lparr>wk_stop := b\<rparr>) = status_ok s" "status_ok (s\<lparr>wk_notified := b\<rparr>) = status_ok s"
  by (simp_all add: status_ok_def)

lemma check_wait_ok: "worker_ok d s \<Longrightarrow> wk_place s \<in> {Turned, Sleeping} \<Longrightarrow> worker_ok d (check_wait s)"
  by (cases "wk_place s") (simp_all add: worker_ok_def check_wait_def leave_wait_def)

lemma start_thread_ok:
  assumes "worker_ok d s" and "wk_place s = Starting"
  shows "worker_ok d (start_thread apartment s)"
proof (cases apartment)
  case True
  with assms show ?thesis by (simp add: worker_ok_def start_thread_def)
next
  case False
  have "status_ok (s\<lparr>wk_status := ''worker_initialization_failed'', wk_place := Ended\<rparr>)" by (simp add: status_ok_def)
  with assms False show ?thesis by (simp add: worker_ok_def start_thread_def)
qed

lemma own_step_ok:
  assumes "worker_ok d s" and "own_step apartment (worker_turn api base64 device hash credential env elapsed genv now) s = Some t"
  shows "worker_ok (d \<and> wk_place s \<noteq> Looping) t"
proof (cases "wk_place s")
  case Starting
  with assms start_thread_ok show ?thesis by (auto simp: own_step_def)
next
  case Looping
  show ?thesis
  proof (cases "wk_stop s")
    case True
    with assms Looping have "t = s\<lparr>wk_place := Ended\<rparr>" by (simp add: own_step_def take_turn_def)
    with assms(1) True Looping show ?thesis by (simp add: worker_ok_def)
  next
    case False
    obtain x v where x: "worker_turn api base64 device hash credential env elapsed genv now (wk_work s) = (x, v)"
      by (cases "worker_turn api base64 device hash credential env elapsed genv now (wk_work s)") blast
    have "t = s\<lparr>wk_status := x, wk_work := v, wk_place := Turned\<rparr>"
      using assms(2) Looping False x by (simp add: own_step_def take_turn_def)
    with turn_status [OF x, where s = s and p = Turned] assms(1) Looping show ?thesis by (simp add: worker_ok_def)
  qed
next
  case Turned
  with assms check_wait_ok show ?thesis by (auto simp: own_step_def)
next
  case Deciding
  with assms have "t = s\<lparr>wk_place := Sleeping\<rparr>" by (simp add: own_step_def)
  with assms(1) Deciding show ?thesis by (simp add: worker_ok_def)
next
  case Sleeping
  with assms check_wait_ok show ?thesis by (auto simp: own_step_def split: if_splits)
qed (use assms in \<open>simp add: own_step_def\<close>)

lemma wake_ok: "worker_ok d s \<Longrightarrow> wake s = Some t \<Longrightarrow> worker_ok True t"
  by (cases "wk_place s") (auto simp: worker_ok_def wake_def notify_def)

lemma worker_run_ok: "worker_run d s \<Longrightarrow> worker_ok d s"
proof (induction rule: worker_run.induct)
  case (begun w)
  then show ?case by (simp add: worker_ok_def new_worker_def status_ok_def)
next
  case (stepped d s apartment api base64 device hash credential env elapsed genv now t)
  show ?case by (rule own_step_ok [OF stepped.IH stepped.hyps(2)])
next
  case (expired d s)
  then show ?case by (simp add: worker_ok_def timed_out_def leave_wait_def)
next
  case (notified d s)
  then show ?case by (cases "wk_place s") (simp_all add: worker_ok_def notify_def)
next
  case (woken d s t)
  then show ?case using wake_ok by blast
next
  case (stopping d s)
  then show ?case by (cases "wk_place s") (simp_all add: worker_ok_def request_stop_def)
next
  case (shared d s w)
  then have "status_ok (s\<lparr>wk_work := w\<rparr>)" by (simp add: worker_ok_def status_ok_def)
  with shared.IH show ?case by (cases "wk_place s") (simp_all add: worker_ok_def)
qed

text \<open>The steps the thread has left once it is asked to stop.\<close>

definition stop_steps :: "worker \<Rightarrow> nat" where
  "stop_steps s =
     (case wk_place s of
        Starting \<Rightarrow> 2 | Looping \<Rightarrow> 1 | Turned \<Rightarrow> 2 | Deciding \<Rightarrow> 1
      | Sleeping \<Rightarrow> (if wk_notified s then 2 else 0) | Ended \<Rightarrow> 0)"

text \<open>
  C5: The thread of the worker neither misses a wake-up nor outlives a stop. In every history: after a
  \<open>wake()\<close> that no turn has answered yet, and unless the thread has ended, at most one step of its own,
  without waiting for the timeout, brings it back to the head of its loop. Asked to stop, it takes no
  further turn and ends after at most two steps of its own, unless the request came between the check of
  the condition and the sleep: then the second it waits has to pass first. The published status never
  contradicts the authentication latch.
\<close>

theorem worker_wakes_and_stops:
  assumes "worker_run d s"
  shows "(d \<and> wk_place s \<noteq> Ended \<longrightarrow> (\<exists>n \<le> 1. \<exists>t. own_steps n True turn s = Some t \<and> wk_place t = Looping)) \<and>
    (wk_stop s \<longrightarrow> (\<exists>n \<le> 2. \<exists>t. own_steps n True turn s = Some t \<and> wk_work t = wk_work s \<and>
      (wk_place t = Ended \<or> (wk_place t = Sleeping \<and> \<not> wk_notified t \<and>
         (\<exists>u. own_steps 1 True turn (timed_out t) = Some u \<and> wk_place u = Ended \<and> wk_work u = wk_work s))))) \<and>
    (wk_status s = ''authentication_blocked'' \<longrightarrow> svc_blocked (fst (wk_work s))) \<and>
    (wk_status s = ''running'' \<longrightarrow> \<not> svc_blocked (fst (wk_work s)))"
proof (intro conjI impI)
  note ok = worker_run_ok [OF assms]
  show "\<exists>n \<le> 1. \<exists>t. own_steps n True turn s = Some t \<and> wk_place t = Looping" if "d \<and> wk_place s \<noteq> Ended"
  proof (cases "wk_place s = Looping")
    case True
    then show ?thesis by (intro exI [of _ 0]) simp
  next
    case False
    with ok that have "\<exists>t. own_steps 1 True turn s = Some t \<and> wk_place t = Looping"
      by (cases "wk_place s") (auto simp: worker_defs)
    then show ?thesis by blast
  qed
  assume stop: "wk_stop s"
  show "\<exists>n \<le> 2. \<exists>t. own_steps n True turn s = Some t \<and> wk_work t = wk_work s \<and>
      (wk_place t = Ended \<or> (wk_place t = Sleeping \<and> \<not> wk_notified t \<and>
         (\<exists>u. own_steps 1 True turn (timed_out t) = Some u \<and> wk_place u = Ended \<and> wk_work u = wk_work s)))"
  proof (rule exI [of _ "stop_steps s"], intro conjI)
    show "stop_steps s \<le> 2" by (simp add: stop_steps_def split: worker_place.split)
    show "\<exists>t. own_steps (stop_steps s) True turn s = Some t \<and> wk_work t = wk_work s \<and>
      (wk_place t = Ended \<or> (wk_place t = Sleeping \<and> \<not> wk_notified t \<and>
         (\<exists>u. own_steps 1 True turn (timed_out t) = Some u \<and> wk_place u = Ended \<and> wk_work u = wk_work s)))"
      using stop ok by (cases "wk_place s") (auto simp: stop_steps_def worker_defs numeral_2_eq_2)
  qed
qed (use worker_run_ok [OF assms] in \<open>simp_all add: worker_ok_def status_ok_def\<close>)

text \<open>A thread that found no credential falls asleep just as it is asked to stop; another one is woken there.\<close>

theorem worker_wakes_and_stops_witness:
  "\<exists>s t. worker_run False s \<and> wk_stop s \<and> wk_place s = Sleeping \<and> \<not> wk_notified s \<and>
     (\<exists>u. own_steps 1 True (\<lambda>w. ([], w)) (timed_out s) = Some u \<and> wk_place u = Ended) \<and>
     worker_run True t \<and> wk_place t = Sleeping \<and>
     (\<exists>n \<le> 1. \<exists>u. own_steps n True (\<lambda>w. ([], w)) t = Some u \<and> wk_place u = Looping)"
proof -
  let ?w = "(new_service, sample_connection)"
  have turn: "worker_turn api base64 device hash (Inl e) env elapsed genv now w = (''sync_error_or_credential_unavailable'', w)"
    for api base64 device hash e env elapsed genv now w
    by (simp add: worker_turn_def andThen_def lift_result_def)
  define s3 where "s3 = (new_worker ?w)\<lparr>wk_status := ''sync_error_or_credential_unavailable'', wk_place := Deciding\<rparr>"
  have "worker_run False ((new_worker ?w)\<lparr>wk_place := Looping\<rparr>)"
    using worker_run.stepped [OF worker_run.begun, of ?w True] by (simp add: new_worker_def own_step_def start_thread_def new_service_def)
  from worker_run.stepped [OF this, where credential = "Inl (RuntimeError [])"]
  have "worker_run False ((new_worker ?w)\<lparr>wk_status := ''sync_error_or_credential_unavailable'', wk_place := Turned\<rparr>)"
    by (simp add: new_worker_def own_step_def take_turn_def turn)
  from worker_run.stepped [OF this]
  have s3: "worker_run False s3" by (simp add: s3_def new_worker_def own_step_def check_wait_def)
  define s where "s = (request_stop s3)\<lparr>wk_place := Sleeping\<rparr>"
  define t where "t = s3\<lparr>wk_place := Sleeping, wk_wake := True, wk_notified := True\<rparr>"
  have s: "worker_run False s" "wk_stop s" "wk_place s = Sleeping" "\<not> wk_notified s"
    using worker_run.stepped [OF worker_run.stopping [OF s3]]
    by (simp_all add: s_def s3_def new_worker_def own_step_def request_stop_def)
  have "worker_run False (s3\<lparr>wk_place := Sleeping\<rparr>)"
    using worker_run.stepped [OF s3] by (simp add: s3_def new_worker_def own_step_def)
  from worker_run.woken [OF this] have t: "worker_run True t" "wk_place t = Sleeping"
    by (simp_all add: t_def s3_def new_worker_def wake_def notify_def)
  have "own_step True (\<lambda>w. ([], w)) s = None" using s by (simp add: own_step_def)
  then have asleep: "own_steps n True (\<lambda>w. ([], w)) s = Some u \<Longrightarrow> u = s" for n u by (cases n) simp_all
  from worker_wakes_and_stops [OF s(1), of "\<lambda>w. ([], w)"] s asleep
  have "\<exists>u. own_steps 1 True (\<lambda>w. ([], w)) (timed_out s) = Some u \<and> wk_place u = Ended" by fastforce
  moreover from worker_wakes_and_stops [OF t(1), of "\<lambda>w. ([], w)"] t(2)
  have "\<exists>n \<le> 1. \<exists>u. own_steps n True (\<lambda>w. ([], w)) t = Some u \<and> wk_place u = Looping" by simp
  ultimately show ?thesis using s t by blast
qed

end
