(* ===== verification/TextureImport.thy ===== *)
theory TextureImport
  imports Scrfd
begin

text \<open>
  \<^verbatim>\<open>src/vision_runtime/common/camera_texture_import.hpp\<close>: the cache of camera textures imported without
  a copy. A texture object is a number; the tag the importers put into its private data and the
  counter of tags are shared by all importers. Direct3D answers through an \<open>import_device\<close>.
\<close>

section \<open>Textures and tags\<close>

record texture_desc =
  td_width :: nat
  td_height :: nat
  td_format :: nat
  td_array_size :: nat
  td_mip_levels :: nat
  td_shader_resource :: bool
  td_keyed_mutex :: bool
  td_nt_handle :: bool

record import_device =
  texture_desc_of :: "nat \<Rightarrow> texture_desc"
  set_tag_ok :: "nat \<Rightarrow> bool"
  import_stage_ok :: "nat \<Rightarrow> string \<Rightarrow> bool"
  import_throws :: "nat \<Rightarrow> bool"

record texture_tags =
  tag_table :: "nat \<Rightarrow> nat option"
  tag_counter :: nat

definition tag_of :: "import_device \<Rightarrow> nat \<Rightarrow> texture_tags \<Rightarrow> nat option \<times> texture_tags" where
  "tag_of dev texture tags =
     (case tag_table tags texture of
        Some k \<Rightarrow> (Some k, tags)
      | None \<Rightarrow>
          let k = tag_counter tags + 1; tags = tags\<lparr>tag_counter := k\<rparr>
          in if \<not> set_tag_ok dev texture then (None, tags)
             else (Some k, tags\<lparr>tag_table := (tag_table tags)(texture \<mapsto> k)\<rparr>))"

section \<open>The importer\<close>

text \<open>Views are named by the texture they show; the index holds what its iterators point to.\<close>

record importer =
  im_enabled :: bool
  im_limit :: nat
  im_hits :: nat
  im_misses :: nat
  im_lru :: "(nat \<times> nat) list"
  im_index :: "nat \<Rightarrow> nat option"

definition env_enabled :: "string option \<Rightarrow> bool" where
  "env_enabled v = (case v of Some (c # _) \<Rightarrow> c \<noteq> CHR ''0'' | _ \<Rightarrow> True)"

definition new_importer :: "string option \<Rightarrow> bool \<Rightarrow> nat \<Rightarrow> importer" where
  "new_importer env devices max_entries =
     \<lparr>im_enabled = (env_enabled env \<and> devices), im_limit = (if max_entries = 0 then 1 else max_entries),
      im_hits = 0, im_misses = 0, im_lru = [], im_index = Map.empty\<rparr>"

definition import_stages :: "string list" where
  "import_stages = [''QueryInterface(IDXGIResource1)'', ''IDXGIResource1::CreateSharedHandle'',
     ''ID3D12Device::OpenSharedHandle'', ''ID3D11On12Device::CreateWrappedResource'',
     ''CreateShaderResourceView1 (Y plane)'', ''CreateShaderResourceView1 (UV plane)'', ''QueryInterface hasil wrap/SRV'']"

definition import_new :: "import_device \<Rightarrow> nat \<Rightarrow> string + nat" where
  "import_new dev texture =
     (let src = texture_desc_of dev texture
      in if td_format src \<noteq> dxgi_nv12 then Inl ''pemeriksaan awal: format bukan NV12''
         else if td_array_size src \<noteq> 1 \<or> td_mip_levels src \<noteq> 1 then Inl ''pemeriksaan awal: ArraySize/MipLevels bukan 1''
         else if \<not> td_shader_resource src then Inl ''pemeriksaan awal: tidak ada BIND_SHADER_RESOURCE''
         else if td_keyed_mutex src then Inl ''pemeriksaan awal: texture memakai keyed mutex''
         else if \<not> td_nt_handle src then Inl ''pemeriksaan awal: texture tidak SHARED_NTHANDLE''
         else case List.find (\<lambda>s. \<not> import_stage_ok dev texture s) import_stages of
                Some s \<Rightarrow> Inl s
              | None \<Rightarrow> Inr texture)"

definition disable_import :: "importer \<Rightarrow> importer" where
  "disable_import im = im\<lparr>im_enabled := False, im_lru := [], im_index := Map.empty\<rparr>"

definition move_to_front :: "nat \<Rightarrow> (nat \<times> nat) list \<Rightarrow> (nat \<times> nat) list" where
  "move_to_front k xs = filter (\<lambda>e. fst e = k) xs @ filter (\<lambda>e. fst e \<noteq> k) xs"

function evict :: "importer \<Rightarrow> importer" where
  "evict im =
     (if length (im_lru im) > im_limit im
      then evict (im\<lparr>im_index := (im_index im)(fst (last (im_lru im)) := None), im_lru := butlast (im_lru im)\<rparr>)
      else im)"
  by pat_completeness auto

termination
  by (relation "measure (\<lambda>im. length (im_lru im))") auto

declare evict.simps [simp del]

definition acquire_views :: "import_device \<Rightarrow> gpu_frame \<Rightarrow> nat \<Rightarrow> importer \<times> texture_tags \<Rightarrow> nat option \<times> importer \<times> texture_tags" where
  "acquire_views dev f texture w =
     (case w of (im, tags) \<Rightarrow>
       if \<not> im_enabled im \<or> \<not> frame_valid f then (None, im, tags)
       else if import_throws dev texture then (None, disable_import im, tags)
       else case tag_of dev texture tags of
              (None, tags) \<Rightarrow> (None, disable_import im, tags)
            | (Some k, tags) \<Rightarrow>
                (case im_index im k of
                   Some v \<Rightarrow> (Some v, im\<lparr>im_lru := move_to_front k (im_lru im), im_hits := im_hits im + 1\<rparr>, tags)
                 | None \<Rightarrow>
                     (case import_new dev texture of
                        Inl s \<Rightarrow> (None, disable_import im, tags)
                      | Inr v \<Rightarrow>
                          (Some v, evict (im\<lparr>im_misses := im_misses im + 1, im_lru := (k, v) # im_lru im,
                                           im_index := (im_index im)(k \<mapsto> v)\<rparr>), tags))))"

section \<open>The cache shows the right texture\<close>

definition tags_ok :: "texture_tags \<Rightarrow> bool" where
  "tags_ok tags \<longleftrightarrow> (\<forall>t k. tag_table tags t = Some k \<longrightarrow> k \<le> tag_counter tags) \<and>
     (\<forall>t u k. tag_table tags t = Some k \<longrightarrow> tag_table tags u = Some k \<longrightarrow> t = u)"

definition tags_extend :: "texture_tags \<Rightarrow> texture_tags \<Rightarrow> bool" where
  "tags_extend a b \<longleftrightarrow> tag_table a \<subseteq>\<^sub>m tag_table b \<and> tag_counter a \<le> tag_counter b"

definition importer_ok :: "texture_tags \<Rightarrow> importer \<Rightarrow> bool" where
  "importer_ok tags im \<longleftrightarrow>
     0 < im_limit im \<and> length (im_lru im) \<le> im_limit im \<and> distinct (map fst (im_lru im)) \<and>
     im_index im = map_of (im_lru im) \<and> (\<not> im_enabled im \<longrightarrow> im_lru im = []) \<and>
     (\<forall>(k, v) \<in> set (im_lru im). tag_table tags v = Some k)"

lemma new_importer_ok: "importer_ok tags (new_importer env devices n)"
  by (simp add: importer_ok_def new_importer_def)

lemma disable_ok: "importer_ok tags im \<Longrightarrow> importer_ok tags' (disable_import im)"
  by (simp add: importer_ok_def disable_import_def)

text \<open>Tags other importers add do not matter: a texture keeps its tag.\<close>

lemma importer_ok_extend: "importer_ok tags im \<Longrightarrow> tags_extend tags tags' \<Longrightarrow> importer_ok tags' im"
  unfolding importer_ok_def tags_extend_def map_le_def by (fastforce simp: dom_def)

lemma tag_of_ok:
  assumes "tags_ok tags" and "tag_of dev t tags = (r, tags')"
  shows "tags_ok tags'" and "tags_extend tags tags'" and "r = Some k \<Longrightarrow> tag_table tags' t = Some k"
  using assms
  by (fastforce simp: tag_of_def tags_ok_def tags_extend_def map_le_def Let_def split: option.splits if_splits)+

lemma evict_ok:
  assumes "distinct (map fst (im_lru im))" and "im_index im = map_of (im_lru im)"
    and "\<forall>(k, v) \<in> set (im_lru im). tag_table tags v = Some k" and "0 < im_limit im" and "im_enabled im"
  shows "importer_ok tags (evict im) \<and> im_enabled (evict im) \<and> im_hits (evict im) = im_hits im \<and> im_misses (evict im) = im_misses im"
  using assms
proof (induction im rule: evict.induct)
  case (1 im)
  show ?case
  proof (cases "length (im_lru im) > im_limit im")
    case False
    then show ?thesis using 1(2-6) by (simp add: evict.simps [of im] importer_ok_def)
  next
    case True
    then have ne: "im_lru im \<noteq> []" by auto
    then obtain xs k v where xs: "im_lru im = xs @ [(k, v)]" by (metis append_butlast_last_id surj_pair)
    have "(map_of (im_lru im))(k := None) = map_of xs"
    proof (rule ext)
      fix j
      have "map_of xs k = None" using 1(2) by (simp add: xs map_of_eq_None_iff)
      then show "((map_of (im_lru im))(k := None)) j = map_of xs j"
        by (cases "map_of xs j") (auto simp: xs map_add_def)
    qed
    let ?n = "im\<lparr>im_index := (im_index im)(fst (last (im_lru im)) := None), im_lru := butlast (im_lru im)\<rparr>"
    have n: "im_lru ?n = xs" "im_index ?n = map_of xs" "im_limit ?n = im_limit im" "im_enabled ?n = im_enabled im"
      "im_hits ?n = im_hits im" "im_misses ?n = im_misses im"
      using \<open>(map_of (im_lru im))(k := None) = map_of xs\<close> 1(3) by (simp_all add: xs)
    have "distinct (map fst xs)" "\<forall>(k, v) \<in> set xs. tag_table tags v = Some k" using 1(2,4) by (simp_all add: xs)
    with 1(1) [OF True] n 1(5,6) have "importer_ok tags (evict ?n) \<and> im_enabled (evict ?n) \<and>
        im_hits (evict ?n) = im_hits im \<and> im_misses (evict ?n) = im_misses im" by metis
    moreover have "evict im = evict ?n" using True by (subst evict.simps) simp
    ultimately show ?thesis by simp
  qed
qed

lemma move_to_front_ok:
  assumes "distinct (map fst xs)"
  shows "distinct (map fst (move_to_front k xs))" and "set (move_to_front k xs) = set xs"
    and "length (move_to_front k xs) = length xs" and "map_of (move_to_front k xs) = map_of xs"
proof -
  show set: "set (move_to_front k xs) = set xs" by (auto simp: move_to_front_def)
  show len: "length (move_to_front k xs) = length xs"
    by (simp add: move_to_front_def sum_length_filter_compl)
  have fst_set: "set (map fst (move_to_front k xs)) = set (map fst xs)" using set by simp
  have "card (set (map fst (move_to_front k xs))) = length (map fst (move_to_front k xs))"
    unfolding fst_set length_map len using distinct_card [OF assms] by simp
  then show dist: "distinct (map fst (move_to_front k xs))" by (rule card_distinct)
  show "map_of (move_to_front k xs) = map_of xs"
  proof (rule ext)
    fix j
    show "map_of (move_to_front k xs) j = map_of xs j"
      using map_of_eq_Some_iff [OF dist] map_of_eq_Some_iff [OF assms] set by (metis not_None_eq)
  qed
qed

text \<open>
  Acquiring keeps the cache consistent and never yields the views of another texture.
\<close>

lemma acquire_ok:
  assumes "tags_ok tags" and "importer_ok tags im" and "acquire_views dev f texture (im, tags) = (r, im', tags')"
  shows "tags_ok tags'" and "tags_extend tags tags'" and "importer_ok tags' im'" and "r = Some v \<Longrightarrow> v = texture"
    and "\<not> im_enabled im \<Longrightarrow> r = None \<and> im' = im" and "r = None \<Longrightarrow> frame_valid f \<Longrightarrow> \<not> im_enabled im'"
proof -
  have refl: "tags_extend tags tags" by (simp add: tags_extend_def)
  obtain q t1 where q: "tag_of dev texture tags = (q, t1)" by (metis surj_pair)
  note t1 = tag_of_ok [OF assms(1) q]
  note im1 = importer_ok_extend [OF assms(2) t1(2)]
  consider (off) "\<not> im_enabled im \<or> \<not> frame_valid f" "r = None" "im' = im" "tags' = tags"
    | (lost) "im_enabled im" "r = None" "im' = disable_import im" "tags' = tags \<or> tags' = t1"
    | (hit) k u where "im_enabled im" "q = Some k" "im_index im k = Some u" "r = Some u" "tags' = t1"
        "im' = im\<lparr>im_lru := move_to_front k (im_lru im), im_hits := im_hits im + 1\<rparr>"
    | (miss) k where "im_enabled im" "q = Some k" "im_index im k = None" "r = Some texture" "tags' = t1"
        "im' = evict (im\<lparr>im_misses := im_misses im + 1, im_lru := (k, texture) # im_lru im,
                                           im_index := (im_index im)(k \<mapsto> texture)\<rparr>)"
  proof (cases "im_enabled im \<and> frame_valid f \<and> \<not> import_throws dev texture")
    case False
    show thesis
    proof (cases "im_enabled im \<and> frame_valid f")
      case True
      with False assms(3) have "im_enabled im" "r = None" "im' = disable_import im" "tags' = tags"
        by (simp_all add: acquire_views_def)
      then show thesis using lost by blast
    next
      case no: False
      then have "acquire_views dev f texture (im, tags) = (None, im, tags)" by (auto simp: acquire_views_def)
      with assms(3) have "r = None" "im' = im" "tags' = tags" by simp_all
      with no show thesis using off by blast
    qed
  next
    case True
    show thesis
    proof (cases q)
      case None
      with True assms(3) q have "r = None" "im' = disable_import im" "tags' = t1" by (simp_all add: acquire_views_def)
      with True show thesis using lost by blast
    next
      case (Some k)
      show thesis
      proof (cases "im_index im k")
        case (Some u)
        with True \<open>q = Some k\<close> assms(3) q have "r = Some u" "tags' = t1"
          "im' = im\<lparr>im_lru := move_to_front k (im_lru im), im_hits := im_hits im + 1\<rparr>" by (simp_all add: acquire_views_def)
        with True \<open>q = Some k\<close> Some show thesis using hit by blast
      next
        case None
        have new: "import_new dev texture = Inr texture \<or> (\<exists>s. import_new dev texture = Inl s)"
          by (auto simp: import_new_def Let_def split: option.splits)
        then show thesis
        proof
          assume "import_new dev texture = Inr texture"
          with None True \<open>q = Some k\<close> assms(3) q have "r = Some texture" "tags' = t1"
            "im' = evict (im\<lparr>im_misses := im_misses im + 1, im_lru := (k, texture) # im_lru im,
                                           im_index := (im_index im)(k \<mapsto> texture)\<rparr>)" by (auto simp: acquire_views_def)
          with True \<open>q = Some k\<close> None show thesis using miss by blast
        next
          assume "\<exists>s. import_new dev texture = Inl s"
          then obtain e where "import_new dev texture = Inl e" by blast
          with None True \<open>q = Some k\<close> assms(3) q have "r = None" "im' = disable_import im" "tags' = t1"
            by (simp_all add: acquire_views_def)
          with True show thesis using lost by blast
        qed
      qed
    qed
  qed
  then have "tags_ok tags' \<and> tags_extend tags tags' \<and> importer_ok tags' im' \<and> (\<forall>v. r = Some v \<longrightarrow> v = texture) \<and>
    (\<not> im_enabled im \<longrightarrow> r = None \<and> im' = im) \<and> (r = None \<longrightarrow> frame_valid f \<longrightarrow> \<not> im_enabled im')"
  proof cases
    case off
    with assms refl show ?thesis by auto
  next
    case lost
    with assms refl t1 disable_ok show ?thesis by (auto simp: disable_import_def)
  next
    case hit
    have ok: "distinct (map fst (im_lru im))" "im_index im = map_of (im_lru im)" using im1 by (simp_all add: importer_ok_def)
    from hit(3) ok(2) have "(k, u) \<in> set (im_lru im)" by (simp add: map_of_SomeD)
    with im1 have "tag_table t1 u = Some k" by (auto simp: importer_ok_def)
    with t1(1) t1(3) hit(2) have "u = texture" unfolding tags_ok_def by blast
    moreover have "importer_ok t1 im'"
      using im1 hit move_to_front_ok [OF ok(1), of k] by (auto simp: importer_ok_def)
    ultimately show ?thesis using hit t1 by auto
  next
    case miss
    have ok: "distinct (map fst (im_lru im))" "im_index im = map_of (im_lru im)" "0 < im_limit im"
      "\<forall>(k, v) \<in> set (im_lru im). tag_table t1 v = Some k" using im1 by (simp_all add: importer_ok_def)
    have "k \<notin> fst ` set (im_lru im)" using miss(3) ok(2) by (simp add: map_of_eq_None_iff)
    with evict_ok [of "im\<lparr>im_misses := im_misses im + 1, im_lru := (k, texture) # im_lru im,
                                           im_index := (im_index im)(k \<mapsto> texture)\<rparr>" t1] ok miss t1(3)
    have "importer_ok t1 im'" by simp
    with miss t1 show ?thesis by auto
  qed
  then show "tags_ok tags'" "tags_extend tags tags'" "importer_ok tags' im'" "r = Some v \<Longrightarrow> v = texture"
    "\<not> im_enabled im \<Longrightarrow> r = None \<and> im' = im" "r = None \<Longrightarrow> frame_valid f \<Longrightarrow> \<not> im_enabled im'" by auto
qed

end
