(* ===== verification/GpuPreprocess.thy ===== *)
theory GpuPreprocess
  imports TextureImport
begin

text \<open>
  The GPU preprocessors, \<^verbatim>\<open>gpu_preprocessor.cpp\<close> of \<^verbatim>\<open>src/vision_runtime/arcface\<close>, \<^verbatim>\<open>liveness\<close> and
  \<^verbatim>\<open>scrfd\<close>: how their resources are created, and in which order commands go to the camera's queue and
  to the Direct3D 12 queue they share with WinML. A call that returns an HRESULT is a named stage; the
  machine says which stages succeed, and messages leave out the HRESULT. What was submitted is kept as
  a trace, and a monitor says what a trace of commands means.
\<close>

section \<open>Machine and commands\<close>

record gpu_machine =
  gm_import :: import_device
  gm_device_of :: "nat \<Rightarrow> nat option"
  gm_stage_ok :: "string \<Rightarrow> bool"
  gm_interface :: "string \<Rightarrow> bool"
  gm_zero_copy :: "string option"
  gm_coverage :: single

datatype gpu_resource = TensorBuffer | CameraTexture nat

datatype gpu_source = Imported nat | SharedCopy

record shader_params =
  sp_source :: "nat \<times> nat"
  sp_target :: "nat \<times> nat"
  sp_matrix :: "single list"

datatype gpu_command =
    CopyFrame nat
  | SignalFence nat
  | FlushCamera
  | WaitFence nat
  | UploadParams shader_params
  | AcquireResource gpu_resource
  | BindSource gpu_source
  | Dispatch nat nat
  | ReduceCoverage
  | UnbindAll
  | ReleaseResource gpu_resource
  | CopyCoverage
  | FlushInterop

record gpu_buffers =
  gb_shared :: "nat \<times> nat"
  gb_tensor_bytes :: nat
  gb_tensor_shape :: "int list"
  gb_tensor_elements :: nat
  gb_coverage :: "(nat \<times> nat \<times> nat) option"

record gpu_preprocessor =
  gp_config :: "nat \<times> nat"
  gp_source :: "nat \<times> nat"
  gp_device :: nat
  gp_buffers :: gpu_buffers
  gp_importer :: importer
  gp_fence :: nat
  gp_views :: "nat option"
  gp_prepared :: bool
  gp_trace :: "gpu_command list"

section \<open>Creation\<close>

definition check_stages :: "gpu_machine \<Rightarrow> string \<Rightarrow> string list \<Rightarrow> unit result" where
  "check_stages m label stages =
     (case List.find (\<lambda>s. \<not> gm_stage_ok m s) stages of
        Some s \<Rightarrow> Inl (RuntimeError (label @ '' GPU stage '' @ [CHR 0x27] @ s @ [CHR 0x27] @ '' gagal''))
      | None \<Rightarrow> Inr ())"

text \<open>\<open>as\<close> throws a WinRT error when the interface is missing, \<open>try_as\<close> yields null.\<close>

definition as_interface :: "gpu_machine \<Rightarrow> string \<Rightarrow> unit result" where
  "as_interface m name = require (gm_interface m name) HResultError"

definition try_interfaces :: "gpu_machine \<Rightarrow> string list \<Rightarrow> string \<Rightarrow> unit result" where
  "try_interfaces m names message = require (list_all (gm_interface m) names) (RuntimeError message)"

definition d3d12_runtime :: "gpu_machine \<Rightarrow> string \<Rightarrow> unit result" where
  "d3d12_runtime m label =
     bind_result (as_interface m ''IDXGIDevice'') (\<lambda>_.
       check_stages m label [''IDXGIDevice::GetAdapter'', ''D3D12CreateDevice'', ''ID3D12Device::CreateCommandQueue''])"

definition learning_device :: "gpu_machine \<Rightarrow> string \<Rightarrow> string \<Rightarrow> unit result" where
  "learning_device m label message =
     bind_result (as_interface m ''ILearningModelDeviceFactoryNative'') (\<lambda>_.
     bind_result (check_stages m label [''ILearningModelDeviceFactoryNative::CreateFromD3D12CommandQueue'']) (\<lambda>_.
       try_interfaces m [''LearningModelDevice''] message))"

definition interop_device :: "gpu_machine \<Rightarrow> string \<Rightarrow> string list \<Rightarrow> string \<Rightarrow> unit result" where
  "interop_device m label names message =
     bind_result (check_stages m label [''D3D11On12CreateDevice'']) (\<lambda>_. try_interfaces m names message)"

text \<open>The fallback texture has the size of the camera texture; the result is that size.\<close>

definition shared_nv12 :: "gpu_machine \<Rightarrow> string \<Rightarrow> string \<Rightarrow> string \<Rightarrow> string list \<Rightarrow> nat \<Rightarrow> (nat \<times> nat) result" where
  "shared_nv12 m label not_nv12 bad_handle stages texture =
     (let src = texture_desc_of (gm_import m) texture
      in if td_format src \<noteq> dxgi_nv12 then Inl (RuntimeError not_nv12)
         else bind_result (check_stages m label (take 1 stages)) (\<lambda>_.
              bind_result (as_interface m ''IDXGIResource'') (\<lambda>_.
              bind_result (check_stages m label (take 1 (drop 1 stages))) (\<lambda>_.
              bind_result (try_interfaces m [''shared handle''] bad_handle) (\<lambda>_.
              bind_result (check_stages m label (drop 2 stages)) (\<lambda>_.
                Inr (td_width src, td_height src)))))))"

record tensor_layout =
  tl_bytes :: nat
  tl_shape :: "int list"
  tl_elements :: nat

definition tensor_layout_of :: "nat \<times> nat \<Rightarrow> tensor_layout" where
  "tensor_layout_of cfg =
     (let elements = fst cfg * snd cfg * 3
      in \<lparr>tl_bytes = elements * 4, tl_shape = [1, 3, int (snd cfg), int (fst cfg)], tl_elements = elements\<rparr>)"

definition tensor_d3d12_first :: "gpu_machine \<Rightarrow> string \<Rightarrow> string list \<Rightarrow> string \<Rightarrow> nat \<times> nat \<Rightarrow> tensor_layout result" where
  "tensor_d3d12_first m label stages message cfg =
     bind_result (check_stages m label (take 1 stages)) (\<lambda>_.
     bind_result (as_interface m ''ITensorStaticsNative'') (\<lambda>_.
     bind_result (check_stages m label (take 1 (drop 1 stages))) (\<lambda>_.
     bind_result (try_interfaces m [''TensorFloat''] message) (\<lambda>_.
     bind_result (check_stages m label (drop 2 stages)) (\<lambda>_. Inr (tensor_layout_of cfg))))))"

definition camera_fence :: "gpu_machine \<Rightarrow> string \<Rightarrow> unit result" where
  "camera_fence m label = check_stages m label
     [''ID3D11Device5::CreateFence(camera)'', ''ID3D11Fence::CreateSharedHandle(camera)'',
      ''ID3D12Device::OpenSharedHandle(camera fence)'']"

definition camera_side :: "gpu_machine \<Rightarrow> string \<Rightarrow> string \<Rightarrow> nat \<Rightarrow> nat result" where
  "camera_side m no_fence no_signal texture =
     (case gm_device_of m texture of
        None \<Rightarrow> Inl (RuntimeError ''Gagal memperoleh D3D11 device dari camera texture'')
      | Some device \<Rightarrow>
          bind_result (try_interfaces m [''ID3D11Device5''] (''ID3D11Device5 tidak tersedia'' @ no_fence)) (\<lambda>_.
          bind_result (try_interfaces m [''ID3D11DeviceContext4''] (''ID3D11DeviceContext4 tidak tersedia'' @ no_signal)) (\<lambda>_.
            Inr device)))"

definition fresh_preprocessor :: "gpu_machine \<Rightarrow> nat \<times> nat \<Rightarrow> nat \<times> nat \<Rightarrow> nat \<Rightarrow> nat \<times> nat \<Rightarrow> tensor_layout \<Rightarrow>
    (nat \<times> nat \<times> nat) option \<Rightarrow> gpu_preprocessor" where
  "fresh_preprocessor m cfg source device shared tensor coverage =
     \<lparr>gp_config = cfg, gp_source = source, gp_device = device,
      gp_buffers = \<lparr>gb_shared = shared, gb_tensor_bytes = tl_bytes tensor, gb_tensor_shape = tl_shape tensor,
        gb_tensor_elements = tl_elements tensor, gb_coverage = coverage\<rparr>,
      gp_importer = new_importer (gm_zero_copy m) (gm_interface m ''ID3D12Device of 11on12'') 8,
      gp_fence = 0, gp_views = None, gp_prepared = False, gp_trace = []\<rparr>"

subsection \<open>Face recognition\<close>

definition arcface_shared_nv12 :: "gpu_machine \<Rightarrow> nat \<Rightarrow> (nat \<times> nat) result" where
  "arcface_shared_nv12 m = shared_nv12 m ''ArcFace'' ''Camera texture ArcFace bukan NV12'' ''ArcFace shared NV12 handle tidak valid''
     [''ID3D11Device::CreateTexture2D(shared NV12)'', ''IDXGIResource::GetSharedHandle(NV12)'',
      ''ID3D11Device::OpenSharedResource(NV12)'', ''CreateShaderResourceView1(Y)'', ''CreateShaderResourceView1(UV)'']"

definition arcface_tensor :: "gpu_machine \<Rightarrow> nat \<times> nat \<Rightarrow> tensor_layout result" where
  "arcface_tensor m = tensor_d3d12_first m ''ArcFace''
     [''CreateCommittedResource(ArcFace tensor)'', ''ITensorStaticsNative::CreateFromD3D12Resource(ArcFace)'',
      ''CreateWrappedResource(ArcFace tensor)'', ''CreateUnorderedAccessView(ArcFace tensor)''] ''Gagal membuat ArcFace TensorFloat''"

definition arcface_initialize :: "gpu_machine \<Rightarrow> nat \<times> nat \<Rightarrow> gpu_frame \<Rightarrow> nat \<Rightarrow> gpu_preprocessor result" where
  "arcface_initialize m cfg f texture =
     (if \<not> frame_valid f then Inl (InvalidArgument ''GpuFrame ArcFace tidak valid'')
      else if frame_format f \<noteq> dxgi_nv12 then Inl (InvalidArgument ''ArcFace GPU preprocessor membutuhkan DXGI_FORMAT_NV12'')
      else if cfg \<noteq> (112, 112) then Inl (InvalidArgument ''InsightFace w600k_r50 input dikunci ke 112x112'')
      else bind_result (camera_side m '' untuk ArcFace cross-API fence'' '' untuk ArcFace'' texture) (\<lambda>device.
           bind_result (d3d12_runtime m ''ArcFace'') (\<lambda>_.
           bind_result (learning_device m ''ArcFace'' ''Gagal membuat LearningModelDevice untuk ArcFace'') (\<lambda>_.
           bind_result (interop_device m ''ArcFace'' [''ID3D11On12Device'', ''ID3D11Device3'']
             ''D3D11On12 ArcFace tidak menyediakan interface yang dibutuhkan'') (\<lambda>_.
           bind_result (arcface_shared_nv12 m texture) (\<lambda>shared.
           bind_result (check_stages m ''ArcFace'' [''D3D11On12::CreateComputeShader(ARCFACE)'', ''D3D11On12::CreateSamplerState'',
             ''D3D11On12::CreateBuffer(dynamic params)'']) (\<lambda>_.
           bind_result (arcface_tensor m cfg) (\<lambda>tensor.
           bind_result (camera_fence m ''ArcFace'') (\<lambda>_.
             Inr (fresh_preprocessor m cfg (frame_width f, frame_height f) device shared tensor None))))))))))"

subsection \<open>Liveness\<close>

definition liveness_shared_nv12 :: "gpu_machine \<Rightarrow> nat \<Rightarrow> (nat \<times> nat) result" where
  "liveness_shared_nv12 m = shared_nv12 m ''Liveness'' ''Camera texture Liveness bukan NV12'' ''Liveness shared NV12 handle tidak valid''
     [''ID3D11Device::CreateTexture2D(shared NV12)'', ''IDXGIResource::GetSharedHandle(NV12)'',
      ''ID3D11Device::OpenSharedResource(NV12)'', ''CreateShaderResourceView1(Y)'', ''CreateShaderResourceView1(UV)'']"

definition liveness_tensor :: "gpu_machine \<Rightarrow> nat \<times> nat \<Rightarrow> tensor_layout result" where
  "liveness_tensor m = tensor_d3d12_first m ''Liveness''
     [''CreateCommittedResource(Liveness tensor)'', ''ITensorStaticsNative::CreateFromD3D12Resource(Liveness)'',
      ''CreateWrappedResource(Liveness tensor)'', ''CreateUnorderedAccessView(Liveness tensor)''] ''Gagal membuat Liveness TensorFloat''"

text \<open>Bytes of the coverage buffer, 32-bit words of its view, bytes read back.\<close>

definition coverage_buffers :: "gpu_machine \<Rightarrow> (nat \<times> nat \<times> nat) result" where
  "coverage_buffers m =
     bind_result (check_stages m ''Liveness'' [''coverage buffer'', ''coverage UAV'', ''coverage readback (4 bytes)'']) (\<lambda>_.
       Inr (104, 26, 4))"

definition liveness_initialize :: "gpu_machine \<Rightarrow> nat \<times> nat \<Rightarrow> gpu_frame \<Rightarrow> nat \<Rightarrow> gpu_preprocessor result" where
  "liveness_initialize m cfg f texture =
     (if \<not> frame_valid f then Inl (InvalidArgument ''GpuFrame Liveness tidak valid'')
      else if frame_format f \<noteq> dxgi_nv12 then Inl (InvalidArgument ''Liveness GPU preprocessor membutuhkan DXGI_FORMAT_NV12'')
      else if cfg \<noteq> (80, 80) then Inl (InvalidArgument ''InsightFace liveness input dikunci ke 80x80'')
      else bind_result (camera_side m '' untuk Liveness cross-API fence'' '' untuk Liveness'' texture) (\<lambda>device.
           bind_result (d3d12_runtime m ''Liveness'') (\<lambda>_.
           bind_result (learning_device m ''Liveness'' ''Gagal membuat LearningModelDevice untuk Liveness'') (\<lambda>_.
           bind_result (interop_device m ''Liveness'' [''ID3D11On12Device'', ''ID3D11Device3'']
             ''D3D11On12 Liveness tidak menyediakan interface yang dibutuhkan'') (\<lambda>_.
           bind_result (liveness_shared_nv12 m texture) (\<lambda>shared.
           bind_result (check_stages m ''Liveness'' [''D3D11On12::CreateComputeShader(LIVENESS tensorize)'',
             ''D3D11On12::CreateComputeShader(LIVENESS coverage reduce)'']) (\<lambda>_.
           bind_result (coverage_buffers m) (\<lambda>coverage.
           bind_result (check_stages m ''Liveness'' [''D3D11On12::CreateSamplerState'', ''D3D11On12::CreateBuffer(dynamic params)'']) (\<lambda>_.
           bind_result (liveness_tensor m cfg) (\<lambda>tensor.
           bind_result (camera_fence m ''Liveness'') (\<lambda>_.
             Inr (fresh_preprocessor m cfg (frame_width f, frame_height f) device shared tensor (Some coverage)))))))))))))"

subsection \<open>Detection\<close>

definition scrfd_shared_nv12 :: "gpu_machine \<Rightarrow> nat \<Rightarrow> (nat \<times> nat) result" where
  "scrfd_shared_nv12 m = shared_nv12 m ''SCRFD'' ''Camera texture bukan NV12''
     ''IDXGIResource::GetSharedHandle menghasilkan handle NV12 yang tidak valid''
     [''ID3D11Device::CreateTexture2D(legacy-shared NV12)'', ''IDXGIResource::GetSharedHandle(NV12 texture)'',
      ''ID3D11Device::OpenSharedResource(NV12 texture)'', ''ID3D11Device3::CreateShaderResourceView1(Y plane)'',
      ''ID3D11Device3::CreateShaderResourceView1(UV plane)'']"

definition scrfd_tensor :: "gpu_machine \<Rightarrow> nat \<times> nat \<Rightarrow> tensor_layout result" where
  "scrfd_tensor m = tensor_d3d12_first m ''SCRFD''
     [''ID3D12Device::CreateCommittedResource(tensor buffer)'', ''ITensorStaticsNative::CreateFromD3D12Resource'',
      ''ID3D11On12Device::CreateWrappedResource(tensor)'', ''D3D11On12::CreateUnorderedAccessView(tensor)'']
     ''Gagal membuat TensorFloat dari D3D12 tensor resource''"

text \<open>The detector's sizes are those of the texture; its shader parameters, the letterbox of the detector, are
  uploaded once, with the buffer.\<close>

definition scrfd_initialize :: "gpu_machine \<Rightarrow> nat \<times> nat \<Rightarrow> gpu_frame \<Rightarrow> nat \<Rightarrow> gpu_preprocessor result" where
  "scrfd_initialize m cfg f texture =
     bind_result (validate_gpu_frame f) (\<lambda>_.
     (if frame_format f \<noteq> dxgi_nv12 then Inl (InvalidArgument ''SCRFD GPU preprocessor saat ini membutuhkan DXGI_FORMAT_NV12'')
      else if fst cfg = 0 \<or> snd cfg = 0 then Inl (InvalidArgument ''Ukuran input SCRFD tidak boleh nol'')
      else if cfg \<noteq> (640, 640) then Inl (InvalidArgument ''Baseline SCRFD dikunci ke input original 640x640'')
      else bind_result (camera_side m ''; cross-API fence diperlukan'' ''; cross-API fence diperlukan'' texture) (\<lambda>device.
           bind_result (d3d12_runtime m ''SCRFD'') (\<lambda>_.
           bind_result (learning_device m ''SCRFD'' ''Gagal membuat LearningModelDevice dari D3D12 command queue'') (\<lambda>_.
           bind_result (interop_device m ''SCRFD'' [''ID3D11On12Device'', ''ID3D11Device1'', ''ID3D11Device3'']
             ''D3D11On12 device tidak menyediakan interface interop yang dibutuhkan'') (\<lambda>_.
           bind_result (scrfd_shared_nv12 m texture) (\<lambda>shared.
           bind_result (check_stages m ''SCRFD'' [''D3D11On12::CreateComputeShader(SCRFD)'', ''D3D11On12::CreateSamplerState'',
             ''D3D11On12::CreateBuffer(shader params)'']) (\<lambda>_.
           bind_result (scrfd_tensor m cfg) (\<lambda>tensor.
           bind_result (camera_fence m ''SCRFD'') (\<lambda>_.
             Inr (fresh_preprocessor m cfg shared device shared tensor None)))))))))))"

section \<open>Frames\<close>

text \<open>The tags of the textures are shared with the other preprocessors.\<close>

type_synonym 'a gpu_run = "(gpu_preprocessor \<times> texture_tags, 'a) run"

definition emit :: "gpu_command list \<Rightarrow> unit gpu_run" where
  "emit cs = modify (\<lambda>(p, tags). (p\<lparr>gp_trace := gp_trace p @ cs\<rparr>, tags))"

definition validate_camera_frame :: "gpu_machine \<Rightarrow> string \<Rightarrow> string \<Rightarrow> string \<Rightarrow> gpu_preprocessor \<Rightarrow> gpu_frame \<Rightarrow> nat \<Rightarrow> unit result" where
  "validate_camera_frame m label changed no_device p f texture =
     (if (frame_width f, frame_height f) \<noteq> gp_source p \<or> frame_format f \<noteq> dxgi_nv12
      then Inl (InvalidArgument (''Format/dimensi camera frame berubah setelah '' @ changed))
      else case gm_device_of m texture of
             None \<Rightarrow> Inl (RuntimeError (''Camera frame '' @ no_device))
           | Some device \<Rightarrow> require (device = gp_device p) (RuntimeError (''Camera D3D11 device berubah; '' @ label @ '' preprocessor harus dibuat ulang'')))"

definition validate_face_frame :: "gpu_machine \<Rightarrow> string \<Rightarrow> gpu_preprocessor \<Rightarrow> gpu_frame \<Rightarrow> nat \<Rightarrow> unit result" where
  "validate_face_frame m label p f texture =
     (if \<not> frame_valid f then Inl (InvalidArgument (''GpuFrame '' @ label @ '' tidak valid''))
      else validate_camera_frame m label (label @ '' init'') (label @ '' tidak memiliki device'') p f texture)"

definition import_or_copy :: "gpu_machine \<Rightarrow> gpu_frame \<Rightarrow> nat \<Rightarrow> unit gpu_run" where
  "import_or_copy m f texture =
     andThen (modify (\<lambda>(p, tags). case acquire_views (gm_import m) f texture (gp_importer p, tags) of
        (views, im, tags) \<Rightarrow> (p\<lparr>gp_importer := im, gp_views := views\<rparr>, tags))) (\<lambda>_.
     andThen get_state (\<lambda>(p, _). if gp_views p = None then emit [CopyFrame texture] else ret ()))"

definition camera_to_queue :: "gpu_machine \<Rightarrow> string \<Rightarrow> unit gpu_run" where
  "camera_to_queue m label =
     andThen (modify (\<lambda>(p, tags). (p\<lparr>gp_fence := gp_fence p + 1\<rparr>, tags))) (\<lambda>_.
     andThen get_state (\<lambda>(p, _).
     andThen (lift_result (check_stages m label [''ID3D11DeviceContext4::Signal(camera copy)''])) (\<lambda>_.
     andThen (emit [SignalFence (gp_fence p), FlushCamera]) (\<lambda>_.
     andThen (lift_result (check_stages m label [''ID3D12CommandQueue::Wait(camera fence)''])) (\<lambda>_.
       emit [WaitFence (gp_fence p)])))))"

definition gpu_prepare :: "gpu_machine \<Rightarrow> string \<Rightarrow> gpu_frame \<Rightarrow> nat \<Rightarrow> unit gpu_run" where
  "gpu_prepare m label f texture =
     andThen get_state (\<lambda>(p, _).
     andThen (lift_result (validate_face_frame m label p f texture)) (\<lambda>_.
     andThen (import_or_copy m f texture) (\<lambda>_.
     andThen (camera_to_queue m label) (\<lambda>_.
       modify (\<lambda>(p, tags). (p\<lparr>gp_prepared := True\<rparr>, tags))))))"

definition arcface_prepare_frame :: "gpu_machine \<Rightarrow> gpu_frame \<Rightarrow> nat \<Rightarrow> unit gpu_run" where
  "arcface_prepare_frame m = gpu_prepare m ''ArcFace''"

definition liveness_prepare_frame :: "gpu_machine \<Rightarrow> gpu_frame \<Rightarrow> nat \<Rightarrow> unit gpu_run" where
  "liveness_prepare_frame m = gpu_prepare m ''Liveness''"

definition thread_groups :: "nat \<Rightarrow> nat" where
  "thread_groups n = (n + 15) div 16"

definition camera_access :: "(gpu_resource \<Rightarrow> gpu_command) \<Rightarrow> gpu_preprocessor \<Rightarrow> gpu_command list" where
  "camera_access c p = (case gp_views p of Some v \<Rightarrow> [c (CameraTexture v)] | None \<Rightarrow> [])"

definition frame_source :: "gpu_preprocessor \<Rightarrow> gpu_source" where
  "frame_source p = (case gp_views p of Some v \<Rightarrow> Imported v | None \<Rightarrow> SharedCopy)"

definition dispatch_commands :: "gpu_preprocessor \<Rightarrow> gpu_command list \<Rightarrow> gpu_command list" where
  "dispatch_commands p more_shaders =
     [BindSource (frame_source p), Dispatch (thread_groups (fst (gp_config p))) (thread_groups (snd (gp_config p)))] @
     more_shaders @ [UnbindAll, ReleaseResource TensorBuffer] @ camera_access ReleaseResource p"

definition params_for :: "gpu_preprocessor \<Rightarrow> transform \<Rightarrow> shader_params" where
  "params_for p t = \<lparr>sp_source = gp_source p, sp_target = gp_config p, sp_matrix = dst_to_src t\<rparr>"

definition arcface_update_params :: "gpu_machine \<Rightarrow> transform \<Rightarrow> unit gpu_run" where
  "arcface_update_params m t =
     andThen (lift_result (check_stages m ''ArcFace'' [''ID3D11DeviceContext::Map(ArcFace params)''])) (\<lambda>_.
     andThen get_state (\<lambda>(p, _). emit [UploadParams (params_for p t)]))"

definition arcface_preprocess :: "gpu_machine \<Rightarrow> transform \<Rightarrow> unit gpu_run" where
  "arcface_preprocess m t =
     andThen get_state (\<lambda>(p, _).
       if \<not> gp_prepared p then throw (LogicError ''ArcFaceGpuPreprocessor::prepare_frame harus dipanggil dahulu'')
       else andThen (arcface_update_params m t) (\<lambda>_.
            emit (camera_access AcquireResource p @ [AcquireResource TensorBuffer] @ dispatch_commands p [] @ [FlushInterop])))"

text \<open>The coordinates a transform can reach stay in the range of the shader's fixed-point conversion.\<close>

definition coordinate_limit :: single where
  "coordinate_limit = single_lit 1000000"

definition reach :: "single \<Rightarrow> single \<Rightarrow> single \<Rightarrow> single \<Rightarrow> single \<Rightarrow> single" where
  "reach a b c x y = \<bar>a * x\<bar> + \<bar>b * y\<bar> + \<bar>c\<bar>"

definition check_liveness_transform :: "transform \<Rightarrow> unit result" where
  "check_liveness_transform t =
     (let m = dst_to_src t
      in if list_ex (\<lambda>v. \<not> sfinite v \<or> \<bar>v\<bar> > coordinate_limit) m
         then Inl (InvalidArgument ''Invalid liveness transform'')
         else if list_ex (\<lambda>(y, x). reach (m ! 0) (m ! 1) (m ! 2) x y > coordinate_limit \<or>
                             reach (m ! 3) (m ! 4) (m ! 5) x y > coordinate_limit)
                (List.product [0, single_lit 79] [0, single_lit 79])
         then Inl (InvalidArgument ''Liveness transform exceeds sampling coordinate range'')
         else Inr ())"

definition liveness_update_params :: "gpu_machine \<Rightarrow> transform \<Rightarrow> unit gpu_run" where
  "liveness_update_params m t =
     andThen (lift_result (check_liveness_transform t)) (\<lambda>_.
     andThen (lift_result (check_stages m ''Liveness'' [''ID3D11DeviceContext::Map(Liveness params)''])) (\<lambda>_.
     andThen get_state (\<lambda>(p, _). emit [UploadParams (params_for p t)])))"

definition liveness_preprocess :: "gpu_machine \<Rightarrow> transform \<Rightarrow> single gpu_run" where
  "liveness_preprocess m t =
     andThen get_state (\<lambda>(p, _).
       if \<not> gp_prepared p then throw (LogicError ''LivenessGpuPreprocessor::prepare_frame harus dipanggil dahulu'')
       else andThen (liveness_update_params m t) (\<lambda>_.
            andThen (emit (camera_access AcquireResource p @ [AcquireResource TensorBuffer] @
                           dispatch_commands p [ReduceCoverage] @ [CopyCoverage, FlushInterop])) (\<lambda>_.
            andThen (lift_result (check_stages m ''Liveness'' [''read coverage scalar''])) (\<lambda>_.
              let ratio = gm_coverage m
              in if \<not> sfinite ratio \<or> ratio < 0 \<or> ratio > 1 then throw (RuntimeError ''Invalid GPU liveness coverage'')
                 else ret ratio))))"

text \<open>
  The detector does both in one call and acquires the camera texture before the fence; its guard
  releases the texture when the call throws.
\<close>

definition scrfd_validate_frame :: "gpu_machine \<Rightarrow> gpu_preprocessor \<Rightarrow> gpu_frame \<Rightarrow> nat \<Rightarrow> unit result" where
  "scrfd_validate_frame m p f texture =
     bind_result (validate_gpu_frame f) (\<lambda>_. validate_camera_frame m ''SCRFD'' ''SCRFD preprocessor diinisialisasi'' ''tidak memiliki D3D11 device'' p f texture)"

definition guarded :: "gpu_command list \<Rightarrow> 'a gpu_run \<Rightarrow> 'a gpu_run" where
  "guarded release m w =
     (case m w of
        (Inl e, (p, tags)) \<Rightarrow> (Inl e, (p\<lparr>gp_trace := gp_trace p @ release\<rparr>, tags))
      | r \<Rightarrow> r)"

definition scrfd_preprocess :: "gpu_machine \<Rightarrow> gpu_frame \<Rightarrow> nat \<Rightarrow> unit gpu_run" where
  "scrfd_preprocess m f texture =
     andThen get_state (\<lambda>(p, _).
     andThen (lift_result (scrfd_validate_frame m p f texture)) (\<lambda>_.
     andThen (import_or_copy m f texture) (\<lambda>_.
     andThen get_state (\<lambda>(p, _).
     andThen (emit (camera_access AcquireResource p)) (\<lambda>_.
     andThen (guarded (camera_access ReleaseResource p) (camera_to_queue m ''SCRFD'')) (\<lambda>_.
       emit ([AcquireResource TensorBuffer] @ dispatch_commands p [] @ [FlushInterop])))))))"

section \<open>What a trace means\<close>

text \<open>
  The camera queue executes in order, so a signalled fence covers the copies before it; the Direct3D 12
  queue sees the shared copy as it was at the last fence it waited for. The monitor refuses a wait for
  a fence that nobody signals, a dispatch without its tensor, without a source, or on a source it
  does not see, a resource acquired twice or released without being held, and a flush that
  submits work on a resource that is still held.
\<close>

record monitor =
  mo_shared :: "nat option"
  mo_signalled :: nat
  mo_signalled_shared :: "nat option"
  mo_visible :: "nat option"
  mo_held :: "gpu_resource list"
  mo_bound :: "gpu_source option"
  mo_reads :: "nat list"

definition monitor_start :: monitor where
  "monitor_start = \<lparr>mo_shared = None, mo_signalled = 0, mo_signalled_shared = None, mo_visible = None, mo_held = [],
     mo_bound = None, mo_reads = []\<rparr>"

definition source_texture :: "monitor \<Rightarrow> gpu_source \<Rightarrow> nat option" where
  "source_texture mo s =
     (case s of
        SharedCopy \<Rightarrow> mo_visible mo
      | Imported v \<Rightarrow> if CameraTexture v \<in> set (mo_held mo) then Some v else None)"

fun monitor_step :: "gpu_command \<Rightarrow> monitor \<Rightarrow> monitor option" where
  "monitor_step (CopyFrame t) mo = Some (mo\<lparr>mo_shared := Some t\<rparr>)"
| "monitor_step (SignalFence v) mo =
     (if v > mo_signalled mo then Some (mo\<lparr>mo_signalled := v, mo_signalled_shared := mo_shared mo\<rparr>) else None)"
| "monitor_step FlushCamera mo = Some mo"
| "monitor_step (WaitFence v) mo = (if v = mo_signalled mo then Some (mo\<lparr>mo_visible := mo_signalled_shared mo\<rparr>) else None)"
| "monitor_step (UploadParams ps) mo = Some mo"
| "monitor_step (AcquireResource r) mo = (if r \<in> set (mo_held mo) then None else Some (mo\<lparr>mo_held := r # mo_held mo\<rparr>))"
| "monitor_step (BindSource s) mo = Some (mo\<lparr>mo_bound := Some s\<rparr>)"
| "monitor_step (Dispatch x y) mo =
     (case Option.bind (mo_bound mo) (source_texture mo) of
        Some t \<Rightarrow> if TensorBuffer \<in> set (mo_held mo) then Some (mo\<lparr>mo_reads := mo_reads mo @ [t]\<rparr>) else None
      | None \<Rightarrow> None)"
| "monitor_step ReduceCoverage mo = (if TensorBuffer \<in> set (mo_held mo) then Some mo else None)"
| "monitor_step UnbindAll mo = Some (mo\<lparr>mo_bound := None\<rparr>)"
| "monitor_step (ReleaseResource r) mo =
     (if r \<in> set (mo_held mo) then Some (mo\<lparr>mo_held := remove1 r (mo_held mo)\<rparr>) else None)"
| "monitor_step CopyCoverage mo = Some mo"
| "monitor_step FlushInterop mo = (if mo_held mo = [] then Some mo else None)"

fun monitor_run :: "gpu_command list \<Rightarrow> monitor \<Rightarrow> monitor option" where
  "monitor_run [] mo = Some mo"
| "monitor_run (c # cs) mo = Option.bind (monitor_step c mo) (monitor_run cs)"

lemma monitor_run_append: "monitor_run (cs @ ds) mo = Option.bind (monitor_run cs mo) (monitor_run ds)"
  by (induction cs arbitrary: mo) (auto split: bind_splits)

text \<open>A preprocessor between calls, with what its trace means.\<close>

definition gp_sound :: "gpu_preprocessor \<Rightarrow> texture_tags \<Rightarrow> monitor \<Rightarrow> bool" where
  "gp_sound p tags mo \<longleftrightarrow> tags_ok tags \<and> importer_ok tags (gp_importer p) \<and> monitor_run (gp_trace p) monitor_start = Some mo \<and>
     mo_signalled mo \<le> gp_fence p"

definition gp_ok :: "gpu_preprocessor \<Rightarrow> texture_tags \<Rightarrow> monitor \<Rightarrow> bool" where
  "gp_ok p tags mo \<longleftrightarrow> gp_sound p tags mo \<and> mo_held mo = []"

definition ready :: "gpu_preprocessor \<Rightarrow> monitor \<Rightarrow> nat \<Rightarrow> bool" where
  "ready p mo texture \<longleftrightarrow> gp_prepared p \<and> (case gp_views p of Some v \<Rightarrow> v = texture | None \<Rightarrow> mo_visible mo = Some texture)"

lemma fresh_ok: "tags_ok tags \<Longrightarrow> gp_ok (fresh_preprocessor m cfg source device shared tensor coverage) tags monitor_start"
  by (simp add: gp_ok_def gp_sound_def fresh_preprocessor_def new_importer_ok monitor_start_def)

lemma emit_run [simp]: "emit cs (p, tags) = (Inr (), (p\<lparr>gp_trace := gp_trace p @ cs\<rparr>, tags))"
  by (simp add: emit_def modify_def)


section \<open>Every call keeps the order\<close>

lemma import_or_copy_ok:
  assumes "gp_ok p tags mo" and "import_or_copy m f texture (p, tags) = (x, (p', tags'))"
  obtains mo' where "x = Inr ()" "gp_ok p' tags' mo'" "mo_reads mo' = mo_reads mo" "gp_prepared p' = gp_prepared p"
    "case gp_views p' of Some v \<Rightarrow> v = texture | None \<Rightarrow> mo_shared mo' = Some texture"
proof -
  obtain views im t where a: "acquire_views (gm_import m) f texture (gp_importer p, tags) = (views, im, t)" by (metis surj_pair)
  have ok: "tags_ok tags" "importer_ok tags (gp_importer p)" "monitor_run (gp_trace p) monitor_start = Some mo"
    "mo_held mo = []" "mo_signalled mo \<le> gp_fence p" using assms(1) by (simp_all add: gp_ok_def gp_sound_def)
  note kept = acquire_ok [OF ok(1,2) a]
  show thesis
  proof (cases views)
    case None
    then have run: "x = Inr ()" "tags' = t" "p' = p\<lparr>gp_importer := im, gp_views := None, gp_trace := gp_trace p @ [CopyFrame texture]\<rparr>"
      using assms(2) a by (auto simp: import_or_copy_def andThen_def modify_def get_state_def)
    show thesis
      by (rule that [of "mo\<lparr>mo_shared := Some texture\<rparr>"])
        (use run kept ok in \<open>simp_all add: gp_ok_def gp_sound_def monitor_run_append\<close>)
  next
    case (Some v)
    then have run: "x = Inr ()" "tags' = t" "p' = p\<lparr>gp_importer := im, gp_views := Some v\<rparr>"
      using assms(2) a by (auto simp: import_or_copy_def andThen_def modify_def get_state_def ret_def)
    show thesis
      by (rule that [of mo]) (use run kept ok Some in \<open>simp_all add: gp_ok_def gp_sound_def\<close>)
  qed
qed

lemma camera_to_queue_ok:
  assumes "gp_sound p tags mo" and "camera_to_queue m label (p, tags) = (x, (p', tags'))"
  obtains mo' where "gp_sound p' tags' mo'" "tags' = tags" "mo_reads mo' = mo_reads mo" "mo_held mo' = mo_held mo"
    "gp_prepared p' = gp_prepared p" "gp_views p' = gp_views p" "gp_config p' = gp_config p"
    "x = Inr () \<Longrightarrow> mo_visible mo' = mo_shared mo"
proof -
  have ok: "tags_ok tags" "importer_ok tags (gp_importer p)" "monitor_run (gp_trace p) monitor_start = Some mo"
    "mo_signalled mo \<le> gp_fence p" using assms(1) by (simp_all add: gp_sound_def)
  let ?n = "gp_fence p + 1"
  let ?signal = "check_stages m label [''ID3D11DeviceContext4::Signal(camera copy)'']"
  let ?wait = "check_stages m label [''ID3D12CommandQueue::Wait(camera fence)'']"
  consider (lost) e where "?signal = Inl e" | (alone) e where "?signal = Inr ()" "?wait = Inl e" | (both) "?signal = Inr ()" "?wait = Inr ()"
    by (cases ?signal; cases ?wait) auto
  then show thesis
  proof cases
    case lost
    then have "x = Inl e" "tags' = tags" "p' = p\<lparr>gp_fence := ?n\<rparr>"
      using assms(2) by (simp_all add: camera_to_queue_def andThen_def modify_def get_state_def lift_result_def)
    with ok show thesis by (intro that [of mo]) (simp_all add: gp_sound_def)
  next
    case alone
    then have "x = Inl e" "tags' = tags" "p' = p\<lparr>gp_fence := ?n, gp_trace := gp_trace p @ [SignalFence ?n, FlushCamera]\<rparr>"
      using assms(2) by (simp_all add: camera_to_queue_def andThen_def modify_def get_state_def lift_result_def)
    with ok show thesis
      by (intro that [of "mo\<lparr>mo_signalled := ?n, mo_signalled_shared := mo_shared mo\<rparr>"])
        (simp_all add: gp_sound_def monitor_run_append)
  next
    case both
    then have "x = Inr ()" "tags' = tags"
      "p' = p\<lparr>gp_fence := ?n, gp_trace := gp_trace p @ [SignalFence ?n, FlushCamera, WaitFence ?n]\<rparr>"
      using assms(2) by (simp_all add: camera_to_queue_def andThen_def modify_def get_state_def lift_result_def)
    with ok show thesis
      by (intro that [of "mo\<lparr>mo_signalled := ?n, mo_signalled_shared := mo_shared mo, mo_visible := mo_shared mo\<rparr>"])
        (simp_all add: gp_sound_def monitor_run_append)
  qed
qed

lemma prepare_ok:
  assumes "gp_ok p tags mo" and "gpu_prepare m label f texture (p, tags) = (x, (p', tags'))"
  obtains mo' where "gp_ok p' tags' mo'" "mo_reads mo' = mo_reads mo" "x = Inr () \<Longrightarrow> ready p' mo' texture"
proof (cases "validate_face_frame m label p f texture")
  case (Inl e)
  with assms(2) have "x = Inl e" "p' = p" "tags' = tags" by (simp_all add: gpu_prepare_def andThen_def get_state_def lift_result_def)
  with assms(1) that [of mo] show thesis by simp
next
  case (Inr u)
  obtain y p1 t1 where first: "import_or_copy m f texture (p, tags) = (y, (p1, t1))" by (metis surj_pair)
  obtain mo1 where mo1: "y = Inr ()" "gp_ok p1 t1 mo1" "mo_reads mo1 = mo_reads mo"
    "case gp_views p1 of Some v \<Rightarrow> v = texture | None \<Rightarrow> mo_shared mo1 = Some texture"
    by (rule import_or_copy_ok [OF assms(1) first])
  obtain z p2 t2 where second: "camera_to_queue m label (p1, t1) = (z, (p2, t2))" by (metis surj_pair)
  have "gp_sound p1 t1 mo1" "mo_held mo1 = []" using mo1(2) by (simp_all add: gp_ok_def)
  then obtain mo2 where mo2: "gp_sound p2 t2 mo2" "mo_reads mo2 = mo_reads mo1" "mo_held mo2 = []"
    "gp_views p2 = gp_views p1" "z = Inr () \<Longrightarrow> mo_visible mo2 = mo_shared mo1"
    using camera_to_queue_ok [OF _ second] by metis
  have run: "andThen (camera_to_queue m label) (\<lambda>_. modify (\<lambda>(p, tags). (p\<lparr>gp_prepared := True\<rparr>, tags))) (p1, t1) = (x, (p', tags'))"
    using assms(2) Inr first mo1(1) by (simp add: gpu_prepare_def andThen_def get_state_def lift_result_def)
  show thesis
  proof (cases z)
    case (Inl e)
    with run second have "x = Inl e" "p' = p2" "tags' = t2" by (simp_all add: andThen_def)
    with mo1(3) mo2 that [of mo2] show thesis by (simp add: gp_ok_def)
  next
    case z: (Inr v)
    with run second have "x = Inr ()" "p' = p2\<lparr>gp_prepared := True\<rparr>" "tags' = t2" by (simp_all add: andThen_def modify_def)
    with z mo1(3,4) mo2 that [of mo2] show thesis by (simp add: gp_ok_def gp_sound_def ready_def split: option.splits)
  qed
qed

text \<open>One dispatch reads the frame the preprocessor is ready for, and leaves nothing held or bound.\<close>

lemma dispatch_monitored:
  assumes "mo_held mo = []" and "case gp_views p of Some v \<Rightarrow> v = texture | None \<Rightarrow> mo_visible mo = Some texture"
    and "more_shaders = [] \<or> more_shaders = [ReduceCoverage]"
  shows "monitor_run (camera_access AcquireResource p @ [AcquireResource TensorBuffer] @ dispatch_commands p more_shaders) mo =
    Some (mo\<lparr>mo_reads := mo_reads mo @ [texture], mo_bound := None\<rparr>)"
  using assms
  by (auto simp: camera_access_def dispatch_commands_def frame_source_def source_texture_def split: option.splits)

lemma dispatched:
  fixes ps :: shader_params
  assumes "gp_ok p tags mo" and "ready p mo texture" and "more_shaders = [] \<or> more_shaders = [ReduceCoverage]"
    and "tail = [FlushInterop] \<or> tail = [CopyCoverage, FlushInterop]"
  defines "cs \<equiv> [UploadParams ps] @ (camera_access AcquireResource p @ [AcquireResource TensorBuffer] @ dispatch_commands p more_shaders) @ tail"
  shows "gp_ok (p\<lparr>gp_trace := gp_trace p @ cs\<rparr>) tags (mo\<lparr>mo_reads := mo_reads mo @ [texture], mo_bound := None\<rparr>)"
    and "ready (p\<lparr>gp_trace := gp_trace p @ cs\<rparr>) (mo\<lparr>mo_reads := mo_reads mo @ [texture], mo_bound := None\<rparr>) texture"
proof -
  have ok: "mo_held mo = []" "monitor_run (gp_trace p) monitor_start = Some mo" using assms(1) by (simp_all add: gp_ok_def gp_sound_def)
  have "case gp_views p of Some v \<Rightarrow> v = texture | None \<Rightarrow> mo_visible mo = Some texture" using assms(2) by (simp add: ready_def)
  note mid = dispatch_monitored [OF ok(1) this assms(3)]
  define middle where "middle = camera_access AcquireResource p @ [AcquireResource TensorBuffer] @ dispatch_commands p more_shaders"
  have "monitor_run (gp_trace p @ cs) monitor_start = Some (mo\<lparr>mo_reads := mo_reads mo @ [texture], mo_bound := None\<rparr>)"
    unfolding cs_def middle_def [symmetric]
    using mid [folded middle_def] ok assms(4) by (auto simp: monitor_run_append)
  with assms(1,2) show "gp_ok (p\<lparr>gp_trace := gp_trace p @ cs\<rparr>) tags (mo\<lparr>mo_reads := mo_reads mo @ [texture], mo_bound := None\<rparr>)"
    "ready (p\<lparr>gp_trace := gp_trace p @ cs\<rparr>) (mo\<lparr>mo_reads := mo_reads mo @ [texture], mo_bound := None\<rparr>) texture"
    by (auto simp: gp_ok_def gp_sound_def ready_def split: option.splits)
qed

lemma arcface_preprocess_ok:
  assumes "gp_ok p tags mo" and "ready p mo texture" and "arcface_preprocess m t (p, tags) = (x, (p', tags'))"
  obtains "x = Inr ()" "gp_ok p' tags' (mo\<lparr>mo_reads := mo_reads mo @ [texture], mo_bound := None\<rparr>)"
      "ready p' (mo\<lparr>mo_reads := mo_reads mo @ [texture], mo_bound := None\<rparr>) texture"
    | e where "x = Inl e" "p' = p" "tags' = tags"
proof (cases "check_stages m ''ArcFace'' [''ID3D11DeviceContext::Map(ArcFace params)'']")
  case (Inl e)
  with assms(2,3) have "x = Inl e" "p' = p" "tags' = tags"
    by (simp_all add: arcface_preprocess_def arcface_update_params_def andThen_def get_state_def lift_result_def ready_def)
  then show thesis by (rule that(2))
next
  case (Inr u)
  with assms(2,3) have run: "x = Inr ()" "tags' = tags"
    "p' = p\<lparr>gp_trace := gp_trace p @ [UploadParams (params_for p t)] @ (camera_access AcquireResource p @
      [AcquireResource TensorBuffer] @ dispatch_commands p []) @ [FlushInterop]\<rparr>"
    by (simp_all add: arcface_preprocess_def arcface_update_params_def andThen_def get_state_def lift_result_def ready_def
        camera_access_def dispatch_commands_def frame_source_def)
  show thesis
    by (rule that(1)) (use run dispatched [OF assms(1,2), of "[]" "[FlushInterop]" "params_for p t"] in simp_all)
qed

lemma liveness_preprocess_ok:
  assumes "gp_ok p tags mo" and "ready p mo texture" and "liveness_preprocess m t (p, tags) = (x, (p', tags'))"
  obtains "gp_ok p' tags' (mo\<lparr>mo_reads := mo_reads mo @ [texture], mo_bound := None\<rparr>)"
      "ready p' (mo\<lparr>mo_reads := mo_reads mo @ [texture], mo_bound := None\<rparr>) texture"
      "x = Inr r \<Longrightarrow> sfinite r \<and> \<not> r < 0 \<and> \<not> r > 1"
    | e where "x = Inl e" "p' = p" "tags' = tags"
proof (cases "bind_result (check_liveness_transform t) (\<lambda>_. check_stages m ''Liveness'' [''ID3D11DeviceContext::Map(Liveness params)''])")
  case (Inl e)
  with assms(2,3) have "x = Inl e" "p' = p" "tags' = tags"
    by (auto simp: liveness_preprocess_def liveness_update_params_def andThen_def get_state_def lift_result_def ready_def
        bind_result_Inl_iff)
  then show thesis by (rule that(2))
next
  case (Inr u)
  then have "check_liveness_transform t = Inr ()" "check_stages m ''Liveness'' [''ID3D11DeviceContext::Map(Liveness params)''] = Inr ()"
    by auto
  with assms(2,3) have run: "tags' = tags"
    "p' = p\<lparr>gp_trace := gp_trace p @ [UploadParams (params_for p t)] @ (camera_access AcquireResource p @
      [AcquireResource TensorBuffer] @ dispatch_commands p [ReduceCoverage]) @ [CopyCoverage, FlushInterop]\<rparr>"
    "x = Inr r \<Longrightarrow> sfinite r \<and> \<not> r < 0 \<and> \<not> r > 1" for r
    by (auto simp: liveness_preprocess_def liveness_update_params_def andThen_def get_state_def lift_result_def ready_def
        camera_access_def dispatch_commands_def frame_source_def Let_def throw_def ret_def split: sum.splits if_splits)
  show thesis
    by (rule that(1)) (use run dispatched [OF assms(1,2), of "[ReduceCoverage]" "[CopyCoverage, FlushInterop]" "params_for p t"] in simp_all)
qed

lemma scrfd_preprocess_ok:
  assumes "gp_ok p tags mo" and "scrfd_preprocess m f texture (p, tags) = (x, (p', tags'))"
  obtains mo' where "gp_ok p' tags' mo'" "x = Inr () \<Longrightarrow> mo_reads mo' = mo_reads mo @ [texture]"
    "x \<noteq> Inr () \<Longrightarrow> mo_reads mo' = mo_reads mo"
proof (cases "scrfd_validate_frame m p f texture")
  case (Inl e)
  with assms(2) have "x = Inl e" "p' = p" "tags' = tags"
    by (simp_all add: scrfd_preprocess_def andThen_def get_state_def lift_result_def)
  with assms(1) that [of mo] show thesis by simp
next
  case (Inr u)
  obtain y p1 t1 where first: "import_or_copy m f texture (p, tags) = (y, (p1, t1))" by (metis surj_pair)
  obtain mo1 where mo1: "y = Inr ()" "gp_ok p1 t1 mo1" "mo_reads mo1 = mo_reads mo"
    "case gp_views p1 of Some v \<Rightarrow> v = texture | None \<Rightarrow> mo_shared mo1 = Some texture"
    by (rule import_or_copy_ok [OF assms(1) first])
  define a where "a = camera_access AcquireResource p1"
  define held where "held = (case gp_views p1 of Some v \<Rightarrow> [CameraTexture v] | None \<Rightarrow> [])"
  define p2 where "p2 = p1\<lparr>gp_trace := gp_trace p1 @ a\<rparr>"
  have sound: "gp_sound p2 t1 (mo1\<lparr>mo_held := held\<rparr>)"
    using mo1(2) by (auto simp: gp_ok_def gp_sound_def p2_def a_def held_def camera_access_def monitor_run_append split: option.splits)
  obtain z p3 t3 where third: "camera_to_queue m ''SCRFD'' (p2, t1) = (z, (p3, t3))" by (metis surj_pair)
  obtain mo3 where mo3: "gp_sound p3 t3 mo3" "mo_reads mo3 = mo_reads mo" "mo_held mo3 = held" "gp_views p3 = gp_views p1"
    "gp_config p3 = gp_config p1" "z = Inr () \<Longrightarrow> mo_visible mo3 = mo_shared mo1"
    using camera_to_queue_ok [OF sound third] mo1(3) by (auto simp: p2_def)
  have run: "andThen (guarded (camera_access ReleaseResource p1) (camera_to_queue m ''SCRFD''))
      (\<lambda>_. emit ([AcquireResource TensorBuffer] @ dispatch_commands p1 [] @ [FlushInterop])) (p2, t1) = (x, (p', tags'))"
    using assms(2) Inr first mo1(1)
    by (simp add: scrfd_preprocess_def andThen_def get_state_def lift_result_def p2_def a_def)
  show thesis
  proof (cases z)
    case (Inl e)
    with run third have r: "x = Inl e" "tags' = t3" "p' = p3\<lparr>gp_trace := gp_trace p3 @ camera_access ReleaseResource p1\<rparr>"
      by (simp_all add: andThen_def guarded_def)
    show thesis
      by (rule that [of "mo3\<lparr>mo_held := []\<rparr>"])
        (use r mo3(1,2,3) in \<open>auto simp: gp_ok_def gp_sound_def monitor_run_append camera_access_def held_def split: option.splits\<close>)
  next
    case z: (Inr v)
    with run third have r: "x = Inr ()" "tags' = t3"
      "p' = p3\<lparr>gp_trace := gp_trace p3 @ [AcquireResource TensorBuffer] @ dispatch_commands p1 [] @ [FlushInterop]\<rparr>"
      by (simp_all add: andThen_def guarded_def)
    have "monitor_run ([AcquireResource TensorBuffer] @ dispatch_commands p1 [] @ [FlushInterop]) mo3 =
        Some (mo3\<lparr>mo_reads := mo_reads mo3 @ [texture], mo_bound := None, mo_held := []\<rparr>)"
      using mo1(4) mo3(3,6) z
      by (auto simp: dispatch_commands_def frame_source_def source_texture_def camera_access_def held_def split: option.splits)
    then have "gp_ok p' tags' (mo3\<lparr>mo_reads := mo_reads mo3 @ [texture], mo_bound := None, mo_held := []\<rparr>)"
      using r mo3(1) by (simp add: gp_ok_def gp_sound_def monitor_run_append)
    with r(1) mo3(2) that show thesis by simp
  qed
qed

section \<open>Frames of several faces\<close>

text \<open>
  The evaluators' loops as a preprocessor sees them: each face is a call with the machine of its moment
  and its alignment. An evaluation that throws between two calls, in the alignment or in the model,
  ends the loop early: it is a shorter list.
\<close>

definition arcface_frame :: "gpu_machine \<Rightarrow> gpu_frame \<Rightarrow> nat \<Rightarrow> (gpu_machine \<times> transform) list \<Rightarrow> unit gpu_run" where
  "arcface_frame m f texture calls =
     andThen (arcface_prepare_frame m f texture) (\<lambda>_. forM (\<lambda>(m, t). arcface_preprocess m t) calls)"

definition liveness_frame :: "gpu_machine \<Rightarrow> gpu_frame \<Rightarrow> nat \<Rightarrow> (gpu_machine \<times> transform) list \<Rightarrow> unit gpu_run" where
  "liveness_frame m f texture calls =
     andThen (liveness_prepare_frame m f texture) (\<lambda>_.
       forM (\<lambda>(m, t). andThen (liveness_preprocess m t) (\<lambda>_. ret ())) calls)"

text \<open>What one face does to a preprocessor that is ready for the texture.\<close>

definition reads_once :: "nat \<Rightarrow> unit gpu_run \<Rightarrow> bool" where
  "reads_once texture step \<longleftrightarrow> (\<forall>p tags mo x p' tags'. gp_ok p tags mo \<longrightarrow> ready p mo texture \<longrightarrow> step (p, tags) = (x, (p', tags')) \<longrightarrow>
     (\<exists>mo'. gp_ok p' tags' mo' \<and> ready p' mo' texture \<and> (x = Inr () \<longrightarrow> mo_reads mo' = mo_reads mo @ [texture])))"

lemma arcface_reads_once: "reads_once texture (arcface_preprocess m t)"
  unfolding reads_once_def
proof (intro allI impI)
  fix p tags mo x p' tags'
  assume a: "gp_ok p tags mo" "ready p mo texture" "arcface_preprocess m t (p, tags) = (x, (p', tags'))"
  show "\<exists>mo'. gp_ok p' tags' mo' \<and> ready p' mo' texture \<and> (x = Inr () \<longrightarrow> mo_reads mo' = mo_reads mo @ [texture])"
  proof (rule arcface_preprocess_ok [OF a])
    assume "x = Inr ()" "gp_ok p' tags' (mo\<lparr>mo_reads := mo_reads mo @ [texture], mo_bound := None\<rparr>)"
      "ready p' (mo\<lparr>mo_reads := mo_reads mo @ [texture], mo_bound := None\<rparr>) texture"
    then show ?thesis by (intro exI [of _ "mo\<lparr>mo_reads := mo_reads mo @ [texture], mo_bound := None\<rparr>"]) simp
  next
    fix e assume "x = Inl e" "p' = p" "tags' = tags"
    with a show ?thesis by auto
  qed
qed

lemma liveness_reads_once: "reads_once texture (andThen (liveness_preprocess m t) (\<lambda>_. ret ()))"
  unfolding reads_once_def
proof (intro allI impI)
  fix p tags mo x p' tags'
  assume a: "gp_ok p tags mo" "ready p mo texture" "andThen (liveness_preprocess m t) (\<lambda>_. ret ()) (p, tags) = (x, (p', tags'))"
  obtain y where y: "liveness_preprocess m t (p, tags) = (y, (p', tags'))" "x = Inr () \<Longrightarrow> \<exists>r. y = Inr r"
    using a(3) by (auto simp: andThen_def ret_def split: prod.splits sum.splits)
  show "\<exists>mo'. gp_ok p' tags' mo' \<and> ready p' mo' texture \<and> (x = Inr () \<longrightarrow> mo_reads mo' = mo_reads mo @ [texture])"
  proof (rule liveness_preprocess_ok [OF a(1,2) y(1)])
    assume "gp_ok p' tags' (mo\<lparr>mo_reads := mo_reads mo @ [texture], mo_bound := None\<rparr>)"
      "ready p' (mo\<lparr>mo_reads := mo_reads mo @ [texture], mo_bound := None\<rparr>) texture"
    then show ?thesis by (intro exI [of _ "mo\<lparr>mo_reads := mo_reads mo @ [texture], mo_bound := None\<rparr>"]) simp
  next
    fix e assume "y = Inl e" "p' = p" "tags' = tags"
    with a y(2) show ?thesis by auto
  qed
qed

lemma calls_ok:
  assumes "\<And>c. reads_once texture (step c)"
  shows "gp_ok p tags mo \<Longrightarrow> ready p mo texture \<Longrightarrow> forM step calls (p, tags) = (x, (p', tags')) \<Longrightarrow>
    \<exists>mo'. gp_ok p' tags' mo' \<and> (x = Inr () \<longrightarrow> mo_reads mo' = mo_reads mo @ replicate (length calls) texture)"
proof (induction calls arbitrary: p tags mo)
  case Nil
  then show ?case by (auto simp: ret_def)
next
  case (Cons c calls)
  obtain y p1 t1 where first: "step c (p, tags) = (y, (p1, t1))" by (metis surj_pair)
  obtain mo1 where mo1: "gp_ok p1 t1 mo1" "ready p1 mo1 texture" "y = Inr () \<longrightarrow> mo_reads mo1 = mo_reads mo @ [texture]"
    using assms [of c] Cons.prems(1,2) first unfolding reads_once_def by blast
  show ?case
  proof (cases y)
    case (Inl e)
    with Cons.prems(3) first mo1(1) show ?thesis by (auto simp: andThen_def)
  next
    case (Inr u)
    with Cons.prems(3) first have "forM step calls (p1, t1) = (x, (p', tags'))" by (simp add: andThen_def)
    from Cons.IH [OF mo1(1,2) this] mo1(3) Inr show ?thesis by auto
  qed
qed

lemma frame_calls_ok:
  assumes "\<And>c. reads_once texture (step c)" and "gp_ok p tags mo"
    and "andThen (gpu_prepare m label f texture) (\<lambda>_. forM step calls) (p, tags) = (x, (p', tags'))"
  shows "\<exists>mo'. gp_ok p' tags' mo' \<and> (x = Inr () \<longrightarrow> mo_reads mo' = mo_reads mo @ replicate (length calls) texture)"
proof -
  obtain y p1 t1 where first: "gpu_prepare m label f texture (p, tags) = (y, (p1, t1))" by (metis surj_pair)
  obtain mo1 where mo1: "gp_ok p1 t1 mo1" "mo_reads mo1 = mo_reads mo" "y = Inr () \<Longrightarrow> ready p1 mo1 texture"
    using prepare_ok [OF assms(2) first] by blast
  show ?thesis
  proof (cases y)
    case (Inl e)
    with assms(3) first mo1(1) show ?thesis by (auto simp: andThen_def)
  next
    case (Inr u)
    with assms(3) first have "forM step calls (p1, t1) = (x, (p', tags'))" by (simp add: andThen_def)
    from calls_ok [OF assms(1) mo1(1) _ this] mo1(2,3) Inr show ?thesis by auto
  qed
qed

lemma arcface_frame_ok:
  assumes "gp_ok p tags mo" and "arcface_frame m f texture calls (p, tags) = (x, (p', tags'))"
  shows "\<exists>mo'. gp_ok p' tags' mo' \<and> (x = Inr () \<longrightarrow> mo_reads mo' = mo_reads mo @ replicate (length calls) texture)"
  by (rule frame_calls_ok [OF _ assms(1) assms(2) [unfolded arcface_frame_def arcface_prepare_frame_def]])
    (auto intro: arcface_reads_once split: prod.split)

lemma liveness_frame_ok:
  assumes "gp_ok p tags mo" and "liveness_frame m f texture calls (p, tags) = (x, (p', tags'))"
  shows "\<exists>mo'. gp_ok p' tags' mo' \<and> (x = Inr () \<longrightarrow> mo_reads mo' = mo_reads mo @ replicate (length calls) texture)"
  by (rule frame_calls_ok [OF _ assms(1) assms(2) [unfolded liveness_frame_def liveness_prepare_frame_def]])
    (auto intro: liveness_reads_once split: prod.split)

section \<open>Histories\<close>

text \<open>
  A preprocessor from its creation: frames, whether they succeed or throw half way, and in between
  whatever the other importers tag. A frame of faces starts with \<open>prepare_frame\<close>, as the evaluators do.
\<close>

inductive gpu_history :: "gpu_preprocessor \<Rightarrow> texture_tags \<Rightarrow> bool" where
  made_arcface: "tags_ok tags \<Longrightarrow> arcface_initialize m cfg f texture = Inr p \<Longrightarrow> gpu_history p tags"
| made_liveness: "tags_ok tags \<Longrightarrow> liveness_initialize m cfg f texture = Inr p \<Longrightarrow> gpu_history p tags"
| made_scrfd: "tags_ok tags \<Longrightarrow> scrfd_initialize m cfg f texture = Inr p \<Longrightarrow> gpu_history p tags"
| tagged: "gpu_history p tags \<Longrightarrow> tags_ok tags' \<Longrightarrow> tags_extend tags tags' \<Longrightarrow> gpu_history p tags'"
| recognised: "gpu_history p tags \<Longrightarrow> arcface_frame m f texture calls (p, tags) = (x, (p', tags')) \<Longrightarrow> gpu_history p' tags'"
| judged: "gpu_history p tags \<Longrightarrow> liveness_frame m f texture calls (p, tags) = (x, (p', tags')) \<Longrightarrow> gpu_history p' tags'"
| detected: "gpu_history p tags \<Longrightarrow> scrfd_preprocess m f texture (p, tags) = (x, (p', tags')) \<Longrightarrow> gpu_history p' tags'"

lemma initialized_fresh:
  "arcface_initialize m cfg f texture = Inr p \<Longrightarrow> \<exists>s d b t c. p = fresh_preprocessor m cfg s d b t c"
  "liveness_initialize m cfg f texture = Inr p \<Longrightarrow> \<exists>s d b t c. p = fresh_preprocessor m cfg s d b t c"
  "scrfd_initialize m cfg f texture = Inr p \<Longrightarrow> \<exists>s d b t c. p = fresh_preprocessor m cfg s d b t c"
  by (auto simp: arcface_initialize_def liveness_initialize_def scrfd_initialize_def split: if_splits) blast+

lemma history_monitored: "gpu_history p tags \<Longrightarrow> \<exists>mo. gp_ok p tags mo"
proof (induction rule: gpu_history.induct)
  case (made_arcface tags m cfg f texture p)
  then show ?case using initialized_fresh(1) fresh_ok by blast
next
  case (made_liveness tags m cfg f texture p)
  then show ?case using initialized_fresh(2) fresh_ok by blast
next
  case (made_scrfd tags m cfg f texture p)
  then show ?case using initialized_fresh(3) fresh_ok by blast
next
  case (tagged p tags tags')
  then show ?case using importer_ok_extend unfolding gp_ok_def gp_sound_def by blast
next
  case (recognised p tags m f texture calls x p' tags')
  then show ?case using arcface_frame_ok by blast
next
  case (judged p tags m f texture calls x p' tags')
  then show ?case using liveness_frame_ok by blast
next
  case (detected p tags m f texture x p' tags')
  then obtain mo where "gp_ok p tags mo" by blast
  from scrfd_preprocess_ok [OF this detected.hyps(2)] show ?case by blast
qed

text \<open>
  C36: the GPU always computes on the frame it was asked about. In every history of a preprocessor, with
  frames that fail at any stage, the submitted commands are in an order the monitor accepts: no wait
  for a fence nobody signals, no dispatch without its tensor, on an unbound source or on one that is
  not visible, nothing submitted while a wrapped resource is still held. And a call that returns has
  dispatched exactly once per face, each time on the texture of its own frame, whether that
  was imported from the cache or copied.
\<close>

theorem gpu_reads_its_frame:
  assumes "gpu_history p tags"
  shows "\<exists>mo. monitor_run (gp_trace p) monitor_start = Some mo \<and> mo_held mo = [] \<and>
    (arcface_frame m f texture calls (p, tags) = (Inr (), (p', tags')) \<longrightarrow>
      map_option mo_reads (monitor_run (gp_trace p') monitor_start) = Some (mo_reads mo @ replicate (length calls) texture)) \<and>
    (liveness_frame m f texture calls (p, tags) = (Inr (), (p', tags')) \<longrightarrow>
      map_option mo_reads (monitor_run (gp_trace p') monitor_start) = Some (mo_reads mo @ replicate (length calls) texture)) \<and>
    (scrfd_preprocess m f texture (p, tags) = (Inr (), (p', tags')) \<longrightarrow>
      map_option mo_reads (monitor_run (gp_trace p') monitor_start) = Some (mo_reads mo @ [texture]))"
proof -
  obtain mo where mo: "gp_ok p tags mo" using history_monitored [OF assms] by blast
  have after: "gp_ok p' tags' mo' \<Longrightarrow> monitor_run (gp_trace p') monitor_start = Some mo'" for mo'
    by (simp add: gp_ok_def gp_sound_def)
  show ?thesis
  proof (intro exI [of _ mo] conjI impI)
    show "monitor_run (gp_trace p) monitor_start = Some mo" "mo_held mo = []" using mo by (simp_all add: gp_ok_def gp_sound_def)
  next
    assume "arcface_frame m f texture calls (p, tags) = (Inr (), (p', tags'))"
    from arcface_frame_ok [OF mo this] after
    show "map_option mo_reads (monitor_run (gp_trace p') monitor_start) = Some (mo_reads mo @ replicate (length calls) texture)" by auto
  next
    assume "liveness_frame m f texture calls (p, tags) = (Inr (), (p', tags'))"
    from liveness_frame_ok [OF mo this] after
    show "map_option mo_reads (monitor_run (gp_trace p') monitor_start) = Some (mo_reads mo @ replicate (length calls) texture)" by auto
  next
    assume "scrfd_preprocess m f texture (p, tags) = (Inr (), (p', tags'))"
    from scrfd_preprocess_ok [OF mo this] obtain mo' where "gp_ok p' tags' mo'" "mo_reads mo' = mo_reads mo @ [texture]" by blast
    with after show "map_option mo_reads (monitor_run (gp_trace p') monitor_start) = Some (mo_reads mo @ [texture])" by auto
  qed
qed

section \<open>A machine\<close>

definition sample_textures :: import_device where
  "sample_textures = \<lparr>texture_desc_of = (\<lambda>_. \<lparr>td_width = 1280, td_height = 720, td_format = dxgi_nv12, td_array_size = 1,
     td_mip_levels = 1, td_shader_resource = True, td_keyed_mutex = False, td_nt_handle = True\<rparr>),
     set_tag_ok = (\<lambda>_. True), import_stage_ok = (\<lambda>t _. t \<noteq> 9), import_throws = (\<lambda>_. False)\<rparr>"

definition sample_machine :: gpu_machine where
  "sample_machine = \<lparr>gm_import = sample_textures, gm_device_of = (\<lambda>_. Some 1), gm_stage_ok = (\<lambda>_. True),
     gm_interface = (\<lambda>_. True), gm_zero_copy = None, gm_coverage = 0\<rparr>"

definition nv12_frame :: gpu_frame where
  "nv12_frame = \<lparr>frame_texture = True, frame_id = 1, callback_entry_ns = 5, frame_timestamp_ns = 7, frame_source_ns = 0,
     frame_width = 1280, frame_height = 720, frame_format = dxgi_nv12\<rparr>"

definition plain_transform :: transform where
  "plain_transform = \<lparr>src_to_dst = [], dst_to_src = [1, 0, 0, 0, 1, 0], rmse = 0\<rparr>"

lemma sample_stages: "check_stages sample_machine label stages = Inr ()"
  by (induction stages) (simp_all add: check_stages_def sample_machine_def)

lemma sample_interfaces: "as_interface sample_machine n = Inr ()" "try_interfaces sample_machine ns message = Inr ()"
  by (simp_all add: as_interface_def try_interfaces_def sample_machine_def list_all_iff)

lemma sample_initialize:
  "arcface_initialize sample_machine (112, 112) nv12_frame 4 =
     Inr (fresh_preprocessor sample_machine (112, 112) (1280, 720) 1 (1280, 720) (tensor_layout_of (112, 112)) None)"
proof -
  have texture: "texture_desc_of (gm_import sample_machine) 4 = \<lparr>td_width = 1280, td_height = 720, td_format = dxgi_nv12,
      td_array_size = 1, td_mip_levels = 1, td_shader_resource = True, td_keyed_mutex = False, td_nt_handle = True\<rparr>"
    by (simp add: sample_machine_def sample_textures_def)
  have frame: "frame_valid nv12_frame" "frame_format nv12_frame = dxgi_nv12" "frame_width nv12_frame = 1280" "frame_height nv12_frame = 720"
    by (simp_all add: nv12_frame_def frame_valid_def)
  have device: "gm_device_of sample_machine 4 = Some 1" by (simp add: sample_machine_def)
  show ?thesis
    by (simp only: arcface_initialize_def frame camera_side_def device option.case sample_interfaces sample_stages bind_result_simps
        d3d12_runtime_def learning_device_def interop_device_def arcface_shared_nv12_def shared_nv12_def texture Let_def
        arcface_tensor_def tensor_d3d12_first_def camera_fence_def if_False not_True_eq_False texture_desc.select_convs simp_thms)
qed

lemma sample_acquire:
  "\<exists>im tags. acquire_views sample_textures nv12_frame 4 (new_importer None True 8, \<lparr>tag_table = Map.empty, tag_counter = 0\<rparr>) = (Some 4, im, tags)"
  by (simp add: acquire_views_def new_importer_def env_enabled_def frame_valid_def nv12_frame_def sample_textures_def tag_of_def
      import_new_def import_stages_def Let_def)

theorem gpu_reads_its_frame_witness:
  "\<exists>p tags p' tags'. gpu_history p tags \<and> gp_trace p = [] \<and>
     arcface_frame sample_machine nv12_frame 4 [(sample_machine, plain_transform)] (p, tags) = (Inr (), (p', tags')) \<and>
     map_option mo_reads (monitor_run (gp_trace p') monitor_start) = Some [4]"
proof -
  define tags where "tags = \<lparr>tag_table = Map.empty, tag_counter = 0\<rparr>"
  have ok: "tags_ok tags" by (simp add: tags_ok_def tags_def)
  define p where "p = fresh_preprocessor sample_machine (112, 112) (1280, 720) 1 (1280, 720) (tensor_layout_of (112, 112)) None"
  have hist: "gpu_history p tags"
    unfolding p_def by (rule gpu_history.made_arcface [OF ok sample_initialize])
  have trace: "gp_trace p = []" by (simp add: p_def fresh_preprocessor_def)
  obtain im t where acq: "acquire_views sample_textures nv12_frame 4 (new_importer None True 8, tags) = (Some 4, im, t)"
    using sample_acquire unfolding tags_def by blast
  have parts: "gm_import sample_machine = sample_textures" "gp_importer p = new_importer None True 8" "gp_source p = (1280, 720)"
    "gp_device p = 1"
    by (simp_all add: p_def fresh_preprocessor_def sample_machine_def)
  have valid: "validate_face_frame sample_machine ''ArcFace'' p nv12_frame 4 = Inr ()"
    using parts by (simp add: validate_face_frame_def validate_camera_frame_def nv12_frame_def frame_valid_def sample_machine_def)
  have "fst (arcface_frame sample_machine nv12_frame 4 [(sample_machine, plain_transform)] (p, tags)) = Inr ()"
    using valid acq parts
    by (simp add: arcface_frame_def arcface_prepare_frame_def gpu_prepare_def import_or_copy_def camera_to_queue_def
        arcface_preprocess_def arcface_update_params_def andThen_def get_state_def modify_def lift_result_def ret_def sample_stages)
  then obtain p' tags' where run: "arcface_frame sample_machine nv12_frame 4 [(sample_machine, plain_transform)] (p, tags) = (Inr (), (p', tags'))"
    by (metis prod.collapse)
  from gpu_reads_its_frame [OF hist, of sample_machine nv12_frame 4 "[(sample_machine, plain_transform)]" p' tags'] run trace
  have "map_option mo_reads (monitor_run (gp_trace p') monitor_start) = Some [4]" by (auto simp: monitor_start_def)
  with hist trace run show ?thesis by blast
qed

end
