(* ===== verification/Identifiers.thy ===== *)
theory Identifiers
  imports Domain
begin

text \<open>
  What the event identifiers of \<^verbatim>\<open>src/edge_app/domain/uuid_v7.cpp\<close> guarantee: their text orders
  like their time (the outbox breaks ties of \<open>occurred_ms\<close> by the identifier), carries the time
  in its first twelve digits, and has the version and variant of a version 7 UUID.
\<close>

section \<open>Big-endian bytes and their order\<close>

lemma less_append_left: "length xs = length ys \<Longrightarrow> xs < ys \<Longrightarrow> xs @ us < ys @ (vs :: 'a::linorder list)"
  by (induction xs ys rule: list_induct2) auto

lemma less_snoc: "length xs = length ys \<Longrightarrow> xs @ [a] < ys @ [b :: 'a::linorder] \<longleftrightarrow> xs < ys \<or> (xs = ys \<and> a < b)"
  by (induction xs ys rule: list_induct2) auto

fun big_endian :: "nat \<Rightarrow> int \<Rightarrow> u8 list" where
  "big_endian 0 ms = []"
| "big_endian (Suc n) ms = big_endian n (ms div 256) @ [word_of_int ms]"

lemma big_endian_length [simp]: "length (big_endian n ms) = n"
  by (induction n arbitrary: ms) simp_all

lemma put_timestamp_big_endian: "n \<le> length b \<Longrightarrow> put_timestamp n ms b = big_endian n ms @ drop n b"
proof (induction n arbitrary: ms b)
  case (Suc n)
  then have "n < length b" by simp
  then have "drop n (b[n := x]) = x # drop (Suc n) b" for x
    by (simp add: Cons_nth_drop_Suc [symmetric])
  with Suc show ?case by simp
qed simp

lemma div_less_digit: "b < k * 256 \<Longrightarrow> b div 256 < (k :: int)"
  by linarith

lemma big_endian_less:
  "0 \<le> a \<Longrightarrow> a < b \<Longrightarrow> b < 256 ^ n \<Longrightarrow> big_endian n a < big_endian n b"
proof (induction n arbitrary: a b)
  case (Suc n)
  have w: "(word_of_int a :: u8) < word_of_int b \<longleftrightarrow> a mod 256 < b mod 256" for a b :: int
    by (simp add: word_less_def uint_word_of_int take_bit_eq_mod)
  have b: "b div 256 < 256 ^ n" using Suc.prems by (intro div_less_digit) (simp add: mult.commute)
  show ?case
  proof (cases "a div 256 = b div 256")
    case True
    then have "a mod 256 < b mod 256" using Suc.prems(2) by (metis add_less_cancel_left mult_div_mod_eq)
    with True show ?thesis by (simp add: less_snoc w)
  next
    case False
    have "a div 256 \<le> b div 256" using Suc.prems(2) by (simp add: zdiv_mono1)
    with False Suc.IH [of "a div 256" "b div 256"] Suc.prems b show ?thesis by (simp add: less_snoc)
  qed
qed simp

lemma unat_less_256: "unat (b :: u8) < 256"
  using unsigned_less [of b, where 'a = nat] by simp

lemma hex_byte_less: "b < c \<Longrightarrow> hex_byte b @ us < hex_byte c @ vs"
proof -
  assume "b < c"
  then have lt: "unat b < unat c" by (simp add: word_less_nat_alt)
  have "unat b div 16 < 16" "unat c div 16 < 16" using unat_less_256 [of b] unat_less_256 [of c] by simp_all
  moreover have "unat b div 16 \<le> unat c div 16" using lt by (simp add: div_le_mono)
  moreover have "unat b mod 16 < unat c mod 16" if "unat b div 16 = unat c div 16"
    using lt that by (metis add_less_cancel_left mult_div_mod_eq)
  ultimately show ?thesis
    by (auto simp: hex_byte_def hex_digit_less_iff hex_digit_inj le_less)
qed

lemma hex_groups_less:
  "length bs = length cs \<Longrightarrow> bs < cs \<Longrightarrow> hex_groups i bs < hex_groups i cs"
proof (induction bs cs arbitrary: i rule: list_induct2)
  case (Cons b bs c cs)
  then consider "b < c" | "b = c" "bs < cs" by auto
  then show ?case
  proof cases
    case 1
    then show ?thesis using hex_byte_less [OF 1] by (auto simp: hex_byte_less)
  next
    case 2
    then show ?thesis using Cons.IH by (simp add: hex_byte_def)
  qed
qed simp

lemma stamp_version_append:
  "length T = 6 \<Longrightarrow> length r = 10 \<Longrightarrow> \<exists>r'. length r' = 10 \<and> stamp_version (T @ r) = T @ r'"
  by (rule exI [of _ "r[0 := (r ! 0 AND 15) OR 0x70, 2 := (r ! 2 AND 63) OR 0x80]"])
    (simp add: stamp_version_def Let_def list_update_append nth_append)


definition hex_number :: "string \<Rightarrow> int" where
  "hex_number s = foldl (\<lambda>acc c. 16 * acc + int (hex_value c)) 0 s"

text \<open>The time an identifier carries: its first twelve hexadecimal digits.\<close>

definition uuid_time :: "string \<Rightarrow> int" where
  "uuid_time s = hex_number (take 8 s @ take 4 (drop 9 s))"

lemma hex_number_bytes:
  "hex_number (concat (map hex_byte bs)) = foldl (\<lambda>acc b. 256 * acc + int (unat b)) 0 bs"
proof (induction bs rule: rev_induct)
  case (snoc b bs)
  have "unat b div 16 < 16" "unat b mod 16 < 16" using unat_less_256 [of b] by simp_all
  moreover have "16 * (16 * x + int (unat b div 16)) + int (unat b mod 16) = 256 * x + int (unat b)" for x
    by (simp add: zdiv_int zmod_int)
  ultimately show ?case using snoc by (simp add: hex_number_def hex_byte_def)
qed (simp add: hex_number_def)

lemma big_endian_value:
  "0 \<le> ms \<Longrightarrow> ms < 256 ^ n \<Longrightarrow> foldl (\<lambda>acc b. 256 * acc + int (unat b)) 0 (big_endian n ms) = ms"
proof (induction n arbitrary: ms)
  case (Suc n)
  have "int (unat (word_of_int ms :: u8)) = ms mod 256"
    by (simp add: uint_word_of_int take_bit_eq_mod unsigned_of_int)
  moreover have "ms div 256 < 256 ^ n" using Suc.prems by (intro div_less_digit) (simp add: mult.commute)
  ultimately show ?case using Suc.IH [of "ms div 256"] Suc.prems by simp
qed simp

lemma list_six: "length T = 6 \<Longrightarrow> \<exists>a b c d e f. T = [a, b, c, d, e, f]"
  by (auto simp: numeral_eq_Suc length_Suc_conv)

lemma list_ten: "length T = 10 \<Longrightarrow> \<exists>a b c d e f g h i j. T = [a, b, c, d, e, f, g, h, i, j]"
  by (auto simp: numeral_eq_Suc length_Suc_conv)

lemma uuid_v7_bytes:
  assumes "uuid_v7 (Some b) ms = Inr s" and "length b = 16"
  obtains r where "length r = 10" and "s = hex_groups 0 (big_endian 6 ms @ r)" and "0 \<le> ms" and "ms < 256 ^ 6"
    and "big_endian 6 ms @ r = stamp_version (big_endian 6 ms @ drop 6 b)"
proof -
  obtain r where r: "length r = 10" "stamp_version (big_endian 6 ms @ drop 6 b) = big_endian 6 ms @ r"
    using stamp_version_append [of "big_endian 6 ms" "drop 6 b"] assms(2) by auto
  have "s = hex_groups 0 (big_endian 6 ms @ r)" "0 \<le> ms" "ms < 256 ^ 6"
    using assms r(2) by (auto simp: uuid_v7_def put_timestamp_big_endian split: if_splits)
  with r that show thesis by simp
qed

text \<open>
  Identifiers are ordered by time. Two identifiers made at different milliseconds compare, as
  strings, in the order of their times, whatever the random bytes.
\<close>

theorem uuid_time_ordered:
  assumes "uuid_v7 (Some b) ms = Inr s" and "uuid_v7 (Some b') ms' = Inr s'"
    and "length b = 16" and "length b' = 16" and "ms < ms'"
  shows "s < s'"
proof -
  obtain r where r: "length r = 10" "s = hex_groups 0 (big_endian 6 ms @ r)" "0 \<le> ms"
    using uuid_v7_bytes [OF assms(1,3)] by blast
  obtain r' where r': "length r' = 10" "s' = hex_groups 0 (big_endian 6 ms' @ r')" "ms' < 256 ^ 6"
    using uuid_v7_bytes [OF assms(2,4)] by blast
  have "big_endian 6 ms < big_endian 6 ms'" by (rule big_endian_less [OF r(3) assms(5) r'(3)])
  then show ?thesis unfolding r(2) r'(2) using r(1) r'(1)
    by (intro hex_groups_less less_append_left) simp_all
qed

theorem uuid_time_ordered_witness:
  "the (case uuid_v7 (Some (replicate 16 255)) 1700000000000 of Inr s \<Rightarrow> Some s | Inl _ \<Rightarrow> None)
     < ''018bcfe5-6801-7000-8000-000000000000''"
proof -
  have a: "uuid_v7 (Some (replicate 16 255)) 1700000000000 = Inr ''018bcfe5-6800-7fff-bfff-ffffffffffff''"
    by code_simp
  have b: "uuid_v7 (Some (replicate 16 0)) 1700000000001 = Inr ''018bcfe5-6801-7000-8000-000000000000''"
    by code_simp
  show ?thesis using uuid_time_ordered [OF a b] by (simp add: a)
qed

section \<open>Version and variant\<close>

lemma low_bits: "unat (b AND 15 :: u8) = unat b mod 16" "unat (b AND 63 :: u8) = unat b mod 64"
proof -
  have "x AND 15 = x mod 16" "x AND 63 = x mod 64" for x :: nat
    using take_bit_eq_mask [of 4 x] take_bit_eq_mask [of 6 x] by (simp_all add: take_bit_eq_mod mask_eq_exp_minus_1)
  then show "unat (b AND 15 :: u8) = unat b mod 16" "unat (b AND 63 :: u8) = unat b mod 64"
    by (simp_all add: unsigned_and_eq)
qed

lemma disjoint_plus:
  fixes x y :: u8
  assumes "x AND y = 0" and "unat x + unat y < 256"
  shows "unat (x OR y) = unat x + unat y"
  using assms by (simp add: disjunctive_add_eq_or [symmetric] unat_word_ariths)

lemma version_byte: "unat (b AND 15 OR 0x70 :: u8) = 112 + unat b mod 16"
proof -
  have "unat b mod 16 < 16" by simp
  then show ?thesis by (subst disjoint_plus) (simp_all add: and.assoc low_bits)
qed

lemma variant_byte: "unat (b AND 63 OR 0x80 :: u8) = 128 + unat b mod 64"
proof -
  have "unat b mod 64 < 64" by simp
  then show ?thesis by (subst disjoint_plus) (simp_all add: and.assoc low_bits)
qed

lemma hex_digit_not_dash [simp]: "d < 16 \<Longrightarrow> hex_digit d \<noteq> CHR ''-''" "d < 16 \<Longrightarrow> CHR ''-'' \<noteq> hex_digit d"
proof -
  have "list_all (\<lambda>d. hex_digit d \<noteq> CHR ''-'') [0..<16]" by code_simp
  then show "d < 16 \<Longrightarrow> hex_digit d \<noteq> CHR ''-''" by (simp add: list_all_iff)
  then show "d < 16 \<Longrightarrow> CHR ''-'' \<noteq> hex_digit d" by metis
qed

lemma byte_digits [simp]: "unat (b :: u8) div 16 < 16" "unat b mod 16 < 16"
  using unat_less_256 [of b] by simp_all

lemma hex_digit_values:
  "hex_digit 7 = CHR ''7''" "hex_digit 8 = CHR ''8''" "hex_digit 9 = CHR ''9''"
  "hex_digit 10 = CHR ''a''" "hex_digit 11 = CHR ''b''"
  by code_simp+

lemma variant_digit: "hex_digit (unat (b AND 63 OR 0x80 :: u8) div 16) \<in> set ''89ab''"
proof -
  have "unat b mod 64 < 64" by simp
  then have "unat (b AND 63 OR 0x80) div 16 \<in> {8, 9, 10, 11}" unfolding variant_byte by auto
  then show ?thesis by (auto simp: hex_digit_values)
qed

lemma version_digit: "hex_digit (unat (b AND 15 OR 0x70 :: u8) div 16) = CHR ''7''"
proof -
  have "unat b mod 16 < 16" by simp
  then have "(112 + unat b mod 16) div 16 = 7" by simp
  then show ?thesis unfolding version_byte by (simp add: hex_digit_values)
qed

text \<open>
  The layout of an identifier: 36 characters, hyphens exactly at the four group boundaries,
  version digit 7, variant digit 8, 9, a or b, and the first twelve digits are the time.
\<close>

theorem uuid_layout:
  assumes "uuid_v7 (Some b) ms = Inr s" and "length b = 16"
  shows "length s = 36 \<and> uuid_time s = ms \<and> s ! 14 = CHR ''7'' \<and> s ! 19 \<in> set ''89ab'' \<and>
    (\<forall>i < 36. s ! i = CHR ''-'' \<longleftrightarrow> i \<in> {8, 13, 18, 23})"
proof -
  obtain r where r: "length r = 10" "s = hex_groups 0 (big_endian 6 ms @ r)" "0 \<le> ms" "ms < 256 ^ 6"
      "big_endian 6 ms @ r = stamp_version (big_endian 6 ms @ drop 6 b)"
    by (rule uuid_v7_bytes [OF assms])
  obtain t0 t1 t2 t3 t4 t5 where T: "big_endian 6 ms = [t0, t1, t2, t3, t4, t5]"
    using list_six [of "big_endian 6 ms"] by auto
  obtain r0 r1 r2 r3 r4 r5 r6 r7 r8 r9 where R: "r = [r0, r1, r2, r3, r4, r5, r6, r7, r8, r9]"
    using list_ten [OF r(1)] by blast
  have "uuid_time s = foldl (\<lambda>acc b. 256 * acc + int (unat b)) 0 [t0, t1, t2, t3, t4, t5]"
    unfolding hex_number_bytes [symmetric] r(2) T R by (simp add: uuid_time_def hex_byte_def)
  then have time: "uuid_time s = ms" using big_endian_value [OF r(3,4)] T by simp
  obtain d0 d1 d2 d3 d4 d5 d6 d7 d8 d9 where D: "drop 6 b = [d0, d1, d2, d3, d4, d5, d6, d7, d8, d9]"
    using list_ten [of "drop 6 b"] assms(2) by auto
  have stamp: "r0 = d0 AND 15 OR 0x70" "r2 = d2 AND 63 OR 0x80"
    using r(5) unfolding T R D by (simp_all add: stamp_version_def Let_def numeral_eq_Suc)
  have s: "s = hex_byte t0 @ hex_byte t1 @ hex_byte t2 @ hex_byte t3 @ CHR ''-'' # hex_byte t4 @ hex_byte t5
      @ CHR ''-'' # hex_byte r0 @ hex_byte r1 @ CHR ''-'' # hex_byte r2 @ hex_byte r3 @ CHR ''-'' # hex_byte r4
      @ hex_byte r5 @ hex_byte r6 @ hex_byte r7 @ hex_byte r8 @ hex_byte r9"
    unfolding r(2) T R by simp
  have "length s = 36" "s ! 14 = CHR ''7''" "s ! 19 \<in> set ''89ab''"
    unfolding s using version_digit [of d0] variant_digit [of d2] by (simp_all add: hex_byte_def stamp)
  moreover have "\<forall>i < 36. s ! i = CHR ''-'' \<longleftrightarrow> i \<in> {8, 13, 18, 23}"
  proof -
    have "map (\<lambda>c. c = CHR ''-'') s = map (\<lambda>i. i = 8 \<or> i = 13 \<or> i = 18 \<or> i = 23) [0..<36]"
      unfolding s hex_byte_def by (simp add: upt_rec)
    then have eq: "map (\<lambda>c. c = CHR ''-'') s ! i = map (\<lambda>i. i = 8 \<or> i = 13 \<or> i = 18 \<or> i = 23) [0..<36] ! i" for i
      by (rule arg_cong)
    show ?thesis
    proof (intro allI impI)
      fix i :: nat assume "i < 36"
      then show "s ! i = CHR ''-'' \<longleftrightarrow> i \<in> {8, 13, 18, 23}"
        using eq [of i] by (simp add: \<open>length s = 36\<close> del: upt_conv_Cons)
    qed
  qed
  ultimately show ?thesis using time by blast
qed

theorem uuid_layout_witness:
  "uuid_time ''018bcfe5-6800-7fff-bfff-ffffffffffff'' = 1700000000000"
proof -
  have "uuid_v7 (Some (replicate 16 255)) 1700000000000 = Inr ''018bcfe5-6800-7fff-bfff-ffffffffffff''"
    by code_simp
  from uuid_layout [OF this] show ?thesis by simp
qed

end
