(* ===== verification/Evaluation.thy ===== *)
theory Evaluation
  imports SampleFace
begin

text \<open>
  What the two evaluators promise the attendance processor: one result per observation, liveness
  results that are consistent, so that none of the processor's own checks on them can fail; and
  what they do not: an evaluator whose session could not be created never recovers.
\<close>

section \<open>What the evaluators return\<close>

lemma classify_score_result:
  "classify_score v th = Inr d \<Longrightarrow> d \<noteq> InputRejected \<and> (d = Live \<longleftrightarrow> v \<ge> th) \<and> sfinite v \<and> \<not> v < 0 \<and> \<not> v > 1"
  by (auto simp: classify_score_def split: if_splits)

lemma evaluate_many_length:
  "evaluate_many gpu one frame obs rt = (Inr rs, rt') \<Longrightarrow> length rs = length obs"
  by (auto simp: evaluate_many_def andThen_Inr_iff lift_result_def throw_def ret_def get_state_def
      dest: mapM_length split: if_splits)

lemma liveness_result_cases:
  assumes "liveness_evaluate_prepared gpu cfg th rt frame obs = Inr r"
  shows "(live_decision r = InputRejected \<and> live_score r = None \<and> out_of_bounds_ratio r > single_lit (3 / 10)) \<or>
    (\<exists>v. live_score r = Some v \<and> \<not> out_of_bounds_ratio r > single_lit (3 / 10) \<and> classify_score v th = Inr (live_decision r))"
  using assms by (auto simp: liveness_evaluate_prepared_def split: if_splits)

text \<open>
  C14: a liveness result carries a score exactly when its input was not rejected; the score is a
  finite number of the unit interval, and the decision is the comparison with the threshold.
\<close>

theorem liveness_result_consistent:
  assumes "liveness_evaluate_prepared gpu cfg th rt frame obs = Inr r"
  shows "(live_decision r = InputRejected \<longleftrightarrow> live_score r = None) \<and>
    (live_decision r = InputRejected \<longleftrightarrow> out_of_bounds_ratio r > single_lit (3 / 10)) \<and>
    (\<forall>v. live_score r = Some v \<longrightarrow> sfinite v \<and> \<not> v < 0 \<and> \<not> v > 1 \<and> (live_decision r = Live \<longleftrightarrow> v \<ge> th))"
  using liveness_result_cases [OF assms] by (auto dest: classify_score_result)



text \<open>
  The processor never refuses what the liveness evaluator returns. Whatever batch it queued, a
  batch that the evaluator answers has one result per observation, and applying any of these results
  to any track state succeeds, when the configured threshold is a probability.
\<close>

theorem liveness_answers_accepted:
  assumes "evaluate_many gpu (liveness_evaluate_prepared gpu cfg th) frame obs rt = (Inr rs, rt')"
    and "sfinite (pad_live_threshold c)" and "\<not> pad_live_threshold c < 0" and "\<not> pad_live_threshold c > 1"
  shows "length rs = length obs \<and> (\<forall>r \<in> set rs. \<forall>n now s. is_ok (fst (apply_pad c n now r s)))"
proof -
  have len: "length rs = length obs" by (rule evaluate_many_length [OF assms(1)])
  have "\<exists>rt obs'. liveness_evaluate_prepared gpu cfg th rt frame obs' = Inr r" if "r \<in> set rs" for r
  proof -
    have "obs \<noteq> []" using that len by auto
    then obtain rt1 where "mapM (liveness_evaluate_prepared gpu cfg th rt1 frame) obs = Inr rs"
      using assms(1) by (auto simp: evaluate_many_def andThen_Inr_iff lift_result_def throw_def get_state_def split: if_splits)
    from mapM_in [OF this that] show ?thesis by blast
  qed
  moreover have "is_ok (fst (apply_pad c n now r s))"
    if "liveness_evaluate_prepared gpu cfg th rt1 frame obs' = Inr r" for r rt1 obs' n now s
    using liveness_result_cases [OF that]
  proof (elim disjE exE conjE)
    assume "live_decision r = InputRejected" "live_score r = None"
    then show ?thesis by (simp add: apply_pad_def Let_def)
  next
    fix v assume v: "live_score r = Some v" "classify_score v th = Inr (live_decision r)"
    have d: "live_decision r \<noteq> InputRejected" "sfinite v" "\<not> v < 0" "\<not> v > 1"
      using classify_score_result [OF v(2)] by blast+
    have "\<exists>d. classify_score v (pad_live_threshold c) = Inr d"
      unfolding classify_score_def by (simp only: d assms(2-4) if_False simp_thms) blast
    then obtain d' where "classify_score v (pad_live_threshold c) = Inr d'" by blast
    then show ?thesis using d(1) v(1) unfolding apply_pad_def Let_def by (simp only: if_False option.case sum.case fst_conv is_ok_simps)
  qed
  ultimately show ?thesis using len by blast
qed

section \<open>A liveness evaluation that succeeds\<close>

lemma live_step0: "accumulate_landmark (Inr ([[0, 0, 0, 0], [0, 0, 0, 0], [0, 0, 0, 0], [0, 0, 0, 0]], [0, 0, 0, 0]))
    (\<lparr>point_x = - 1, point_y = 0\<rparr>, template_point (3203 / 100) (3806 / 100)) =
  Inr ([[1, 0, double_lit (- 1), 0], [0, 1, 0, double_lit (- 1)], [double_lit (- 1), 0, 1, 0], [0, double_lit (- 1), 0, 1]], [double_lit (- 1049559 / 32768), double_lit (- 9977201 / 262144), double_lit (1049559 / 32768), double_lit (9977201 / 262144)])"
  unfolding accumulate_landmark_def prod.case bind_result_simps Let_def accumulate_row_outer
  by code_simp

lemma live_step1: "accumulate_landmark (Inr ([[1, 0, double_lit (- 1), 0], [0, 1, 0, double_lit (- 1)], [double_lit (- 1), 0, 1, 0], [0, double_lit (- 1), 0, 1]], [double_lit (- 1049559 / 32768), double_lit (- 9977201 / 262144), double_lit (1049559 / 32768), double_lit (9977201 / 262144)]))
    (\<lparr>point_x = 1, point_y = 0\<rparr>, template_point (4789 / 100) (3798 / 100)) =
  Inr ([[double_lit 2, 0, 0, 0], [0, double_lit 2, 0, 0], [0, 0, double_lit 2, 0], [0, 0, 0, double_lit 2]], [double_lit (1039401 / 65536), double_lit (- 5243 / 65536), double_lit (5237637 / 65536), double_lit (9966715 / 131072)])"
  unfolding accumulate_landmark_def prod.case bind_result_simps Let_def accumulate_row_outer
  by code_simp

lemma live_step2: "accumulate_landmark (Inr ([[double_lit 2, 0, 0, 0], [0, double_lit 2, 0, 0], [0, 0, double_lit 2, 0], [0, 0, 0, double_lit 2]], [double_lit (1039401 / 65536), double_lit (- 5243 / 65536), double_lit (5237637 / 65536), double_lit (9966715 / 131072)]))
    (\<lparr>point_x = 0, point_y = 0\<rparr>, template_point (4001 / 100) (4708 / 100)) =
  Inr ([[double_lit 2, 0, 0, 0], [0, double_lit 2, 0, 0], [0, 0, double_lit 3, 0], [0, 0, 0, double_lit 3]], [double_lit (1039401 / 65536), double_lit (- 5243 / 65536), double_lit (31438929 / 262144), double_lit (16137585 / 131072)])"
  unfolding accumulate_landmark_def prod.case bind_result_simps Let_def accumulate_row_outer
  by code_simp

lemma live_step3: "accumulate_landmark (Inr ([[double_lit 2, 0, 0, 0], [0, double_lit 2, 0, 0], [0, 0, double_lit 3, 0], [0, 0, 0, double_lit 3]], [double_lit (1039401 / 65536), double_lit (- 5243 / 65536), double_lit (31438929 / 262144), double_lit (16137585 / 131072)]))
    (\<lparr>point_x = 0, point_y = 0\<rparr>, template_point (3350 / 100) (5636 / 100)) =
  Inr ([[double_lit 2, 0, 0, 0], [0, double_lit 2, 0, 0], [0, 0, double_lit 4, 0], [0, 0, 0, double_lit 4]], [double_lit (1039401 / 65536), double_lit (- 5243 / 65536), double_lit (40220753 / 262144), double_lit (23524803 / 131072)])"
  unfolding accumulate_landmark_def prod.case bind_result_simps Let_def accumulate_row_outer
  by code_simp

lemma live_step4: "accumulate_landmark (Inr ([[double_lit 2, 0, 0, 0], [0, double_lit 2, 0, 0], [0, 0, double_lit 4, 0], [0, 0, 0, double_lit 4]], [double_lit (1039401 / 65536), double_lit (- 5243 / 65536), double_lit (40220753 / 262144), double_lit (23524803 / 131072)]))
    (\<lparr>point_x = 0, point_y = 0\<rparr>, template_point (4663 / 100) (5629 / 100)) =
  Inr ([[double_lit 2, 0, 0, 0], [0, double_lit 2, 0, 0], [0, 0, double_lit 5, 0], [0, 0, 0, double_lit 5]], [double_lit (1039401 / 65536), double_lit (- 5243 / 65536), double_lit (3277783 / 16384), double_lit (15451423 / 65536)])"
  unfolding accumulate_landmark_def prod.case bind_result_simps Let_def accumulate_row_outer
  by code_simp

definition live_fit :: "double list" where
  "live_fit = [double_lit (1039401 / 131072), double_lit (- 5243 / 131072), double_lit (5631188315353907 / 140737488355328), double_lit (6636335646166221 / 140737488355328)]"

lemma live_columns:
  "foldl (\<lambda>r col. bind_result r (solve_column col)) (Inr ([[double_lit 2, 0, 0, 0], [0, double_lit 2, 0, 0], [0, 0, double_lit 5, 0], [0, 0, 0, double_lit 5]], [double_lit (1039401 / 65536), double_lit (- 5243 / 65536), double_lit (3277783 / 16384), double_lit (15451423 / 65536)])) [0..<4] =
   Inr ([[1, 0, 0, 0], [0, 1, 0, 0], [0, 0, 1, 0], [0, 0, 0, 1]], live_fit)"
  by code_simp

lemma live_scale: "\<not> live_fit ! 0 * live_fit ! 0 + live_fit ! 1 * live_fit ! 1 < double_lit (1 / 10 ^ 12)"
  by code_simp

lemma live_normal_equations:
  "foldl accumulate_landmark (Inr (replicate 4 (replicate 4 0), replicate 4 0)) (zip (landmarks sample_face) liveness_template) =
   Inr ([[double_lit 2, 0, 0, 0], [0, double_lit 2, 0, 0], [0, 0, double_lit 5, 0], [0, 0, 0, double_lit 5]], [double_lit (1039401 / 65536), double_lit (- 5243 / 65536), double_lit (3277783 / 16384), double_lit (15451423 / 65536)])"
proof -
  have rep: "replicate 4 x = [x, x, x, x]" for x :: 'a by (simp add: numeral_nat)
  show ?thesis
    by (simp only: sample_face_def face_detection.simps liveness_template_def zip_Cons_Cons zip_Nil foldl_Cons foldl_Nil rep
        live_step0 live_step1 live_step2 live_step3 live_step4)
qed

lemma live_transform: "\<exists>t. estimate_liveness_transform sample_face 80 80 = Inr t"
proof -
  note solved = live_columns
  show ?thesis
    unfolding estimate_liveness_transform_def fit_transform_def Let_def live_normal_equations solve4_def bind_result_simps
      prod.case live_columns using live_scale by simp
qed

definition live_gpu :: gpu_side where
  "live_gpu = \<lparr>create_preprocessor = (\<lambda>_. Inr ()), create_session = (\<lambda>_. Inr ()), prepare_frame = (\<lambda>_. Inr ()),
     preprocess_aligned = (\<lambda>_ _. Inr 0), run_model = (\<lambda>_ _. Inr [single_lit (99 / 100)])\<rparr>"

definition live_config :: model_config where
  "live_config = \<lparr>config_path = ''liveness.onnx'', config_width = 80, config_height = 80\<rparr>"

definition live_frame :: gpu_frame where
  "live_frame = \<lparr>frame_texture = True, frame_id = 1, callback_entry_ns = 0, frame_timestamp_ns = 0, frame_source_ns = 0,
     frame_width = 640, frame_height = 480, frame_format = 103\<rparr>"

lemma live_run:
  "\<exists>r. liveness_evaluate_prepared live_gpu live_config ta_live_threshold \<lparr>has_preprocessor = True, has_session = True\<rparr>
     live_frame sample_face = Inr r \<and> live_decision r = Live"
proof -
  obtain t where t: "estimate_liveness_transform sample_face 80 80 = Inr t" using live_transform by blast
  have "\<not> (0 :: single) > single_lit (3 / 10)" "copy_live_score [single_lit (99 / 100)] = Inr (single_lit (99 / 100))"
    "classify_score (single_lit (99 / 100)) ta_live_threshold = Inr Live" by code_simp+
  then show ?thesis
    by (simp add: liveness_evaluate_prepared_def live_gpu_def live_config_def t infer_def)
qed

theorem liveness_result_consistent_witness:
  "\<exists>r v. liveness_evaluate_prepared live_gpu live_config ta_live_threshold \<lparr>has_preprocessor = True, has_session = True\<rparr>
     live_frame sample_face = Inr r \<and> live_score r = Some v \<and> v \<ge> ta_live_threshold"
proof -
  obtain r where r: "liveness_evaluate_prepared live_gpu live_config ta_live_threshold
     \<lparr>has_preprocessor = True, has_session = True\<rparr> live_frame sample_face = Inr r" "live_decision r = Live"
    using live_run by blast
  from liveness_result_consistent [OF r(1)] r show ?thesis by (cases "live_score r") auto
qed

theorem liveness_answers_accepted_witness:
  "\<exists>r. is_ok (fst (apply_pad sample_config 1 0 r fresh_bio)) \<and>
     fst (evaluate_many live_gpu (liveness_evaluate_prepared live_gpu live_config ta_live_threshold) live_frame [sample_face] unloaded)
       = Inr [r]"
proof -
  obtain r where r: "liveness_evaluate_prepared live_gpu live_config ta_live_threshold
     \<lparr>has_preprocessor = True, has_session = True\<rparr> live_frame sample_face = Inr r" using live_run by blast
  have gpu: "create_preprocessor live_gpu f = Inr ()" "create_session live_gpu f = Inr ()" "prepare_frame live_gpu f = Inr ()"
    "frame_texture live_frame" for f by (simp_all add: live_gpu_def live_frame_def)
  have run: "evaluate_many live_gpu (liveness_evaluate_prepared live_gpu live_config ta_live_threshold) live_frame [sample_face]
      unloaded = (Inr [r], \<lparr>has_preprocessor = True, has_session = True\<rparr>)"
    by (simp add: evaluate_many_def ensure_runtime_def unloaded_def run_simps frame_valid_def gpu r)
  have "sfinite (pad_live_threshold sample_config)" "\<not> pad_live_threshold sample_config < 0"
    "\<not> pad_live_threshold sample_config > 1" by code_simp+
  from liveness_answers_accepted [OF run this] run show ?thesis by auto
qed

end
