(* ===== verification/NumberText.thy ===== *)
theory NumberText
  imports Floats Calendar LocalData
begin

text \<open>
  Numbers as text, the parts of the C++ library the tools of \<^verbatim>\<open>src/tools\<close> use: \<open>std::stoi\<close> and \<open>std::stof\<close>
  with the number of characters they consumed, and an output stream with \<open>setprecision(17)\<close> in the
  classic locale. The characters in parentheses that may follow \<open>nan\<close> are left unread.
\<close>

section \<open>Reading integers\<close>

definition take_sign :: "string \<Rightarrow> bool \<times> string" where
  "take_sign s = (case s of
       [] \<Rightarrow> (False, [])
     | c # r \<Rightarrow> if c = CHR ''-'' then (True, r) else if c = CHR ''+'' then (False, r) else (False, s))"

definition stoi :: "string \<Rightarrow> (int \<times> nat) result" where
  "stoi s =
     (let (negative, u) = take_sign (dropWhile is_space s);
          ds = takeWhile (\<lambda>c. c \<in> set decimal_digits) u;
          n = (if negative then - int (decimal_value ds) else int (decimal_value ds))
      in if ds = [] then Inl (InvalidArgument ''invalid stoi argument'')
         else if n < - (2 ^ 31) \<or> 2 ^ 31 \<le> n then Inl OutOfRange
         else Inr (n, length s - length (drop (length ds) u)))"

section \<open>Reading floating point numbers\<close>

definition digit_in :: "nat \<Rightarrow> char \<Rightarrow> nat option" where
  "digit_in base c =
     (let n = byte_of c;
          d = (if 48 \<le> n \<and> n \<le> 57 then n - 48 else if 97 \<le> n \<and> n \<le> 102 then n - 87
               else if 65 \<le> n \<and> n \<le> 70 then n - 55 else 16)
      in if d < base then Some d else None)"

fun take_digits :: "nat \<Rightarrow> string \<Rightarrow> nat list \<times> string" where
  "take_digits base [] = ([], [])"
| "take_digits base (c # s) =
     (case digit_in base c of
        None \<Rightarrow> ([], c # s)
      | Some d \<Rightarrow> (case take_digits base s of (ds, r) \<Rightarrow> (d # ds, r)))"

definition digits_value :: "nat \<Rightarrow> nat list \<Rightarrow> nat" where
  "digits_value base ds = foldl (\<lambda>a d. base * a + d) 0 ds"

definition scan_mantissa :: "nat \<Rightarrow> string \<Rightarrow> (rat \<times> string) option" where
  "scan_mantissa base s =
     (case take_digits base s of (whole, r) \<Rightarrow>
      case (case r of [] \<Rightarrow> ([], []) | c # t \<Rightarrow> if c = CHR ''.'' then take_digits base t else ([], r)) of (part, rest) \<Rightarrow>
        if whole = [] \<and> part = [] then None
        else Some (of_nat (digits_value base (whole @ part)) / of_nat base ^ length part, rest))"

definition scan_exponent :: "char list \<Rightarrow> string \<Rightarrow> int \<times> string" where
  "scan_exponent marks s =
     (case s of
        [] \<Rightarrow> (0, [])
      | c # t \<Rightarrow>
          if c \<in> set marks
          then (case take_sign t of (negative, u) \<Rightarrow>
                case take_digits 10 u of (ds, rest) \<Rightarrow>
                  if ds = [] then (0, s)
                  else (if negative then - int (digits_value 10 ds) else int (digits_value 10 ds), rest))
          else (0, s))"

definition power_rat :: "nat \<Rightarrow> int \<Rightarrow> rat" where
  "power_rat base e = (if 0 \<le> e then of_nat base ^ nat e else 1 / of_nat base ^ nat (- e))"

definition starts_nocase :: "string \<Rightarrow> string \<Rightarrow> bool" where
  "starts_nocase word s \<longleftrightarrow> map lower_ascii (take (length word) s) = word"

text \<open>An unsigned number: an infinity, a NaN, or a rational; \<open>Inl\<close> is one of the first two.\<close>

definition scan_number :: "string \<Rightarrow> ((fl + rat) \<times> string) option" where
  "scan_number s =
     (if starts_nocase ''infinity'' s then Some (Inl PInf, drop 8 s)
      else if starts_nocase ''inf'' s then Some (Inl PInf, drop 3 s)
      else if starts_nocase ''nan'' s then Some (Inl NaN, drop 3 s)
      else case (if starts_nocase ''0x'' s then scan_mantissa 16 (drop 2 s) else None) of
             Some (m, r) \<Rightarrow> (case scan_exponent ''pP'' r of (e, rest) \<Rightarrow> Some (Inr (m * power_rat 2 e), rest))
           | None \<Rightarrow>
               (case scan_mantissa 10 s of
                  None \<Rightarrow> None
                | Some (m, r) \<Rightarrow> (case scan_exponent ''eE'' r of (e, rest) \<Rightarrow> Some (Inr (m * power_rat 10 e), rest))))"

definition stof :: "string \<Rightarrow> (single \<times> nat) result" where
  "stof s =
     (let (negative, u) = take_sign (dropWhile is_space s);
          signed = (\<lambda>v. Sgl (if negative then fl_neg v else v))
      in case scan_number u of
           None \<Rightarrow> Inl (InvalidArgument ''invalid stof argument'')
         | Some (Inl v, rest) \<Rightarrow> Inr (signed v, length s - length rest)
         | Some (Inr q, rest) \<Rightarrow>
             (let v = fl_round Binary32 q
              in if v = PInf \<or> (v = Fin 0 \<and> q \<noteq> 0) then Inl OutOfRange
                 else Inr (signed v, length s - length rest)))"

section \<open>Writing numbers\<close>

definition int_text :: "int \<Rightarrow> string" where
  "int_text n = (if n < 0 then CHR ''-'' # decimal (nat (- n)) else decimal (nat n))"

text \<open>The exponent \<open>e\<close> with \<open>10 ^ e \<le> q < 10 ^ (e + 1)\<close>, and \<open>q\<close> rounded to 17 significant digits.\<close>

definition decimal_exponent :: "rat \<Rightarrow> int" where
  "decimal_exponent q =
     (if 1 \<le> q then int (length (decimal (nat \<lfloor>q\<rfloor>))) - 1
      else - int (length (decimal (nat (\<lceil>1 / q\<rceil> - 1)))))"

definition significant :: "rat \<Rightarrow> nat \<times> int" where
  "significant q =
     (let e = decimal_exponent q; n = nat (nearest_even (q * power_rat 10 (16 - e)))
      in if n = 10 ^ 17 then (10 ^ 16, e + 1) else (n, e))"

definition strip_zeros :: "string \<Rightarrow> string" where
  "strip_zeros s = rev (dropWhile (\<lambda>c. c = CHR ''0'') (rev s))"

definition fraction_text :: "string \<Rightarrow> string" where
  "fraction_text s = (let t = strip_zeros s in if t = [] then [] else CHR ''.'' # t)"

definition exponent_text :: "int \<Rightarrow> string" where
  "exponent_text e =
     (let t = decimal (nat \<bar>e\<bar>)
      in CHR ''e'' # (if e < 0 then CHR ''-'' else CHR ''+'') # (if length t < 2 then CHR ''0'' # t else t))"

definition general_text :: "rat \<Rightarrow> string" where
  "general_text q =
     (if q = 0 then ''0''
      else case significant \<bar>q\<bar> of (n, e) \<Rightarrow>
        let ds = decimal n;
            t = (if - 4 \<le> e \<and> e < 0 then ''0.'' @ replicate (nat (- e) - 1) (CHR ''0'') @ strip_zeros ds
                 else if 0 \<le> e \<and> e < 17 then take (nat e + 1) ds @ fraction_text (drop (nat e + 1) ds)
                 else take 1 ds @ fraction_text (drop 1 ds) @ exponent_text e)
        in if q < 0 then CHR ''-'' # t else t)"

fun float_text :: "fl \<Rightarrow> string" where
  "float_text NaN = ''nan''"
| "float_text NInf = ''-inf''"
| "float_text PInf = ''inf''"
| "float_text (Fin q) = general_text q"

end
