(* ===== verification/Capture.thy ===== *)
theory Capture
  imports NumberText Runtime AppConfig
begin

text \<open>
  The labelled capture of liveness observations, \<^verbatim>\<open>src/tools/liveness_capture.cpp\<close> and
  \<^verbatim>\<open>capture_support.hpp\<close>: it writes the CSV files the liveness threshold is calibrated on. What the
  tracking runtime and the evaluator answer enters as values; a file is its text, and a write that
  fails leaves some first part of its line. The reader of CSV files at the end belongs to the
  specification.
\<close>

section \<open>Labels, identifiers, lines\<close>

definition validate_label :: "string \<Rightarrow> string \<Rightarrow> unit result" where
  "validate_label label scenario =
     (if label \<noteq> ''real'' \<and> label \<noteq> ''spoof''
      then Inl (InvalidArgument ''--label must be real or spoof (operator ground truth)'')
      else if scenario \<noteq> ''live'' \<and> scenario \<noteq> ''photo'' \<and> scenario \<noteq> ''display'' \<and> scenario \<noteq> ''replay''
      then Inl (InvalidArgument ''--scenario must be live, photo, display, or replay'')
      else require ((label = ''real'') = (scenario = ''live''))
             (InvalidArgument ''real requires live; spoof requires photo/display/replay''))"

definition valid_identifier :: "string \<Rightarrow> bool" where
  "valid_identifier s \<longleftrightarrow> \<not> (s = [] \<or> s = ''.'' \<or> s = ''..'') \<and>
     list_all (\<lambda>c. let n = byte_of c
                   in 65 \<le> n \<and> n \<le> 90 \<or> 97 \<le> n \<and> n \<le> 122 \<or> 48 \<le> n \<and> n \<le> 57 \<or> c = CHR ''_'' \<or> c = CHR ''-'') s"

definition quote_mark :: char where
  "quote_mark = CHR 0x22"

definition escaped :: "string \<Rightarrow> string" where
  "escaped f = concat (map (\<lambda>c. if c = quote_mark then [quote_mark, c] else [c]) f)"

definition csv_line :: "string list \<Rightarrow> string" where
  "csv_line cells =
     foldl (\<lambda>out f. (if out = [] then [] else out @ '','') @ [quote_mark] @ escaped f @ [quote_mark]) [] cells @
     [CHR 0x0D, CHR 0x0A]"

section \<open>Arguments\<close>

record capture_args =
  ca_scrfd :: string
  ca_addons :: string
  ca_output :: string
  ca_label :: string
  ca_scenario :: string
  ca_subject :: string
  ca_session :: string
  ca_split :: string
  ca_samples :: int
  ca_every :: int
  ca_max_frames :: int
  ca_warmup :: int
  ca_min_score :: single
  ca_validate_only :: bool

definition default_capture_args :: capture_args where
  "default_capture_args = \<lparr>ca_scrfd = [], ca_addons = [], ca_output = [], ca_label = [], ca_scenario = [], ca_subject = [],
     ca_session = [], ca_split = ''dev'', ca_samples = 120, ca_every = 5, ca_max_frames = 5000, ca_warmup = 5,
     ca_min_score = single_lit (1 / 2), ca_validate_only = False\<rparr>"

definition integer_option :: "string \<Rightarrow> string \<Rightarrow> int result" where
  "integer_option key v =
     bind_result (stoi v) (\<lambda>(n, used).
       if used \<noteq> length v \<or> n < 0 \<or> n > 1000000 then Inl (InvalidArgument (''Invalid integer for '' @ key)) else Inr n)"

definition decimal_option :: "string \<Rightarrow> string \<Rightarrow> single result" where
  "decimal_option key v =
     bind_result (stof v) (\<lambda>(n, used).
       if used \<noteq> length v \<or> \<not> sfinite n then Inl (InvalidArgument (''Invalid number for '' @ key)) else Inr n)"

definition set_capture_option :: "string \<Rightarrow> string \<Rightarrow> capture_args \<Rightarrow> capture_args result" where
  "set_capture_option key v a =
     (if key = ''--label'' then Inr (a\<lparr>ca_label := v\<rparr>)
      else if key = ''--scenario'' then Inr (a\<lparr>ca_scenario := v\<rparr>)
      else if key = ''--subject'' then Inr (a\<lparr>ca_subject := v\<rparr>)
      else if key = ''--session'' then Inr (a\<lparr>ca_session := v\<rparr>)
      else if key = ''--split'' then Inr (a\<lparr>ca_split := v\<rparr>)
      else if key = ''--output'' then Inr (a\<lparr>ca_output := v\<rparr>)
      else if key = ''--scrfd'' then Inr (a\<lparr>ca_scrfd := v\<rparr>)
      else if key = ''--addons'' then Inr (a\<lparr>ca_addons := v\<rparr>)
      else if key = ''--samples'' then bind_result (integer_option key v) (\<lambda>n. Inr (a\<lparr>ca_samples := n\<rparr>))
      else if key = ''--every'' then bind_result (integer_option key v) (\<lambda>n. Inr (a\<lparr>ca_every := n\<rparr>))
      else if key = ''--warmup'' then bind_result (integer_option key v) (\<lambda>n. Inr (a\<lparr>ca_warmup := n\<rparr>))
      else if key = ''--max-frames'' then bind_result (integer_option key v) (\<lambda>n. Inr (a\<lparr>ca_max_frames := n\<rparr>))
      else if key = ''--min-det-score'' then bind_result (decimal_option key v) (\<lambda>x. Inr (a\<lparr>ca_min_score := x\<rparr>))
      else Inl (InvalidArgument (''Unknown argument: '' @ key)))"

text \<open>\<open>None\<close>: help was asked for.\<close>

fun scan_capture_options :: "capture_args \<Rightarrow> string list \<Rightarrow> capture_args option result" where
  "scan_capture_options a [] = Inr (Some a)"
| "scan_capture_options a (key # rest) =
     (if key = ''--validate-only'' then scan_capture_options (a\<lparr>ca_validate_only := True\<rparr>) rest
      else if key = ''--help'' \<or> key = ''-h'' then Inr None
      else case rest of
             [] \<Rightarrow> Inl (InvalidArgument (''Missing value for '' @ key))
           | v # rest \<Rightarrow> bind_result (set_capture_option key v a) (\<lambda>a. scan_capture_options a rest))"

record tool_world =
  tw_time :: int
  tw_process :: nat
  tw_absolute :: "string \<Rightarrow> string"
  tw_exists :: "string \<Rightarrow> bool"
  tw_regular :: "string \<Rightarrow> bool"
  tw_current :: string
  tw_executable :: "string option"

definition utc_stamp :: "int \<Rightarrow> string result" where
  "utc_stamp now =
     (case gmtime now of
        None \<Rightarrow> Inl (RuntimeError ''Cannot read UTC time'')
      | Some t \<Rightarrow> Inr (four_digits (tm_year t) @ two_digits (tm_mon t + 1) @ two_digits (tm_mday t) @ ''T'' @
                       two_digits (tm_hour t) @ two_digits (tm_min t) @ two_digits (tm_sec t) @ ''Z''))"

definition join_path :: "string \<Rightarrow> string \<Rightarrow> string" where
  "join_path dir name = (if dir = [] \<or> last dir = separator then dir @ name else dir @ [separator] @ name)"

lemma parent_prefix: "\<exists>t. p = parent_path p @ t"
proof -
  define q where "q = rev (dropWhile (\<lambda>c. c \<noteq> separator) (rev p))"
  have p: "p = q @ rev (takeWhile (\<lambda>c. c \<noteq> separator) (rev p))"
    unfolding q_def by (simp only: rev_append [symmetric] takeWhile_dropWhile_id rev_rev_ident)
  show ?thesis
  proof (cases "length q \<le> 3")
    case True
    then have "parent_path p = q" by (simp add: parent_path_def q_def)
    with p show ?thesis by blast
  next
    case False
    then have "q = butlast q @ [last q]" by (intro append_butlast_last_id [symmetric]) auto
    moreover have "parent_path p = butlast q" using False by (simp add: parent_path_def q_def [symmetric])
    ultimately show ?thesis using p by (metis append.assoc)
  qed
qed

lemma parent_length: "parent_path p \<noteq> p \<Longrightarrow> length (parent_path p) < length p"
proof -
  assume "parent_path p \<noteq> p"
  moreover obtain t where t: "p = parent_path p @ t" using parent_prefix by blast
  ultimately have "t \<noteq> []" by auto
  moreover have "length p = length (parent_path p) + length t" using arg_cong [OF t, of length] by simp
  ultimately show ?thesis by simp
qed

function find_model :: "tool_world \<Rightarrow> string \<Rightarrow> string \<Rightarrow> string" where
  "find_model w relative start =
     (if start = [] then []
      else let candidate = join_path (join_path start ''models'') relative; parent = parent_path start
           in if tw_regular w candidate then tw_absolute w candidate
              else if parent = start then []
              else find_model w relative parent)"
  by pat_completeness auto

termination
  by (relation "measure (\<lambda>(w, relative, start). length start)") (simp_all add: parent_length)

declare find_model.simps [simp del]

definition model_path :: "tool_world \<Rightarrow> string \<Rightarrow> string \<Rightarrow> string result" where
  "model_path w path relative =
     bind_result
       (let p = (if path = [] then find_model w relative (tw_current w) else path)
        in if p \<noteq> [] then Inr p
           else case tw_executable w of
                  None \<Rightarrow> Inl (RuntimeError ''Cannot locate executable'')
                | Some exe \<Rightarrow> Inr (find_model w relative (parent_path exe)))
       (\<lambda>p. if \<not> tw_regular w p then Inl (RuntimeError (''Model not found: '' @ relative)) else Inr (tw_absolute w p))"

definition name_session :: "tool_world \<Rightarrow> capture_args \<Rightarrow> capture_args result" where
  "name_session w a =
     (if ca_session a \<noteq> [] then Inr a
      else bind_result (utc_stamp (tw_time w)) (\<lambda>t. Inr (a\<lparr>ca_session := t @ ''_'' @ decimal (tw_process w)\<rparr>)))"

definition capture_limits :: "capture_args \<Rightarrow> unit result" where
  "capture_limits a =
     (if \<not> valid_identifier (ca_subject a) \<or> \<not> valid_identifier (ca_session a)
      then Inl (InvalidArgument ''subject/session require A-Z, a-z, 0-9, underscore or hyphen'')
      else if ca_split a \<noteq> ''dev'' \<and> ca_split a \<noteq> ''test'' then Inl (InvalidArgument ''split must be dev or test'')
      else if ca_samples a < 1 \<or> ca_every a < 1 \<or> ca_max_frames a < 1 \<or> ca_min_score a < 0 \<or> ca_min_score a > 1
      then Inl (InvalidArgument ''samples/every/max-frames >= 1; min-det-score 0..1'')
      else Inr ())"

definition capture_paths :: "tool_world \<Rightarrow> capture_args \<Rightarrow> capture_args result" where
  "capture_paths w a =
     (let output = tw_absolute w
            (if ca_output a \<noteq> [] then ca_output a
             else join_path ''calibration/liveness''
                    (ca_split a @ ''_'' @ ca_subject a @ ''_'' @ ca_scenario a @ ''_'' @ ca_session a @ ''.csv''))
      in if tw_exists w output then Inl (InvalidArgument ''Output already exists; choose a new session/output'')
         else bind_result (model_path w (ca_scrfd a) ''insightface/buffalo_sc/det_500m.onnx'') (\<lambda>scrfd.
              bind_result (model_path w (ca_addons a) ''insightface/addons/liveness.onnx'') (\<lambda>addons.
                Inr (a\<lparr>ca_output := output, ca_scrfd := scrfd, ca_addons := addons\<rparr>))))"

definition capture_args_of :: "tool_world \<Rightarrow> string list \<Rightarrow> capture_args option result" where
  "capture_args_of w argv =
     bind_result (scan_capture_options default_capture_args argv) (\<lambda>scanned.
     case scanned of
       None \<Rightarrow> Inr None
     | Some a \<Rightarrow>
         bind_result (validate_label (ca_label a) (ca_scenario a)) (\<lambda>_.
         bind_result (name_session w a) (\<lambda>a.
         bind_result (capture_limits a) (\<lambda>_.
         bind_result (capture_paths w a) (\<lambda>a. Inr (Some a))))))"

section \<open>One frame\<close>

text \<open>\<open>Failed\<close> carries what the exception of the evaluator says.\<close>

datatype judgement = Judged liveness_result | Failed string

record capture_moment =
  cm_wait :: "tracking_frame option result"
  cm_judge :: "face_detection \<Rightarrow> judgement"
  cm_clock :: int
  cm_wall :: double
  cm_written :: "nat option"

record capture_session =
  cs_csv :: string
  cs_warm :: nat
  cs_measured :: nat
  cs_skipped :: nat
  cs_previous :: nat

definition write_csv :: "nat option \<Rightarrow> string list \<Rightarrow> (capture_session, unit) run" where
  "write_csv broken cells =
     (case broken of
        None \<Rightarrow> modify (\<lambda>s. s\<lparr>cs_csv := cs_csv s @ csv_line cells\<rparr>)
      | Some k \<Rightarrow> andThen (modify (\<lambda>s. s\<lparr>cs_csv := cs_csv s @ take k (csv_line cells)\<rparr>)) (\<lambda>_.
                  throw (RuntimeError ''CSV write/flush failed; session incomplete'')))"

definition capture_header :: "string list" where
  "capture_header = [''schema_version'', ''split'', ''subject'', ''session'', ''scenario'', ''label'', ''phase'', ''status'',
     ''utc_logged'', ''camera_frame_id'', ''app_timestamp_ns'', ''camera_width'', ''camera_height'', ''track_id'',
     ''detection_score'', ''face_x1'', ''face_y1'', ''face_x2'', ''face_y2'', ''live_score'', ''decision'', ''threshold'',
     ''out_of_bounds_ratio'', ''wall_ms'', ''error'', ''model_sha256'', ''scrfd_sha256'', ''model_path'', ''preprocess_contract'',
     ''every'', ''warmup_observations'', ''target_observations'']"

text \<open>The one face of the frame, or why there is none.\<close>

definition capture_candidate :: "capture_args \<Rightarrow> tracking_frame \<Rightarrow> string + track_result" where
  "capture_candidate a f =
     (let faces = length (filter (\<lambda>d. detection_score d \<ge> ca_min_score a) (frame_detections f))
      in if faces = 0 then Inl ''no_face''
         else if faces > 1 \<or> length (frame_tracks f) > 1 then Inl ''multiple_faces''
         else case frame_tracks f of
                [] \<Rightarrow> Inl ''no_current_track''
              | t # _ \<Rightarrow> if \<not> has_observation t \<or> detection_score (observation t) < ca_min_score a
                          then Inl ''no_current_track'' else Inr t)"

definition blank_liveness :: liveness_result where
  "blank_liveness = \<lparr>live_score = None, live_decision = InputRejected, out_of_bounds_ratio = 0,
     live_transform = \<lparr>src_to_dst = replicate 6 0, dst_to_src = replicate 6 0, rmse = 0\<rparr>\<rparr>"

fun decision_text :: "liveness_decision \<Rightarrow> string" where
  "decision_text InputRejected = ''INPUT_REJECTED''"
| "decision_text Live = ''LIVE''"
| "decision_text Spoof = ''SPOOF''"

definition single_text :: "single \<Rightarrow> string" where
  "single_text x = float_text (sval x)"

text \<open>Status, result, error text and whether the attempt counts as skipped.\<close>

definition judge_candidate :: "capture_moment \<Rightarrow> string + track_result \<Rightarrow> string \<times> liveness_result \<times> string \<times> bool" where
  "judge_candidate m candidate =
     (case candidate of
        Inl status \<Rightarrow> (status, blank_liveness, [], True)
      | Inr t \<Rightarrow>
          (case cm_judge m (observation t) of
             Judged r \<Rightarrow> if live_score r = None then (''input_rejected'', r, [], True) else (''ok'', r, [], False)
           | Failed message \<Rightarrow> (if message \<noteq> [] then ''model_error'' else ''ok'', blank_liveness, message, False)))"

definition capture_row :: "capture_args \<Rightarrow> string \<Rightarrow> string \<Rightarrow> bool \<Rightarrow> string \<Rightarrow> string \<Rightarrow> gpu_frame \<Rightarrow> string + track_result \<Rightarrow>
    liveness_result \<Rightarrow> double \<Rightarrow> string \<Rightarrow> string list" where
  "capture_row a addons_hash scrfd_hash warming status stamp gpu candidate r wall message =
     (let of_track = (\<lambda>g. case candidate of Inr t \<Rightarrow> g t | Inl _ \<Rightarrow> []);
          of_result = (\<lambda>x. case candidate of Inr _ \<Rightarrow> if message = [] then x else [] | Inl _ \<Rightarrow> [])
      in [''liveness_capture_v1'', ca_split a, ca_subject a, ca_session a, ca_scenario a, ca_label a,
          if warming then ''warmup'' else ''measure'', status, stamp, decimal (frame_id gpu), decimal (frame_timestamp_ns gpu),
          decimal (frame_width gpu), decimal (frame_height gpu),
          of_track (\<lambda>t. decimal (result_id t)), of_track (\<lambda>t. single_text (detection_score (observation t))),
          of_track (\<lambda>t. single_text (box_x1 (observation t))), of_track (\<lambda>t. single_text (box_y1 (observation t))),
          of_track (\<lambda>t. single_text (box_x2 (observation t))), of_track (\<lambda>t. single_text (box_y2 (observation t))),
          case live_score r of Some v \<Rightarrow> single_text v | None \<Rightarrow> [],
          of_result (decision_text (live_decision r)), single_text ta_live_threshold,
          of_result (single_text (out_of_bounds_ratio r)), of_track (\<lambda>_. float_text (dval wall)), message,
          addons_hash, scrfd_hash, ca_addons a, ''addons_v2_align80_rgb8_linear32_replicate_gpu_oob30'',
          int_text (ca_every a), int_text (ca_warmup a), int_text (ca_samples a)])"

definition capture_observation :: "capture_args \<Rightarrow> string \<Rightarrow> string \<Rightarrow> capture_moment \<Rightarrow> tracking_frame \<Rightarrow> (capture_session, unit) run" where
  "capture_observation a addons_hash scrfd_hash m f =
     andThen get_state (\<lambda>s.
       let warming = int (cs_warm s) < ca_warmup a;
           candidate = capture_candidate a f
       in case judge_candidate m candidate of (status, r, message, skip) \<Rightarrow>
          andThen (modify (\<lambda>s. if skip then s\<lparr>cs_skipped := cs_skipped s + 1\<rparr> else s)) (\<lambda>_.
          andThen (lift_result (utc_stamp (cm_clock m))) (\<lambda>stamp.
          let row = capture_row a addons_hash scrfd_hash warming status stamp (track_gpu_frame f) candidate r (cm_wall m) message
          in if length row \<noteq> length capture_header then throw (LogicError ''CSV schema mismatch'')
             else andThen (write_csv (cm_written m) row) (\<lambda>_.
               if status = ''model_error''
               then throw (RuntimeError ''Model failed; error recorded in CSV. Fix before continuing collection.'')
               else if status \<noteq> ''ok'' then ret ()
               else modify (\<lambda>s. if warming then s\<lparr>cs_warm := cs_warm s + 1\<rparr> else s\<lparr>cs_measured := cs_measured s + 1\<rparr>)))))"

definition capture_frame :: "capture_args \<Rightarrow> string \<Rightarrow> string \<Rightarrow> nat \<Rightarrow> capture_moment \<Rightarrow> (capture_session, unit) run" where
  "capture_frame a addons_hash scrfd_hash index m =
     andThen (lift_result (cm_wait m)) (\<lambda>got.
       case got of
         None \<Rightarrow> throw (RuntimeError ''Camera/tracking timeout; partial CSV retained'')
       | Some f \<Rightarrow>
           andThen get_state (\<lambda>s.
             if frame_id (track_gpu_frame f) \<le> cs_previous s
             then throw (RuntimeError ''Camera frame ID did not advance; refusing duplicate observations'')
             else andThen (modify (\<lambda>s. s\<lparr>cs_previous := frame_id (track_gpu_frame f)\<rparr>)) (\<lambda>_.
                  if (int index - 1) mod ca_every a \<noteq> 0 then ret ()
                  else capture_observation a addons_hash scrfd_hash m f)))"

section \<open>A session\<close>

fun capture_frames :: "capture_args \<Rightarrow> string \<Rightarrow> string \<Rightarrow> (nat \<times> capture_moment) list \<Rightarrow> (capture_session, unit) run" where
  "capture_frames a addons_hash scrfd_hash [] = ret ()"
| "capture_frames a addons_hash scrfd_hash ((index, m) # rest) =
     andThen get_state (\<lambda>s.
       if int (cs_measured s) \<ge> ca_samples a then ret ()
       else andThen (capture_frame a addons_hash scrfd_hash index m) (\<lambda>_. capture_frames a addons_hash scrfd_hash rest))"

text \<open>The moments are those of the frames 1, 2, ... up to the limit.\<close>

definition capture_run :: "capture_args \<Rightarrow> string \<Rightarrow> string \<Rightarrow> nat option \<Rightarrow> unit result \<Rightarrow> (nat \<Rightarrow> capture_moment) \<Rightarrow> (capture_session, int) run" where
  "capture_run a addons_hash scrfd_hash header_written started moments =
     andThen (write_csv header_written capture_header) (\<lambda>_.
     andThen (lift_result started) (\<lambda>_.
     andThen (capture_frames a addons_hash scrfd_hash (map (\<lambda>i. (i, moments i)) [1..<nat (ca_max_frames a) + 1])) (\<lambda>_.
     andThen get_state (\<lambda>s. ret (if int (cs_measured s) = ca_samples a then 0 else 2)))))"

definition new_session :: capture_session where
  "new_session = \<lparr>cs_csv = [], cs_warm = 0, cs_measured = 0, cs_skipped = 0, cs_previous = 0\<rparr>"

definition capture_sha256 :: "'h hash_api \<Rightarrow> file_stream \<Rightarrow> string \<Rightarrow> string result" where
  "capture_sha256 api stream path =
     bind_result (hash_create api) (\<lambda>h.
     case stream path of
       None \<Rightarrow> Inl (RuntimeError ''Cannot read model for SHA-256'')
     | Some (bytes, clean) \<Rightarrow>
         bind_result (hash_blocks api h (blocks bytes)) (\<lambda>h.
         if \<not> clean then Inl (RuntimeError ''Model read failed during SHA-256'')
         else bind_result (hash_finish api h) (\<lambda>d. Inr (hex_text d))))"

definition capture_tracking :: "capture_args \<Rightarrow> tracking_config" where
  "capture_tracking a =
     \<lparr>tc_camera = default_camera_config\<lparr>cam_width := 1280, cam_height := 720, cam_fps := 30,
        cam_source_subtype := ''NV12'', cam_output_subtype := ''NV12''\<rparr>,
      tc_scrfd = default_scrfd_config\<lparr>scrfd_path := ca_scrfd a, score_threshold := single_lit (1 / 10),
        nms_threshold := single_lit (4 / 10)\<rparr>,
      tc_bytetrack = default_bytetrack_config\<rparr>"

text \<open>
  The program up to the file: what it returns at once, or the hashes and the started runtime. \<open>created\<close>
  says whether the new file could be created.
\<close>

definition capture_setup :: "'h hash_api \<Rightarrow> file_stream \<Rightarrow> vision_world \<Rightarrow> capture_args \<Rightarrow>
    (string \<times> string \<times> tracking_runtime) result" where
  "capture_setup api stream vw a =
     bind_result (capture_sha256 api stream (ca_addons a)) (\<lambda>addons_hash.
     bind_result (capture_sha256 api stream (ca_scrfd a)) (\<lambda>scrfd_hash.
     if addons_hash \<noteq> pad_model_sha256
     then Inl (RuntimeError ''Selected addon SHA-256 mismatch; update the TA selection explicitly'')
     else bind_result (new_tracking_runtime vw (capture_tracking a)) (\<lambda>rt.
          bind_result (validate_liveness_config (file_exists vw)
            \<lparr>config_path = ca_addons a, config_width = 80, config_height = 80\<rparr> ta_live_threshold) (\<lambda>_.
          bind_result (bind_result (load_model vw (ca_addons a)) load_liveness) (\<lambda>_.
            Inr (addons_hash, scrfd_hash, rt))))))"

definition capture_main :: "'h hash_api \<Rightarrow> file_stream \<Rightarrow> vision_world \<Rightarrow> tool_world \<Rightarrow> bool \<Rightarrow> nat option \<Rightarrow>
    (nat \<Rightarrow> capture_moment) \<Rightarrow> string list \<Rightarrow> int result \<times> capture_session option" where
  "capture_main api stream vw w created header_written moments argv =
     (case capture_args_of w argv of
        Inl e \<Rightarrow> (Inl e, None)
      | Inr None \<Rightarrow> (Inr 0, None)
      | Inr (Some a) \<Rightarrow>
          (case capture_setup api stream vw a of
             Inl e \<Rightarrow> (Inl e, None)
           | Inr (addons_hash, scrfd_hash, rt) \<Rightarrow>
               if ca_validate_only a then (Inr 0, None)
               else if \<not> created
               then (Inl (RuntimeError (''Cannot create CSV (existing files are never overwritten): '' @ ca_output a)), None)
               else (case capture_run a addons_hash scrfd_hash header_written (fst (tracking_start vw rt)) moments new_session of
                       (r, s) \<Rightarrow> (r, Some s))))"

end
