(* ===== verification/CaptureLaws.thy ===== *)
theory CaptureLaws
  imports Capture
begin

text \<open>
  What a captured file is worth: its lines read back as they were written, and a session that reports
  success holds exactly the observations it promised.
\<close>

section \<open>A reader of CSV files\<close>

definition quoted :: "string \<Rightarrow> string" where
  "quoted f = [quote_mark] @ escaped f @ [quote_mark]"

definition line_end :: string where
  "line_end = [CHR 0x0D, CHR 0x0A]"

fun read_quoted :: "string \<Rightarrow> (string \<times> string) option" where
  "read_quoted [] = None"
| "read_quoted (c # s) =
     (if c = quote_mark
      then (case s of
              [] \<Rightarrow> Some ([], [])
            | d # t \<Rightarrow> if d = quote_mark then map_option (\<lambda>(f, r). (quote_mark # f, r)) (read_quoted t) else Some ([], s))
      else map_option (\<lambda>(f, r). (c # f, r)) (read_quoted s))"

fun read_cells :: "nat \<Rightarrow> string \<Rightarrow> (string list \<times> string) option" where
  "read_cells 0 s = None"
| "read_cells (Suc n) s =
     (if take 1 s \<noteq> [quote_mark] then None
      else case read_quoted (drop 1 s) of
             None \<Rightarrow> None
           | Some (f, r) \<Rightarrow>
               if take 1 r = '','' then map_option (\<lambda>(fs, z). (f # fs, z)) (read_cells n (drop 1 r))
               else if take 2 r = line_end then Some ([f], drop 2 r)
               else None)"

fun read_rows :: "nat \<Rightarrow> string \<Rightarrow> string list list option" where
  "read_rows 0 s = (if s = [] then Some [] else None)"
| "read_rows (Suc n) s =
     (if s = [] then Some []
      else case read_cells (length s) s of
             None \<Rightarrow> None
           | Some (row, r) \<Rightarrow> map_option ((#) row) (read_rows n r))"

definition csv_read :: "string \<Rightarrow> string list list option" where
  "csv_read s = read_rows (length s) s"

section \<open>Lines read back\<close>

lemma read_escaped: "take 1 r \<noteq> [quote_mark] \<Longrightarrow> read_quoted (escaped f @ quote_mark # r) = Some (f, r)"
proof (induction f)
  case Nil
  then show ?case by (cases r) (auto simp: escaped_def)
next
  case (Cons c f)
  show ?case
  proof (cases "c = quote_mark")
    case True
    then have "escaped (c # f) = quote_mark # quote_mark # escaped f" by (simp add: escaped_def)
    with Cons True show ?thesis by simp
  next
    case False
    then have "escaped (c # f) = c # escaped f" by (simp add: escaped_def)
    with Cons False show ?thesis by simp
  qed
qed

definition tail_cells :: "string list \<Rightarrow> string" where
  "tail_cells fs = concat (map (\<lambda>f. '','' @ quoted f) fs)"

lemma csv_line_Cons: "csv_line (f # fs) = quoted f @ tail_cells fs @ line_end"
proof -
  have "foldl (\<lambda>out f. (if out = [] then [] else out @ '','') @ [quote_mark] @ escaped f @ [quote_mark]) out fs = out @ tail_cells fs"
    if "out \<noteq> []" for out
    using that by (induction fs arbitrary: out) (simp_all add: tail_cells_def quoted_def)
  then show ?thesis by (simp add: csv_line_def quoted_def line_end_def)
qed

lemma separators: "take 1 ('','' @ s) = '',''" "take 1 (line_end @ s) \<noteq> '',''" "take 1 ('','' @ s) \<noteq> [quote_mark]"
  "take 1 (line_end @ s) \<noteq> [quote_mark]" "take 2 (line_end @ s) = line_end" "drop 2 (line_end @ s) = s"
  by (simp_all add: line_end_def quote_mark_def)

lemma read_line: "length (f # fs) \<le> n \<Longrightarrow> read_cells n (quoted f @ tail_cells fs @ line_end @ s) = Some (f # fs, s)"
proof (induction fs arbitrary: f n)
  case Nil
  then obtain m where n: "n = Suc m" by (cases n) auto
  have "read_quoted (escaped f @ quote_mark # line_end @ s) = Some (f, line_end @ s)"
    by (rule read_escaped) (simp add: line_end_def quote_mark_def)
  then show ?case by (simp add: n quoted_def tail_cells_def separators separators [unfolded One_nat_def] del: take_append drop_append)
next
  case (Cons g gs)
  then obtain m where n: "n = Suc m" and m: "length (g # gs) \<le> m" by (cases n) auto
  let ?r = "quoted g @ tail_cells gs @ line_end @ s"
  have "read_quoted (escaped f @ quote_mark # '','' @ ?r) = Some (f, '','' @ ?r)"
    by (rule read_escaped) (simp add: quote_mark_def)
  moreover have "tail_cells (g # gs) = '','' @ quoted g @ tail_cells gs" by (simp add: tail_cells_def)
  ultimately show ?case using Cons.IH [OF m] by (simp add: n quoted_def)
qed

lemma csv_line_length: "row \<noteq> [] \<Longrightarrow> length row \<le> length (csv_line row)"
proof -
  assume "row \<noteq> []"
  then obtain f fs where row: "row = f # fs" by (cases row) auto
  have "length fs \<le> length (tail_cells fs)" by (induction fs) (simp_all add: tail_cells_def quoted_def)
  then show ?thesis by (simp add: row csv_line_Cons quoted_def)
qed

lemma read_all: "[] \<notin> set rows \<Longrightarrow> length rows \<le> n \<Longrightarrow> read_rows n (concat (map csv_line rows)) = Some rows"
proof (induction rows arbitrary: n)
  case Nil
  then show ?case by (cases n) auto
next
  case (Cons row rows)
  then obtain m where n: "n = Suc m" "length rows \<le> m" by (cases n) auto
  from Cons.prems obtain f fs where row: "row = f # fs" by (cases row) auto
  let ?s = "concat (map csv_line (row # rows))"
  have s: "?s = quoted f @ tail_cells fs @ line_end @ concat (map csv_line rows)" by (simp add: row csv_line_Cons)
  have "length row \<le> length ?s" using csv_line_length [of row] row by simp
  then have "read_cells (length ?s) (quoted f @ tail_cells fs @ line_end @ concat (map csv_line rows)) =
      Some (f # fs, concat (map csv_line rows))"
    by (intro read_line) (simp only: row)
  then have "read_cells (length ?s) ?s = Some (row, concat (map csv_line rows))" by (metis s row)
  moreover have "?s \<noteq> []" unfolding s by (simp add: quoted_def)
  ultimately show ?case using Cons.IH [of m] Cons.prems n by (simp del: concat.simps list.map(2))
qed

lemma rows_length: "[] \<notin> set rows \<Longrightarrow> length rows \<le> length (concat (map csv_line rows))"
proof (induction rows)
  case (Cons row rows)
  then have "1 \<le> length (csv_line row)" by (cases row) (simp_all add: csv_line_Cons quoted_def)
  with Cons show ?case by simp
qed simp

lemma csv_roundtrip_all: "[] \<notin> set rows \<Longrightarrow> csv_read (concat (map csv_line rows)) = Some rows"
  unfolding csv_read_def by (rule read_all [OF _ rows_length])

text \<open>
  C38: nothing is lost in a CSV file. A reader of the standard quoting gets back the lines that were
  written, cell by cell, whatever separators, quotation marks and line ends the cells contain.
\<close>

theorem csv_roundtrip:
  assumes "[] \<notin> set rows"
  shows "csv_read (concat (map csv_line rows)) = Some rows"
  by (rule csv_roundtrip_all [OF assms])

theorem csv_roundtrip_witness:
  "csv_read (concat (map csv_line [[''a,b'', [quote_mark]], [[], ''c'' @ line_end]])) = Some [[''a,b'', [quote_mark]], [[], ''c'' @ line_end]]"
  by (rule csv_roundtrip) simp

section \<open>What a session writes\<close>

text \<open>Columns of a row, by their place in the header.\<close>

definition frame_number :: "string list \<Rightarrow> nat" where
  "frame_number r = decimal_value (r ! 9)"

definition counted :: "string \<Rightarrow> string list \<Rightarrow> bool" where
  "counted ph r \<longleftrightarrow> r ! 6 = ph \<and> r ! 7 = ''ok''"

definition row_ok :: "capture_args \<Rightarrow> string \<Rightarrow> string list \<Rightarrow> bool" where
  "row_ok a addons_hash r \<longleftrightarrow> length r = length capture_header \<and> r ! 4 = ca_scenario a \<and> r ! 5 = ca_label a \<and>
     r ! 25 = addons_hash \<and> (r ! 7 = ''ok'' \<longrightarrow> r ! 19 \<noteq> [])"

definition session_ok :: "capture_args \<Rightarrow> string \<Rightarrow> capture_session \<Rightarrow> string list list \<Rightarrow> bool" where
  "session_ok a addons_hash s rows \<longleftrightarrow>
     cs_csv s = concat (map csv_line (capture_header # rows)) \<and>
     length (filter (counted ''measure'') rows) = cs_measured s \<and> length (filter (counted ''warmup'') rows) = cs_warm s \<and>
     (0 < cs_measured s \<longrightarrow> ca_warmup a \<le> int (cs_warm s)) \<and> int (cs_measured s) \<le> ca_samples a \<and>
     sorted_wrt (<) (map frame_number rows) \<and> (\<forall>r \<in> set rows. frame_number r \<le> cs_previous s \<and> row_ok a addons_hash r)"

lemma general_text_nonempty: "general_text q \<noteq> []"
proof (cases "q = 0")
  case False
  obtain n e where s: "significant \<bar>q\<bar> = (n, e)" by fastforce
  have "take (Suc k) (decimal n) \<noteq> []" for k by (cases "decimal n") auto
  then show ?thesis using False s by (simp add: general_text_def Let_def)
qed (simp add: general_text_def)

lemma single_text_nonempty: "single_text x \<noteq> []"
  by (cases "sval x") (simp_all add: single_text_def general_text_nonempty)

lemma judged_ok:
  assumes "judge_candidate m (capture_candidate a f) = (status, r, message, skip)" and "\<And>d. cm_judge m d \<noteq> Failed []"
  shows "status = ''ok'' \<Longrightarrow> live_score r \<noteq> None"
  using assms
  by (auto simp: judge_candidate_def capture_candidate_def Let_def split: sum.splits judgement.splits if_splits list.splits)

lemma observation_ok:
  assumes "capture_observation a h1 h2 m f s = (Inr u, t)" and ok: "session_ok a h1 s rows"
    and "int (cs_measured s) < ca_samples a" and judge: "\<And>d. cm_judge m d \<noteq> Failed []"
    and new: "\<forall>r \<in> set rows. frame_number r < frame_id (track_gpu_frame f)" and prev: "cs_previous s = frame_id (track_gpu_frame f)"
  shows "\<exists>row. session_ok a h1 t (rows @ [row])"
proof -
  define candidate where "candidate = capture_candidate a f"
  obtain status r message skip where j: "judge_candidate m candidate = (status, r, message, skip)" by (metis prod_cases4)
  define warming where "warming = (int (cs_warm s) < ca_warmup a)"
  from assms(1) obtain stamp where stamp: "utc_stamp (cm_clock m) = Inr stamp"
    using j by (auto simp: capture_observation_def andThen_Inr_iff get_state_def lift_result_def Let_def candidate_def)
  define row where "row = capture_row a h1 h2 warming status stamp (track_gpu_frame f) candidate r (cm_wall m) message"
  have len: "length row = length capture_header" by (simp add: row_def capture_row_def Let_def capture_header_def)
  have cells: "row ! 4 = ca_scenario a" "row ! 5 = ca_label a" "row ! 25 = h1" "row ! 7 = status"
    "row ! 6 = (if warming then ''warmup'' else ''measure'')" "row ! 9 = decimal (frame_id (track_gpu_frame f))"
    "row ! 19 = (case live_score r of Some v \<Rightarrow> single_text v | None \<Rightarrow> [])"
    by (simp_all add: row_def capture_row_def Let_def)
  have "status = ''ok'' \<Longrightarrow> row ! 19 \<noteq> []"
    using judged_ok [OF j [unfolded candidate_def] judge] cells(7) single_text_nonempty by (auto split: option.splits)
  then have row: "row_ok a h1 row" "frame_number row = cs_previous s" using cells len prev by (auto simp: row_ok_def frame_number_def)
  have run: "cm_written m = None" "status \<noteq> ''model_error''"
    "t = (let s1 = (if skip then s\<lparr>cs_skipped := cs_skipped s + 1\<rparr> else s); s2 = s1\<lparr>cs_csv := cs_csv s1 @ csv_line row\<rparr>
          in if status \<noteq> ''ok'' then s2 else if warming then s2\<lparr>cs_warm := cs_warm s2 + 1\<rparr> else s2\<lparr>cs_measured := cs_measured s2 + 1\<rparr>)"
    using assms(1) j stamp len
    by (auto simp: capture_observation_def run_simps Let_def candidate_def [symmetric] warming_def [symmetric] row_def [symmetric]
        write_csv_def split: option.splits if_splits)
  have parts: "cs_csv t = cs_csv s @ csv_line row" "cs_previous t = cs_previous s"
    "cs_warm t = (if status = ''ok'' \<and> warming then cs_warm s + 1 else cs_warm s)"
    "cs_measured t = (if status = ''ok'' \<and> \<not> warming then cs_measured s + 1 else cs_measured s)"
    using run(3) by (auto simp: Let_def)
  have counts: "counted ''measure'' row = (status = ''ok'' \<and> \<not> warming)" "counted ''warmup'' row = (status = ''ok'' \<and> warming)"
    using cells by (auto simp: counted_def)
  have "session_ok a h1 t (rows @ [row])"
    using ok parts counts row new assms(3) prev by (auto simp: session_ok_def sorted_wrt_append warming_def)
  then show ?thesis by blast
qed

lemma frame_ok:
  assumes "capture_frame a h1 h2 i m s = (Inr u, t)" and ok: "session_ok a h1 s rows"
    and "int (cs_measured s) < ca_samples a" and judge: "\<And>d. cm_judge m d \<noteq> Failed []"
  shows "\<exists>rows. session_ok a h1 t rows"
proof -
  from assms(1) obtain f where f: "cm_wait m = Inr (Some f)" "cs_previous s < frame_id (track_gpu_frame f)"
    and rest: "(if (int i - 1) mod ca_every a \<noteq> 0 then ret () else capture_observation a h1 h2 m f)
       (s\<lparr>cs_previous := frame_id (track_gpu_frame f)\<rparr>) = (Inr u, t)"
    by (auto simp: capture_frame_def run_simps split: sum.splits option.splits if_splits)
  let ?s = "s\<lparr>cs_previous := frame_id (track_gpu_frame f)\<rparr>"
  have moved: "session_ok a h1 ?s rows" "\<forall>r \<in> set rows. frame_number r < frame_id (track_gpu_frame f)"
    using ok f(2) by (auto simp: session_ok_def)
  show ?thesis
  proof (cases "(int i - 1) mod ca_every a \<noteq> 0")
    case True
    with rest moved show ?thesis by (auto simp: ret_def)
  next
    case False
    with rest have "capture_observation a h1 h2 m f ?s = (Inr u, t)" by simp
    from observation_ok [OF this moved(1) _ judge moved(2)] assms(3) show ?thesis by auto
  qed
qed

lemma frames_ok:
  assumes "capture_frames a h1 h2 ms s = (Inr u, t)" and "session_ok a h1 s rows"
    and "\<And>i m d. (i, m) \<in> set ms \<Longrightarrow> cm_judge m d \<noteq> Failed []"
  shows "\<exists>rows. session_ok a h1 t rows"
  using assms
proof (induction ms arbitrary: s rows)
  case Nil
  then show ?case by (auto simp: ret_def)
next
  case (Cons p ms)
  obtain i m where p: "p = (i, m)" by (cases p)
  show ?case
  proof (cases "int (cs_measured s) \<ge> ca_samples a")
    case True
    with Cons.prems show ?thesis by (auto simp: p run_simps)
  next
    case False
    with Cons.prems(1) obtain s1 where s1: "capture_frame a h1 h2 i m s = (Inr (), s1)" "capture_frames a h1 h2 ms s1 = (Inr u, t)"
      by (auto simp: p andThen_Inr_iff get_state_def)
    have "cm_judge m d \<noteq> Failed []" for d using Cons.prems(3) [of i m d] p by simp
    with frame_ok [OF s1(1) Cons.prems(2)] False obtain rows1 where "session_ok a h1 s1 rows1" by auto
    from Cons.IH [OF s1(2) this] Cons.prems(3) show ?thesis by auto
  qed
qed

lemma run_ok:
  assumes "capture_run a h1 h2 written started moments new_session = (Inr code, s)" and "0 \<le> ca_samples a"
    and "\<And>i d. cm_judge (moments i) d \<noteq> Failed []"
  shows "\<exists>rows. session_ok a h1 s rows \<and> code = (if int (cs_measured s) = ca_samples a then 0 else 2)"
proof -
  from assms(1) obtain s1 where s1: "write_csv written capture_header new_session = (Inr (), s1)"
    "capture_frames a h1 h2 (map (\<lambda>i. (i, moments i)) [1..<nat (ca_max_frames a) + 1]) s1 = (Inr (), s)"
    "code = (if int (cs_measured s) = ca_samples a then 0 else 2)"
    by (auto simp: capture_run_def andThen_Inr_iff lift_result_def get_state_def ret_def)
  have "session_ok a h1 s1 []"
    using s1(1) assms(2) by (auto simp: write_csv_def run_simps new_session_def session_ok_def split: option.splits)
  from frames_ok [OF s1(2) this] assms(3) s1(3) show ?thesis by auto
qed

lemma captured_arguments:
  assumes "capture_args_of w argv = Inr (Some a)"
  shows "1 \<le> ca_samples a" and "ca_label a \<in> {''real'', ''spoof''}" and "ca_label a = ''real'' \<longleftrightarrow> ca_scenario a = ''live''"
proof -
  from assms obtain b c where b: "validate_label (ca_label b) (ca_scenario b) = Inr ()" "name_session w b = Inr c"
    "capture_limits c = Inr ()" "capture_paths w c = Inr a"
    by (auto simp: capture_args_of_def split: option.splits)
  moreover have "ca_label c = ca_label b" "ca_scenario c = ca_scenario b"
    using b(2) by (auto simp: name_session_def split: if_splits)
  moreover have "ca_label a = ca_label c" "ca_scenario a = ca_scenario c" "ca_samples a = ca_samples c"
    using b(4) by (auto simp: capture_paths_def Let_def split: if_splits)
  moreover have "1 \<le> ca_samples c" using b(3) by (auto simp: capture_limits_def split: if_splits)
  ultimately show "1 \<le> ca_samples a" "ca_label a \<in> {''real'', ''spoof''}" "ca_label a = ''real'' \<longleftrightarrow> ca_scenario a = ''live''"
    by (auto simp: validate_label_def split: if_splits)
qed

lemma setup_hash: "capture_setup api stream vw a = Inr (h1, h2, rt) \<Longrightarrow> h1 = pad_model_sha256"
  by (auto simp: capture_setup_def split: if_splits)


section \<open>A session of one observation\<close>

definition tool_sample :: tool_world where
  "tool_sample = \<lparr>tw_time = 0, tw_process = 7, tw_absolute = id, tw_exists = (\<lambda>_. False), tw_regular = (\<lambda>_. True),
     tw_current = ''C:'', tw_executable = None\<rparr>"

definition sample_argv :: "string list" where
  "sample_argv = [''--label'', ''spoof'', ''--scenario'', ''photo'', ''--subject'', ''S01'', ''--session'', ''a'', ''--scrfd'', ''s'',
     ''--addons'', ''p'', ''--output'', ''o.csv'', ''--samples'', ''1'', ''--warmup'', ''0'', ''--max-frames'', ''1'']"

definition sample_args :: capture_args where
  "sample_args = \<lparr>ca_scrfd = ''s'', ca_addons = ''p'', ca_output = ''o.csv'', ca_label = ''spoof'', ca_scenario = ''photo'',
     ca_subject = ''S01'', ca_session = ''a'', ca_split = ''dev'', ca_samples = 1, ca_every = 5, ca_max_frames = 1, ca_warmup = 0,
     ca_min_score = single_lit (1 / 2), ca_validate_only = False\<rparr>"

lemma sample_arguments: "capture_args_of tool_sample sample_argv = Inr (Some sample_args)"
  by code_simp

lemma sample_setup_checks:
  "validate_tracking_config (capture_tracking sample_args) = Inr ()"
  "validate_scrfd_config (\<lambda>_. True) (tc_scrfd (capture_tracking sample_args)) = Inr ()"
  "validate_liveness_config (\<lambda>_. True) \<lparr>config_path = ''p'', config_width = 80, config_height = 80\<rparr> ta_live_threshold = Inr ()"
  "hex_text pad_digest = pad_model_sha256"
  "hex_text (replicate 32 0) = replicate 64 (CHR ''0'')"
  by code_simp+

lemma capture_selection:
  "select_mode (tc_camera (capture_tracking sample_args)) sample_sources sample_group =
     Inr (make_candidate (tc_camera (capture_tracking sample_args)) \<lparr>info_id = ''p'', info_color = True, info_stream = PreviewStream\<rparr>
       (sample_format 30 ''NV12''))"
  by code_simp

lemma capture_group: "select_group (tc_camera (capture_tracking sample_args)) [sample_group] = Inr sample_group"
  by code_simp

lemma capture_started:
  "fst (camera_start sample_driver (tc_camera (capture_tracking sample_args)) (new_camera 1)) = Inr ()"
proof -
  have group: "group_name sample_group = ''cam''" by (simp add: sample_group_def)
  show ?thesis
    using capture_selection capture_group group sample_low_light_laws(3,4)
    by (simp add: camera_start_def new_camera_def fresh_session_def open_camera_def initialize_capture_def sample_driver_def
        run_simps Let_def start_failure_def configure_constant_frame_rate_def plain_controls_def
        apply_legacy_constant_frame_rate_def forced_constant_def default_camera_config_def capture_tracking_def)
qed

lemma sample_setup:
  "\<exists>h rt. capture_setup append_hash (file_stream_of deployed_world) sample_world sample_args = Inr (pad_model_sha256, h, rt) \<and>
     fst (tracking_start sample_world rt) = Inr ()"
proof -
  let ?c = "capture_tracking sample_args"
  have sha: "capture_sha256 append_hash (file_stream_of deployed_world) p =
      Inr (if p = ''p'' then pad_model_sha256 else replicate 64 (CHR ''0''))" for p
    using sample_setup_checks(4,5) by (auto simp: capture_sha256_def append_hash_def deployed_world_def blocks.simps)
  have c: "ca_addons sample_args = ''p''" "ca_scrfd sample_args = ''s''" "scrfd_path (tc_scrfd ?c) = ''s''"
    by (simp_all add: sample_args_def capture_tracking_def)
  have w: "file_exists sample_world = (\<lambda>_. True)" "load_model sample_world = sample_models" "device_low_light sample_world = 1"
    "camera_drv sample_world = sample_driver" by (simp_all add: sample_world_def)
  have m: "sample_models ''s'' = Inr sample_scrfd" by (simp add: sample_models_def)
  define rt where "rt = \<lparr>tr_config = ?c, tr_model = sample_scrfd, tr_camera = new_camera 1, tr_detector = unloaded_scrfd,
    tr_tracker = make_tracker (tc_bytetrack ?c), tr_last_frame = 0, tr_started = False\<rparr>"
  have rt: "new_tracking_runtime sample_world ?c = Inr rt"
    by (simp add: new_tracking_runtime_def new_detector_def sample_setup_checks sample_checks c w m rt_def)
  have "bind_result (load_model sample_world ''p'') load_liveness = Inr ()" using sample_checks(7) by (simp add: w)
  with rt have "capture_setup append_hash (file_stream_of deployed_world) sample_world sample_args =
      Inr (pad_model_sha256, replicate 64 (CHR ''0''), rt)"
    using sample_setup_checks(3) by (simp add: capture_setup_def sha c w del: replicate.simps bind_result_Inr_iff)
  moreover have "fst (tracking_start sample_world rt) = Inr ()"
    using capture_started by (cases "camera_start sample_driver (tc_camera ?c) (new_camera 1)")
      (simp add: tracking_start_def run_simps on_member_def rt_def w)
  ultimately show ?thesis by blast
qed

definition sample_moment :: capture_moment where
  "sample_moment = \<lparr>cm_wait = Inr (Some \<lparr>track_gpu_frame = track_gpu_frame (sample_frame 3), frame_detections = [sample_face],
       frame_tracks = [sample_track]\<rparr>),
     cm_judge = (\<lambda>_. Judged (blank_liveness\<lparr>live_score := Some (single_lit (1 / 4)), live_decision := Spoof\<rparr>)),
     cm_clock = 0, cm_wall = 0, cm_written = None\<rparr>"

lemma observation_counts:
  assumes "capture_candidate a f = Inr t" "cm_judge m (observation t) = Judged r" "live_score r = Some v"
    and "utc_stamp (cm_clock m) = Inr stamp" "cm_written m = None" "ca_warmup a \<le> int (cs_warm s)"
  shows "\<exists>csv. capture_observation a h1 h2 m f s = (Inr (), s\<lparr>cs_csv := csv, cs_measured := cs_measured s + 1\<rparr>)"
  using assms by (auto simp: capture_observation_def run_simps Let_def judge_candidate_def write_csv_def capture_row_def capture_header_def)

lemma sample_candidate:
  "\<exists>f. cm_wait sample_moment = Inr (Some f) \<and> frame_id (track_gpu_frame f) = 3 \<and> capture_candidate sample_args f = Inr sample_track"
proof -
  have "detection_score sample_face \<ge> ca_min_score sample_args" "has_observation sample_track"
    "\<not> detection_score (observation sample_track) < ca_min_score sample_args" by code_simp+
  then show ?thesis by (simp add: sample_moment_def capture_candidate_def Let_def)
qed

lemma sample_run: "fst (capture_run sample_args h1 h2 None (Inr ()) (\<lambda>_. sample_moment) new_session) = Inr 0"
proof -
  have a: "ca_warmup sample_args = 0" "ca_samples sample_args = 1" "ca_every sample_args = 5" "ca_max_frames sample_args = 1"
    by (simp_all add: sample_args_def)
  have stamp: "utc_stamp (cm_clock sample_moment) = Inr ''19700101T000000Z''" by code_simp
  obtain f where f: "cm_wait sample_moment = Inr (Some f)" "frame_id (track_gpu_frame f) = 3"
    "capture_candidate sample_args f = Inr sample_track" using sample_candidate by blast
  obtain r v where r: "cm_judge sample_moment (observation sample_track) = Judged r" "live_score r = Some v"
    by (simp add: sample_moment_def)
  have w: "cm_written sample_moment = None" by (simp add: sample_moment_def)
  define s where "s = new_session\<lparr>cs_csv := csv_line capture_header, cs_previous := 3\<rparr>"
  have "\<exists>csv. capture_observation sample_args h1 h2 sample_moment f s =
      (Inr (), s\<lparr>cs_csv := csv, cs_measured := cs_measured s + 1\<rparr>)"
    by (rule observation_counts [OF f(3) r stamp w]) (simp add: a)
  then obtain csv where "capture_observation sample_args h1 h2 sample_moment f s =
      (Inr (), s\<lparr>cs_csv := csv, cs_measured := cs_measured s + 1\<rparr>)" by blast
  then show ?thesis
    by (simp add: capture_run_def run_simps a write_csv_def capture_frame_def f s_def new_session_def)
qed


end
