(* ===== verification/Demo.thy ===== *)
theory Demo
  imports Capture Coordinator
begin

text \<open>
  The demonstration program, \<^verbatim>\<open>src/tools/ta_demo.cpp\<close>: it enrols one person from the camera, then runs the
  attendance processor on every frame and stores its events in a local outbox. The loop is written over
  a source of frames, which the program instantiates with the tracking runtime. Keys, clocks, the
  evaluators, the random bytes of an envelope and the answer of the drawing code enter with each pass;
  frame rates and timings are left out. The window itself is not modelled.
\<close>

section \<open>Arguments\<close>

record demo_args =
  da_scrfd :: string
  da_pad :: string
  da_arcface :: string
  da_name :: string
  da_min_score :: single
  da_threshold :: single
  da_enroll :: int
  da_arc_every :: int
  da_pad_every :: int
  da_monitor :: bool
  da_no_pad :: bool
  da_seconds :: int

definition default_demo_args :: demo_args where
  "default_demo_args = \<lparr>da_scrfd = [], da_pad = [], da_arcface = [], da_name = ''ENROLLED'',
     da_min_score = single_lit (1 / 2), da_threshold = single_lit (3 / 4), da_enroll = 12, da_arc_every = 5,
     da_pad_every = 10, da_monitor = True, da_no_pad = False, da_seconds = 0\<rparr>"

text \<open>The options that take a value; unlike the capture program this one accepts trailing characters after a number.\<close>

definition demo_valued :: "string list" where
  "demo_valued = [''--scrfd'', ''--pad'', ''--arcface'', ''--name'', ''--identity-threshold'', ''--min-det-score'',
     ''--enroll'', ''--arc-every'', ''--pad-every'', ''--benchmark-seconds'']"

definition set_demo_option :: "tool_world \<Rightarrow> string \<Rightarrow> string \<Rightarrow> demo_args \<Rightarrow> demo_args result" where
  "set_demo_option w key v a =
     (if key = ''--scrfd'' then Inr (a\<lparr>da_scrfd := tw_absolute w v\<rparr>)
      else if key = ''--pad'' then Inr (a\<lparr>da_pad := tw_absolute w v\<rparr>)
      else if key = ''--arcface'' then Inr (a\<lparr>da_arcface := tw_absolute w v\<rparr>)
      else if key = ''--name'' then Inr (a\<lparr>da_name := v\<rparr>)
      else if key = ''--identity-threshold'' then bind_result (stof v) (\<lambda>(x, _). Inr (a\<lparr>da_threshold := x\<rparr>))
      else if key = ''--min-det-score'' then bind_result (stof v) (\<lambda>(x, _). Inr (a\<lparr>da_min_score := x\<rparr>))
      else if key = ''--enroll'' then bind_result (stoi v) (\<lambda>(n, _). Inr (a\<lparr>da_enroll := n\<rparr>))
      else if key = ''--arc-every'' then bind_result (stoi v) (\<lambda>(n, _). Inr (a\<lparr>da_arc_every := n\<rparr>))
      else if key = ''--pad-every'' then bind_result (stoi v) (\<lambda>(n, _). Inr (a\<lparr>da_pad_every := n\<rparr>))
      else bind_result (stoi v) (\<lambda>(n, _).
             if n < 1 then Inl (RuntimeError ''--benchmark-seconds must be >= 1'') else Inr (a\<lparr>da_seconds := n\<rparr>)))"

fun scan_demo_options :: "tool_world \<Rightarrow> demo_args \<Rightarrow> string list \<Rightarrow> demo_args option result" where
  "scan_demo_options w a [] = Inr (Some a)"
| "scan_demo_options w a (key # rest) =
     (if key \<in> set demo_valued
      then (case rest of
              [] \<Rightarrow> Inl (RuntimeError (''Missing value for '' @ key))
            | v # rest \<Rightarrow> bind_result (set_demo_option w key v a) (\<lambda>a. scan_demo_options w a rest))
      else if key = ''--pad-monitor'' then scan_demo_options w (a\<lparr>da_monitor := True\<rparr>) rest
      else if key = ''--no-pad'' then scan_demo_options w (a\<lparr>da_no_pad := True, da_monitor := False\<rparr>) rest
      else if key = ''--help'' \<or> key = ''-h'' then Inr None
      else Inl (RuntimeError (''Unknown argument: '' @ key)))"

fun find_upwards :: "nat \<Rightarrow> tool_world \<Rightarrow> string \<Rightarrow> string \<Rightarrow> string" where
  "find_upwards 0 w start rel = []"
| "find_upwards (Suc n) w start rel =
     (let candidate = join_path start rel; parent = parent_path start
      in if tw_exists w candidate then tw_absolute w candidate
         else if parent = [] \<or> parent = start then []
         else find_upwards n w parent rel)"

definition demo_model :: "tool_world \<Rightarrow> string \<Rightarrow> string \<Rightarrow> string \<Rightarrow> string" where
  "demo_model w exe given rel =
     (if given \<noteq> [] then given
      else let found = find_upwards 12 w (tw_current w) rel
           in if found \<noteq> [] then found else find_upwards 12 w exe rel)"

definition demo_models :: "tool_world \<Rightarrow> string \<Rightarrow> demo_args \<Rightarrow> demo_args" where
  "demo_models w exe a =
     a\<lparr>da_scrfd := demo_model w exe (da_scrfd a)
         (join_path (join_path (join_path ''models'' ''insightface'') ''buffalo_sc'') ''det_500m.onnx''),
       da_pad := demo_model w exe (da_pad a) (join_path ''models'' ''insightface/addons/liveness.onnx''),
       da_arcface := demo_model w exe (da_arcface a)
         (join_path (join_path (join_path ''models'' ''insightface'') ''buffalo_l'') ''w600k_r50.onnx'')\<rparr>"

definition check_demo_args :: "tool_world \<Rightarrow> demo_args \<Rightarrow> unit result" where
  "check_demo_args w a =
     (let missing = (\<lambda>p. p = [] \<or> \<not> tw_exists w p)
      in if missing (da_scrfd a) then Inl (RuntimeError ''det_500m.onnx not found; pass --scrfd <path>'')
         else if missing (da_arcface a) then Inl (RuntimeError ''w600k_r50.onnx not found; pass --arcface <path>'')
         else if \<not> da_no_pad a \<and> missing (da_pad a)
         then Inl (RuntimeError ''Selected liveness.onnx not found; pass --pad <path> (or explicit --no-pad for diagnostics)'')
         else if \<not> sfinite (da_threshold a) \<or> da_threshold a < - 1 \<or> da_threshold a > 1
         then Inl (RuntimeError ''--identity-threshold must be in [-1,1]'')
         else if \<not> sfinite (da_min_score a) \<or> da_min_score a < 0 \<or> da_min_score a > 1
         then Inl (RuntimeError ''--min-det-score must be 0..1'')
         else if da_enroll a < 1 \<or> da_arc_every a < 1 \<or> da_pad_every a < 1
         then Inl (RuntimeError ''enroll/every values must be >= 1'')
         else Inr ())"

definition demo_args_of :: "tool_world \<Rightarrow> string list \<Rightarrow> demo_args option result" where
  "demo_args_of w argv =
     bind_result (scan_demo_options w default_demo_args argv) (\<lambda>scanned.
     case scanned of
       None \<Rightarrow> Inr None
     | Some a \<Rightarrow>
         (case tw_executable w of
            None \<Rightarrow> Inl (RuntimeError ''GetModuleFileNameW failed'')
          | Some exe \<Rightarrow>
              let a = demo_models w (parent_path exe) a
              in bind_result (check_demo_args w a) (\<lambda>_. Inr (Some a))))"

section \<open>State\<close>

record demo_track =
  dt_last :: nat
  dt_pad :: "single option"
  dt_cosine :: "single option"
  dt_matched :: bool

definition new_demo_track :: demo_track where
  "new_demo_track = \<lparr>dt_last = 0, dt_pad = None, dt_cosine = None, dt_matched = False\<rparr>"

datatype key = KeyEscape | KeyE | KeyP | KeyR

record overlay_track =
  ov_track :: nat
  ov_x1 :: single
  ov_y1 :: single
  ov_x2 :: single
  ov_y2 :: single
  ov_score :: single
  ov_pad :: "single option"
  ov_cosine :: "single option"
  ov_matched :: bool
  ov_name :: string

record 'v demo =
  dm_source :: 'v
  dm_decisions :: "processor option"
  dm_db :: connection
  dm_states :: "nat \<rightharpoonup> demo_track"
  dm_sum :: "double list"
  dm_enrolled :: int
  dm_ready :: bool
  dm_reference :: "single list"
  dm_monitor :: bool
  dm_index :: nat
  dm_keys :: "key \<Rightarrow> bool"
  dm_shown :: bool
  dm_printed :: "(string \<times> nat) list"

text \<open>Where frames come from: waiting for the next one, which the world may change before, and resetting the tracker.\<close>

record ('v, 'm) frame_source =
  fs_wait :: "'m \<Rightarrow> ('v, tracking_frame option) run"
  fs_reset :: "'v \<Rightarrow> 'v"

record 'm demo_pass =
  ps_open :: bool
  ps_down :: "key \<Rightarrow> bool"
  ps_camera :: 'm
  ps_elapsed :: int
  ps_evaluators :: evaluators
  ps_utc :: "nat \<Rightarrow> int"
  ps_now :: int
  ps_random :: "nat \<Rightarrow> u8 list option"
  ps_render :: "overlay_track list \<Rightarrow> string \<Rightarrow> unit result"

section \<open>Enrollment\<close>

definition no_sum :: "double list" where
  "no_sum = replicate embedding_size 0"

definition add_sample :: "single list \<Rightarrow> double list \<Rightarrow> double list" where
  "add_sample e so_far = map2 (\<lambda>x v. x + to_double v) so_far e"

definition finalize_reference :: "double list \<Rightarrow> int \<Rightarrow> single list result" where
  "finalize_reference added n =
     (if n \<le> 0 then Inl (RuntimeError ''No enrollment embeddings'')
      else normalize_face (map (\<lambda>x. to_single (x / double_of_nat (nat n))) added))"

definition clear_identity_state :: "'v demo \<Rightarrow> 'v demo" where
  "clear_identity_state s = s\<lparr>dm_sum := no_sum, dm_enrolled := 0, dm_ready := False,
     dm_reference := replicate embedding_size 0,
     dm_states := map_option (\<lambda>t. t\<lparr>dt_cosine := None, dt_matched := False, dt_pad := None\<rparr>) \<circ> dm_states s\<rparr>"

definition on_decisions :: "(processor, unit) run \<Rightarrow> ('v demo, unit) run" where
  "on_decisions m s =
     (case dm_decisions s of
        None \<Rightarrow> (Inr (), s)
      | Some p \<Rightarrow> (case m p of (r, q) \<Rightarrow> (r, s\<lparr>dm_decisions := Some q\<rparr>)))"

definition enroll_candidates :: "demo_args \<Rightarrow> tracking_frame \<Rightarrow> track_result list" where
  "enroll_candidates a f =
     filter (\<lambda>t. has_observation t \<and> detection_score (observation t) \<ge> da_min_score a) (frame_tracks f)"

text \<open>\<open>ArcFaceRecognizer::evaluate\<close>: the front of the results for a batch of one.\<close>

definition evaluate_one :: "evaluators \<Rightarrow> gpu_frame \<Rightarrow> face_detection \<Rightarrow> arcface_result result" where
  "evaluate_one ev g d =
     bind_result (eval_recognize ev g [d]) (\<lambda>rs.
       case rs of [] \<Rightarrow> Inl (LogicError ''front() called on empty vector'') | r # _ \<Rightarrow> Inr r)"

definition lock_reference :: "demo_args \<Rightarrow> ('v demo, unit) run" where
  "lock_reference a =
     andThen get_state (\<lambda>s.
     andThen (lift_result (finalize_reference (dm_sum s) (dm_enrolled s))) (\<lambda>reference.
     andThen (modify (\<lambda>s. s\<lparr>dm_reference := reference, dm_ready := True\<rparr>)) (\<lambda>_.
     andThen (on_decisions (set_gallery [\<lparr>face_identity = da_name a, face_vector = reference\<rparr>])) (\<lambda>_.
     modify (\<lambda>s. s\<lparr>dm_states := map_option (\<lambda>t. t\<lparr>dt_cosine := None, dt_matched := False\<rparr>) \<circ> dm_states s\<rparr>)))))"

definition enroll_step :: "demo_args \<Rightarrow> evaluators \<Rightarrow> tracking_frame \<Rightarrow> ('v demo, unit) run" where
  "enroll_step a ev f =
     andThen get_state (\<lambda>s.
       if \<not> dm_ready s \<and> int (dm_index s) mod da_arc_every a = 2 mod da_arc_every a
       then (case enroll_candidates a f of
               [t] \<Rightarrow>
                 andThen (lift_result (evaluate_one ev (track_gpu_frame f) (observation t))) (\<lambda>r.
                 andThen (modify (\<lambda>s. s\<lparr>dm_sum := add_sample (face_embedding r) (dm_sum s), dm_enrolled := dm_enrolled s + 1\<rparr>)) (\<lambda>_.
                 if dm_enrolled s + 1 \<ge> da_enroll a then lock_reference a else ret ()))
             | _ \<Rightarrow> ret ())
       else ret ())"

section \<open>One pass of the loop\<close>

definition consume_key :: "'m demo_pass \<Rightarrow> key \<Rightarrow> ('v demo, bool) run" where
  "consume_key m k s = (Inr (ps_down m k \<and> \<not> dm_keys s k), s\<lparr>dm_keys := (dm_keys s)(k := ps_down m k)\<rparr>)"

definition key_enroll :: "('v demo, unit) run" where
  "key_enroll = andThen (modify clear_identity_state) (\<lambda>_. on_decisions (set_gallery []))"

definition key_monitor :: "('v demo, unit) run" where
  "key_monitor = modify (\<lambda>s. if dm_decisions s \<noteq> None then s\<lparr>dm_monitor := \<not> dm_monitor s\<rparr> else s)"

definition key_reset :: "('v, 'm) frame_source \<Rightarrow> ('v demo, unit) run" where
  "key_reset src =
     andThen (modify (\<lambda>s. s\<lparr>dm_source := fs_reset src (dm_source s), dm_states := Map.empty\<rparr>)) (\<lambda>_. key_enroll)"

definition when_key :: "'m demo_pass \<Rightarrow> key \<Rightarrow> ('v demo, unit) run \<Rightarrow> ('v demo, unit) run" where
  "when_key m k act = andThen (consume_key m k) (\<lambda>pressed. if pressed then act else ret ())"

definition see_tracks :: "tracking_frame \<Rightarrow> 'v demo \<Rightarrow> 'v demo" where
  "see_tracks f s =
     (let put = (\<lambda>states t. states(result_id t \<mapsto>
                  (case states (result_id t) of None \<Rightarrow> new_demo_track | Some d \<Rightarrow> d)\<lparr>dt_last := dm_index s\<rparr>));
          states = foldl put (dm_states s) (frame_tracks f)
      in s\<lparr>dm_states := (\<lambda>k. case states k of
             None \<Rightarrow> None | Some d \<Rightarrow> if dm_index s > dt_last d + 90 then None else Some d)\<rparr>)"

definition put_demo_track :: "nat \<Rightarrow> (demo_track \<Rightarrow> demo_track) \<Rightarrow> 'v demo \<Rightarrow> 'v demo" where
  "put_demo_track k g s = s\<lparr>dm_states := (dm_states s)(k \<mapsto>
     g (case dm_states s k of None \<Rightarrow> new_demo_track | Some d \<Rightarrow> d))\<rparr>"

definition monitor_candidates :: "demo_args \<Rightarrow> tracking_frame \<Rightarrow> track_result list" where
  "monitor_candidates a f =
     filter (\<lambda>t. \<not> (\<not> has_observation t \<or> detection_score (observation t) < da_min_score a)) (frame_tracks f)"

definition monitor_step :: "demo_args \<Rightarrow> evaluators \<Rightarrow> tracking_frame \<Rightarrow> ('v demo, unit) run" where
  "monitor_step a ev f =
     andThen get_state (\<lambda>s.
       if \<not> dm_ready s \<and> dm_decisions s \<noteq> None \<and> dm_monitor s \<and> int (dm_index s) mod da_pad_every a = 0
       then (let ts = monitor_candidates a f
             in if ts = [] then ret ()
                else andThen (lift_result (eval_pad ev (track_gpu_frame f) (map observation ts))) (\<lambda>results.
                     modify (\<lambda>s. foldl (\<lambda>s (t, r). put_demo_track (result_id t) (\<lambda>d. d\<lparr>dt_pad := live_score r\<rparr>) s) s
                                   (zip ts results))))
       else ret ())"

definition show_snapshot :: "track_snapshot \<Rightarrow> demo_track \<Rightarrow> demo_track" where
  "show_snapshot x d = d\<lparr>dt_matched := snap_phase x = Recognized \<or> snap_phase x = DuplicateIdentity,
     dt_cosine := (if snap_recognition_attempts x \<noteq> 0 then Some (snap_similarity x) else None),
     dt_pad := (if snap_pad_attempts x \<noteq> 0 then Some (snap_pad_median x) else None)\<rparr>"

definition demo_observation :: "attendance_event \<Rightarrow> attendance_observation" where
  "demo_observation e = \<lparr>occurred_at_utc_ms = event_utc_ms e, camera_frame_id = event_frame e, track_id = event_track e,
     identity_id = event_identity e, similarity = event_similarity e, similarity_margin = event_margin e,
     pad_median_p_real = event_pad_median e, pad_median_margin_p_real = event_pad_median e - ta_live_threshold\<rparr>"

definition demo_device :: string where
  "demo_device = ''ta-demo-local''"

definition demo_gallery :: string where
  "demo_gallery = ''local-enrollment-v1''"

abbreviation "on_demo_db \<equiv> on_member dm_db (\<lambda>t. dm_db_update (\<lambda>_. t))"
abbreviation "on_source \<equiv> on_member dm_source (\<lambda>t. dm_source_update (\<lambda>_. t))"

definition store_event :: "json_api \<Rightarrow> u8 list option \<Rightarrow> attendance_event \<Rightarrow> ('v demo, unit) run" where
  "store_event api rng e =
     andThen (lift_result (envelope api (demo_observation e) demo_device demo_gallery rng)) (\<lambda>r.
     andThen (on_demo_db (ensure_enqueued r)) (\<lambda>_.
     andThen (on_demo_db pending_count) (\<lambda>n.
     modify (\<lambda>s. s\<lparr>dm_printed := dm_printed s @ [(record_id r, n)]\<rparr>))))"

fun store_events :: "json_api \<Rightarrow> (nat \<Rightarrow> u8 list option) \<Rightarrow> nat \<Rightarrow> attendance_event list \<Rightarrow> ('v demo, unit) run" where
  "store_events api rng i [] = ret ()"
| "store_events api rng i (e # es) = andThen (store_event api (rng i) e) (\<lambda>_. store_events api rng (i + 1) es)"

definition on_processor_of :: "(processor, 'a) run \<Rightarrow> processor \<Rightarrow> ('v demo, 'a) run" where
  "on_processor_of m p s = (case m p of (r, q) \<Rightarrow> (r, s\<lparr>dm_decisions := Some q\<rparr>))"

definition decide_step :: "json_api \<Rightarrow> 'm demo_pass \<Rightarrow> tracking_frame \<Rightarrow> ('v demo, unit) run" where
  "decide_step api m f =
     andThen get_state (\<lambda>s.
       case dm_decisions s of
         None \<Rightarrow> ret ()
       | Some p \<Rightarrow>
           if \<not> dm_ready s then ret ()
           else andThen (on_processor_of (process (ps_evaluators m) (ps_utc m) f (ps_now m)) p) (\<lambda>out.
                andThen (modify (\<lambda>s. foldl (\<lambda>s x. put_demo_track (snap_track x) (show_snapshot x) s) s (bio_tracks out))) (\<lambda>_.
                store_events api (ps_random m) 0 (attendance_events out))))"

definition overlay_of :: "demo_args \<Rightarrow> 'v demo \<Rightarrow> track_result \<Rightarrow> overlay_track" where
  "overlay_of a s t =
     (let o1 = \<lparr>ov_track = result_id t, ov_x1 = result_x1 t, ov_y1 = result_y1 t, ov_x2 = result_x2 t, ov_y2 = result_y2 t,
                ov_score = result_score t, ov_pad = None, ov_cosine = None, ov_matched = False, ov_name = []\<rparr>
      in case dm_states s (result_id t) of
           None \<Rightarrow> o1
         | Some d \<Rightarrow> o1\<lparr>ov_pad := dt_pad d, ov_cosine := dt_cosine d, ov_matched := dt_matched d,
                        ov_name := (if dt_matched d then da_name a @ '' | IDENTIFIED'' else [])\<rparr>)"

definition hud_message :: "demo_args \<Rightarrow> 'v demo \<Rightarrow> string" where
  "hud_message a s =
     (if \<not> dm_ready s
      then ''ARCFACE ENROLLMENT '' @ int_text (dm_enrolled s) @ ''/'' @ int_text (da_enroll a) @ '' - keep exactly one face visible''
      else if dm_decisions s \<noteq> None
      then ''REFERENCE READY - shared PAD gate + recognition; DEMO threshold, no persistence''
      else ''PAD DISABLED - enrollment/preview only; attendance disabled'')"

definition ensure_graphics :: "gpu_frame \<Rightarrow> ('v demo, unit) run" where
  "ensure_graphics g =
     andThen get_state (\<lambda>s.
       if dm_shown s then ret ()
       else if \<not> frame_valid g then throw (RuntimeError ''Preview received invalid GPU frame'')
       else if frame_width g \<noteq> 1280 \<or> frame_height g \<noteq> 720 then throw (RuntimeError ''Preview source size changed unexpectedly'')
       else if frame_format g \<noteq> 103 then throw (RuntimeError ''Preview expects DXGI_FORMAT_NV12 camera frame'')
       else modify (\<lambda>s. s\<lparr>dm_shown := True\<rparr>))"

definition render_frame :: "demo_args \<Rightarrow> 'm demo_pass \<Rightarrow> tracking_frame \<Rightarrow> ('v demo, unit) run" where
  "render_frame a m f =
     andThen (ensure_graphics (track_gpu_frame f)) (\<lambda>_.
     andThen get_state (\<lambda>s. lift_result (ps_render m (map (overlay_of a s) (frame_tracks f)) (hud_message a s))))"

text \<open>The result says whether the loop goes on.\<close>

definition frame_turn :: "json_api \<Rightarrow> demo_args \<Rightarrow> 'm demo_pass \<Rightarrow> tracking_frame \<Rightarrow> ('v demo, bool) run" where
  "frame_turn api a m f =
     andThen (modify (\<lambda>s. see_tracks f (s\<lparr>dm_index := dm_index s + 1\<rparr>))) (\<lambda>_.
     andThen (monitor_step a (ps_evaluators m) f) (\<lambda>_.
     andThen (enroll_step a (ps_evaluators m) f) (\<lambda>_.
     andThen (decide_step api m f) (\<lambda>_.
     andThen (render_frame a m f) (\<lambda>_.
       ret (\<not> (da_seconds a > 0 \<and> ps_elapsed m \<ge> da_seconds a)))))))"

definition demo_turn :: "json_api \<Rightarrow> ('v, 'm) frame_source \<Rightarrow> demo_args \<Rightarrow> 'm demo_pass \<Rightarrow> ('v demo, bool) run" where
  "demo_turn api src a m =
     andThen (consume_key m KeyEscape) (\<lambda>escape.
       if escape then ret False
       else andThen (when_key m KeyE key_enroll) (\<lambda>_.
            andThen (when_key m KeyP key_monitor) (\<lambda>_.
            andThen (when_key m KeyR (key_reset src)) (\<lambda>_.
            andThen (on_source (fs_wait src (ps_camera m))) (\<lambda>got.
              case got of None \<Rightarrow> ret True | Some f \<Rightarrow> frame_turn api a m f)))))"

text \<open>\<open>False\<close>: still running after these passes.\<close>

fun demo_loop :: "json_api \<Rightarrow> ('v, 'm) frame_source \<Rightarrow> demo_args \<Rightarrow> 'm demo_pass list \<Rightarrow> ('v demo, bool) run" where
  "demo_loop api src a [] = ret False"
| "demo_loop api src a (m # ms) =
     (if \<not> ps_open m then ret True
      else andThen (demo_turn api src a m) (\<lambda>go_on. if go_on then demo_loop api src a ms else ret True))"

section \<open>The program\<close>

definition demo_bio :: "demo_args \<Rightarrow> biometric_config" where
  "demo_bio a = default_biometric_config\<lparr>recognition_similarity_threshold := da_threshold a, allow_uncalibrated_thresholds := True,
     min_detection_score := da_min_score a, pad_every_frames := nat (da_pad_every a),
     recognition_every_frames := nat (da_arc_every a)\<rparr>"

definition demo_vision :: "demo_args \<Rightarrow> vision_config" where
  "demo_vision a =
     \<lparr>vc_tracking =
        \<lparr>tc_camera = default_camera_config\<lparr>cam_width := 1280, cam_height := 720, cam_fps := 30,
           cam_source_subtype := ''NV12'', cam_output_subtype := ''NV12''\<rparr>,
         tc_scrfd = default_scrfd_config\<lparr>scrfd_path := da_scrfd a, scrfd_width := 640, scrfd_height := 640,
           score_threshold := single_lit (1 / 10), nms_threshold := single_lit (4 / 10)\<rparr>,
         tc_bytetrack = \<lparr>track_threshold = single_lit (50 / 100), low_threshold = single_lit (10 / 100),
           new_track_threshold = single_lit (60 / 100), match_threshold = single_lit (80 / 100),
           second_match_threshold = single_lit (50 / 100), unconfirmed_match_threshold = single_lit (70 / 100),
           track_buffer = 30, frame_rate = 30, mot20 = False\<rparr>\<rparr>,
      vc_pad = \<lparr>config_path = da_pad a, config_width = 80, config_height = 80\<rparr>,
      vc_arcface = \<lparr>config_path = da_arcface a, config_width = 112, config_height = 112\<rparr>,
      vc_bio = demo_bio a\<rparr>"

definition demo_begin :: "demo_args \<Rightarrow> 'v \<Rightarrow> processor option \<Rightarrow> connection \<Rightarrow> 'v demo" where
  "demo_begin a v p c =
     \<lparr>dm_source = v, dm_decisions = p, dm_db = c, dm_states = Map.empty, dm_sum = no_sum, dm_enrolled = 0, dm_ready = False,
      dm_reference = replicate embedding_size 0, dm_monitor = (da_monitor a \<and> p \<noteq> None), dm_index = 0,
      dm_keys = (\<lambda>_. False), dm_shown = False, dm_printed = []\<rparr>"

definition demo_setup :: "vision_world \<Rightarrow> demo_args \<Rightarrow> (tracking_runtime \<times> processor option) result" where
  "demo_setup vw a =
     (let c = demo_vision a
      in bind_result (new_tracking_runtime vw (vc_tracking c)) (\<lambda>rt.
         bind_result (new_recognizer vw c) (\<lambda>_.
         if da_no_pad a then Inr (rt, None)
         else bind_result (new_liveness vw c) (\<lambda>_.
              bind_result (new_processor (vc_bio c)) (\<lambda>p. Inr (rt, Some p))))))"

datatype camera_event = Arrives arrival | Winds_down

definition camera_event_step :: "vision_world \<Rightarrow> camera_event \<Rightarrow> camera \<Rightarrow> camera" where
  "camera_event_step vw e s =
     (case e of
        Arrives a \<Rightarrow> on_frame_arrived a s
      | Winds_down \<Rightarrow> if cam_looping s \<and> cam_stopping s then wind_down (camera_drv vw) s else s)"

definition tracking_source :: "vision_world \<Rightarrow> (tracking_runtime, camera_event list) frame_source" where
  "tracking_source vw =
     \<lparr>fs_wait = (\<lambda>es. andThen (modify (\<lambda>s. s\<lparr>tr_camera := fold (camera_event_step vw) es (tr_camera s)\<rparr>)) (\<lambda>_. tracking_wait vw)),
      fs_reset = tracking_reset\<rparr>"

text \<open>\<open>False\<close>: the window was closed during the warm-up.\<close>

fun warm_up :: "('v, 'm) frame_source \<Rightarrow> ('m \<times> bool) list \<Rightarrow> ('v, bool) run" where
  "warm_up src [] = ret True"
| "warm_up src ((m, still_open) # rest) =
     andThen (fs_wait src m) (\<lambda>got.
       if got = None then throw (RuntimeError ''warm-up timeout'')
       else if \<not> still_open then ret False
       else warm_up src rest)"

definition warm_up_frames :: nat where
  "warm_up_frames = 35"

definition demo_run :: "json_api \<Rightarrow> ('v, 'm) frame_source \<Rightarrow> demo_args \<Rightarrow> processor option \<Rightarrow> connection \<Rightarrow>
    (nat \<Rightarrow> 'm \<times> bool) \<Rightarrow> 'm demo_pass list \<Rightarrow> 'v \<Rightarrow> int result \<times> 'v demo" where
  "demo_run api src a p c warm ms v =
     (case warm_up src (map warm [0..<warm_up_frames]) v of
        (Inl e, v) \<Rightarrow> (Inl e, demo_begin a v p c)
      | (Inr False, v) \<Rightarrow> (Inr 0, demo_begin a v p c)
      | (Inr True, v) \<Rightarrow>
          (case demo_loop api src a ms (demo_begin a (fs_reset src v) p c) of (r, s) \<Rightarrow> (bind_result r (\<lambda>_. Inr 0), s)))"

text \<open>\<open>window\<close>: whether the preview window could be created. The result of a program that did not get as far as its loop has no state.\<close>

definition demo_main :: "json_api \<Rightarrow> vision_world \<Rightarrow> tool_world \<Rightarrow> connection result \<Rightarrow> unit result \<Rightarrow>
    (nat \<Rightarrow> camera_event list \<times> bool) \<Rightarrow> camera_event list demo_pass list \<Rightarrow> string list \<Rightarrow>
    int result \<times> tracking_runtime demo option" where
  "demo_main api vw w db window warm ms argv =
     (case demo_args_of w argv of
        Inl e \<Rightarrow> (Inl e, None)
      | Inr None \<Rightarrow> (Inr 0, None)
      | Inr (Some a) \<Rightarrow>
          (case bind_result db (\<lambda>c. bind_result (demo_setup vw a) (\<lambda>(rt, p). bind_result window (\<lambda>_. Inr (c, rt, p)))) of
             Inl e \<Rightarrow> (Inl e, None)
           | Inr (c, rt, p) \<Rightarrow>
               (case tracking_start vw rt of
                  (Inl e, _) \<Rightarrow> (Inl e, None)
                | (Inr _, rt) \<Rightarrow>
                    (case demo_run api (tracking_source vw) a p c warm ms rt of
                       (r, s) \<Rightarrow> (r, Some (s\<lparr>dm_source := tracking_stop vw (dm_source s)\<rparr>))))))"

end
