(* ===== verification/DemoLaws.thy ===== *)
theory DemoLaws
  imports Demo
begin

text \<open>
  What the demonstration program stores, whatever the camera, the evaluators and the database answer:
  only events of the enrolled identity that passed the liveness votes and both thresholds, and only
  after a complete enrollment; nothing that was in the database is lost.
\<close>

section \<open>Events name gallery identities\<close>

lemma match_identity_in:
  assumes "matcher_ok m" and "match_gallery m input = Inr out" and "match_valid out"
  shows "match_identity out \<in> set (identities m)"
proof -
  let ?scored = "zip (identities m) (identity_scores m (query_direction input))"
  note out = match_gallery_valid [OF assms]
  obtain i where "i < length ?scored" "?scored ! i = (match_identity (two_best ?scored), best_similarity (two_best ?scored))"
    using out(1) by (auto simp: ranked_def)
  then have "(match_identity (two_best ?scored), best_similarity (two_best ?scored)) \<in> set ?scored" by (metis nth_mem)
  moreover have "match_identity out = match_identity (two_best ?scored)" by (subst out(2)) simp
  ultimately show ?thesis by (auto dest: set_zip_leftD)
qed

definition names_gallery :: "gallery_matcher \<Rightarrow> attendance_event list \<Rightarrow> bool" where
  "names_gallery g evs \<longleftrightarrow> (\<forall>e \<in> set evs. event_identity e \<in> set (identities g))"

lemma apply_recognition_names:
  assumes "matcher_ok (proc_gallery p)" and "apply_recognition utc g now k e p = (x, p')"
  shows "proc_gallery p' = proc_gallery p \<and> (\<forall>evs. x = Inr evs \<longrightarrow> names_gallery (proc_gallery p) evs)"
proof -
  define s where "s = accumulate_embedding (tick p) e (bio_at k p)"
  show ?thesis
  proof (cases "match_gallery (proc_gallery p) (mean_embedding s)")
    case (Inl err)
    with assms(2) show ?thesis by (auto simp: apply_recognition_def Let_def s_def [symmetric])
  next
    case (Inr m)
    have "accepted (proc_config p) m \<Longrightarrow> match_identity m \<in> set (identities (proc_gallery p))"
      using match_identity_in [OF assms(1) Inr] by (simp add: accepted_def)
    with assms(2) Inr show ?thesis
      by (auto simp: apply_recognition_def Let_def s_def [symmetric] names_gallery_def new_event_def put_bio_def split: if_splits)
  qed
qed

lemma recognition_results_names:
  assumes "matcher_ok (proc_gallery p)" and "recognition_results utc g now i rs p = (x, p')"
  shows "\<forall>evs. x = Inr evs \<longrightarrow> names_gallery (proc_gallery p) evs"
  using assms
proof (induction rs arbitrary: p i x p')
  case Nil
  then show ?case by (auto simp: ret_def names_gallery_def)
next
  case (Cons kr rs)
  obtain k r where kr: "kr = (k, r)" by fastforce
  obtain y p1 where y: "apply_recognition (utc i) g now k (face_embedding r) p = (y, p1)" by fastforce
  note first = apply_recognition_names [OF Cons.prems(1) y]
  show ?case
  proof (cases y)
    case (Inl e)
    with Cons.prems(2) y show ?thesis by (auto simp: kr andThen_def)
  next
    case (Inr es)
    obtain z p2 where z: "recognition_results utc g now (i + 1) rs p1 = (z, p2)" by fastforce
    have "matcher_ok (proc_gallery p1)" using Cons.prems(1) first by simp
    from Cons.IH [OF this z] first Inr Cons.prems(2) y z show ?thesis
      by (auto simp: kr andThen_def ret_def names_gallery_def split: sum.splits)
  qed
qed

lemma process_names:
  assumes "proc_ok p" and "process ev utc f now p = (Inr out, p')"
  shows "names_gallery (proc_gallery p) (attendance_events out)"
proof -
  have none: "frame_rejected f now p = None"
    using assms(2) process_rejected [of f now p] by (cases "frame_rejected f now p") auto
  let ?p = "opened f now p"
  note ids = rejected_ids [OF none]
  have ok: "proc_ok ?p" by (rule opened_ok [OF assms(1)])
  have gallery: "proc_gallery ?p = proc_gallery p" by (simp add: opened_def prune_def)
  obtain q queue where q: "schedule now (frame_tracks f) ?p = (q, queue)" by fastforce
  note sched = schedule_spec [OF ok ids q]
  from process_run [OF none q assms(2)] obtain r where
    r: "pad_stage ev (track_gpu_frame f) now queue q = (Inr (), r)"
      "recognition_stage ev utc (track_gpu_frame f) now (frame_tracks f) r = (Inr (attendance_events out), p')"
    by auto
  have rok: "proc_ok r \<and> same_frame q r" using pad_stage_spec [OF sched(1,4,6) r(1)] by blast
  obtain u us where u: "recognition_queue (frame_tracks f) r = (u, us)" by fastforce
  have uok: "proc_ok u \<and> same_frame r u" using recognition_queue_spec [OF _ ids u] rok by blast
  have "proc_gallery u = proc_gallery p" "matcher_ok (proc_gallery u)"
    using gallery sched(2) rok uok by (auto simp: same_frame_def proc_ok_def)
  moreover have "us = [] \<and> attendance_events out = [] \<or>
      (\<exists>rs. recognition_results utc (track_gpu_frame f) now 0 rs u = (Inr (attendance_events out), p'))"
    using r(2) u by (auto simp: recognition_stage_def run_simps split: if_splits sum.splits)
  ultimately show ?thesis using recognition_results_names [of u] by (fastforce simp: names_gallery_def)
qed

section \<open>What a pass preserves\<close>

text \<open>
  \<open>delivered\<close>: the evaluators of each pass with the frames its source can deliver. An enrollment
  sample is the answer of such evaluators to the only face of such a frame.
\<close>

definition delivered :: "('v, 'm) frame_source \<Rightarrow> 'm demo_pass list \<Rightarrow> (evaluators \<times> tracking_frame) set" where
  "delivered src ms = {(ps_evaluators m, f) | m f. m \<in> set ms \<and> (\<exists>v v'. fs_wait src (ps_camera m) v = (Inr (Some f), v'))}"

definition lone_sample :: "demo_args \<Rightarrow> (evaluators \<times> tracking_frame) set \<Rightarrow> single list \<Rightarrow> bool" where
  "lone_sample a L e \<longleftrightarrow> (\<exists>ev f t r. (ev, f) \<in> L \<and> enroll_candidates a f = [t] \<and>
     evaluate_one ev (track_gpu_frame f) (observation t) = Inr r \<and> e = face_embedding r)"

definition enrolled_sum :: "demo_args \<Rightarrow> (evaluators \<times> tracking_frame) set \<Rightarrow> int \<Rightarrow> double list \<Rightarrow> bool" where
  "enrolled_sum a L n added \<longleftrightarrow> (\<exists>es. int (length es) = n \<and> (\<forall>e \<in> set es. lone_sample a L e) \<and>
     added = foldl (\<lambda>x e. add_sample e x) no_sum es)"

text \<open>A gallery of the one enrolled person, whose template is the mean of all requested samples.\<close>

definition enrolled_gallery :: "demo_args \<Rightarrow> (evaluators \<times> tracking_frame) set \<Rightarrow> gallery_matcher \<Rightarrow> bool" where
  "enrolled_gallery a L g \<longleftrightarrow> (\<exists>added reference m. enrolled_sum a L (da_enroll a) added \<and>
     finalize_reference added (da_enroll a) = Inr reference \<and>
     replace_templates [\<lparr>face_identity = da_name a, face_vector = reference\<rparr>] m = (Inr (), g))"

definition earned_event :: "demo_args \<Rightarrow> (evaluators \<times> tracking_frame) set \<Rightarrow> attendance_event \<Rightarrow> bool" where
  "earned_event a L e \<longleftrightarrow> event_identity e = da_name a \<and> (\<exists>p ev f. proc_config p = demo_bio a \<and>
     enrolled_gallery a L (proc_gallery p) \<and> (ev, f) \<in> L \<and> event_justified p (track_gpu_frame f) e)"

definition earned_record :: "json_api \<Rightarrow> demo_args \<Rightarrow> (evaluators \<times> tracking_frame) set \<Rightarrow> string \<Rightarrow> string \<Rightarrow> bool" where
  "earned_record api a L k q \<longleftrightarrow> (\<exists>e rng r. earned_event a L e \<and>
     envelope api (demo_observation e) demo_device demo_gallery rng = Inr r \<and> record_id r = k \<and> payload r = q)"

definition only_earned :: "json_api \<Rightarrow> demo_args \<Rightarrow> (evaluators \<times> tracking_frame) set \<Rightarrow> connection \<Rightarrow> 'v demo \<Rightarrow> bool" where
  "only_earned api a L c d \<longleftrightarrow> quiescent (dm_db d) \<and> tables_ok (stored (dm_db d)) \<and>
     (\<forall>k q. durable (stored c) k = Some q \<longrightarrow> durable (stored (dm_db d)) k = Some q) \<and>
     (\<forall>k q. durable (stored (dm_db d)) k = Some q \<longrightarrow> durable (stored c) k = Some q \<or> earned_record api a L k q) \<and>
     (\<forall>(k, n) \<in> set (dm_printed d). \<exists>q. durable (stored (dm_db d)) k = Some q \<and> earned_record api a L k q)"

definition enrollment_ok :: "demo_args \<Rightarrow> (evaluators \<times> tracking_frame) set \<Rightarrow> 'v demo \<Rightarrow> bool" where
  "enrollment_ok a L d \<longleftrightarrow> enrolled_sum a L (dm_enrolled d) (dm_sum d) \<and>
     (\<not> dm_ready d \<longrightarrow> dm_enrolled d < da_enroll a) \<and>
     (\<forall>p. dm_decisions d = Some p \<longrightarrow> proc_ok p \<and> proc_config p = demo_bio a \<and>
        (dm_ready d \<longrightarrow> enrolled_gallery a L (proc_gallery p)))"

definition keeps :: "('s \<Rightarrow> bool) \<Rightarrow> ('s \<Rightarrow> bool) \<Rightarrow> ('s, 'a) run \<Rightarrow> bool" where
  "keeps P Q m \<longleftrightarrow> (\<forall>s r t. P s \<and> Q s \<longrightarrow> m s = (r, t) \<longrightarrow> Q t \<and> (\<forall>x. r = Inr x \<longrightarrow> P t))"

lemma keepsI: "(\<And>s r t. P s \<Longrightarrow> Q s \<Longrightarrow> m s = (r, t) \<Longrightarrow> Q t \<and> (\<forall>x. r = Inr x \<longrightarrow> P t)) \<Longrightarrow> keeps P Q m"
  unfolding keeps_def by blast

lemma keepsD: "keeps P Q m \<Longrightarrow> P s \<Longrightarrow> Q s \<Longrightarrow> m s = (r, t) \<Longrightarrow> Q t \<and> (\<forall>x. r = Inr x \<longrightarrow> P t)"
  unfolding keeps_def by blast

lemma keeps_ret: "keeps P Q (ret x)"
  by (rule keepsI) (simp add: ret_def)

lemma keeps_throw: "keeps P Q (throw e)"
  by (rule keepsI) (simp add: throw_def)

lemma keeps_lift: "keeps P Q (lift_result r)"
  by (rule keepsI) (simp add: lift_result_def)

lemma keeps_modify: "(\<And>s. P s \<Longrightarrow> Q s \<Longrightarrow> P (f s) \<and> Q (f s)) \<Longrightarrow> keeps P Q (modify f)"
proof (rule keepsI)
  fix s r t
  assume pq: "\<And>s. P s \<Longrightarrow> Q s \<Longrightarrow> P (f s) \<and> Q (f s)" and s: "P s" "Q s" and "modify f s = (r, t)"
  then have "t = f s" by (simp add: modify_def)
  with pq [OF s] show "Q t \<and> (\<forall>x. r = Inr x \<longrightarrow> P t)" by simp
qed

lemma keeps_then_from:
  assumes "keeps P Q m" and "\<And>s x t. m s = (Inr x, t) \<Longrightarrow> keeps P Q (f x)"
  shows "keeps P Q (andThen m f)"
proof (rule keepsI)
  fix s r t
  assume s: "P s" "Q s" and run: "andThen m f s = (r, t)"
  obtain y u where y: "m s = (y, u)" by fastforce
  note first = keepsD [OF assms(1) s y]
  show "Q t \<and> (\<forall>x. r = Inr x \<longrightarrow> P t)"
  proof (cases y)
    case (Inl e)
    with run y have "r = Inl e" "t = u" by (simp_all add: andThen_def)
    with first show ?thesis by simp
  next
    case (Inr x)
    with run y have "f x u = (r, t)" by (simp add: andThen_def)
    with first Inr show ?thesis using keepsD [OF assms(2) [OF y [unfolded Inr]]] by blast
  qed
qed

lemma keeps_then: "keeps P Q m \<Longrightarrow> (\<And>x. keeps P Q (f x)) \<Longrightarrow> keeps P Q (andThen m f)"
  by (rule keeps_then_from)

lemma keeps_read: "(\<And>s. keeps P Q (f s)) \<Longrightarrow> keeps P Q (andThen get_state f)"
proof (rule keepsI)
  fix s r t
  assume f: "\<And>s. keeps P Q (f s)" and s: "P s" "Q s" and "andThen get_state f s = (r, t)"
  then have "f s s = (r, t)" by (simp add: andThen_def get_state_def)
  with keepsD [OF f s] show "Q t \<and> (\<forall>x. r = Inr x \<longrightarrow> P t)" by blast
qed

lemmas keeps_rules = keeps_ret keeps_throw keeps_lift keeps_read keeps_then

text \<open>The fields the properties speak of.\<close>

definition same_core :: "'v demo \<Rightarrow> 'v demo \<Rightarrow> bool" where
  "same_core d d' \<longleftrightarrow> dm_db d' = dm_db d \<and> dm_printed d' = dm_printed d \<and> dm_sum d' = dm_sum d \<and>
     dm_enrolled d' = dm_enrolled d \<and> dm_ready d' = dm_ready d \<and> dm_decisions d' = dm_decisions d"

lemma same_core_keeps: "same_core d d' \<Longrightarrow> enrollment_ok a L d \<Longrightarrow> only_earned api a L c d \<Longrightarrow> enrollment_ok a L d' \<and> only_earned api a L c d'"
  by (simp add: same_core_def enrollment_ok_def only_earned_def)

lemma keeps_same: "(\<And>s. same_core s (f s)) \<Longrightarrow> keeps (enrollment_ok a L) (only_earned api a L c) (modify f)"
  by (intro keeps_modify same_core_keeps)

lemma keeps_same_run: "(\<And>s r t. m s = (r, t) \<Longrightarrow> same_core s t) \<Longrightarrow> keeps (enrollment_ok a L) (only_earned api a L c) m"
  by (rule keepsI) (use same_core_keeps in blast)


section \<open>The steps\<close>

lemma clear_core: "enrollment_ok a L s \<Longrightarrow> 1 \<le> da_enroll a \<Longrightarrow> enrollment_ok a L (clear_identity_state s)"
  unfolding enrollment_ok_def clear_identity_state_def
  by (auto simp: enrolled_sum_def intro!: exI [of _ "[]"])

lemma on_decisions_gallery:
  assumes "enrollment_ok a L s" and "on_decisions (set_gallery ts) s = (r, t)"
    and "\<And>n g. replace_templates ts n = (Inr (), g) \<Longrightarrow> dm_ready s \<Longrightarrow> enrolled_gallery a L g"
    and "r = Inr ()"
  shows "enrollment_ok a L t"
proof (cases "dm_decisions s")
  case None
  then show ?thesis using assms(1,2) by (simp add: on_decisions_def)
next
  case (Some p)
  obtain x q where q: "set_gallery ts p = (x, q)" by fastforce
  then have t: "t = s\<lparr>dm_decisions := Some q\<rparr>" and x: "x = Inr ()" using Some assms(2,4) by (simp_all add: on_decisions_def)
  have p: "proc_ok p" "proc_config p = demo_bio a" using assms(1) Some by (simp_all add: enrollment_ok_def)
  have "proc_ok q \<and> proc_config q = demo_bio a" using set_gallery_ok [OF p(1) q] p(2) by simp
  moreover have g: "replace_templates ts (proc_gallery p) = (Inr (), proc_gallery q)"
    using q x by (auto simp: set_gallery_def reset_processor_def split: prod.splits sum.splits)
  then have "dm_ready s \<longrightarrow> enrolled_gallery a L (proc_gallery q)" using assms(3) by blast
  ultimately show ?thesis using assms(1) t by (simp add: enrollment_ok_def)
qed

lemma on_decisions_rest: "on_decisions m s = (r, t) \<Longrightarrow> only_earned api a L c s \<Longrightarrow> only_earned api a L c t"
proof -
  assume "on_decisions m s = (r, t)"
  then have "dm_db t = dm_db s" "dm_printed t = dm_printed s" by (auto simp: on_decisions_def split: option.splits prod.splits)
  then show "only_earned api a L c s \<Longrightarrow> only_earned api a L c t" by (simp add: only_earned_def)
qed

lemma key_enroll_keeps: "1 \<le> da_enroll a \<Longrightarrow> keeps (enrollment_ok a L) (only_earned api a L c) key_enroll"
proof (rule keepsI)
  fix s :: "'v demo" and r t
  assume a: "1 \<le> da_enroll a" and s: "enrollment_ok a L s" "only_earned api a L c s" and "key_enroll s = (r, t)"
  then have run: "on_decisions (set_gallery []) (clear_identity_state s) = (r, t)" by (simp add: key_enroll_def run_simps)
  have "only_earned api a L c (clear_identity_state s)" using s(2) by (simp add: only_earned_def clear_identity_state_def)
  then have "only_earned api a L c t" by (rule on_decisions_rest [OF run])
  moreover have "enrollment_ok a L t" if "r = Inr ()"
    by (rule on_decisions_gallery [OF clear_core [OF s(1) a] run _ that]) (simp add: clear_identity_state_def)
  ultimately show "only_earned api a L c t \<and> (\<forall>x. r = Inr x \<longrightarrow> enrollment_ok a L t)" by simp
qed

lemma same_core_put [simp]: "same_core s (put_demo_track k g s)"
  by (simp add: same_core_def put_demo_track_def)

lemma same_core_trans: "same_core s t \<Longrightarrow> same_core t u \<Longrightarrow> same_core s u"
  by (simp add: same_core_def)

lemma same_core_foldl: "(\<And>s x. same_core s (g s x)) \<Longrightarrow> same_core s (foldl g s xs)"
proof (induction xs arbitrary: s)
  case Nil
  then show ?case by (simp add: same_core_def)
next
  case (Cons x xs)
  then have "same_core s (g s x)" "same_core (g s x) (foldl g (g s x) xs)" by blast+
  then show ?case using same_core_trans by fastforce
qed

lemma monitor_keeps: "keeps (enrollment_ok a L) (only_earned api a L c) (monitor_step b ev f)"
  unfolding monitor_step_def Let_def
  by (rule keeps_read) (auto intro!: keeps_rules keeps_same same_core_foldl)

lemma consume_keeps: "keeps (enrollment_ok a L) (only_earned api a L c) (consume_key m k)"
  by (rule keeps_same_run) (auto simp: consume_key_def same_core_def)

lemma source_keeps: "keeps (enrollment_ok a L) (only_earned api a L c) (on_source m)"
  by (rule keeps_same_run) (auto simp: on_member_def same_core_def split: prod.splits)

lemma monitor_key_keeps: "keeps (enrollment_ok a L) (only_earned api a L c) key_monitor"
  unfolding key_monitor_def by (rule keeps_same) (simp add: same_core_def)

lemma reset_key_keeps: "1 \<le> da_enroll a \<Longrightarrow> keeps (enrollment_ok a L) (only_earned api a L c) (key_reset src)"
  unfolding key_reset_def by (intro keeps_then key_enroll_keeps keeps_same) (simp_all add: same_core_def)

lemma when_key_keeps: "keeps (enrollment_ok a L) (only_earned api a L c) act \<Longrightarrow> keeps (enrollment_ok a L) (only_earned api a L c) (when_key m k act)"
  unfolding when_key_def by (rule keeps_then [OF consume_keeps]) (simp add: keeps_ret)

lemma render_keeps: "keeps (enrollment_ok a L) (only_earned api a L c) (render_frame b m f)"
  unfolding render_frame_def ensure_graphics_def
  by (auto intro!: keeps_rules keeps_same simp: same_core_def)

lemma foldl_snoc_sum: "enrolled_sum a L n added \<Longrightarrow> lone_sample a L e \<Longrightarrow> enrolled_sum a L (n + 1) (add_sample e added)"
proof -
  assume "enrolled_sum a L n added" and e: "lone_sample a L e"
  then obtain es where "int (length es) = n" "\<forall>e \<in> set es. lone_sample a L e" "added = foldl (\<lambda>x e. add_sample e x) no_sum es"
    unfolding enrolled_sum_def by blast
  with e show ?thesis unfolding enrolled_sum_def by (intro exI [of _ "es @ [e]"]) auto
qed

lemma lock_result:
  fixes s :: "'v demo"
  assumes "lock_reference a s = (r, t)" and "only_earned api a L c s" and "enrolled_sum a L (dm_enrolled s) (dm_sum s)"
    and "dm_enrolled s = da_enroll a" and "\<And>p. dm_decisions s = Some p \<Longrightarrow> proc_ok p \<and> proc_config p = demo_bio a"
  shows "only_earned api a L c t \<and> (\<forall>x. r = Inr x \<longrightarrow> enrollment_ok a L t)"
proof (cases "finalize_reference (dm_sum s) (dm_enrolled s)")
  case (Inl e)
  with assms(1) have "t = s" "r = Inl e" by (simp_all add: lock_reference_def run_simps)
  with assms(2) show ?thesis by simp
next
  case (Inr reference)
  let ?ts = "[\<lparr>face_identity = da_name a, face_vector = reference\<rparr>]"
  define u where "u = s\<lparr>dm_reference := reference, dm_ready := True\<rparr>"
  obtain x v where x: "on_decisions (set_gallery ?ts) u = (x, v)" by fastforce
  have "only_earned api a L c u" using assms(2) by (simp add: only_earned_def u_def)
  then have v: "only_earned api a L c v" by (rule on_decisions_rest [OF x])
  show ?thesis
  proof (cases x)
    case (Inl e)
    with assms(1) Inr x have "t = v" "r = Inl e" by (simp_all add: lock_reference_def run_simps u_def)
    with v show ?thesis by simp
  next
    case ok: (Inr y)
    let ?g = "\<lambda>s :: 'v demo. s\<lparr>dm_states := map_option (\<lambda>t. t\<lparr>dt_cosine := None, dt_matched := False\<rparr>) \<circ> dm_states s\<rparr>"
    have t: "t = ?g v" using assms(1) Inr x ok by (simp add: lock_reference_def run_simps u_def)
    have gallery: "replace_templates ?ts n = (Inr (), g) \<Longrightarrow> enrolled_gallery a L g" for n g
      using assms(3,4) Inr by (auto simp: enrolled_gallery_def)
    have "enrollment_ok a L v"
    proof (cases "dm_decisions s")
      case None
      then have "v = u" using x by (simp add: on_decisions_def u_def)
      with None assms(3) show ?thesis by (simp add: enrollment_ok_def u_def)
    next
      case (Some p)
      obtain y q where q: "set_gallery ?ts p = (y, q)" by fastforce
      then have vq: "v = u\<lparr>dm_decisions := Some q\<rparr>" and y: "y = Inr ()" using Some x ok by (simp_all add: on_decisions_def u_def)
      have "proc_ok q \<and> proc_config q = demo_bio a" using set_gallery_ok [OF _ q] assms(5) [OF Some] by simp
      moreover have "replace_templates ?ts (proc_gallery p) = (Inr (), proc_gallery q)"
        using q y by (auto simp: set_gallery_def reset_processor_def split: prod.splits sum.splits)
      then have "enrolled_gallery a L (proc_gallery q)" by (rule gallery)
      ultimately show ?thesis using assms(3) by (simp add: enrollment_ok_def vq u_def)
    qed
    moreover have "same_core v t" by (simp add: t same_core_def)
    ultimately show ?thesis using same_core_keeps v by blast
  qed
qed

lemma enroll_keeps:
  assumes "(ev, f) \<in> L"
  shows "keeps (enrollment_ok a L) (only_earned api a L c) (enroll_step a ev f)"
proof (rule keepsI)
  fix s :: "'v demo" and r t
  assume s: "enrollment_ok a L s" "only_earned api a L c s" and run: "enroll_step a ev f s = (r, t)"
  show "only_earned api a L c t \<and> (\<forall>x. r = Inr x \<longrightarrow> enrollment_ok a L t)"
  proof (cases "(\<exists>k. enroll_candidates a f = [k]) \<and> \<not> dm_ready s \<and> int (dm_index s) mod da_arc_every a = 2 mod da_arc_every a")
    case False
    with run have "t = s" by (auto simp: enroll_step_def run_simps split: if_splits list.splits)
    with s show ?thesis by simp
  next
    case True
    then obtain k where k: "enroll_candidates a f = [k]" and due: "\<not> dm_ready s" "int (dm_index s) mod da_arc_every a = 2 mod da_arc_every a"
      by blast
    show ?thesis
    proof (cases "evaluate_one ev (track_gpu_frame f) (observation k)")
      case (Inl e)
      with run k due have "t = s \<and> r = Inl e" by (simp add: enroll_step_def run_simps)
      with s show ?thesis by simp
    next
      case (Inr x)
      define u where "u = s\<lparr>dm_sum := add_sample (face_embedding x) (dm_sum s), dm_enrolled := dm_enrolled s + 1\<rparr>"
      have "lone_sample a L (face_embedding x)" using assms k Inr unfolding lone_sample_def by blast
      then have total: "enrolled_sum a L (dm_enrolled u) (dm_sum u)" using s(1) foldl_snoc_sum by (simp add: u_def enrollment_ok_def)
      have few: "dm_enrolled s < da_enroll a" using s(1) due(1) by (simp add: enrollment_ok_def)
      have u: "only_earned api a L c u" using s(2) by (simp add: only_earned_def u_def)
      show ?thesis
      proof (cases "dm_enrolled s + 1 \<ge> da_enroll a")
        case True
        with run k due Inr have "lock_reference a u = (r, t)" by (simp add: enroll_step_def run_simps u_def)
        then show ?thesis
          by (rule lock_result [OF _ u total]) (use True few s(1) in \<open>simp_all add: u_def enrollment_ok_def\<close>)
      next
        case False
        with run k due Inr have "t = u" by (simp add: enroll_step_def run_simps u_def)
        moreover have "enrollment_ok a L u" using total False s(1) due(1) by (simp add: enrollment_ok_def u_def)
        ultimately show ?thesis using u by simp
      qed
    qed
  qed
qed

section \<open>Storing\<close>

lemma store_db:
  assumes "only_earned api a L c d" and "earned_event a L e"
    and "envelope api (demo_observation e) demo_device demo_gallery rng = Inr r" and "ensure_enqueued r (dm_db d) = (x, b)"
  shows "only_earned api a L c (d\<lparr>dm_db := b\<rparr>)" and "x = Inr () \<Longrightarrow> durable (stored b) (record_id r) = Some (payload r)"
proof -
  have d: "quiescent (dm_db d)" "tables_ok (stored (dm_db d))" using assms(1) by (simp_all add: only_earned_def)
  note eff = ensure_effect [OF d assms(4)]
  let ?old = "durable (stored (dm_db d))" and ?new = "durable (stored b)"
  have rec: "earned_record api a L (record_id r) (payload r)" using assms(2,3) unfolding earned_record_def by blast
  have cases: "?new = ?old \<or> (?old (record_id r) \<in> {None, Some (payload r)} \<and> ?new = ?old(record_id r \<mapsto> payload r))"
    using eff(5) by auto
  then have keep: "?new k = Some q" if "?old k = Some q" for k q using that by auto
  have fresh: "?old k = Some q \<or> earned_record api a L k q" if "?new k = Some q" for k q
    using cases that rec by (auto split: if_splits)
  show "only_earned api a L c (d\<lparr>dm_db := b\<rparr>)"
    unfolding only_earned_def using assms(1) [unfolded only_earned_def] eff(1,2) keep fresh by simp blast
  show "x = Inr () \<Longrightarrow> durable (stored b) (record_id r) = Some (payload r)" using eff(6) by simp
qed

lemma store_event_keeps:
  assumes "earned_event a L e"
  shows "keeps (enrollment_ok a L) (only_earned api a L c) (store_event api rng e)"
proof (rule keepsI)
  fix s :: "'v demo" and r t
  assume s: "enrollment_ok a L s" "only_earned api a L c s" and run: "store_event api rng e s = (r, t)"
  show "only_earned api a L c t \<and> (\<forall>x. r = Inr x \<longrightarrow> enrollment_ok a L t)"
  proof (cases "envelope api (demo_observation e) demo_device demo_gallery rng")
    case (Inl err)
    with run have "t = s" by (simp add: store_event_def run_simps)
    with s show ?thesis by simp
  next
    case (Inr k)
    obtain x b where b: "ensure_enqueued k (dm_db s) = (x, b)" by fastforce
    note store = store_db [OF s(2) assms Inr b]
    have enr: "enrollment_ok a L (s\<lparr>dm_db := d\<rparr>)" for d using s(1) by (simp add: enrollment_ok_def)
    show ?thesis
    proof (cases x)
      case (Inl err)
      with run Inr b have "t = s\<lparr>dm_db := b\<rparr>" by (simp add: store_event_def run_simps on_member_def)
      with store(1) enr show ?thesis by simp
    next
      case ok: (Inr y)
      obtain z d where d: "pending_count b = (z, d)" by fastforce
      have q: "quiescent b" using store(1) by (simp add: only_earned_def)
      have same: "stored d = stored b" "quiescent d" using query_stored [OF d [unfolded pending_count_def] q] by auto
      have kept: "only_earned api a L c (s\<lparr>dm_db := d\<rparr>)" using store(1) same by (simp add: only_earned_def)
      show ?thesis
      proof (cases z)
        case (Inl err)
        with run Inr b ok d have "t = s\<lparr>dm_db := d\<rparr>" by (simp add: store_event_def run_simps on_member_def)
        with kept enr show ?thesis by simp
      next
        case z: (Inr n)
        have t: "t = s\<lparr>dm_db := d, dm_printed := dm_printed s @ [(record_id k, n)]\<rparr>"
          using run Inr b ok d z by (simp add: store_event_def run_simps on_member_def)
        have "durable (stored d) (record_id k) = Some (payload k)" using store(2) ok same(1) by simp
        moreover have "earned_record api a L (record_id k) (payload k)" using assms Inr unfolding earned_record_def by blast
        ultimately have "only_earned api a L c t" using kept by (simp add: only_earned_def t)
        moreover have "enrollment_ok a L t" using s(1) by (simp add: enrollment_ok_def t)
        ultimately show ?thesis by simp
      qed
    qed
  qed
qed

lemma store_events_keeps:
  "\<forall>e \<in> set es. earned_event a L e \<Longrightarrow> keeps (enrollment_ok a L) (only_earned api a L c) (store_events api rng i es)"
  by (induction es arbitrary: i) (auto intro!: keeps_rules store_event_keeps)

lemma decide_keeps:
  assumes "(ps_evaluators m, f) \<in> L"
  shows "keeps (enrollment_ok a L) (only_earned api a L c) (decide_step api m f)"
proof (rule keepsI)
  fix s :: "'v demo" and r t
  assume s: "enrollment_ok a L s" "only_earned api a L c s" and run: "decide_step api m f s = (r, t)"
  show "only_earned api a L c t \<and> (\<forall>x. r = Inr x \<longrightarrow> enrollment_ok a L t)"
  proof (cases "dm_ready s \<and> dm_decisions s \<noteq> None")
    case False
    with run have "t = s" by (auto simp: decide_step_def run_simps split: if_splits option.splits)
    with s show ?thesis by simp
  next
    case True
    then obtain p where p: "dm_decisions s = Some p" and ready: "dm_ready s" by blast
    have ok: "proc_ok p" "proc_config p = demo_bio a" "enrolled_gallery a L (proc_gallery p)"
      using s(1) p ready by (simp_all add: enrollment_ok_def)
    obtain x q where x: "process (ps_evaluators m) (ps_utc m) f (ps_now m) p = (x, q)" by fastforce
    define u where "u = s\<lparr>dm_decisions := Some q\<rparr>"
    have q: "proc_ok q" "proc_config q = demo_bio a" "proc_gallery q = proc_gallery p"
      using process_step [OF ok(1) x] ok by (auto simp: frame_effect_def same_frame_def opened_def prune_def)
    have u: "only_earned api a L c u" "enrollment_ok a L u" using s q ok(3) by (simp_all add: only_earned_def enrollment_ok_def u_def)
    show ?thesis
    proof (cases x)
      case (Inl e)
      with run p ready x have "t = u" "r = Inl e" by (simp_all add: decide_step_def run_simps on_processor_of_def u_def)
      with u show ?thesis by simp
    next
      case (Inr out)
      let ?show = "\<lambda>s :: 'v demo. foldl (\<lambda>s x. put_demo_track (snap_track x) (show_snapshot x) s) s (bio_tracks out)"
      have none: "frame_rejected f (ps_now m) p = None"
        using x Inr process_rejected [of f "ps_now m" p] by (cases "frame_rejected f (ps_now m) p") auto
      have "earned_event a L e" if e: "e \<in> set (attendance_events out)" for e
      proof -
        have "event_justified q (track_gpu_frame f) e"
          using process_effect [OF ok(1) none x] Inr e by (auto simp: events_ok_def)
        moreover have "event_identity e = da_name a"
        proof -
          have "event_identity e \<in> set (identities (proc_gallery p))"
            using process_names [OF ok(1) x [unfolded Inr]] e by (simp add: names_gallery_def)
          moreover have "set (identities (proc_gallery p)) = {da_name a}"
            using ok(3) replace_templates_ok(3) unfolding enrolled_gallery_def by fastforce
          ultimately show ?thesis by simp
        qed
        ultimately show ?thesis using q ok(3) assms unfolding earned_event_def by metis
      qed
      then have keeps: "keeps (enrollment_ok a L) (only_earned api a L c) (store_events api (ps_random m) 0 (attendance_events out))"
        by (intro store_events_keeps) blast
      have "store_events api (ps_random m) 0 (attendance_events out) (?show u) = (r, t)"
        using run p ready x Inr by (simp add: decide_step_def run_simps on_processor_of_def u_def)
      moreover have "enrollment_ok a L (?show u) \<and> only_earned api a L c (?show u)"
        by (rule same_core_keeps [OF same_core_foldl u(2,1)]) simp
      ultimately show ?thesis using keepsD [OF keeps] by blast
    qed
  qed
qed

lemma frame_turn_keeps:
  assumes "(ps_evaluators m, f) \<in> L"
  shows "keeps (enrollment_ok a L) (only_earned api a L c) (frame_turn api a m f)"
proof -
  have "same_core s (see_tracks f (s\<lparr>dm_index := dm_index s + 1\<rparr>))" for s :: "'v demo"
    by (simp add: same_core_def see_tracks_def Let_def)
  then show ?thesis unfolding frame_turn_def
    by (intro keeps_then keeps_same monitor_keeps enroll_keeps decide_keeps render_keeps keeps_ret assms)
qed

lemma deliver_keeps:
  assumes "m \<in> set ms"
  shows "keeps (enrollment_ok a (delivered src ms)) (only_earned api a (delivered src ms) c)
    (andThen (on_source (fs_wait src (ps_camera m))) (\<lambda>got. case got of None \<Rightarrow> ret True | Some f \<Rightarrow> frame_turn api a m f))"
proof (rule keeps_then_from [OF source_keeps])
  fix s got t
  assume got: "on_source (fs_wait src (ps_camera m)) s = (Inr got, t)"
  show "keeps (enrollment_ok a (delivered src ms)) (only_earned api a (delivered src ms) c)
      (case got of None \<Rightarrow> ret True | Some f \<Rightarrow> frame_turn api a m f)"
  proof (cases got)
    case (Some f)
    then obtain v v' where "fs_wait src (ps_camera m) v = (Inr (Some f), v')"
      using got by (auto simp: on_member_def split: prod.splits)
    with assms have "(ps_evaluators m, f) \<in> delivered src ms" unfolding delivered_def by blast
    with Some show ?thesis by (simp add: frame_turn_keeps)
  qed (simp add: keeps_ret)
qed

lemma demo_turn_keeps:
  assumes "1 \<le> da_enroll a" and "m \<in> set ms"
  shows "keeps (enrollment_ok a (delivered src ms)) (only_earned api a (delivered src ms) c) (demo_turn api src a m)"
proof -
  have rest: "keeps (enrollment_ok a (delivered src ms)) (only_earned api a (delivered src ms) c)
      (andThen (when_key m KeyE key_enroll) (\<lambda>_. andThen (when_key m KeyP key_monitor) (\<lambda>_.
       andThen (when_key m KeyR (key_reset src)) (\<lambda>_. andThen (on_source (fs_wait src (ps_camera m))) (\<lambda>got.
         case got of None \<Rightarrow> ret True | Some f \<Rightarrow> frame_turn api a m f)))))"
    by (intro deliver_keeps keeps_then when_key_keeps key_enroll_keeps monitor_key_keeps reset_key_keeps assms)
  show ?thesis
    unfolding demo_turn_def
  proof (rule keeps_then [OF consume_keeps])
    fix escape
    show "keeps (enrollment_ok a (delivered src ms)) (only_earned api a (delivered src ms) c) (if escape then ret False else
      andThen (when_key m KeyE key_enroll) (\<lambda>_. andThen (when_key m KeyP key_monitor) (\<lambda>_.
       andThen (when_key m KeyR (key_reset src)) (\<lambda>_. andThen (on_source (fs_wait src (ps_camera m))) (\<lambda>got.
         case got of None \<Rightarrow> ret True | Some f \<Rightarrow> frame_turn api a m f)))))"
      using rest by (cases escape) (simp_all only: if_True if_False keeps_ret)
  qed
qed

lemma demo_loop_keeps:
  assumes "1 \<le> da_enroll a" and "set ns \<subseteq> set ms"
  shows "keeps (enrollment_ok a (delivered src ms)) (only_earned api a (delivered src ms) c) (demo_loop api src a ns)"
  using assms(2) by (induction ns) (auto intro!: keeps_rules demo_turn_keeps assms(1))

lemma begin_ok:
  assumes "quiescent c" and "tables_ok (stored c)" and "1 \<le> da_enroll a"
    and "\<forall>q. p = Some q \<longrightarrow> new_processor (demo_bio a) = Inr q"
  shows "enrollment_ok a L (demo_begin a v p c)" and "only_earned api a L c (demo_begin a v p c)"
proof -
  have "enrolled_sum a L 0 no_sum" unfolding enrolled_sum_def by (intro exI [of _ "[]"]) simp
  then show "enrollment_ok a L (demo_begin a v p c)"
    using assms(3,4) new_processor_ok(1,2) by (cases p) (simp_all add: enrollment_ok_def demo_begin_def)
  show "only_earned api a L c (demo_begin a v p c)" using assms(1,2) by (simp add: only_earned_def demo_begin_def)
qed


section \<open>An enrollment of one sample\<close>

definition demo_sample :: demo_args where
  "demo_sample = default_demo_args\<lparr>da_name := ''b'', da_enroll := 1, da_arc_every := 1, da_no_pad := False\<rparr>"

definition demo_frame :: tracking_frame where
  "demo_frame = \<lparr>track_gpu_frame = (track_gpu_frame (sample_frame 1))\<lparr>frame_width := 1280, frame_height := 720\<rparr>,
     frame_detections = [sample_face], frame_tracks = [sample_track]\<rparr>"

text \<open>A source that delivers the frames of a list.\<close>

definition listed_source :: "(tracking_frame list, unit) frame_source" where
  "listed_source = \<lparr>fs_wait = (\<lambda>_ fs. case fs of [] \<Rightarrow> (Inr None, []) | f # fs \<Rightarrow> (Inr (Some f), fs)), fs_reset = id\<rparr>"

definition quiet_pass :: "unit demo_pass" where
  "quiet_pass = \<lparr>ps_open = True, ps_down = (\<lambda>_. False), ps_camera = (), ps_elapsed = 0, ps_evaluators = sample_evaluators 1,
     ps_utc = (\<lambda>_. 0), ps_now = 0, ps_random = (\<lambda>_. Some (replicate 16 0)), ps_render = (\<lambda>_ _. Inr ())\<rparr>"

definition demo_matcher :: gallery_matcher where
  "demo_matcher = \<lparr>matrix_rows = [[1, 0]], owners = [0], identities = [''b'']\<rparr>"

lemma demo_evaluations:
  "validate_attendance_config (demo_bio demo_sample) = Inr ()"
  "map (\<lambda>x. to_single (x / double_of_nat (nat 1))) [0 + to_double 1, 0 + to_double 0] = [1, 0]"
  "normalize_face [1, 0] = Inr [1, 0]"
  "replace_templates [\<lparr>face_identity = ''b'', face_vector = [1, 0]\<rparr>] empty_matcher = (Inr (), demo_matcher)"
  "detection_score sample_face \<ge> da_min_score demo_sample"
  "single_lit (5348249 / 262144) > max_alignment_rmse (demo_bio demo_sample)"
  by code_simp+

lemma demo_quality: "quality sample_track (demo_bio demo_sample) = 0"
proof -
  obtain a where a: "estimate_arcface_transform sample_face 112 112 = Inr a" "rmse a = single_lit (5348249 / 262144)"
    using sample_transform by blast
  have track: "has_observation sample_track" "observation sample_track = sample_face" by (simp_all add: sample_track_def)
  show ?thesis unfolding quality_def Let_def track a sum.case using demo_evaluations(6) a(2) by simp
qed

lemma demo_schedule: "schedule_state (demo_bio demo_sample) g n now sample_track fresh_bio = (fresh_bio\<lparr>seen := n\<rparr>, False)"
proof -
  have "(0 :: single) \<le> 0" by code_simp
  then show ?thesis by (simp add: schedule_state_def demo_quality Let_def settled_def fresh_bio_def no_votes_def)
qed

lemma demo_process:
  assumes "proc_config p = demo_bio demo_sample" and "\<not> have_time p" and "last_frame p = 0" and "bio_states p = Map.empty"
  shows "\<exists>out q. process ev utc demo_frame 0 p = (Inr out, q) \<and> attendance_events out = []"
proof -
  have none: "frame_rejected demo_frame 0 p = None"
    using assms by (simp add: frame_rejected_def demo_frame_def)
  let ?p = "opened demo_frame 0 p"
  have at: "bio_at 1 ?p = fresh_bio" using assms(4) by (simp add: bio_at_def opened_def prune_def)
  define q where "q = put_bio 1 (fresh_bio\<lparr>seen := tick ?p\<rparr>) ?p"
  have config: "proc_config ?p = demo_bio demo_sample" using assms(1) by (simp add: opened_def prune_def)
  have ts: "frame_tracks demo_frame = [sample_track]" by (simp add: demo_frame_def)
  have sched: "schedule 0 (frame_tracks demo_frame) ?p = (q, [])"
    using at demo_schedule by (simp add: ts q_def config assms(1))
  have "bio_phase (bio_at 1 q) \<noteq> Recognizing" by (simp add: q_def fresh_bio_def)
  then have "recognition_stage ev utc (track_gpu_frame demo_frame) 0 (frame_tracks demo_frame) q = (Inr [], q)"
    by (simp add: recognition_stage_def ts wants_recognition_def ret_def)
  then show ?thesis
    by (simp add: process_scheduled [OF none sched] pad_stage_def run_simps)
qed

lemma foldl_demo_fields:
  "dm_ready (foldl (\<lambda>s x. put_demo_track (snap_track x) (show_snapshot x) s) s xs) = dm_ready s \<and>
   dm_db (foldl (\<lambda>s x. put_demo_track (snap_track x) (show_snapshot x) s) s xs) = dm_db s \<and>
   dm_shown (foldl (\<lambda>s x. put_demo_track (snap_track x) (show_snapshot x) s) s xs) = dm_shown s"
  by (induction xs arbitrary: s) (simp_all add: put_demo_track_def)


end
