(* ===== verification/Probes.thy ===== *)
theory Probes
  imports Demo
begin

text \<open>
  The measurement programs of \<^verbatim>\<open>src/tools\<close>: the ArcFace, liveness, ByteTrack, SCRFD and camera probes.
  Each runs a fixed number of frames through a part of the runtime, counts what happens to every frame
  and summarises series of numbers. Durations the evaluators report are left out; the printed text is not
  modelled.
\<close>

section \<open>Summaries\<close>

text \<open>A field that the \<open>Stats\<close> of a program lacks stays zero.\<close>

record series_stats =
  st_mean :: double
  st_median :: double
  st_p05 :: double
  st_p95 :: double
  st_min :: double
  st_max :: double

definition no_stats :: series_stats where
  "no_stats = \<lparr>st_mean = 0, st_median = 0, st_p05 = 0, st_p95 = 0, st_min = 0, st_max = 0\<rparr>"

fun insert_double :: "double \<Rightarrow> double list \<Rightarrow> double list" where
  "insert_double x [] = [x]"
| "insert_double x (y # ys) = (if x < y then x # y # ys else y # insert_double x ys)"

definition sort_doubles :: "double list \<Rightarrow> double list" where
  "sort_doubles xs = foldr insert_double xs []"

definition mean_of :: "double list \<Rightarrow> double" where
  "mean_of xs = foldl (+) 0 xs / double_of_nat (length xs)"

definition median_of :: "double list \<Rightarrow> double" where
  "median_of s =
     (let n = length s
      in if n mod 2 = 0 then double_lit (1 / 2) * (s ! (n div 2 - 1) + s ! (n div 2)) else s ! (n div 2))"

definition ceil_index :: "double \<Rightarrow> int" where
  "ceil_index x = (case dval x of Fin q \<Rightarrow> \<lceil>q\<rceil> | _ \<Rightarrow> 0)"

definition quantile_of :: "rat \<Rightarrow> double list \<Rightarrow> double" where
  "quantile_of q s =
     (let n = length s in s ! min (n - 1) (nat (ceil_index (double_lit q * double_of_nat n) - 1)))"

definition bytetrack_summary :: "double list \<Rightarrow> series_stats" where
  "bytetrack_summary xs =
     (if xs = [] then no_stats
      else let s = sort_doubles xs
           in no_stats\<lparr>st_mean := mean_of xs, st_median := median_of s, st_p95 := quantile_of (95 / 100) s\<rparr>)"

definition liveness_summary :: "double list \<Rightarrow> series_stats" where
  "liveness_summary xs =
     (if xs = [] then no_stats
      else let s = sort_doubles xs
           in (bytetrack_summary xs)\<lparr>st_min := hd s, st_max := last s\<rparr>)"

definition arcface_summary :: "double list \<Rightarrow> series_stats" where
  "arcface_summary xs =
     (if xs = [] then no_stats
      else (liveness_summary xs)\<lparr>st_p05 := quantile_of (5 / 100) (sort_doubles xs)\<rparr>)"

definition camera_summary :: "double list \<Rightarrow> series_stats" where
  "camera_summary xs =
     (if xs = [] then no_stats
      else let s = sort_doubles xs; n = length s
           in no_stats\<lparr>st_mean := mean_of s,
                st_median := (if n mod 2 = 0 then (s ! (n div 2 - 1) + s ! (n div 2)) / double_lit 2 else s ! (n div 2)),
                st_p95 := quantile_of (95 / 100) s, st_max := last s\<rparr>)"

definition scrfd_summary :: "double list \<Rightarrow> series_stats" where
  "scrfd_summary xs =
     (if xs = [] then no_stats
      else let s = sort_doubles xs; n = length s
           in no_stats\<lparr>st_mean := mean_of xs, st_median := s ! (n div 2),
                st_p95 := s ! min (n - 1) (case dval (double_of_nat n * double_lit (95 / 100)) of Fin q \<Rightarrow> nat \<lfloor>q\<rfloor> | _ \<Rightarrow> 0)\<rparr>)"

section \<open>Frames and counters the probes share\<close>

text \<open>One more frame number, and how many the camera has skipped before it.\<close>

definition skipped_ids :: "nat \<Rightarrow> nat \<Rightarrow> nat" where
  "skipped_ids prev k = (if prev \<noteq> 0 \<and> k > prev + 1 then k - prev - 1 else 0)"

definition probe_warm_up :: "string \<Rightarrow> ('v, 'm) frame_source \<Rightarrow> 'm list \<Rightarrow> ('v, unit) run" where
  "probe_warm_up message src ms =
     forM (\<lambda>m. andThen (fs_wait src m) (\<lambda>got. if got = None then throw (RuntimeError message) else ret ())) ms"

definition next_frame :: "string \<Rightarrow> ('v, 'm) frame_source \<Rightarrow> 'm \<Rightarrow> ('v, tracking_frame) run" where
  "next_frame message src m =
     andThen (fs_wait src m) (\<lambda>got. case got of None \<Rightarrow> throw (RuntimeError message) | Some f \<Rightarrow> ret f)"

definition probe_tracking :: "string \<Rightarrow> tracking_config" where
  "probe_tracking scrfd = vc_tracking (demo_vision (default_demo_args\<lparr>da_scrfd := scrfd\<rparr>))"

definition probe_model :: "tool_world \<Rightarrow> string \<Rightarrow> string \<Rightarrow> string list \<Rightarrow> string" where
  "probe_model w exe given parts = demo_model w exe given (foldl join_path (hd parts) (tl parts))"

definition scrfd_parts :: "string list" where
  "scrfd_parts = [''models'', ''insightface'', ''buffalo_sc'', ''det_500m.onnx'']"

section \<open>The ArcFace probe\<close>

record arcface_args =
  aa_scrfd :: string
  aa_arcface :: string
  aa_min_score :: single
  aa_every :: int
  aa_enroll :: int
  aa_verify :: int
  aa_max_frames :: int

definition default_arcface_args :: arcface_args where
  "default_arcface_args = \<lparr>aa_scrfd = [], aa_arcface = [], aa_min_score = single_lit (1 / 2), aa_every = 5, aa_enroll = 10,
     aa_verify = 60, aa_max_frames = 2500\<rparr>"

definition set_arcface_option :: "tool_world \<Rightarrow> string \<Rightarrow> string \<Rightarrow> arcface_args \<Rightarrow> arcface_args result" where
  "set_arcface_option w key v a =
     (if key = ''--scrfd'' then Inr (a\<lparr>aa_scrfd := tw_absolute w v\<rparr>)
      else if key = ''--arcface'' then Inr (a\<lparr>aa_arcface := tw_absolute w v\<rparr>)
      else if key = ''--min-det-score'' then bind_result (stof v) (\<lambda>(x, _). Inr (a\<lparr>aa_min_score := x\<rparr>))
      else if key = ''--every'' then bind_result (stoi v) (\<lambda>(n, _). Inr (a\<lparr>aa_every := n\<rparr>))
      else if key = ''--enroll'' then bind_result (stoi v) (\<lambda>(n, _). Inr (a\<lparr>aa_enroll := n\<rparr>))
      else if key = ''--verify'' then bind_result (stoi v) (\<lambda>(n, _). Inr (a\<lparr>aa_verify := n\<rparr>))
      else bind_result (stoi v) (\<lambda>(n, _). Inr (a\<lparr>aa_max_frames := n\<rparr>)))"

text \<open>Both probes with options scan them alike: an option, its value, help, or an error.\<close>

fun scan_probe_options :: "string list \<Rightarrow> (string \<Rightarrow> string \<Rightarrow> 'a \<Rightarrow> 'a result) \<Rightarrow> 'a \<Rightarrow> string list \<Rightarrow> 'a option result" where
  "scan_probe_options valued put a [] = Inr (Some a)"
| "scan_probe_options valued put a (key # rest) =
     (if key \<in> set valued
      then (case rest of
              [] \<Rightarrow> Inl (RuntimeError (''Missing value for '' @ key))
            | v # rest \<Rightarrow> bind_result (put key v a) (\<lambda>a. scan_probe_options valued put a rest))
      else if key = ''--help'' \<or> key = ''-h'' then Inr None
      else Inl (RuntimeError (''Unknown argument: '' @ key)))"

definition finish_probe_args :: "tool_world \<Rightarrow> (string \<Rightarrow> 'a \<Rightarrow> 'a result) \<Rightarrow> 'a option result \<Rightarrow> 'a option result" where
  "finish_probe_args w fill scanned =
     bind_result scanned (\<lambda>found.
     case found of
       None \<Rightarrow> Inr None
     | Some a \<Rightarrow>
         (case tw_executable w of
            None \<Rightarrow> Inl (RuntimeError ''GetModuleFileNameW failed'')
          | Some exe \<Rightarrow> bind_result (fill (parent_path exe) a) (\<lambda>a. Inr (Some a))))"

definition score_limits :: "single \<Rightarrow> unit result" where
  "score_limits x = (if \<not> sfinite x \<or> x < 0 \<or> x > 1 then Inl (RuntimeError ''--min-det-score must be 0..1'') else Inr ())"

definition complete_arcface_args :: "tool_world \<Rightarrow> string \<Rightarrow> arcface_args \<Rightarrow> arcface_args result" where
  "complete_arcface_args w exe a =
     (let scrfd = probe_model w exe (aa_scrfd a) scrfd_parts;
          arcface = probe_model w exe (aa_arcface a) [''models'', ''insightface'', ''buffalo_l'', ''w600k_r50.onnx''];
          missing = (\<lambda>p. p = [] \<or> \<not> tw_exists w p)
      in if missing scrfd then Inl (RuntimeError ''det_500m.onnx not found; pass --scrfd <path>'')
         else if missing arcface then Inl (RuntimeError (''w600k_r50.onnx not found; expected '' @
              foldl join_path ''models'' [''insightface'', ''buffalo_l'', ''w600k_r50.onnx''] @ '' or pass --arcface <path>''))
         else bind_result (score_limits (aa_min_score a)) (\<lambda>_.
              if aa_every a < 1 then Inl (RuntimeError ''--every must be >= 1'')
              else if aa_enroll a < 1 then Inl (RuntimeError ''--enroll must be >= 1'')
              else if aa_verify a < 1 then Inl (RuntimeError ''--verify must be >= 1'')
              else if aa_max_frames a < 1 then Inl (RuntimeError ''--max-frames must be >= 1'')
              else Inr (a\<lparr>aa_scrfd := scrfd, aa_arcface := arcface\<rparr>)))"

definition arcface_args_of :: "tool_world \<Rightarrow> string list \<Rightarrow> arcface_args option result" where
  "arcface_args_of w argv =
     finish_probe_args w (complete_arcface_args w)
       (scan_probe_options [''--scrfd'', ''--arcface'', ''--min-det-score'', ''--every'', ''--enroll'', ''--verify'', ''--max-frames'']
          (set_arcface_option w) default_arcface_args argv)"

definition cosine_similarity :: "single list \<Rightarrow> single list \<Rightarrow> single" where
  "cosine_similarity a b =
     (let na = dot_product a a; nb = dot_product b b
      in if na \<le> 0 \<or> nb \<le> 0 then 0 else to_single (dot_product a b / dsqrt (na * nb)))"

record arcface_counts =
  ac_sum :: "double list"
  ac_enrolled :: nat
  ac_ready :: bool
  ac_reference :: "single list"
  ac_similarities :: "double list"
  ac_norms :: "double list"
  ac_rmse :: "double list"
  ac_frames :: nat
  ac_camera_skips :: nat
  ac_no_track :: nat
  ac_ambiguous :: nat
  ac_quality :: nat
  ac_cadence :: nat
  ac_previous :: nat
  ac_tracks :: "nat set"

definition no_arcface_counts :: arcface_counts where
  "no_arcface_counts = \<lparr>ac_sum = no_sum, ac_enrolled = 0, ac_ready = False, ac_reference = replicate embedding_size 0,
     ac_similarities = [], ac_norms = [], ac_rmse = [], ac_frames = 0, ac_camera_skips = 0, ac_no_track = 0, ac_ambiguous = 0,
     ac_quality = 0, ac_cadence = 0, ac_previous = 0, ac_tracks = {}\<rparr>"

text \<open>\<open>verified\<close> is the number of similarities.\<close>

definition arcface_sample :: "arcface_args \<Rightarrow> arcface_result \<Rightarrow> arcface_counts \<Rightarrow> arcface_counts result" where
  "arcface_sample a r s =
     (let s = s\<lparr>ac_norms := ac_norms s @ [to_double (raw_embedding_norm r)],
                ac_rmse := ac_rmse s @ [to_double (rmse (face_transform r))]\<rparr>
      in if \<not> ac_ready s
         then let s = s\<lparr>ac_sum := add_sample (face_embedding r) (ac_sum s), ac_enrolled := ac_enrolled s + 1\<rparr>
              in if int (ac_enrolled s) = aa_enroll a
                 then bind_result (finalize_reference (ac_sum s) (int (ac_enrolled s))) (\<lambda>reference.
                        Inr (s\<lparr>ac_reference := reference, ac_ready := True\<rparr>))
                 else Inr s
         else Inr (s\<lparr>ac_similarities := ac_similarities s @ [to_double (cosine_similarity (ac_reference s) (face_embedding r))]\<rparr>))"

definition arcface_frame_step :: "arcface_args \<Rightarrow> evaluators \<Rightarrow> tracking_frame \<Rightarrow> arcface_counts \<Rightarrow> arcface_counts result" where
  "arcface_frame_step a ev f s0 =
     (let k = frame_id (track_gpu_frame f);
          s = s0\<lparr>ac_frames := ac_frames s0 + 1, ac_camera_skips := ac_camera_skips s0 + skipped_ids (ac_previous s0) k,
                 ac_previous := k\<rparr>
      in case frame_tracks f of
           [] \<Rightarrow> Inr (s\<lparr>ac_no_track := ac_no_track s + 1\<rparr>)
         | [t] \<Rightarrow>
             if (ac_frames s - 1) mod nat (aa_every a) \<noteq> 0 then Inr (s\<lparr>ac_cadence := ac_cadence s + 1\<rparr>)
             else if \<not> has_observation t \<or> detection_score (observation t) < aa_min_score a
             then Inr (s\<lparr>ac_quality := ac_quality s + 1\<rparr>)
             else bind_result (evaluate_one ev (track_gpu_frame f) (observation t)) (\<lambda>r.
                    arcface_sample a r (s\<lparr>ac_tracks := insert (result_id t) (ac_tracks s)\<rparr>))
         | _ \<Rightarrow> Inr (s\<lparr>ac_ambiguous := ac_ambiguous s + 1\<rparr>))"

text \<open>The loop over the moments of the world; \<open>None\<close>: still running when they end.\<close>

fun arcface_loop :: "arcface_args \<Rightarrow> ('v, 'm) frame_source \<Rightarrow> ('m \<times> evaluators) list \<Rightarrow> arcface_counts \<Rightarrow> ('v, arcface_counts option) run" where
  "arcface_loop a src ms s =
     (if \<not> (int (length (ac_similarities s)) < aa_verify a \<and> int (ac_frames s) < aa_max_frames a) then ret (Some s)
      else case ms of
             [] \<Rightarrow> ret None
           | (m, ev) # ms \<Rightarrow>
               andThen (next_frame ''ArcFace tracking timeout'' src m) (\<lambda>f.
               andThen (lift_result (arcface_frame_step a ev f s)) (\<lambda>s. arcface_loop a src ms s)))"

definition arcface_verdict :: "arcface_counts \<Rightarrow> int" where
  "arcface_verdict s = (if length (ac_similarities s) > 0 then 0 else 1)"

definition arcface_probe :: "arcface_args \<Rightarrow> ('v, 'm) frame_source \<Rightarrow> (nat \<Rightarrow> 'm) \<Rightarrow> ('m \<times> evaluators) list \<Rightarrow>
    ('v, (int \<times> arcface_counts) option) run" where
  "arcface_probe a src warm ms =
     andThen (probe_warm_up ''tracking warm-up timeout'' src (map warm [0..<warm_up_frames])) (\<lambda>_.
     andThen (modify (fs_reset src)) (\<lambda>_.
     andThen (arcface_loop a src ms no_arcface_counts) (\<lambda>final.
       ret (map_option (\<lambda>s. (arcface_verdict s, s)) final))))"

section \<open>The liveness probe\<close>

record liveness_args =
  la_scrfd :: string
  la_model :: string
  la_scenario :: string
  la_min_score :: single
  la_every :: int
  la_frames :: int

definition default_liveness_args :: liveness_args where
  "default_liveness_args = \<lparr>la_scrfd = [], la_model = [], la_scenario = ''live'', la_min_score = single_lit (1 / 2),
     la_every = 5, la_frames = 300\<rparr>"

definition set_liveness_option :: "tool_world \<Rightarrow> string \<Rightarrow> string \<Rightarrow> liveness_args \<Rightarrow> liveness_args result" where
  "set_liveness_option w key v a =
     (if key = ''--scrfd'' then Inr (a\<lparr>la_scrfd := tw_absolute w v\<rparr>)
      else if key = ''--liveness'' then Inr (a\<lparr>la_model := tw_absolute w v\<rparr>)
      else if key = ''--scenario'' then Inr (a\<lparr>la_scenario := v\<rparr>)
      else if key = ''--min-det-score'' then bind_result (stof v) (\<lambda>(x, _). Inr (a\<lparr>la_min_score := x\<rparr>))
      else if key = ''--check-every'' then bind_result (stoi v) (\<lambda>(n, _). Inr (a\<lparr>la_every := n\<rparr>))
      else bind_result (stoi v) (\<lambda>(n, _). Inr (a\<lparr>la_frames := n\<rparr>)))"

definition complete_liveness_args :: "tool_world \<Rightarrow> string \<Rightarrow> liveness_args \<Rightarrow> liveness_args result" where
  "complete_liveness_args w exe a =
     (let scrfd = probe_model w exe (la_scrfd a) scrfd_parts;
          model = probe_model w exe (la_model a) [''models'', ''insightface'', ''addons'', ''liveness.onnx''];
          missing = (\<lambda>p. p = [] \<or> \<not> tw_exists w p)
      in if missing scrfd then Inl (RuntimeError ''det_500m.onnx not found; pass --scrfd <path>'')
         else if missing model then Inl (RuntimeError ''liveness.onnx not found; pass --liveness <path>'')
         else if la_scenario a \<notin> {''live'', ''photo'', ''display''}
         then Inl (RuntimeError ''--scenario must be live, photo, or display'')
         else bind_result (score_limits (la_min_score a)) (\<lambda>_.
              if la_every a < 1 then Inl (RuntimeError ''--check-every must be >= 1'')
              else if la_frames a < 1 then Inl (RuntimeError ''--frames must be >= 1'')
              else Inr (a\<lparr>la_scrfd := scrfd, la_model := model\<rparr>)))"

definition liveness_args_of :: "tool_world \<Rightarrow> string list \<Rightarrow> liveness_args option result" where
  "liveness_args_of w argv =
     finish_probe_args w (complete_liveness_args w)
       (scan_probe_options [''--scrfd'', ''--liveness'', ''--scenario'', ''--min-det-score'', ''--check-every'', ''--frames'']
          (set_liveness_option w) default_liveness_args argv)"

record decision_stats =
  ds_total :: nat
  ds_live :: nat
  ds_spoof :: nat
  ds_rejected :: nat
  ds_scores :: "double list"

definition no_decisions :: decision_stats where
  "no_decisions = \<lparr>ds_total = 0, ds_live = 0, ds_spoof = 0, ds_rejected = 0, ds_scores = []\<rparr>"

text \<open>\<open>value()\<close> of a missing score throws.\<close>

definition add_decision :: "liveness_result \<Rightarrow> decision_stats \<Rightarrow> decision_stats result" where
  "add_decision r s0 =
     (let s = s0\<lparr>ds_total := ds_total s0 + 1\<rparr>
      in if live_decision r = InputRejected then Inr (s\<lparr>ds_rejected := ds_rejected s + 1\<rparr>)
         else let s = (if live_decision r = Live then s\<lparr>ds_live := ds_live s + 1\<rparr> else s\<lparr>ds_spoof := ds_spoof s + 1\<rparr>)
              in case live_score r of
                   None \<Rightarrow> Inl (LogicError ''bad optional access'')
                 | Some v \<Rightarrow> Inr (s\<lparr>ds_scores := ds_scores s @ [to_double v]\<rparr>))"

record liveness_counts =
  lc_stats :: decision_stats
  lc_samples :: nat
  lc_quality :: nat
  lc_no_track :: nat
  lc_camera_skips :: nat
  lc_previous :: nat

definition no_liveness_counts :: liveness_counts where
  "no_liveness_counts = \<lparr>lc_stats = no_decisions, lc_samples = 0, lc_quality = 0, lc_no_track = 0, lc_camera_skips = 0,
     lc_previous = 0\<rparr>"

definition liveness_frame_step :: "liveness_args \<Rightarrow> nat \<Rightarrow> evaluators \<Rightarrow> tracking_frame \<Rightarrow> liveness_counts \<Rightarrow> liveness_counts result" where
  "liveness_frame_step a i ev f s0 =
     (let k = frame_id (track_gpu_frame f);
          s = s0\<lparr>lc_camera_skips := lc_camera_skips s0 + skipped_ids (lc_previous s0) k, lc_previous := k\<rparr>
      in if frame_tracks f = [] then Inr (s\<lparr>lc_no_track := lc_no_track s + 1\<rparr>)
         else if int i mod la_every a \<noteq> 0 then Inr s
         else let weak = (\<lambda>t. \<not> has_observation t \<or> detection_score (observation t) < la_min_score a);
                  faces = map observation (filter (\<lambda>t. \<not> weak t) (frame_tracks f));
                  s = s\<lparr>lc_quality := lc_quality s + length (filter weak (frame_tracks f))\<rparr>
              in if faces = [] then Inr s
                 else bind_result (eval_pad ev (track_gpu_frame f) faces) (\<lambda>rs.
                      if length rs \<noteq> length faces then Inl (RuntimeError ''Liveness result count mismatch'')
                      else bind_result (foldl (\<lambda>acc r. bind_result acc (add_decision r)) (Inr (lc_stats s)) rs) (\<lambda>stats.
                             Inr (s\<lparr>lc_samples := lc_samples s + 1, lc_stats := stats\<rparr>))))"

fun liveness_loop :: "liveness_args \<Rightarrow> ('v, 'm) frame_source \<Rightarrow> nat \<Rightarrow> ('m \<times> evaluators) list \<Rightarrow> liveness_counts \<Rightarrow> ('v, liveness_counts) run" where
  "liveness_loop a src i [] s = ret s"
| "liveness_loop a src i ((m, ev) # ms) s =
     andThen (next_frame ''Liveness probe tracking timeout'' src m) (\<lambda>f.
     andThen (lift_result (liveness_frame_step a i ev f s)) (\<lambda>s. liveness_loop a src (i + 1) ms s))"

definition liveness_probe :: "liveness_args \<Rightarrow> ('v, 'm) frame_source \<Rightarrow> (nat \<Rightarrow> 'm) \<Rightarrow> (nat \<Rightarrow> 'm \<times> evaluators) \<Rightarrow> ('v, liveness_counts) run" where
  "liveness_probe a src warm ms =
     andThen (probe_warm_up ''tracking warm-up timeout'' src (map warm [0..<warm_up_frames])) (\<lambda>_.
     andThen (modify (fs_reset src)) (\<lambda>_.
     liveness_loop a src 0 (map ms [0..<nat (la_frames a)]) no_liveness_counts))"

definition percentage :: "nat \<Rightarrow> nat \<Rightarrow> double" where
  "percentage part whole = (if whole = 0 then 0 else double_lit 100 * double_of_nat part / double_of_nat whole)"

section \<open>The ByteTrack probe\<close>

definition find_scrfd :: "tool_world \<Rightarrow> string \<Rightarrow> string" where
  "find_scrfd w start = find_upwards 10 w start (foldl join_path (hd scrfd_parts) (tl scrfd_parts))"

definition bytetrack_model :: "tool_world \<Rightarrow> string list \<Rightarrow> string result" where
  "bytetrack_model w argv =
     (case argv of
        given # _ \<Rightarrow>
          (let p = tw_absolute w given
           in if tw_exists w p then Inr p else Inl (RuntimeError ''model path argument does not exist''))
      | [] \<Rightarrow>
          (let p = find_scrfd w (tw_current w)
           in if p \<noteq> [] then Inr p
              else case tw_executable w of
                     None \<Rightarrow> Inl (RuntimeError ''GetModuleFileNameW failed'')
                   | Some exe \<Rightarrow>
                       (let p = find_scrfd w (parent_path exe)
                        in if p \<noteq> [] then Inr p
                           else Inl (RuntimeError ''det_500m.onnx not found; pass absolute path as argv[1]''))))"

definition count_high :: "face_detection list \<Rightarrow> single \<Rightarrow> nat" where
  "count_high ds threshold = length (filter (\<lambda>d. detection_score d > threshold) ds)"

definition count_low :: "face_detection list \<Rightarrow> single \<Rightarrow> single \<Rightarrow> nat" where
  "count_low ds low_limit threshold = length (filter (\<lambda>d. detection_score d > low_limit \<and> detection_score d < threshold) ds)"

record bytetrack_counts =
  bc_ids :: "nat set"
  bc_outputs_of :: "nat \<Rightarrow> nat"
  bc_candidates :: nat
  bc_high :: nat
  bc_low :: nat
  bc_outputs :: nat
  bc_recoveries :: nat
  bc_max_tracks :: nat
  bc_max_candidates :: nat
  bc_skipped :: nat
  bc_with_tracks :: nat
  bc_with_low :: nat
  bc_with_recovery :: nat
  bc_missing :: nat
  bc_previous :: nat

definition no_bytetrack_counts :: bytetrack_counts where
  "no_bytetrack_counts = \<lparr>bc_ids = {}, bc_outputs_of = (\<lambda>_. 0), bc_candidates = 0, bc_high = 0, bc_low = 0, bc_outputs = 0,
     bc_recoveries = 0, bc_max_tracks = 0, bc_max_candidates = 0, bc_skipped = 0, bc_with_tracks = 0, bc_with_low = 0,
     bc_with_recovery = 0, bc_missing = 0, bc_previous = 0\<rparr>"

definition low_recovery :: "bytetrack_config \<Rightarrow> track_result \<Rightarrow> bool" where
  "low_recovery c t \<longleftrightarrow> has_observation t \<and> detection_score (observation t) < track_threshold c"

definition count_track :: "bytetrack_config \<Rightarrow> bytetrack_counts \<Rightarrow> track_result \<Rightarrow> bytetrack_counts" where
  "count_track c s t =
     s\<lparr>bc_outputs := bc_outputs s + 1, bc_ids := insert (result_id t) (bc_ids s),
       bc_outputs_of := (bc_outputs_of s)(result_id t := bc_outputs_of s (result_id t) + 1),
       bc_missing := (if has_observation t then bc_missing s else bc_missing s + 1),
       bc_recoveries := (if low_recovery c t then bc_recoveries s + 1 else bc_recoveries s)\<rparr>"

definition bytetrack_frame_step :: "bytetrack_config \<Rightarrow> tracking_frame \<Rightarrow> bytetrack_counts \<Rightarrow> bytetrack_counts" where
  "bytetrack_frame_step c f s0 =
     (let k = frame_id (track_gpu_frame f); ds = frame_detections f; ts = frame_tracks f;
          low_found = count_low ds (low_threshold c) (track_threshold c);
          s = s0\<lparr>bc_skipped := bc_skipped s0 + skipped_ids (bc_previous s0) k, bc_previous := k,
                 bc_candidates := bc_candidates s0 + length ds,
                 bc_high := bc_high s0 + count_high ds (track_threshold c), bc_low := bc_low s0 + low_found,
                 bc_max_candidates := max (bc_max_candidates s0) (length ds),
                 bc_max_tracks := max (bc_max_tracks s0) (length ts),
                 bc_with_tracks := (if ts \<noteq> [] then bc_with_tracks s0 + 1 else bc_with_tracks s0),
                 bc_with_low := (if low_found > 0 then bc_with_low s0 + 1 else bc_with_low s0)\<rparr>;
          s = foldl (count_track c) s ts
      in if list_ex (low_recovery c) ts then s\<lparr>bc_with_recovery := bc_with_recovery s + 1\<rparr> else s)"

fun bytetrack_loop :: "bytetrack_config \<Rightarrow> ('v, 'm) frame_source \<Rightarrow> 'm list \<Rightarrow> bytetrack_counts \<Rightarrow> ('v, bytetrack_counts) run" where
  "bytetrack_loop c src [] s = ret s"
| "bytetrack_loop c src (m # ms) s =
     andThen (next_frame ''full-pipeline measurement timeout'' src m) (\<lambda>f.
       bytetrack_loop c src ms (bytetrack_frame_step c f s))"

definition bytetrack_verdict :: "bytetrack_counts \<Rightarrow> unit result" where
  "bytetrack_verdict s =
     (if bc_missing s \<noteq> 0 then Inl (RuntimeError ''active ByteTrack output lost current SCRFD observation metadata'') else Inr ())"

definition measure_frames :: nat where
  "measure_frames = 300"

definition bytetrack_measure :: "bytetrack_config \<Rightarrow> ('v, 'm) frame_source \<Rightarrow> 'm list \<Rightarrow> 'm list \<Rightarrow> ('v, bytetrack_counts) run" where
  "bytetrack_measure c src warm ms =
     andThen (probe_warm_up ''full-pipeline warm-up timeout'' src warm) (\<lambda>_.
     andThen (modify (fs_reset src)) (\<lambda>_.
     bytetrack_loop c src ms no_bytetrack_counts))"

text \<open>The program up to its last check, and with it.\<close>

definition bytetrack_run :: "vision_world \<Rightarrow> tool_world \<Rightarrow> (nat \<Rightarrow> camera_event list) \<Rightarrow> (nat \<Rightarrow> camera_event list) \<Rightarrow> string list \<Rightarrow>
    (bytetrack_counts \<times> tracking_runtime) result" where
  "bytetrack_run vw w warm ms argv =
     bind_result (bytetrack_model w argv) (\<lambda>path.
     let c = probe_tracking path
     in bind_result (new_tracking_runtime vw c) (\<lambda>rt.
        case tracking_start vw rt of
          (Inl e, _) \<Rightarrow> Inl e
        | (Inr _, rt) \<Rightarrow>
            (case bytetrack_measure (tc_bytetrack c) (tracking_source vw) (map warm [0..<warm_up_frames]) (map ms [0..<measure_frames]) rt of
               (Inl e, _) \<Rightarrow> Inl e
             | (Inr s, rt) \<Rightarrow> Inr (s, tracking_stop vw rt))))"

definition bytetrack_probe :: "vision_world \<Rightarrow> tool_world \<Rightarrow> (nat \<Rightarrow> camera_event list) \<Rightarrow> (nat \<Rightarrow> camera_event list) \<Rightarrow> string list \<Rightarrow>
    (int \<times> bytetrack_counts) result" where
  "bytetrack_probe vw w warm ms argv =
     bind_result (bytetrack_run vw w warm ms argv) (\<lambda>(s, _).
     bind_result (bytetrack_verdict s) (\<lambda>_. Inr (0, s)))"

section \<open>The camera and SCRFD probes\<close>

text \<open>These two wait on the camera itself.\<close>

definition camera_wait :: "vision_world \<Rightarrow> camera_event list \<Rightarrow> nat \<Rightarrow> (camera, gpu_frame option) run" where
  "camera_wait vw es n =
     andThen (modify (fold (camera_event_step vw) es)) (\<lambda>_.
     andThen get_state (\<lambda>s. lift_result (wait_for_frame n s)))"

definition camera_frame :: "string \<Rightarrow> vision_world \<Rightarrow> camera_event list \<Rightarrow> nat \<Rightarrow> (camera, gpu_frame) run" where
  "camera_frame message vw es n =
     andThen (camera_wait vw es n) (\<lambda>got. case got of None \<Rightarrow> throw (RuntimeError message) | Some g \<Rightarrow> ret g)"

text \<open>The SCRFD probe stops the camera before it reports a timeout.\<close>

definition frame_or_stop :: "string \<Rightarrow> vision_world \<Rightarrow> camera_event list \<Rightarrow> nat \<Rightarrow> (camera, gpu_frame) run" where
  "frame_or_stop message vw es n =
     andThen (camera_wait vw es n) (\<lambda>got.
       case got of
         None \<Rightarrow> andThen (modify (camera_stop (camera_drv vw))) (\<lambda>_. throw (RuntimeError message))
       | Some g \<Rightarrow> ret g)"

definition millis :: "int \<Rightarrow> double" where
  "millis d = double_lit (of_int (d mod 2 ^ 64)) / double_lit 1000000"

record camera_bench =
  cb_source :: "double list"
  cb_callback :: "double list"
  cb_delivery :: "double list"
  cb_prev_source :: nat
  cb_prev_callback :: nat
  cb_first_consumer :: nat
  cb_last_consumer :: nat
  cb_first_id :: nat
  cb_last_id :: nat

definition no_bench :: camera_bench where
  "no_bench = \<lparr>cb_source = [], cb_callback = [], cb_delivery = [], cb_prev_source = 0, cb_prev_callback = 0,
     cb_first_consumer = 0, cb_last_consumer = 0, cb_first_id = 0, cb_last_id = 0\<rparr>"

text \<open>Differences of \<open>uint64_t\<close> wrap around.\<close>

definition bench_frame :: "nat \<Rightarrow> nat \<Rightarrow> gpu_frame \<Rightarrow> camera_bench \<Rightarrow> camera_bench" where
  "bench_frame i consumer_ns g b =
     (let b = (if i = 0 then b\<lparr>cb_first_consumer := consumer_ns, cb_first_id := frame_id g\<rparr> else b);
          b = b\<lparr>cb_last_consumer := consumer_ns, cb_last_id := frame_id g\<rparr>;
          b = (if cb_prev_source b \<noteq> 0 \<and> frame_source_ns g \<noteq> 0
               then b\<lparr>cb_source := cb_source b @ [millis (int (frame_source_ns g) - int (cb_prev_source b))]\<rparr> else b);
          b = (if frame_source_ns g \<noteq> 0 then b\<lparr>cb_prev_source := frame_source_ns g\<rparr> else b);
          b = (if cb_prev_callback b \<noteq> 0
               then b\<lparr>cb_callback := cb_callback b @ [millis (int (callback_entry_ns g) - int (cb_prev_callback b))]\<rparr> else b)
      in b\<lparr>cb_prev_callback := callback_entry_ns g,
           cb_delivery := cb_delivery b @ [millis (int consumer_ns - int (frame_timestamp_ns g))]\<rparr>)"

fun bench_loop :: "vision_world \<Rightarrow> nat \<Rightarrow> (camera_event list \<times> nat) list \<Rightarrow> nat \<Rightarrow> camera_bench \<Rightarrow> (camera, camera_bench) run" where
  "bench_loop vw i [] last_id b = ret b"
| "bench_loop vw i ((es, consumer_ns) # ms) last_id b =
     andThen (camera_frame ''Timeout saat benchmark'' vw es last_id) (\<lambda>g.
       bench_loop vw (i + 1) ms (frame_id g) (bench_frame i consumer_ns g b))"

fun camera_warm_up :: "vision_world \<Rightarrow> camera_event list list \<Rightarrow> nat \<Rightarrow> (camera, nat \<times> gpu_frame option) run" where
  "camera_warm_up vw [] last_id = ret (last_id, None)"
| "camera_warm_up vw (es # ms) last_id =
     andThen (camera_frame ''Timeout saat warm-up'' vw es last_id) (\<lambda>g.
     andThen (camera_warm_up vw ms (frame_id g)) (\<lambda>(n, _). ret (n, Some g)))"

definition fps_from_intervals :: "double list \<Rightarrow> double" where
  "fps_from_intervals xs =
     (let sum_ms = foldl (+) 0 xs
      in if xs = [] then 0 else if sum_ms > 0 then double_of_nat (length xs) * double_lit 1000 / sum_ms else 0)"

definition consumer_fps :: "nat \<Rightarrow> camera_bench \<Rightarrow> double" where
  "consumer_fps n b =
     (if cb_last_consumer b > cb_first_consumer b \<and> n > 1
      then double_of_nat (n - 1) * double_lit 1000000000 / double_of_nat (cb_last_consumer b - cb_first_consumer b) else 0)"

definition bench_skipped :: "nat \<Rightarrow> camera_bench \<Rightarrow> nat" where
  "bench_skipped n b =
     (if cb_last_id b \<ge> cb_first_id b \<and> cb_last_id b - cb_first_id b + 1 > n then cb_last_id b - cb_first_id b + 1 - n else 0)"

definition bench_passes :: "nat \<Rightarrow> nat \<Rightarrow> gpu_frame \<Rightarrow> camera_bench \<Rightarrow> bool" where
  "bench_passes n failed g b \<longleftrightarrow>
     (let target = double_lit (285 / 10)
      in fps_from_intervals (cb_source b) \<ge> target \<and> fps_from_intervals (cb_callback b) \<ge> target \<and>
         consumer_fps n b \<ge> target \<and> failed = 0 \<and> frame_valid g)"

text \<open>The camera probe: 60 frames to warm up, 120 to measure; the exit code and the numbers skipped.\<close>

definition camera_probe :: "vision_world \<Rightarrow> (nat \<Rightarrow> camera_event list) \<Rightarrow> (nat \<Rightarrow> camera_event list \<times> nat) \<Rightarrow> (camera, int \<times> nat) run" where
  "camera_probe vw warm ms =
     andThen (camera_start (camera_drv vw) (default_camera_config\<lparr>cam_width := 1280, cam_height := 720, cam_fps := 30,
       cam_acquisition := Realtime, cam_source_subtype := ''NV12'', cam_output_subtype := ''NV12'',
       force_constant_framerate := True, restore_legacy_control_on_stop := True\<rparr>)) (\<lambda>_.
     andThen (camera_warm_up vw (map warm [0..<60]) 0) (\<lambda>(last_id, first).
     case first of
       None \<Rightarrow> throw (RuntimeError ''Tidak mendapat GPU frame'')
     | Some g \<Rightarrow>
         andThen (bench_loop vw 0 (map ms [0..<120]) last_id no_bench) (\<lambda>b.
         andThen get_state (\<lambda>s.
         andThen (modify (camera_stop (camera_drv vw))) (\<lambda>_.
           ret (if bench_passes 120 (failed_reads_count s) g b then 0 else 2, bench_skipped 120 b))))))"

record scrfd_bench =
  sb_intervals :: "double list"
  sb_prev_id :: nat
  sb_prev_source :: nat
  sb_first_source :: nat
  sb_last_source :: nat
  sb_skipped :: nat
  sb_detected :: nat
  sb_total :: nat
  sb_max_faces :: nat
  sb_top_sum :: double
  sb_top_count :: nat

definition no_scrfd_bench :: "nat \<Rightarrow> scrfd_bench" where
  "no_scrfd_bench last_id = \<lparr>sb_intervals = [], sb_prev_id = last_id, sb_prev_source = 0, sb_first_source = 0, sb_last_source = 0,
     sb_skipped = 0, sb_detected = 0, sb_total = 0, sb_max_faces = 0, sb_top_sum = 0, sb_top_count = 0\<rparr>"

definition scrfd_source_time :: "gpu_frame \<Rightarrow> scrfd_bench \<Rightarrow> scrfd_bench" where
  "scrfd_source_time g b =
     (let t = frame_source_ns g
      in if t = 0 then b
         else let b = b\<lparr>sb_first_source := (if sb_first_source b = 0 then t else sb_first_source b), sb_last_source := t,
                        sb_intervals := (if sb_prev_source b \<noteq> 0 \<and> t > sb_prev_source b
                          then sb_intervals b @ [double_of_nat (t - sb_prev_source b) / double_lit 1000000] else sb_intervals b)\<rparr>
              in b\<lparr>sb_prev_source := t\<rparr>)"

definition scrfd_frame_step :: "gpu_frame \<Rightarrow> face_detection list \<Rightarrow> scrfd_bench \<Rightarrow> scrfd_bench" where
  "scrfd_frame_step g ds b0 =
     (let k = frame_id g;
          b = b0\<lparr>sb_skipped := (if k > sb_prev_id b0 + 1 then sb_skipped b0 + (k - sb_prev_id b0 - 1) else sb_skipped b0), sb_prev_id := k\<rparr>;
          b = scrfd_source_time g b;
          b = (case ds of [] \<Rightarrow> b
               | d # _ \<Rightarrow> b\<lparr>sb_detected := sb_detected b + 1, sb_top_sum := sb_top_sum b + to_double (detection_score d),
                           sb_top_count := sb_top_count b + 1\<rparr>)
      in b\<lparr>sb_total := sb_total b + length ds, sb_max_faces := max (sb_max_faces b) (length ds)\<rparr>)"

definition average_top_score :: "scrfd_bench \<Rightarrow> double" where
  "average_top_score b = (if sb_top_count b = 0 then 0 else sb_top_sum b / double_of_nat (sb_top_count b))"

definition scrfd_source_fps :: "nat \<Rightarrow> scrfd_bench \<Rightarrow> double" where
  "scrfd_source_fps n b =
     (if sb_first_source b \<noteq> 0 \<and> sb_last_source b > sb_first_source b \<and> n > 1
      then double_of_nat (n - 1) / (double_of_nat (sb_last_source b - sb_first_source b) / double_lit 1000000000) else 0)"

definition scrfd_model_path :: "tool_world \<Rightarrow> string list \<Rightarrow> string result" where
  "scrfd_model_path w argv =
     bind_result
       (case argv of
          given # _ \<Rightarrow> Inr given
        | [] \<Rightarrow>
            (let p = find_scrfd w (tw_current w)
             in if p \<noteq> [] then Inr p
                else case tw_executable w of
                       None \<Rightarrow> Inl (RuntimeError ''GetModuleFileNameW gagal saat mencari lokasi executable'')
                     | Some exe \<Rightarrow>
                         (let p = find_scrfd w (parent_path exe)
                          in if p \<noteq> [] then Inr p
                             else Inl (RuntimeError ''det_500m.onnx tidak ditemukan otomatis. Berikan path model sebagai argumen pertama.''))))
       (\<lambda>p. if tw_exists w p then Inr p else Inl (RuntimeError (''Model file tidak ditemukan: '' @ tw_absolute w p)))"

abbreviation "on_bench_camera \<equiv> on_member fst (\<lambda>cam (_, d). (cam, d))"
abbreviation "on_bench_detector \<equiv> on_member snd (\<lambda>d (cam, _). (cam, d))"

fun scrfd_camera_warm_up :: "vision_world \<Rightarrow> camera_event list list \<Rightarrow> nat \<Rightarrow> (camera, nat) run" where
  "scrfd_camera_warm_up vw [] last_id = ret last_id"
| "scrfd_camera_warm_up vw (es # ms) last_id =
     andThen (frame_or_stop ''Timeout saat camera warm-up'' vw es last_id) (\<lambda>g. scrfd_camera_warm_up vw ms (frame_id g))"

fun scrfd_warm_up :: "vision_world \<Rightarrow> scrfd_config \<Rightarrow> learning_model \<Rightarrow> camera_event list list \<Rightarrow> nat \<Rightarrow> (camera \<times> scrfd_runtime, nat) run" where
  "scrfd_warm_up vw c model [] last_id = ret last_id"
| "scrfd_warm_up vw c model (es # ms) last_id =
     andThen (on_bench_camera (frame_or_stop ''Timeout saat SCRFD warm-up'' vw es last_id)) (\<lambda>g.
     andThen (on_bench_detector (detect (detector_dev vw) c model g)) (\<lambda>_. scrfd_warm_up vw c model ms (frame_id g)))"

fun scrfd_loop :: "vision_world \<Rightarrow> scrfd_config \<Rightarrow> learning_model \<Rightarrow> camera_event list list \<Rightarrow> scrfd_bench \<Rightarrow> (camera \<times> scrfd_runtime, scrfd_bench) run" where
  "scrfd_loop vw c model [] b = ret b"
| "scrfd_loop vw c model (es # ms) b =
     andThen (on_bench_camera (frame_or_stop ''Timeout menunggu camera frame untuk SCRFD'' vw es (sb_prev_id b))) (\<lambda>g.
     andThen (on_bench_detector (detect (detector_dev vw) c model g)) (\<lambda>ds. scrfd_loop vw c model ms (scrfd_frame_step g ds b)))"

text \<open>One camera resolution: 30 frames for the camera, 5 for the detector, 60 to measure.\<close>

definition scrfd_candidate :: "vision_world \<Rightarrow> string \<Rightarrow> nat \<Rightarrow> nat \<Rightarrow> string \<Rightarrow> (nat \<Rightarrow> camera_event list) \<Rightarrow>
    (camera \<times> scrfd_runtime, scrfd_bench \<times> nat) run" where
  "scrfd_candidate vw path wd ht label events =
     (let c = default_scrfd_config\<lparr>scrfd_path := path, scrfd_width := 640, scrfd_height := 640,
                score_threshold := single_lit (1 / 2), nms_threshold := single_lit (4 / 10)\<rparr>
      in andThen (on_bench_camera (camera_start (camera_drv vw) (default_camera_config\<lparr>cam_width := wd, cam_height := ht,
             cam_fps := 30, cam_source_subtype := ''NV12'', cam_output_subtype := ''NV12'', force_constant_framerate := True,
             restore_legacy_control_on_stop := True\<rparr>))) (\<lambda>_.
         andThen get_state (\<lambda>(cam, _).
         if mode_width (active_mode cam) \<noteq> wd \<or> mode_height (active_mode cam) \<noteq> ht
         then andThen (on_bench_camera (modify (camera_stop (camera_drv vw)))) (\<lambda>_.
              throw (RuntimeError (''Camera melakukan fallback resolution pada candidate '' @ label)))
         else andThen (lift_result (new_detector vw c)) (\<lambda>model.
              andThen (on_bench_camera (scrfd_camera_warm_up vw (map events [0..<30]) 0)) (\<lambda>last_id.
              andThen (scrfd_warm_up vw c model (map events [30..<35]) last_id) (\<lambda>last_id.
              andThen (scrfd_loop vw c model (map events [35..<95]) (no_scrfd_bench last_id)) (\<lambda>b.
              andThen get_state (\<lambda>(cam, _).
              andThen (on_bench_camera (modify (camera_stop (camera_drv vw)))) (\<lambda>_. ret (b, failed_reads_count cam))))))))))"

section \<open>The reader of the demonstration's database\<close>

text \<open>\<open>check_ta_demo\<close>: the output lines so far, and the connection.\<close>

definition check_path :: "tool_world \<Rightarrow> string result \<Rightarrow> string list \<Rightarrow> string option result" where
  "check_path w fallback argv =
     (case argv of
        [] \<Rightarrow> bind_result fallback (\<lambda>p. Inr (Some p))
      | [k, p] \<Rightarrow> Inr (if k = ''--db'' then Some (tw_absolute w p) else None)
      | _ \<Rightarrow> Inr None)"

definition say :: "string list \<Rightarrow> (string list \<times> connection, unit) run" where
  "say ls = modify (\<lambda>(out, c). (out @ ls, c))"

definition check_lines :: "attendance_record \<times> nat \<Rightarrow> string list" where
  "check_lines = (\<lambda>(r, i). [''['' @ decimal (i + 1) @ ''] event_id    : '' @ record_id r,
     ''    occurred_ms : '' @ int_text (occurred_ms r), ''    attempts    : '' @ int_text (attempts r),
     ''    next_ms     : '' @ int_text (next_attempt_ms r), ''    payload     : '' @ payload r, []])"

definition check_report :: "string \<Rightarrow> string \<Rightarrow> (string list \<times> connection, unit) run" where
  "check_report path sqlite =
     andThen (on_db (due (2 ^ 63 - 1) 100)) (\<lambda>rows.
     andThen (on_db pending_count) (\<lambda>n.
     andThen (say [replicate 72 (CHR ''=''), ''TA DEMO DATABASE'', replicate 72 (CHR ''=''), ''Path           : '' @ path,
       ''SQLite version : '' @ sqlite, ''Pending outbox : '' @ decimal n]) (\<lambda>_.
     andThen (on_db dead_count) (\<lambda>dead_rows.
     andThen (say [''Dead letter    : '' @ decimal dead_rows,
       ''Shown events   : '' @ decimal (length rows) @ (if n > length rows then '' (first 100)'' else []), []]) (\<lambda>_.
       if rows = [] then say [''No pending attendance events.'']
       else say (concat (map check_lines (zip rows [0..<length rows]))))))))"

end
