(* ===== verification/ProbeLaws.thy ===== *)
theory ProbeLaws
  imports Probes DemoLaws
begin

text \<open>
  The numbers of the probes: on the frames of the tracking runtime the ByteTrack probe cannot fail its
  last check and its counters agree with each other; the ArcFace probe accounts for every frame once.
\<close>

section \<open>The tracking runtime as a source of frames\<close>

definition tracking_ok :: "tracking_runtime \<Rightarrow> bool" where
  "tracking_ok s \<longleftrightarrow> camera_ok (tr_camera s) \<and> tracker_ok (tr_tracker s) \<and> tr_last_frame s \<le> current_frame_id (tr_camera s)"

lemma started_tracking_ok:
  assumes "new_tracking_runtime vw c = Inr rt" and "tracking_start vw rt = (Inr u, s)" and "patient (tc_bytetrack c)"
  shows "tracking_ok s"
proof -
  note made = detector_keeps [OF assms(1)]
  obtain x cam where cam: "camera_start (camera_drv vw) (tc_camera (tr_config rt)) (tr_camera rt) = (x, cam)" by fastforce
  have "camera_ok cam" using start_ok [OF cam] made new_camera_ok by simp
  moreover have "s = rt\<lparr>tr_camera := cam, tr_last_frame := 0, tr_tracker := reset_tracker (tr_tracker rt), tr_started := True\<rparr>"
    using assms(2) made cam by (auto simp: tracking_start_def run_simps on_member_def split: sum.splits)
  ultimately show ?thesis using made make_ok [OF assms(3)] by (simp add: tracking_ok_def tracker_reset_ok)
qed

lemma camera_events_ok:
  "camera_ok s \<Longrightarrow> camera_ok (fold (camera_event_step vw) es s) \<and> current_frame_id s \<le> current_frame_id (fold (camera_event_step vw) es s)"
proof (induction es arbitrary: s)
  case (Cons e es)
  have "camera_ok (camera_event_step vw e s) \<and> current_frame_id s \<le> current_frame_id (camera_event_step vw e s)"
    using Cons.prems arrival_ok [OF Cons.prems] arrival_counter wind_down_ok [OF Cons.prems] wind_down_frames(3)
    by (simp add: camera_event_step_def split: camera_event.split)
  with Cons.IH [of "camera_event_step vw e s"] show ?case by auto
qed simp

lemma source_delivers:
  assumes "tracking_ok s" and "fs_wait (tracking_source vw) es s = (Inr (Some f), t)"
  shows "tracking_ok t" and "tr_last_frame s < frame_id (track_gpu_frame f)" and "tr_last_frame t = frame_id (track_gpu_frame f)"
    and "distinct (map result_id (frame_tracks f))" and "\<forall>k \<in> set (frame_tracks f). has_observation k"
proof -
  define u where "u = s\<lparr>tr_camera := fold (camera_event_step vw) es (tr_camera s)\<rparr>"
  have wait: "tracking_wait vw u = (Inr (Some f), t)" using assms(2) by (simp add: tracking_source_def run_simps u_def)
  have cam: "camera_ok (tr_camera u)" "tr_last_frame u \<le> current_frame_id (tr_camera u)" "tracker_ok (tr_tracker u)"
    "tr_last_frame u = tr_last_frame s"
    using assms(1) camera_events_ok [of "tr_camera s" vw es] by (auto simp: u_def tracking_ok_def)
  note made = tracking_delivers [OF wait cam(3)]
  from wait have "tr_last_frame s < frame_id (track_gpu_frame f) \<and> tr_last_frame t = frame_id (track_gpu_frame f) \<and> tracking_ok t"
  proof (cases rule: tracking_wait_cases)
    case (2 g ds ts d tr)
    then show ?thesis using newer_frame [OF 2(2) cam(1,2)] cam made(2) by (simp add: tracking_ok_def)
  qed simp
  then show "tracking_ok t" "tr_last_frame s < frame_id (track_gpu_frame f)" "tr_last_frame t = frame_id (track_gpu_frame f)" by simp_all
  show "distinct (map result_id (frame_tracks f))" "\<forall>k \<in> set (frame_tracks f). has_observation k" using made by blast+
qed

lemma warm_up_ok:
  assumes "tracking_ok s" and "probe_warm_up message (tracking_source vw) ms s = (Inr u, t)"
  shows "tracking_ok t"
  using assms
proof (induction ms arbitrary: s)
  case Nil
  then show ?case by (simp add: probe_warm_up_def ret_def)
next
  case (Cons m ms)
  from Cons.prems(2) obtain f v where v: "fs_wait (tracking_source vw) m s = (Inr (Some f), v)"
    "probe_warm_up message (tracking_source vw) ms v = (Inr u, t)"
    by (auto simp: probe_warm_up_def andThen_Inr_iff ret_def throw_def split: if_splits)
  show ?case by (rule Cons.IH [OF source_delivers(1) [OF Cons.prems(1) v(1)] v(2)])
qed

section \<open>The ByteTrack probe\<close>

lemma count_tracks:
  "bc_missing (foldl (count_track c) s ts) = bc_missing s + length (filter (\<lambda>t. \<not> has_observation t) ts)"
  "bc_outputs (foldl (count_track c) s ts) = bc_outputs s + length ts"
  "bc_recoveries (foldl (count_track c) s ts) = bc_recoveries s + length (filter (low_recovery c) ts)"
  "bc_ids (foldl (count_track c) s ts) = bc_ids s \<union> result_id ` set ts"
  "bc_outputs_of (foldl (count_track c) s ts) k = bc_outputs_of s k + length (filter (\<lambda>t. result_id t = k) ts)"
  "bc_candidates (foldl (count_track c) s ts) = bc_candidates s" "bc_high (foldl (count_track c) s ts) = bc_high s"
  "bc_low (foldl (count_track c) s ts) = bc_low s" "bc_skipped (foldl (count_track c) s ts) = bc_skipped s"
  "bc_previous (foldl (count_track c) s ts) = bc_previous s" "bc_with_tracks (foldl (count_track c) s ts) = bc_with_tracks s"
  "bc_with_recovery (foldl (count_track c) s ts) = bc_with_recovery s"
  by (induction ts arbitrary: s) (auto simp: count_track_def)

lemma distinct_count:
  "distinct (map f ts) \<Longrightarrow> length (filter (\<lambda>t. f t = k) ts) = (if k \<in> f ` set ts then 1 else 0)"
  by (induction ts) auto

lemma high_or_low: "count_high ds h + count_low ds l h \<le> length ds"
proof (induction ds)
  case (Cons d ds)
  have "\<not> (detection_score d > h \<and> detection_score d < h)" using single_less_trans single_less_irrefl by blast
  with Cons show ?case by (auto simp: count_high_def count_low_def)
qed (simp add: count_high_def count_low_def)

definition counts_ok :: "nat \<Rightarrow> bytetrack_counts \<Rightarrow> bool" where
  "counts_ok n s \<longleftrightarrow> bc_missing s = 0 \<and> bc_high s + bc_low s \<le> bc_candidates s \<and> bc_recoveries s \<le> bc_outputs s \<and>
     finite (bc_ids s) \<and> (\<Sum>k \<in> bc_ids s. bc_outputs_of s k) = bc_outputs s \<and> (\<forall>k. bc_outputs_of s k \<le> n) \<and>
     (\<forall>k. k \<notin> bc_ids s \<longrightarrow> bc_outputs_of s k = 0) \<and> bc_with_recovery s \<le> bc_with_tracks s \<and> bc_with_tracks s \<le> n \<and>
     bc_skipped s + n \<le> bc_previous s"


lemma bytetrack_frame_step_ok:
  assumes "counts_ok n s" and "bc_previous s < frame_id (track_gpu_frame f)"
    and "distinct (map result_id (frame_tracks f))" and "\<forall>k \<in> set (frame_tracks f). has_observation k"
  shows "counts_ok (Suc n) (bytetrack_frame_step c f s)" and "bc_previous (bytetrack_frame_step c f s) = frame_id (track_gpu_frame f)"
proof -
  define ts where "ts = frame_tracks f"
  define R where "R = result_id ` set ts"
  let ?b = "\<lambda>k. bc_outputs_of s k + (if k \<in> R then 1 else 0)"
  have card: "card R = length ts" using distinct_card [OF assms(3)] by (simp add: R_def ts_def)
  have kept: "finite (bc_ids s)" "(\<Sum>k \<in> bc_ids s. bc_outputs_of s k) = bc_outputs s" "\<forall>k. k \<notin> bc_ids s \<longrightarrow> bc_outputs_of s k = 0"
    using assms(1) by (simp_all add: counts_ok_def)
  have all: "finite (bc_ids s \<union> R)" using kept(1) by (simp add: R_def)
  have "(\<Sum>k \<in> bc_ids s \<union> R. bc_outputs_of s k) = bc_outputs s"
    using sum.mono_neutral_right [OF all, of "bc_ids s" "bc_outputs_of s"] kept by auto
  moreover have "(\<Sum>k \<in> bc_ids s \<union> R. if k \<in> R then 1 else 0) = card R"
    using sum.inter_restrict [OF all, of "\<lambda>_. 1 :: nat" R] by (simp add: Int_absorb1)
  ultimately have total: "(\<Sum>k \<in> bc_ids s \<union> R. ?b k) = bc_outputs s + length ts" by (simp add: sum.distrib card)
  have outputs: "length (filter (\<lambda>t. result_id t = k) ts) = (if k \<in> R then 1 else 0)" for k
    using distinct_count [OF assms(3)] by (simp add: R_def ts_def)
  have missing: "filter (\<lambda>t. \<not> has_observation t) ts = []" using assms(4) by (simp add: ts_def filter_empty_conv)
  have recovered: "list_ex (low_recovery c) ts \<Longrightarrow> ts \<noteq> []" by auto
  have skipped: "bc_skipped s + skipped_ids (bc_previous s) (frame_id (track_gpu_frame f)) + Suc n \<le> frame_id (track_gpu_frame f)"
    using assms(1,2) by (auto simp: counts_ok_def skipped_ids_def)
  show "counts_ok (Suc n) (bytetrack_frame_step c f s)"
    using assms(1) all total skipped recovered high_or_low [of "frame_detections f" "track_threshold c" "low_threshold c"]
    by (auto simp: counts_ok_def bytetrack_frame_step_def Let_def count_tracks outputs missing R_def [symmetric] ts_def [symmetric]
        le_SucI intro: add_mono)
  show "bc_previous (bytetrack_frame_step c f s) = frame_id (track_gpu_frame f)"
    by (simp add: bytetrack_frame_step_def Let_def count_tracks)
qed

lemma bytetrack_loop_ok:
  assumes "tracking_ok rt" and "counts_ok n s" and "bc_previous s \<le> tr_last_frame rt"
    and "bytetrack_loop c (tracking_source vw) ms s rt = (Inr s', rt')"
  shows "counts_ok (n + length ms) s'"
  using assms
proof (induction ms arbitrary: n s rt)
  case (Cons m ms)
  from Cons.prems(4) obtain f t where f: "fs_wait (tracking_source vw) m rt = (Inr (Some f), t)"
    "bytetrack_loop c (tracking_source vw) ms (bytetrack_frame_step c f s) t = (Inr s', rt')"
    by (auto simp: next_frame_def andThen_Inr_iff ret_def throw_def split: option.splits)
  note new = source_delivers [OF Cons.prems(1) f(1)]
  have "bc_previous s < frame_id (track_gpu_frame f)" using Cons.prems(3) new(2) by simp
  note step = bytetrack_frame_step_ok [OF Cons.prems(2) this new(4,5), where c = c]
  from Cons.IH [OF new(1) step(1) _ f(2)] step(2) new(3) show ?case by simp
qed (simp add: ret_def)


lemma reset_tracking_ok: "tracking_ok s \<Longrightarrow> tracking_ok (tracking_reset s)"
  by (simp add: tracking_ok_def tracking_reset_def tracker_reset_ok)

lemma bytetrack_measure_ok:
  assumes "tracking_ok rt" and "bytetrack_measure c (tracking_source vw) warm ms rt = (Inr s, t)"
  shows "counts_ok (length ms) s"
proof -
  have reset: "fs_reset (tracking_source vw) = tracking_reset" by (simp add: tracking_source_def)
  obtain v where v: "probe_warm_up ''full-pipeline warm-up timeout'' (tracking_source vw) warm rt = (Inr (), v)"
    "bytetrack_loop c (tracking_source vw) ms no_bytetrack_counts (tracking_reset v) = (Inr s, t)"
    using assms(2) by (auto simp: bytetrack_measure_def andThen_Inr_iff modify_def reset)
  have "counts_ok 0 no_bytetrack_counts" by (simp add: counts_ok_def no_bytetrack_counts_def)
  from bytetrack_loop_ok [OF reset_tracking_ok [OF warm_up_ok [OF assms(1) v(1)]] this _ v(2)]
  show ?thesis by (simp add: no_bytetrack_counts_def)
qed

text \<open>
  C40: After a start of the tracking runtime the ByteTrack probe, when it gets its frames, passes its last check:
  every track it counts carries the observation of its frame. Its numbers agree: an identifier is counted at most once per
  frame, the counts of the identifiers add up to the number of outputs, no candidate is both a high and a low one,
  and measured and skipped frames do not exceed the number of the last frame.
\<close>

theorem bytetrack_probe_passes:
  assumes "new_tracking_runtime vw c = Inr rt0" and "tracking_start vw rt0 = (Inr (), rt)" and "patient (tc_bytetrack c)"
    and "bytetrack_measure (tc_bytetrack c) (tracking_source vw) warm ms rt = (Inr s, t)"
  shows "bytetrack_verdict s = Inr () \<and> (\<forall>k. bc_outputs_of s k \<le> length ms) \<and> (\<Sum>k \<in> bc_ids s. bc_outputs_of s k) = bc_outputs s \<and>
    bc_recoveries s \<le> bc_outputs s \<and> bc_high s + bc_low s \<le> bc_candidates s \<and> bc_with_recovery s \<le> bc_with_tracks s \<and>
    bc_with_tracks s \<le> length ms \<and> bc_skipped s + length ms \<le> bc_previous s"
proof -
  have "tracking_ok rt" by (rule started_tracking_ok [OF assms(1-3)])
  from bytetrack_measure_ok [OF this assms(4)] show ?thesis
    unfolding counts_ok_def bytetrack_verdict_def by simp
qed


lemma sample_tracking_started:
  "\<exists>rt0 cam. new_tracking_runtime sample_world (vc_tracking sample_vision) = Inr rt0 \<and>
     tracking_start sample_world rt0 = (Inr (), \<lparr>tr_config = vc_tracking sample_vision, tr_model = sample_scrfd, tr_camera = cam,
       tr_detector = unloaded_scrfd, tr_tracker = reset_tracker (make_tracker usual_tracking), tr_last_frame = 0, tr_started = True\<rparr>) \<and>
     wait_for_frame 0 (on_frame_arrived first_arrival cam) = Inr (Some first_frame)"
proof -
  obtain p where p: "new_attendance_runtime sample_world sample_vision = Inr \<lparr>ar_tracking = \<lparr>tr_config = vc_tracking sample_vision,
     tr_model = sample_scrfd, tr_camera = new_camera 1, tr_detector = unloaded_scrfd, tr_tracker = make_tracker usual_tracking,
     tr_last_frame = 0, tr_started = False\<rparr>, ar_processor = p, ar_started = False\<rparr>"
    using sample_runtime by blast
  then have made: "new_tracking_runtime sample_world (vc_tracking sample_vision) = Inr \<lparr>tr_config = vc_tracking sample_vision,
     tr_model = sample_scrfd, tr_camera = new_camera 1, tr_detector = unloaded_scrfd, tr_tracker = make_tracker usual_tracking,
     tr_last_frame = 0, tr_started = False\<rparr>"
    by (auto simp: new_attendance_runtime_def)
  obtain cam where cam: "camera_start sample_driver default_camera_config (new_camera 1) = (Inr (), cam)" "cam_running cam"
    "current_frame_id cam = 0" "cam_error cam = None" "texture_metadata cam = None"
    using sample_started by blast
  have parts: "tc_camera (vc_tracking sample_vision) = default_camera_config" "camera_drv sample_world = sample_driver"
    by (simp_all add: sample_vision_def sample_world_def)
  have "wait_for_frame 0 (on_frame_arrived first_arrival cam) = Inr (Some first_frame)"
    using cam by (simp add: wait_for_frame_def frame_ready_def on_frame_arrived_def received_def publish_frame_def
        first_arrival_def first_frame_def frame_valid_def)
  then show ?thesis using made cam(1) by (simp add: tracking_start_def run_simps on_member_def parts)
qed

theorem bytetrack_probe_passes_witness:
  "\<exists>s. bytetrack_verdict s = Inr () \<and> bc_previous s = 1 \<and> bc_skipped s + 1 \<le> 1"
proof -
  obtain rt0 cam where start: "new_tracking_runtime sample_world (vc_tracking sample_vision) = Inr rt0"
    "tracking_start sample_world rt0 = (Inr (), \<lparr>tr_config = vc_tracking sample_vision, tr_model = sample_scrfd, tr_camera = cam,
       tr_detector = unloaded_scrfd, tr_tracker = reset_tracker (make_tracker usual_tracking), tr_last_frame = 0, tr_started = True\<rparr>)"
    and first: "wait_for_frame 0 (on_frame_arrived first_arrival cam) = Inr (Some first_frame)"
    using sample_tracking_started by blast
  define rt where "rt = \<lparr>tr_config = vc_tracking sample_vision, tr_model = sample_scrfd, tr_camera = cam,
       tr_detector = unloaded_scrfd, tr_tracker = reset_tracker (make_tracker usual_tracking), tr_last_frame = 0, tr_started = True\<rparr>"
  define f where "f = \<lparr>track_gpu_frame = first_frame, frame_detections = [], frame_tracks = []\<rparr>"
  obtain d where "detect sample_detector (tc_scrfd (vc_tracking sample_vision)) sample_scrfd first_frame unloaded_scrfd = (Inr [], d)"
    using first_detection by blast
  moreover obtain tr where "tracker_update [] (reset_tracker (reset_tracker (make_tracker usual_tracking))) = (Inr [], tr)"
    using idle_update [of "reset_tracker (reset_tracker (make_tracker usual_tracking))"] by (auto simp: reset_tracker_def)
  ultimately obtain u where wait: "fs_wait (tracking_source sample_world) [Arrives first_arrival] (tracking_reset rt) = (Inr (Some f), u)"
    using first by (simp add: tracking_source_def tracking_wait_def tracking_process_def run_simps on_member_def rt_def f_def
        tracking_reset_def camera_event_step_def sample_world_def)
  let ?c = "tc_bytetrack (vc_tracking sample_vision)"
  have run: "bytetrack_measure ?c (tracking_source sample_world) [] [[Arrives first_arrival]] rt = (Inr (bytetrack_frame_step ?c f no_bytetrack_counts), u)"
    using wait by (simp add: bytetrack_measure_def probe_warm_up_def next_frame_def tracking_source_def run_simps)
  have patient: "patient ?c" using usual_patient by (simp add: sample_vision_def)
  have "bc_previous (bytetrack_frame_step ?c f no_bytetrack_counts) = 1"
    by (simp add: bytetrack_frame_step_def Let_def f_def first_frame_def no_bytetrack_counts_def)
  with bytetrack_probe_passes [OF start(1) start(2) [folded rt_def] patient run] show ?thesis by auto
qed


section \<open>The ArcFace probe\<close>

definition arcface_limits :: "arcface_args \<Rightarrow> bool" where
  "arcface_limits a \<longleftrightarrow> 1 \<le> aa_every a \<and> 1 \<le> aa_enroll a \<and> 1 \<le> aa_verify a \<and> 1 \<le> aa_max_frames a"

lemma complete_arcface_limits: "complete_arcface_args w exe b = Inr a \<Longrightarrow> arcface_limits a"
  by (auto simp: complete_arcface_args_def arcface_limits_def Let_def split: if_split_asm)

lemma arcface_args_limits:
  assumes "arcface_args_of w argv = Inr (Some a)"
  shows "arcface_limits a"
proof -
  obtain found where found: "(case found of None \<Rightarrow> Inr None
     | Some b \<Rightarrow> (case tw_executable w of None \<Rightarrow> Inl (RuntimeError ''GetModuleFileNameW failed'')
          | Some exe \<Rightarrow> bind_result (complete_arcface_args w (parent_path exe) b) (\<lambda>a. Inr (Some a)))) = Inr (Some a)"
    using assms unfolding arcface_args_of_def finish_probe_args_def by (auto simp only: bind_result_Inr_iff)
  then obtain exe b where "complete_arcface_args w (parent_path exe) b = Inr a"
    by (cases found) (auto split: option.splits)
  then show ?thesis by (rule complete_arcface_limits)
qed

definition arcface_counts_ok :: "arcface_args \<Rightarrow> arcface_counts \<Rightarrow> bool" where
  "arcface_counts_ok a s \<longleftrightarrow>
     ac_frames s = ac_no_track s + ac_ambiguous s + ac_cadence s + ac_quality s + length (ac_norms s) \<and>
     length (ac_norms s) = ac_enrolled s + length (ac_similarities s) \<and> length (ac_rmse s) = length (ac_norms s) \<and>
     int (ac_enrolled s) \<le> aa_enroll a \<and> (ac_ready s \<longleftrightarrow> int (ac_enrolled s) = aa_enroll a) \<and>
     (ac_similarities s \<noteq> [] \<longrightarrow> ac_ready s) \<and>
     int (length (ac_similarities s)) \<le> aa_verify a \<and> int (ac_frames s) \<le> aa_max_frames a"

lemma arcface_sample_ok:
  assumes "arcface_sample a r s = Inr t"
    and "ac_frames s = Suc (ac_no_track s + ac_ambiguous s + ac_cadence s + ac_quality s + length (ac_norms s))"
    and "length (ac_norms s) = ac_enrolled s + length (ac_similarities s)" and "length (ac_rmse s) = length (ac_norms s)"
    and "int (ac_enrolled s) \<le> aa_enroll a" and "ac_ready s \<longleftrightarrow> int (ac_enrolled s) = aa_enroll a"
    and "ac_similarities s \<noteq> [] \<longrightarrow> ac_ready s" and "int (length (ac_similarities s)) < aa_verify a" and "int (ac_frames s) \<le> aa_max_frames a"
  shows "arcface_counts_ok a t"
proof (cases "ac_ready s")
  case True
  then have "t = s\<lparr>ac_norms := ac_norms s @ [to_double (raw_embedding_norm r)], ac_rmse := ac_rmse s @ [to_double (rmse (face_transform r))],
      ac_similarities := ac_similarities s @ [to_double (cosine_similarity (ac_reference s) (face_embedding r))]\<rparr>"
    using assms(1) by (simp add: arcface_sample_def Let_def)
  then show ?thesis using assms(2-) True by (simp add: arcface_counts_ok_def)
next
  case False
  define u where "u = s\<lparr>ac_norms := ac_norms s @ [to_double (raw_embedding_norm r)],
      ac_rmse := ac_rmse s @ [to_double (rmse (face_transform r))], ac_sum := add_sample (face_embedding r) (ac_sum s),
      ac_enrolled := ac_enrolled s + 1\<rparr>"
  have "(if int (ac_enrolled u) = aa_enroll a
      then bind_result (finalize_reference (ac_sum u) (int (ac_enrolled u))) (\<lambda>reference. Inr (u\<lparr>ac_reference := reference, ac_ready := True\<rparr>))
      else Inr u) = Inr t"
    using assms(1) False by (auto simp: arcface_sample_def Let_def u_def split: if_splits)
  then consider x where "int (ac_enrolled u) = aa_enroll a" "t = u\<lparr>ac_reference := x, ac_ready := True\<rparr>"
    | "int (ac_enrolled u) \<noteq> aa_enroll a" "t = u"
    by (auto split: if_splits)
  then show ?thesis using assms(2-) False by cases (auto simp: arcface_counts_ok_def u_def)
qed

lemma arcface_frame_step_ok:
  assumes "arcface_counts_ok a s" and "arcface_frame_step a ev f s = Inr t"
    and "int (length (ac_similarities s)) < aa_verify a" and "int (ac_frames s) < aa_max_frames a"
  shows "arcface_counts_ok a t"
proof -
  define u where "u = s\<lparr>ac_frames := ac_frames s + 1, ac_camera_skips := ac_camera_skips s + skipped_ids (ac_previous s) (frame_id (track_gpu_frame f)),
      ac_previous := frame_id (track_gpu_frame f)\<rparr>"
  note step = assms(2) [unfolded arcface_frame_step_def Let_def, folded u_def]
  consider "t = u\<lparr>ac_no_track := ac_no_track u + 1\<rparr>" | "t = u\<lparr>ac_ambiguous := ac_ambiguous u + 1\<rparr>"
    | "t = u\<lparr>ac_cadence := ac_cadence u + 1\<rparr>" | "t = u\<lparr>ac_quality := ac_quality u + 1\<rparr>"
    | k r where "arcface_sample a r (u\<lparr>ac_tracks := insert k (ac_tracks u)\<rparr>) = Inr t"
    using step by (auto simp add: u_def split: list.splits if_splits)
  then show ?thesis
  proof cases
    case 5
    show ?thesis by (rule arcface_sample_ok [OF 5]) (use assms in \<open>auto simp: arcface_counts_ok_def u_def\<close>)
  qed (use assms(1,3,4) in \<open>auto simp: arcface_counts_ok_def u_def\<close>)
qed

lemma arcface_loop_ok:
  assumes "arcface_counts_ok a s" and "arcface_loop a src ms s v = (Inr (Some t), v')"
  shows "arcface_counts_ok a t \<and> (int (length (ac_similarities t)) = aa_verify a \<or> int (ac_frames t) = aa_max_frames a)"
  using assms
proof (induction ms arbitrary: s v)
  case Nil
  then show ?case by (auto simp: ret_def arcface_counts_ok_def split: if_splits)
next
  case (Cons m ms)
  obtain x ev where m: "m = (x, ev)" by (cases m)
  show ?case
  proof (cases "int (length (ac_similarities s)) < aa_verify a \<and> int (ac_frames s) < aa_max_frames a")
    case True
    then obtain f s' v1 where "arcface_frame_step a ev f s = Inr s'" "arcface_loop a src ms s' v1 = (Inr (Some t), v')"
      using Cons.prems(2) by (auto simp: m andThen_Inr_iff lift_result_def split: sum.splits)
    with Cons.IH arcface_frame_step_ok [OF Cons.prems(1)] True show ?thesis by blast
  next
    case False
    with Cons.prems show ?thesis by (auto simp: m ret_def arcface_counts_ok_def)
  qed
qed

text \<open>
  With the options the ArcFace probe accepts, a finished measurement has put every frame into exactly one of the
  groups no track, several tracks, off the cadence, poor and evaluated; every evaluated frame went into the reference
  or into one comparison with it; nothing is compared before the reference has all its samples; and the loop ended
  because one of its limits is reached exactly. The exit code tells whether anything was compared.
\<close>

theorem arcface_probe_accounts:
  assumes "arcface_args_of w argv = Inr (Some a)" and "arcface_probe a src warm ms v = (Inr (Some (code, s)), t)"
  shows "ac_frames s = ac_no_track s + ac_ambiguous s + ac_cadence s + ac_quality s + length (ac_norms s) \<and>
    length (ac_norms s) = ac_enrolled s + length (ac_similarities s) \<and> length (ac_rmse s) = length (ac_norms s) \<and>
    int (ac_enrolled s) \<le> aa_enroll a \<and> (ac_similarities s \<noteq> [] \<longrightarrow> int (ac_enrolled s) = aa_enroll a) \<and>
    int (length (ac_similarities s)) \<le> aa_verify a \<and> int (ac_frames s) \<le> aa_max_frames a \<and>
    (int (length (ac_similarities s)) = aa_verify a \<or> int (ac_frames s) = aa_max_frames a) \<and>
    (code = 0 \<longleftrightarrow> ac_similarities s \<noteq> [])"
proof -
  have start: "arcface_counts_ok a no_arcface_counts"
    using arcface_args_limits [OF assms(1)] by (auto simp: arcface_counts_ok_def no_arcface_counts_def arcface_limits_def)
  obtain v1 where loop: "arcface_loop a src ms no_arcface_counts v1 = (Inr (Some s), t)" and code: "code = arcface_verdict s"
    using assms(2) by (auto simp: arcface_probe_def andThen_Inr_iff ret_def)
  from arcface_loop_ok [OF start loop] show ?thesis unfolding arcface_counts_ok_def code arcface_verdict_def by auto
qed


definition probe_world :: tool_world where
  "probe_world = \<lparr>tw_time = 0, tw_process = 7, tw_absolute = id, tw_exists = (\<lambda>_. True), tw_regular = (\<lambda>_. True),
     tw_current = ''C:'', tw_executable = Some ''p.exe''\<rparr>"

definition probe_argv :: "string list" where
  "probe_argv = [''--scrfd'', ''s'', ''--arcface'', ''a'', ''--every'', ''1'', ''--enroll'', ''1'', ''--verify'', ''1'', ''--max-frames'', ''9'']"

definition probe_args :: arcface_args where
  "probe_args = \<lparr>aa_scrfd = ''s'', aa_arcface = ''a'', aa_min_score = single_lit (1 / 2), aa_every = 1, aa_enroll = 1, aa_verify = 1, aa_max_frames = 9\<rparr>"

lemma probe_arguments: "arcface_args_of probe_world probe_argv = Inr (Some probe_args)"
  by code_simp

lemma probe_score: "\<not> detection_score sample_face < aa_min_score probe_args"
  by code_simp

lemma listed_warm_up:
  "probe_warm_up e listed_source (map (\<lambda>_. ()) [0..<n]) (replicate n f @ fs) = (Inr (), fs)"
proof (induction n)
  case (Suc n)
  have "map (\<lambda>_. ()) [0..<Suc n] = () # map (\<lambda>_. ()) [0..<n]" by (simp add: map_replicate_const replicate_append_same)
  with Suc show ?case by (simp add: probe_warm_up_def run_simps listed_source_def)
qed (simp add: probe_warm_up_def ret_def)

text \<open>Two frames with the same face: the first gives the reference, the second is compared with it.\<close>

theorem arcface_probe_accounts_witness:
  "\<exists>s. arcface_probe probe_args listed_source (\<lambda>_. ()) (replicate 2 ((), sample_evaluators 1)) (replicate (warm_up_frames + 2) demo_frame) =
      (Inr (Some (0, s)), []) \<and> ac_frames s = 2 \<and> ac_enrolled s = 1 \<and> length (ac_similarities s) = 1"
proof -
  have one: "evaluate_one (sample_evaluators 1) g d = Inr \<lparr>face_embedding = [1, 0], raw_embedding_norm = 1, face_transform = sample_alignment\<rparr>" for g d
    by (simp add: evaluate_one_def sample_evaluators_def)
  have total: "add_sample [1, 0] no_sum = [0 + to_double 1, 0 + to_double 0]"
    by (simp add: add_sample_def no_sum_def embedding_size_def numeral_nat)
  have args: "aa_every probe_args = 1" "aa_enroll probe_args = 1" "aa_verify probe_args = 1" "aa_max_frames probe_args = 9"
    by (simp_all add: probe_args_def)
  have frame: "frame_tracks demo_frame = [sample_track]" "has_observation sample_track" "observation sample_track = sample_face"
    by (simp_all add: demo_frame_def sample_track_def)
  note rules = arcface_frame_step_def arcface_sample_def Let_def frame one probe_score args
  obtain s1 where s1: "arcface_frame_step probe_args (sample_evaluators 1) demo_frame no_arcface_counts = Inr s1"
    "ac_frames s1 = 1" "ac_enrolled s1 = 1" "ac_ready s1" "ac_similarities s1 = []"
    using total demo_evaluations(2,3) by (simp add: rules no_arcface_counts_def finalize_reference_def)
  obtain s2 where s2: "arcface_frame_step probe_args (sample_evaluators 1) demo_frame s1 = Inr s2"
    "ac_frames s2 = 2" "ac_enrolled s2 = 1" "length (ac_similarities s2) = 1"
    using s1 by (simp add: rules)
  have some: "ac_similarities s2 \<noteq> []" using s2(4) by auto
  have warm: "probe_warm_up e listed_source (map (\<lambda>_. ()) [0..<warm_up_frames]) (replicate (warm_up_frames + 2) demo_frame) =
      (Inr (), [demo_frame, demo_frame])" for e
  proof -
    have "replicate (warm_up_frames + 2) demo_frame = replicate warm_up_frames demo_frame @ [demo_frame, demo_frame]"
      by (simp only: replicate_add) (simp add: numeral_2_eq_2)
    then show ?thesis using listed_warm_up by metis
  qed
  have start: "ac_frames no_arcface_counts = 0" "ac_similarities no_arcface_counts = []" by (simp_all add: no_arcface_counts_def)
  have "arcface_loop probe_args listed_source (replicate 2 ((), sample_evaluators 1)) no_arcface_counts [demo_frame, demo_frame] = (Inr (Some s2), [])"
    using s1 s2 start by (simp add: numeral_2_eq_2 args run_simps next_frame_def listed_source_def)
  then have run: "arcface_probe probe_args listed_source (\<lambda>_. ()) (replicate 2 ((), sample_evaluators 1)) (replicate (warm_up_frames + 2) demo_frame) =
      (Inr (Some (0, s2)), [])"
    using warm some by (simp add: arcface_probe_def run_simps arcface_verdict_def listed_source_def del: arcface_loop.simps)
  from arcface_probe_accounts [OF probe_arguments run] run s2 show ?thesis by blast
qed

end
